(* ===== verification/Go_Prelude.thy ===== *)
theory Go_Prelude
  imports Main "HOL-Library.Word" "HOL-Library.AList"
begin

text \<open>
  What every component of the model shares: the Go types the sources use (instants, durations,
  fixed-width counters, strings, maps) and the generic facts about them.

  \<^item> An instant (\<open>time.Time\<close>) is the number of nanoseconds since Go's zero time, so that
    \<open>IsZero\<close> is equality with 0 and \<open>Before\<close>, \<open>After\<close> are the order of the integers. There is
    one clock: monotonic and wall readings are not told apart.
  \<^item> A duration (\<open>time.Duration\<close>) is a number of nanoseconds; \<open>Sub\<close> saturates at the bounds of
    a 64-bit integer as the library does.
  \<^item> A Go map is an association list with distinct keys. The order of the list is the order in
    which a \<open>range\<close> loop meets the entries, which Go leaves open: what is proved for every list
    holds for every iteration order.
  \<^item> Pointer identity, where the code compares pointers, is a natural number carried by the
    object.
\<close>

section \<open>Collections of facts\<close>

named_theorems go_defs \<open>definitions of small operations that proofs unfold\<close>
named_theorems go_map \<open>lookups after an operation on a map\<close>

section \<open>Time\<close>

type_synonym time = int
type_synonym duration = int

abbreviation millisecond :: duration where "millisecond \<equiv> 1000000"
abbreviation second :: duration where "second \<equiv> 1000000000"
abbreviation minute :: duration where "minute \<equiv> 60000000000"
abbreviation hour :: duration where "hour \<equiv> 3600000000000"
abbreviation day :: duration where "day \<equiv> 86400000000000"

abbreviation (input) zero_time :: time where "zero_time \<equiv> 0"

definition max_int64 :: int where
  "max_int64 = 9223372036854775807"

definition min_int64 :: int where
  "min_int64 = - 9223372036854775808"

text \<open>\<open>t.Sub(u)\<close>: saturating difference.\<close>

definition time_sub :: "time \<Rightarrow> time \<Rightarrow> duration" where
  "time_sub t u = max min_int64 (min max_int64 (t - u))"

text \<open>\<open>t.Unix()\<close>, \<open>t.UnixMilli()\<close> and \<open>t.Nanosecond()\<close>: the Unix epoch is 62135596800 seconds
  after the zero time.\<close>

definition unix_seconds :: "time \<Rightarrow> int" where
  "unix_seconds t = t div second - 62135596800"

definition unix_milli :: "time \<Rightarrow> int" where
  "unix_milli t = t div millisecond - 62135596800000"

definition nanosecond_of :: "time \<Rightarrow> int" where
  "nanosecond_of t = t mod second"

lemma time_sub_ge_iff:
  "min_int64 < d \<Longrightarrow> d \<le> max_int64 \<Longrightarrow> d \<le> time_sub t u \<longleftrightarrow> d \<le> t - u"
  by (auto simp: time_sub_def)

lemma time_sub_exact:
  "min_int64 \<le> t - u \<Longrightarrow> t - u \<le> max_int64 \<Longrightarrow> time_sub t u = t - u"
  by (simp add: time_sub_def)

lemma time_sub_pos_iff [simp]: "0 < time_sub t u \<longleftrightarrow> u < t"
  by (auto simp: time_sub_def min_int64_def max_int64_def min_def max_def)

lemma time_sub_neg_iff [simp]: "time_sub t u < 0 \<longleftrightarrow> t < u"
  by (auto simp: time_sub_def min_int64_def max_int64_def min_def max_def)

lemma time_sub_zero_iff [simp]: "time_sub t u = 0 \<longleftrightarrow> t = u"
  by (auto simp: time_sub_def min_int64_def max_int64_def min_def max_def)

lemma time_sub_mono: "t \<le> t' \<Longrightarrow> time_sub t u \<le> time_sub t' u"
  by (auto simp: time_sub_def)

section \<open>Fixed-width counters\<close>

type_synonym u16 = "16 word"
type_synonym u64 = "64 word"

text \<open>A counter that stops at the largest value of its width instead of wrapping; \<open>- 1\<close> is
  the all-ones word.\<close>

definition sat_inc :: "'a::len word \<Rightarrow> 'a word" where
  "sat_inc c = (if c < - 1 then c + 1 else c)"

lemma word_Suc_nonzero: "c < - 1 \<Longrightarrow> c + 1 \<noteq> 0"
  for c :: "'a::len word"
  by (metis add.commute add_eq_0_iff less_irrefl)

lemma unat_word_Suc: "c < - 1 \<Longrightarrow> unat (c + 1) = Suc (unat c)"
  for c :: "'a::len word"
  by (metis word_Suc_nonzero add.commute unatSuc)

lemma sat_inc_max [simp]: "sat_inc (- 1) = - 1"
  by (simp add: sat_inc_def)

lemma unat_sat_inc: "c < - 1 \<Longrightarrow> unat (sat_inc c) = Suc (unat c)"
  for c :: "'a::len word"
  by (simp add: sat_inc_def unat_word_Suc)

lemma sat_inc_mono: "c \<le> sat_inc c"
  by (simp add: sat_inc_def word_le_nat_alt unat_word_Suc)

lemma sat_inc_neq: "c < - 1 \<Longrightarrow> sat_inc c \<noteq> c"
  by (simp add: sat_inc_def)

lemma sat_inc_nonzero [simp]: "sat_inc c \<noteq> 0"
  by (cases "c < - 1") (auto simp: sat_inc_def word_Suc_nonzero word_gt_0)

section \<open>Maps\<close>

type_synonym ('k, 'v) gomap = "('k \<times> 'v) list"

definition map_wf :: "('k, 'v) gomap \<Rightarrow> bool" where
  "map_wf m \<longleftrightarrow> distinct (map fst m)"

definition map_put :: "'k \<Rightarrow> 'v \<Rightarrow> ('k, 'v) gomap \<Rightarrow> ('k, 'v) gomap" where
  "map_put k v m = AList.update k v m"

definition map_del :: "'k \<Rightarrow> ('k, 'v) gomap \<Rightarrow> ('k, 'v) gomap" where
  "map_del k m = AList.delete k m"

text \<open>A \<open>range\<close> loop that deletes the entries failing a test, and one that rewrites the entries.\<close>

definition map_keep :: "('k \<Rightarrow> 'v \<Rightarrow> bool) \<Rightarrow> ('k, 'v) gomap \<Rightarrow> ('k, 'v) gomap" where
  "map_keep P m = filter (\<lambda>(k, v). P k v) m"

definition map_vals :: "('k \<Rightarrow> 'v \<Rightarrow> 'w) \<Rightarrow> ('k, 'v) gomap \<Rightarrow> ('k, 'w) gomap" where
  "map_vals f m = map (\<lambda>(k, v). (k, f k v)) m"

lemma map_wf_Nil [simp]: "map_wf []"
  by (simp add: map_wf_def)

lemma map_wf_put [simp]: "map_wf m \<Longrightarrow> map_wf (map_put k v m)"
  by (simp add: map_wf_def map_put_def distinct_update)

lemma map_wf_del [simp]: "map_wf m \<Longrightarrow> map_wf (map_del k m)"
  by (simp add: map_wf_def map_del_def distinct_delete)

lemma map_wf_keep [simp]: "map_wf m \<Longrightarrow> map_wf (map_keep P m)"
  by (simp add: map_wf_def map_keep_def distinct_map_filter)

lemma map_wf_vals [simp]: "map_wf (map_vals f m) = map_wf m"
  by (simp add: map_wf_def map_vals_def comp_def case_prod_unfold)

lemma lookup_put [go_map]: "map_of (map_put k v m) k' = (if k' = k then Some v else map_of m k')"
  by (simp add: map_put_def update_conv')

lemma lookup_del [go_map]: "map_of (map_del k m) k' = (if k' = k then None else map_of m k')"
  by (simp add: map_del_def delete_conv')

lemma lookup_keep [go_map]:
  "map_wf m \<Longrightarrow> map_of (map_keep P m) k =
     (case map_of m k of None \<Rightarrow> None | Some v \<Rightarrow> if P k v then Some v else None)"
  by (induction m) (auto simp: map_wf_def map_keep_def map_of_eq_None_iff split: option.splits)

lemma lookup_vals [go_map]: "map_of (map_vals f m) k = map_option (f k) (map_of m k)"
  by (induction m) (auto simp: map_vals_def)

lemma map_wf_lookup_iff: "map_wf m \<Longrightarrow> map_of m k = Some v \<longleftrightarrow> (k, v) \<in> set m"
  by (simp add: map_wf_def)

lemma length_put: "length (map_put k v m) = (if k \<in> fst ` set m then length m else Suc (length m))"
  by (induction m) (auto simp: map_put_def)

lemma in_keys_iff: "k \<in> fst ` set m \<longleftrightarrow> map_of m k \<noteq> None"
  by (simp add: map_of_eq_None_iff)

lemma length_del_le [simp]: "length (map_del k m) \<le> length m"
  by (simp add: map_del_def length_delete_le)

lemma length_keep_le [simp]: "length (map_keep P m) \<le> length m"
  by (simp add: map_keep_def)

lemma length_vals [simp]: "length (map_vals f m) = length m"
  by (simp add: map_vals_def)

lemma length_del_less:
  assumes "k \<in> fst ` set m"
  shows "length (map_del k m) < length m"
  using assms by (induction m) (auto simp: map_del_def le_imp_less_Suc length_delete_le)

lemma set_keep [simp]: "set (map_keep P m) = {(k, v) \<in> set m. P k v}"
  by (auto simp: map_keep_def)

section \<open>Strings\<close>

text \<open>
  A Go string is its bytes. \<open>strings.TrimSpace\<close> removes the runes with the Unicode property
  White\_Space at both ends; \<open>space_runes\<close> lists their UTF-8 encodings.
\<close>

definition space_runes :: "string list" where
  "space_runes =
     [[CHR 0x09], [CHR 0x0A], [CHR 0x0B], [CHR 0x0C], [CHR 0x0D], [CHR 0x20],
      [CHR 0xC2, CHR 0x85], [CHR 0xC2, CHR 0xA0], [CHR 0xE1, CHR 0x9A, CHR 0x80],
      [CHR 0xE2, CHR 0x80, CHR 0x80], [CHR 0xE2, CHR 0x80, CHR 0x81],
      [CHR 0xE2, CHR 0x80, CHR 0x82], [CHR 0xE2, CHR 0x80, CHR 0x83],
      [CHR 0xE2, CHR 0x80, CHR 0x84], [CHR 0xE2, CHR 0x80, CHR 0x85],
      [CHR 0xE2, CHR 0x80, CHR 0x86], [CHR 0xE2, CHR 0x80, CHR 0x87],
      [CHR 0xE2, CHR 0x80, CHR 0x88], [CHR 0xE2, CHR 0x80, CHR 0x89],
      [CHR 0xE2, CHR 0x80, CHR 0x8A], [CHR 0xE2, CHR 0x80, CHR 0xA8],
      [CHR 0xE2, CHR 0x80, CHR 0xA9], [CHR 0xE2, CHR 0x80, CHR 0xAF],
      [CHR 0xE2, CHR 0x81, CHR 0x9F], [CHR 0xE3, CHR 0x80, CHR 0x80]]"

text \<open>Strip leading words of a list, as often as one matches.\<close>

function strip_front :: "string list \<Rightarrow> string \<Rightarrow> string" where
  "strip_front ws s =
     (case find (\<lambda>w. w \<noteq> [] \<and> take (length w) s = w) ws of
        None \<Rightarrow> s
      | Some w \<Rightarrow> strip_front ws (drop (length w) s))"
  by pat_completeness auto
termination
proof (relation "measure (\<lambda>(ws, s). length s)", goal_cases)
  case 1
  show ?case by simp
next
  case (2 ws s w)
  from find_Some_iff [THEN iffD1, OF 2] have "w \<noteq> []" and "take (length w) s = w"
    by auto
  then have "w \<noteq> []" and "s \<noteq> []"
    by auto
  then show ?case by simp
qed

declare strip_front.simps [simp del]

definition trim_space :: "string \<Rightarrow> string" where
  "trim_space s = rev (strip_front (map rev space_runes) (rev (strip_front space_runes s)))"

lemma strip_front_Nil [simp]: "strip_front ws [] = []"
  by (subst strip_front.simps) (auto split: option.split simp: find_Some_iff)

lemma strip_front_idem: "strip_front ws (strip_front ws s) = strip_front ws s"
proof (induction ws s rule: strip_front.induct)
  case (1 ws s)
  show ?case
  proof (cases "find (\<lambda>w. w \<noteq> [] \<and> take (length w) s = w) ws")
    case None
    then show ?thesis by (simp add: strip_front.simps [of ws s])
  next
    case (Some w)
    with "1.IH" have "strip_front ws (strip_front ws (drop (length w) s)) = strip_front ws (drop (length w) s)"
      by simp
    with Some show ?thesis by (simp add: strip_front.simps [of ws s])
  qed
qed

text \<open>\<open>strings.HasPrefix\<close>, \<open>strings.HasSuffix\<close> and \<open>strings.Contains\<close>.\<close>

definition has_prefix :: "string \<Rightarrow> string \<Rightarrow> bool" where
  "has_prefix s p \<longleftrightarrow> take (length p) s = p"

definition has_suffix :: "string \<Rightarrow> string \<Rightarrow> bool" where
  "has_suffix s p \<longleftrightarrow> length p \<le> length s \<and> drop (length s - length p) s = p"

fun contains_str :: "string \<Rightarrow> string \<Rightarrow> bool" where
  "contains_str [] p = (p = [])"
| "contains_str (c # s) p = (has_prefix (c # s) p \<or> contains_str s p)"

text \<open>The classes of ASCII characters the sources test byte by byte.\<close>

definition is_lower :: "char \<Rightarrow> bool" where
  "is_lower c \<longleftrightarrow> 97 \<le> (of_char c :: nat) \<and> (of_char c :: nat) \<le> 122"

definition is_upper :: "char \<Rightarrow> bool" where
  "is_upper c \<longleftrightarrow> 65 \<le> (of_char c :: nat) \<and> (of_char c :: nat) \<le> 90"

definition is_digit :: "char \<Rightarrow> bool" where
  "is_digit c \<longleftrightarrow> 48 \<le> (of_char c :: nat) \<and> (of_char c :: nat) \<le> 57"

definition is_alnum :: "char \<Rightarrow> bool" where
  "is_alnum c \<longleftrightarrow> is_lower c \<or> is_upper c \<or> is_digit c"

definition to_lower :: "char \<Rightarrow> char" where
  "to_lower c = (if is_upper c then char_of ((of_char c :: nat) + 32) else c)"

definition to_upper :: "char \<Rightarrow> char" where
  "to_upper c = (if is_lower c then char_of ((of_char c :: nat) - 32) else c)"

text \<open>\<open>strings.ReplaceAll\<close> for a non-empty old string: from the left, without overlap.\<close>

function replace_all :: "string \<Rightarrow> string \<Rightarrow> string \<Rightarrow> string" where
  "replace_all old new [] = []"
| "replace_all old new (c # s) =
     (if old \<noteq> [] \<and> has_prefix (c # s) old then new @ replace_all old new (drop (length old) (c # s))
      else c # replace_all old new s)"
  by pat_completeness auto
termination
  by (relation "measure (\<lambda>(old, new, s). length s)") auto

section \<open>Safety of interleaved operations\<close>

text \<open>
  A component that several requests use at once is a step relation, one rule per critical
  section. Its contract is an invariant that holds at the start and that every step keeps; what
  follows for whole runs is proved here once.
\<close>

locale safe_system =
  fixes start :: "'s \<Rightarrow> bool"
    and step :: "'s \<Rightarrow> 's \<Rightarrow> bool"
    and inv :: "'s \<Rightarrow> bool"
  assumes start_inv: "start s \<Longrightarrow> inv s"
    and step_inv: "step s t \<Longrightarrow> inv s \<Longrightarrow> inv t"
begin

lemma steps_inv: "step\<^sup>*\<^sup>* s t \<Longrightarrow> inv s \<Longrightarrow> inv t"
  by (induction rule: rtranclp_induct) (auto intro: step_inv)

lemma run_inv: "start s \<Longrightarrow> step\<^sup>*\<^sup>* s t \<Longrightarrow> inv t"
  by (blast intro: start_inv steps_inv)

text \<open>A quantity that every step from a good state keeps below a bound stays below it.\<close>

lemma run_bounded:
  assumes "start s" and "step\<^sup>*\<^sup>* s t" and "f s \<le> (b::nat)"
    and keep: "\<And>u v. step u v \<Longrightarrow> inv u \<Longrightarrow> f u \<le> b \<Longrightarrow> f v \<le> b"
  shows "f t \<le> b"
  using assms(2)
proof (induction rule: rtranclp_induct)
  case base
  show ?case by (rule assms(3))
next
  case (step u v)
  have "inv u" using assms(1) step.hyps(1) by (rule run_inv)
  with step show ?case by (blast intro: keep)
qed

end

end
