(* ===== verification/Go_Float.thy ===== *)
theory Go_Float
  imports Complex_Main Go_Prelude
begin

text \<open>
  Go's \<open>float64\<close>: a finite value, an infinity or not a number. The comparisons are those of
  IEEE 754 (every comparison with NaN is false); a sum, product or quotient of finite numbers is
  the exact rational result rounded to the nearest double, ties to even, and an infinity when it
  is too large. The two zeros are one value: no code modelled here tells them apart.
\<close>

section \<open>Values and comparisons\<close>

datatype float64 = Fin rat | PosInf | NegInf | NaN

fun f_lt :: "float64 \<Rightarrow> float64 \<Rightarrow> bool" where
  "f_lt NaN _ = False"
| "f_lt _ NaN = False"
| "f_lt (Fin a) (Fin b) = (a < b)"
| "f_lt NegInf b = (b \<noteq> NegInf)"
| "f_lt (Fin _) b = (b = PosInf)"
| "f_lt PosInf _ = False"

fun f_eq :: "float64 \<Rightarrow> float64 \<Rightarrow> bool" where
  "f_eq NaN _ = False"
| "f_eq a b = (a = b)"

definition f_le :: "float64 \<Rightarrow> float64 \<Rightarrow> bool" where
  "f_le a b \<longleftrightarrow> f_lt a b \<or> f_eq a b"

definition is_nan :: "float64 \<Rightarrow> bool" where
  "is_nan a \<longleftrightarrow> a = NaN"

definition is_inf :: "float64 \<Rightarrow> bool" where
  "is_inf a \<longleftrightarrow> a = PosInf \<or> a = NegInf"

section \<open>Rounding\<close>

text \<open>The number of binary digits, and powers of two with an integer exponent.\<close>

fun bit_length :: "nat \<Rightarrow> nat" where
  "bit_length n = (if n = 0 then 0 else Suc (bit_length (n div 2)))"

declare bit_length.simps [simp del]

definition pow2 :: "int \<Rightarrow> rat" where
  "pow2 k = (if 0 \<le> k then 2 ^ nat k else 1 / 2 ^ nat (- k))"

text \<open>The exponent of a positive number: the largest \<open>k\<close> with \<open>pow2 k \<le> a\<close>.\<close>

definition exponent :: "rat \<Rightarrow> int" where
  "exponent a =
     (if 1 \<le> a then int (bit_length (nat \<lfloor>a\<rfloor>)) - 1
      else - int (bit_length (nat \<lceil>1 / a\<rceil> - 1)))"

definition round_even :: "rat \<Rightarrow> int" where
  "round_even x =
     (let f = \<lfloor>x\<rfloor>; d = x - of_int f
      in if d < 1 / 2 then f else if 1 / 2 < d then f + 1 else if even f then f else f + 1)"

text \<open>53 significant digits down to the exponent \<open>-1022\<close>, fewer below it.\<close>

definition round64 :: "rat \<Rightarrow> float64" where
  "round64 q =
     (if q = 0 then Fin 0
      else
        (let a = \<bar>q\<bar>; u = pow2 (max (- 1022) (exponent a) - 52); v = of_int (round_even (a / u)) * u
         in if pow2 1024 \<le> v then (if 0 < q then PosInf else NegInf)
            else Fin (if 0 < q then v else - v)))"

section \<open>Arithmetic\<close>

fun f_add :: "float64 \<Rightarrow> float64 \<Rightarrow> float64" where
  "f_add NaN _ = NaN"
| "f_add _ NaN = NaN"
| "f_add (Fin a) (Fin b) = round64 (a + b)"
| "f_add PosInf b = (if b = NegInf then NaN else PosInf)"
| "f_add NegInf b = (if b = PosInf then NaN else NegInf)"
| "f_add (Fin _) b = b"

text \<open>The quotient by a positive finite number, the only one the code forms.\<close>

fun f_div_pos :: "float64 \<Rightarrow> rat \<Rightarrow> float64" where
  "f_div_pos (Fin a) b = round64 (a / b)"
| "f_div_pos c b = c"

text \<open>The product of finite numbers.\<close>

fun f_mul :: "float64 \<Rightarrow> float64 \<Rightarrow> float64" where
  "f_mul (Fin a) (Fin b) = round64 (a * b)"
| "f_mul NaN _ = NaN"
| "f_mul _ NaN = NaN"
| "f_mul (Fin a) c = (if a = 0 then NaN else if (0 < a) = (c = PosInf) then PosInf else NegInf)"
| "f_mul c (Fin a) = (if a = 0 then NaN else if (0 < a) = (c = PosInf) then PosInf else NegInf)"
| "f_mul c d = (if c = d then PosInf else NegInf)"

section \<open>Facts\<close>

lemma f_lt_simps [simp]: "\<not> f_lt a NaN" "\<not> f_lt NaN a" "\<not> f_lt a NegInf" "\<not> f_lt PosInf a"
  by (cases a; simp)+

lemma f_le_Fin [simp]: "f_le (Fin a) (Fin b) \<longleftrightarrow> a \<le> b"
  by (auto simp: f_le_def)

lemma f_lt_irrefl [simp]: "\<not> f_lt a a"
  by (cases a) auto

lemma f_lt_trans: "f_lt a b \<Longrightarrow> f_lt b c \<Longrightarrow> f_lt a c"
  by (cases a; cases b; cases c) auto

lemma f_le_refl: "\<not> is_nan a \<Longrightarrow> f_le a a"
  by (cases a) (auto simp: f_le_def is_nan_def)

lemma f_le_trans: "f_le a b \<Longrightarrow> f_le b c \<Longrightarrow> f_le a c"
  by (cases a; cases b; cases c) (auto simp: f_le_def)

lemma f_not_le: "\<not> is_nan a \<Longrightarrow> \<not> is_nan b \<Longrightarrow> \<not> f_le a b \<longleftrightarrow> f_lt b a"
  by (cases a; cases b) (auto simp: f_le_def is_nan_def)

lemma f_lt_le: "f_lt a b \<Longrightarrow> f_le a b"
  by (simp add: f_le_def)

lemma round64_0 [simp]: "round64 0 = Fin 0"
  by (simp add: round64_def)

lemma pow2_pos [simp]: "0 < pow2 k"
  by (simp add: pow2_def)

lemma round_even_ge: "\<lfloor>x\<rfloor> \<le> round_even x"
  by (simp add: round_even_def Let_def)

lemma bit_length_lower: "0 < n \<Longrightarrow> 2 ^ (bit_length n - 1) \<le> n"
proof (induction n rule: bit_length.induct)
  case (1 n)
  show ?case
  proof (cases "n div 2 = 0")
    case True
    with "1.prems" show ?thesis by (simp add: bit_length.simps [of n] bit_length.simps [of 0])
  next
    case False
    with 1 have ih: "2 ^ (bit_length (n div 2) - 1) \<le> n div 2" by simp
    obtain k where k: "bit_length (n div 2) = Suc k"
      using False by (metis bit_length.simps)
    have "2 * 2 ^ k \<le> n" using ih k by simp
    then show ?thesis using "1.prems" k by (simp add: bit_length.simps [of n])
  qed
qed

lemma exponent_ge_one: "1 \<le> a \<Longrightarrow> 0 \<le> exponent a \<and> pow2 (exponent a) \<le> a"
proof -
  assume a: "1 \<le> a"
  then have pos: "0 < nat \<lfloor>a\<rfloor>" by (metis le_floor_iff of_int_1 zero_less_nat_eq int_one_le_iff_zero_less)
  then obtain k where k: "bit_length (nat \<lfloor>a\<rfloor>) = Suc k" by (metis bit_length.simps not_gr_zero)
  have "2 ^ k \<le> nat \<lfloor>a\<rfloor>" using bit_length_lower [OF pos] k by simp
  then have "(2 ^ k :: int) \<le> \<lfloor>a\<rfloor>" using pos by (simp add: le_nat_iff)
  then have "(2 ^ k :: rat) \<le> a" by (metis le_floor_iff of_int_numeral of_int_power)
  with a k show ?thesis by (simp add: exponent_def pow2_def)
qed

lemma pow2_add: "pow2 (a + b) = pow2 a * pow2 b"
proof -
  have "pow2 k = 2 powi k" for k by (cases "0 \<le> k") (simp_all only: pow2_def power_int_def if_True if_False power_inverse inverse_eq_divide power_one_over)
  then show ?thesis by (simp add: power_int_add)
qed

text \<open>Rounding does not cross 1.\<close>

lemma round64_ge_one:
  assumes "1 \<le> q"
  shows "f_le (Fin 1) (round64 q)"
proof -
  define e u where "e = max (- 1022) (exponent q)" and "u = pow2 (e - 52)"
  define v where "v = of_int (round_even (q / u)) * u"
  have e: "e = exponent q" "0 \<le> e" "pow2 e \<le> q"
    using exponent_ge_one [OF assms] by (simp_all add: e_def)
  have u: "0 < u" by (simp add: u_def)
  have split: "pow2 e = 2 ^ 52 * u"
    using pow2_add [of 52 "e - 52"] by (simp add: u_def pow2_def)
  have "2 ^ 52 \<le> q / u" using e(3) u by (simp add: split pos_le_divide_eq)
  then have "2 ^ 52 \<le> \<lfloor>q / u\<rfloor>" by (simp add: le_floor_iff)
  from order_trans [OF this round_even_ge] have "2 ^ 52 \<le> round_even (q / u)" .
  then have "(of_int (2 ^ 52) :: rat) \<le> of_int (round_even (q / u))" by (simp only: of_int_le_iff)
  then have "2 ^ 52 * u \<le> v" using u by (simp add: v_def)
  moreover have "1 \<le> pow2 e" using e(2) by (simp add: pow2_def)
  ultimately have "1 \<le> v" using split by linarith
  moreover have "round64 q = (if pow2 1024 \<le> v then PosInf else Fin v)"
    using assms by (simp add: round64_def Let_def v_def u_def e_def)
  ultimately show ?thesis by (auto simp: f_le_def)
qed

lemma f_div_pos_ge_one:
  assumes "f_le (Fin b) a" "0 < b"
  shows "f_le (Fin 1) (f_div_pos a b)"
proof (cases a)
  case (Fin x)
  with assms have "1 \<le> x / b" by (simp add: pos_le_divide_eq)
  from round64_ge_one [OF this] Fin show ?thesis by simp
qed (use assms in \<open>simp_all add: f_le_def\<close>)

text \<open>Small integers are exact.\<close>

lemma pow2_mono_less: "pow2 a < pow2 b \<Longrightarrow> a < b"
proof (rule ccontr)
  assume "pow2 a < pow2 b" "\<not> a < b"
  then obtain n where "a = b + int n" by (metis not_less zle_iff_zadd)
  then have "pow2 a = pow2 b * 2 ^ n" using pow2_add [of b "int n"] by (simp add: pow2_def)
  moreover have "pow2 b * 1 \<le> pow2 b * 2 ^ n" by (rule mult_left_mono) (simp_all add: less_imp_le)
  ultimately show False using \<open>pow2 a < pow2 b\<close> by simp
qed

lemma round_even_int: "round_even (of_int k) = k"
  by (simp add: round_even_def)

lemma round64_nat:
  assumes "n < 2 ^ 53"
  shows "round64 (of_nat n) = Fin (of_nat n)"
proof (cases "n = 0")
  case False
  define q :: rat where "q = of_nat n"
  define e where "e = exponent q"
  have q: "1 \<le> q" "q < 2 ^ 53"
    using False assms by (simp_all add: q_def flip: of_nat_less_iff)
  from exponent_ge_one [OF q(1)] have e: "0 \<le> e" "pow2 e \<le> q" by (simp_all add: e_def)
  have "pow2 e < pow2 53" using e(2) q(2) by (simp add: pow2_def)
  from pow2_mono_less [OF this] have le: "e \<le> 52" by simp
  define k where "k = nat (52 - e)"
  have u: "pow2 (max (- 1022) e - 52) = 1 / 2 ^ k"
    using e(1) le by (cases "e = 52") (simp_all add: pow2_def k_def max_def nat_diff_distrib)
  have "q * 2 ^ k = of_int (int n * 2 ^ k)" by (simp add: q_def)
  then have v: "of_int (round_even (q * 2 ^ k)) / 2 ^ k = q"
    by (simp only: round_even_int) (simp add: q_def)
  have "q < pow2 1024"
  proof -
    have "(2 :: rat) ^ 53 \<le> 2 ^ 1024" by (rule power_increasing) simp_all
    with q(2) show ?thesis by (simp add: pow2_def)
  qed
  with q(1) show ?thesis by (simp add: round64_def Let_def u v flip: q_def e_def)
qed simp

lemma round64_numeral: "numeral k < (2 ^ 53 :: nat) \<Longrightarrow> round64 (numeral k) = Fin (numeral k)"
  using round64_nat [of "numeral k"] by simp

end
