(* ===== verification/Failure_Diagnostics.thy ===== *)
theory Failure_Diagnostics
  imports Go_Prelude
begin

text \<open>
  \<^verbatim>\<open>internal/diagnostics\<close>: the bounded failure metadata that an error response, the audit row
  and the terminal event share (\<^verbatim>\<open>failure.go\<close>), and the record of a routing decision
  (\<^verbatim>\<open>routing.go\<close>).

  The functions of \<^verbatim>\<open>message.go\<close> that rest on regular expressions (\<open>cleanMessage\<close>,
  \<open>redactMessageShapes\<close>, \<open>credentialShaped\<close>, the fourth credential pattern and \<open>TokenFacts\<close>)
  are the fields of \<open>message_ops\<close>, an argument of the operations that call them: what is proved
  here holds whatever they compute.
\<close>

section \<open>Data\<close>

record retry_headers =
  rh_ShouldRetry :: string
  rh_RetryAfterSeconds :: "int option"
  rh_RetryAfterMS :: "int option"

record failure =
  fl_Source :: string
  fl_Phase :: string
  fl_HTTPStatus :: int
  fl_ErrorStatus :: int
  fl_ProviderCode :: string
  fl_CodeState :: string
  fl_ConfiguredCode :: bool
  fl_ProviderRequestID :: string
  fl_ProviderType :: string
  fl_ProviderMessage :: string
  fl_ActualTokens :: int
  fl_LimitTokens :: int
  fl_KeyLabel :: string
  fl_BackendID :: string
  fl_Category :: string
  fl_Retryability :: string
  fl_CooldownScope :: string
  fl_CooldownSeconds :: int
  fl_CooldownUntilMS :: int
  fl_ProviderRateLimitStreak :: u16
  fl_ResponseRetryHeaders :: "retry_headers option"

definition empty_failure :: failure where
  "empty_failure =
     \<lparr>fl_Source = [], fl_Phase = [], fl_HTTPStatus = 0, fl_ErrorStatus = 0, fl_ProviderCode = [],
      fl_CodeState = [], fl_ConfiguredCode = False, fl_ProviderRequestID = [], fl_ProviderType = [],
      fl_ProviderMessage = [], fl_ActualTokens = 0, fl_LimitTokens = 0, fl_KeyLabel = [],
      fl_BackendID = [], fl_Category = [], fl_Retryability = [], fl_CooldownScope = [],
      fl_CooldownSeconds = 0, fl_CooldownUntilMS = 0, fl_ProviderRateLimitStreak = 0,
      fl_ResponseRetryHeaders = None\<rparr>"

record message_ops =
  mo_clean :: "string \<Rightarrow> string"
  mo_redact :: "string \<Rightarrow> string"
  mo_shaped :: "string \<Rightarrow> bool"
  mo_jwt :: "string \<Rightarrow> bool"
  mo_facts :: "string \<Rightarrow> int \<times> int"

text \<open>Operations that find nothing to redact, to evaluate examples with.\<close>

definition plain_ops :: message_ops where
  "plain_ops = \<lparr>mo_clean = (\<lambda>s. s), mo_redact = (\<lambda>s. s), mo_shaped = (\<lambda>_. False), mo_jwt = (\<lambda>_. False), mo_facts = (\<lambda>_. (0, 0))\<rparr>"

section \<open>Patterns\<close>

definition code_char :: "char \<Rightarrow> bool" where
  "code_char c \<longleftrightarrow> is_alnum c \<or> c \<in> set ''._:-''"

definition hex_char :: "char \<Rightarrow> bool" where
  "hex_char c \<longleftrightarrow> is_digit c \<or> c \<in> set ''abcdef''"

definition code_pattern :: "string \<Rightarrow> bool" where
  "code_pattern s \<longleftrightarrow> 1 \<le> length s \<and> length s \<le> 128 \<and> list_all code_char s"

definition numeric_code_pattern :: "string \<Rightarrow> bool" where
  "numeric_code_pattern s \<longleftrightarrow> 1 \<le> length s \<and> length s \<le> 8 \<and> list_all is_digit s"

definition request_id_pattern :: "string \<Rightarrow> bool" where
  "request_id_pattern s \<longleftrightarrow>
     8 \<le> length s \<and> length s \<le> 128 \<and> (case s of [] \<Rightarrow> False | c # cs \<Rightarrow> is_alnum c \<and> list_all code_char cs)"

definition key_label_pattern :: "string \<Rightarrow> bool" where
  "key_label_pattern s \<longleftrightarrow>
     has_prefix s ''key-'' \<and>
     (let rest = drop 4 s in
      length rest = 32 \<and> list_all hex_char rest \<or>
      has_prefix rest ''local-'' \<and> 1 \<le> length (drop 6 rest) \<and> list_all hex_char (drop 6 rest))"

definition KeyLabel :: "string \<Rightarrow> string" where
  "KeyLabel v = (if key_label_pattern v then v else [])"

definition standard_error_codes :: "string list" where
  "standard_error_codes =
     [''api_error'', ''internal_error'', ''server_error'', ''overloaded_error'', ''rate_limit_error'',
      ''invalid_request_error'', ''authentication_error'', ''permission_error'', ''not_found_error'',
      ''billing_error'', ''timeout_error'', ''insufficient_quota'', ''context_length_exceeded'',
      ''rate_limit_exceeded'', ''invalid_api_key'', ''model_not_found'', ''request_too_large'']"

definition StandardErrorCode :: "string \<Rightarrow> bool" where
  "StandardErrorCode v \<longleftrightarrow> v \<in> set standard_error_codes"

definition enum_of :: "string \<Rightarrow> string list \<Rightarrow> string" where
  "enum_of v allowed = (if v \<in> set allowed then v else ''unknown'')"

lemma enum_of_idem [simp]: "enum_of (enum_of v allowed) allowed = enum_of v allowed"
  by (simp add: enum_of_def)

lemma enum_of_range: "enum_of v allowed \<in> insert ''unknown'' (set allowed)"
  by (simp add: enum_of_def)

section \<open>Normalization\<close>

definition retry_headers_normalize :: "retry_headers option \<Rightarrow> retry_headers option" where
  "retry_headers_normalize h =
     (case h of
        None \<Rightarrow> None
      | Some h \<Rightarrow>
          (let should = (if rh_ShouldRetry h = ''true'' \<or> rh_ShouldRetry h = ''false''
                         then rh_ShouldRetry h else []);
               secs = (case rh_RetryAfterSeconds h of
                         Some s \<Rightarrow> if 0 < s \<and> s \<le> 30 then Some s else None
                       | None \<Rightarrow> None);
               ms = (case (rh_RetryAfterMS h, secs) of
                       (Some m, Some s) \<Rightarrow> if m = s * 1000 then Some m else None
                     | _ \<Rightarrow> None)
           in Some (if should = ''false''
                    then \<lparr>rh_ShouldRetry = should, rh_RetryAfterSeconds = None, rh_RetryAfterMS = None\<rparr>
                    else \<lparr>rh_ShouldRetry = should, rh_RetryAfterSeconds = secs, rh_RetryAfterMS = ms\<rparr>)))"

definition failure_sources :: "string list" where
  "failure_sources = [''http_error'', ''stream_error'', ''transport'', ''stream'', ''response'',
     ''conversion'', ''downstream'', ''canceled'']"

definition failure_phases :: "string list" where
  "failure_phases = [''request'', ''dns'', ''connect'', ''tls'', ''response_headers'',
     ''response_body'', ''stream'', ''conversion'']"

definition failure_categories :: "string list" where
  "failure_categories = [''insufficient_balance'', ''quota_exhausted'', ''provider_access_denied'',
     ''fair_use_throttled'', ''rate_limited'', ''authentication'', ''permission_denied'',
     ''policy_denied'', ''invalid_request'', ''model_not_found'', ''temporarily_unavailable'',
     ''transport_error'', ''invalid_response'', ''downstream_error'', ''timeout'', ''canceled'',
     ''upstream_error'']"

definition code_states :: "string list" where
  "code_states = [''missing'', ''retained'', ''redacted'', ''invalid'']"

definition retry_classes :: "string list" where
  "retry_classes = [''retryable'', ''terminal'']"

definition cooldown_scopes :: "string list" where
  "cooldown_scopes = [''key'', ''provider'']"

text \<open>The code, its state and whether it was configured, as one step of \<open>Normalize\<close> settles them.\<close>

definition code_step :: "message_ops \<Rightarrow> failure \<Rightarrow> string \<times> string \<times> bool" where
  "code_step ops f =
     (let state0 = enum_of (fl_CodeState f) code_states;
          (code1, state1, conf1) =
            (if fl_ProviderCode f \<noteq> [] then
               (if code_pattern (fl_ProviderCode f) \<and>
                   (fl_ConfiguredCode f \<or> numeric_code_pattern (fl_ProviderCode f)
                    \<or> StandardErrorCode (fl_ProviderCode f))
                then (fl_ProviderCode f, ''retained'', fl_ConfiguredCode f)
                else ([], ''redacted'', False))
             else if state0 = ''retained'' \<or> state0 = ''unknown'' then (fl_ProviderCode f, ''missing'', False)
             else (fl_ProviderCode f, state0, fl_ConfiguredCode f));
          conf2 = (if code1 = [] then False else conf1)
      in if mo_shaped ops code1 then ([], ''redacted'', False) else (code1, state1, conf2))"

definition request_id_step :: "message_ops \<Rightarrow> string \<Rightarrow> string" where
  "request_id_step ops v =
     (let r = (if request_id_pattern v then v else [])
      in if has_prefix (map to_lower r) ''sk-'' \<or> mo_jwt ops r then [] else r)"

definition zero_outside :: "int \<Rightarrow> int \<Rightarrow> int \<Rightarrow> int" where
  "zero_outside lo hi v = (if v < lo \<or> hi < v then 0 else v)"

definition tokens_step :: "int \<times> int \<Rightarrow> int \<times> int" where
  "tokens_step al = (if fst al \<le> snd al \<or> snd al \<le> 0 then (0, 0) else al)"

definition normalize_failure :: "message_ops \<Rightarrow> failure \<Rightarrow> failure" where
  "normalize_failure ops f =
     f\<lparr>fl_Source := enum_of (fl_Source f) failure_sources,
       fl_Phase := enum_of (fl_Phase f) failure_phases,
       fl_HTTPStatus := zero_outside 100 599 (fl_HTTPStatus f),
       fl_ErrorStatus := zero_outside 400 599 (fl_ErrorStatus f),
       fl_ProviderCode := fst (code_step ops f),
       fl_CodeState := fst (snd (code_step ops f)),
       fl_ConfiguredCode := snd (snd (code_step ops f)),
       fl_ProviderRequestID := request_id_step ops (fl_ProviderRequestID f),
       fl_ProviderType := (if StandardErrorCode (fl_ProviderType f) then fl_ProviderType f else []),
       fl_ProviderMessage := mo_clean ops (fl_ProviderMessage f),
       fl_ActualTokens := fst (tokens_step (fl_ActualTokens f, fl_LimitTokens f)),
       fl_LimitTokens := snd (tokens_step (fl_ActualTokens f, fl_LimitTokens f)),
       fl_KeyLabel := KeyLabel (fl_KeyLabel f),
       fl_BackendID := KeyLabel (fl_BackendID f),
       fl_Category := enum_of (fl_Category f) failure_categories,
       fl_Retryability := enum_of (fl_Retryability f) retry_classes,
       fl_CooldownScope := (if fl_CooldownScope f \<noteq> [] then enum_of (fl_CooldownScope f) cooldown_scopes
                            else []),
       fl_CooldownSeconds := zero_outside 0 86400 (fl_CooldownSeconds f),
       fl_CooldownUntilMS := zero_outside 0 253402300799999 (fl_CooldownUntilMS f),
       fl_ResponseRetryHeaders := retry_headers_normalize (fl_ResponseRetryHeaders f)\<rparr>"

text \<open>\<open>Normalize\<close> on a possibly nil pointer.\<close>

definition failure_normalize :: "message_ops \<Rightarrow> failure option \<Rightarrow> failure option" where
  "failure_normalize ops fo = map_option (normalize_failure ops) fo"

text \<open>One secret of \<open>Redact\<close>; the empty string is skipped.\<close>

definition redact_value :: "string \<Rightarrow> failure \<Rightarrow> failure" where
  "redact_value v f =
     (if v = [] then f
      else
        (let f1 = (if contains_str (fl_ProviderCode f) v
                   then f\<lparr>fl_ProviderCode := [], fl_CodeState := ''redacted'', fl_ConfiguredCode := False\<rparr> else f);
             f2 = (if contains_str (fl_ProviderRequestID f1) v then f1\<lparr>fl_ProviderRequestID := []\<rparr> else f1);
             f3 = (if contains_str (fl_ProviderType f2) v then f2\<lparr>fl_ProviderType := []\<rparr> else f2)
         in f3\<lparr>fl_ProviderMessage := replace_all v ''[redacted]'' (fl_ProviderMessage f3)\<rparr>))"

definition failure_redact :: "message_ops \<Rightarrow> string list \<Rightarrow> failure option \<Rightarrow> failure option" where
  "failure_redact ops vs fo =
     (case fo of
        None \<Rightarrow> None
      | Some f \<Rightarrow>
          (let f1 = fold redact_value vs f;
               f2 = f1\<lparr>fl_ProviderMessage := mo_redact ops (fl_ProviderMessage f1)\<rparr>;
               facts = mo_facts ops (fl_ProviderMessage f2)
           in failure_normalize ops (Some (f2\<lparr>fl_ActualTokens := fst facts, fl_LimitTokens := snd facts\<rparr>))))"

section \<open>Routing decisions\<close>

record routing_decision =
  rd_FromProvider :: string
  rd_ToProvider :: string
  rd_Model :: string
  rd_ToModel :: string
  rd_Action :: string
  rd_Reason :: string
  rd_ThresholdMS :: int
  rd_RemainingMS :: "int option"
  rd_CooldownUntilMS :: int
  rd_WaitUnknown :: bool

definition decision_reasons :: "string list" where
  "decision_reasons = [''within_threshold'', ''exceeds_threshold'', ''unknown_wait'',
     ''no_eligible_alternative'', ''affinity_disabled'']"

definition decision_model_char :: "char \<Rightarrow> bool" where
  "decision_model_char c \<longleftrightarrow> is_alnum c \<or> c \<in> set ''._:/-''"

definition decision_normalize :: "routing_decision option \<Rightarrow> routing_decision option" where
  "decision_normalize dopt =
     (case dopt of
        None \<Rightarrow> None
      | Some d \<Rightarrow>
          if \<not> code_pattern (rd_FromProvider d) \<or> \<not> code_pattern (rd_ToProvider d)
             \<or> 255 < length (rd_Model d) \<or> rd_Model d = [] \<or> rd_ThresholdMS d < 0 \<or> 86400000 < rd_ThresholdMS d
          then None
          else if 255 < length (rd_ToModel d) then None
          else if \<not> list_all decision_model_char (rd_Model d @ rd_ToModel d) then None
          else if rd_Action d \<noteq> ''retain'' \<and> rd_Action d \<noteq> ''switch'' then None
          else if enum_of (rd_Reason d) decision_reasons = ''unknown'' then None
          else if (case rd_RemainingMS d of Some v \<Rightarrow> v < 0 \<or> 253402300799999 < v | None \<Rightarrow> False) then None
          else if rd_CooldownUntilMS d < 0 \<or> 253402300799999 < rd_CooldownUntilMS d then None
          else Some (d\<lparr>rd_Reason := enum_of (rd_Reason d) decision_reasons\<rparr>))"

section \<open>What a normalized failure can carry\<close>

text \<open>The promise to everything that stores or sends a failure.\<close>

definition headers_safe :: "retry_headers \<Rightarrow> bool" where
  "headers_safe h \<longleftrightarrow>
     rh_ShouldRetry h \<in> {[], ''true'', ''false''} \<and>
     (case rh_RetryAfterSeconds h of None \<Rightarrow> rh_RetryAfterMS h = None
      | Some s \<Rightarrow> 0 < s \<and> s \<le> 30 \<and> rh_ShouldRetry h \<noteq> ''false'' \<and> rh_RetryAfterMS h \<in> {None, Some (s * 1000)})"

definition failure_safe :: "message_ops \<Rightarrow> failure \<Rightarrow> bool" where
  "failure_safe ops f \<longleftrightarrow>
     fl_Source f \<in> insert ''unknown'' (set failure_sources) \<and>
     fl_Phase f \<in> insert ''unknown'' (set failure_phases) \<and>
     fl_Category f \<in> insert ''unknown'' (set failure_categories) \<and>
     fl_Retryability f \<in> insert ''unknown'' (set retry_classes) \<and>
     (fl_ProviderCode f \<noteq> [] \<longrightarrow>
        code_pattern (fl_ProviderCode f) \<and> \<not> mo_shaped ops (fl_ProviderCode f) \<and> fl_CodeState f = ''retained'' \<and>
        (fl_ConfiguredCode f \<or> numeric_code_pattern (fl_ProviderCode f) \<or> StandardErrorCode (fl_ProviderCode f))) \<and>
     (fl_ProviderRequestID f \<noteq> [] \<longrightarrow>
        request_id_pattern (fl_ProviderRequestID f) \<and> \<not> mo_jwt ops (fl_ProviderRequestID f)) \<and>
     (fl_ProviderType f \<noteq> [] \<longrightarrow> StandardErrorCode (fl_ProviderType f)) \<and>
     (fl_KeyLabel f \<noteq> [] \<longrightarrow> key_label_pattern (fl_KeyLabel f)) \<and>
     (fl_BackendID f \<noteq> [] \<longrightarrow> key_label_pattern (fl_BackendID f)) \<and>
     (fl_HTTPStatus f = 0 \<or> 100 \<le> fl_HTTPStatus f \<and> fl_HTTPStatus f \<le> 599) \<and>
     (fl_ErrorStatus f = 0 \<or> 400 \<le> fl_ErrorStatus f \<and> fl_ErrorStatus f \<le> 599) \<and>
     (fl_ActualTokens f = 0 \<and> fl_LimitTokens f = 0 \<or> 0 < fl_LimitTokens f \<and> fl_LimitTokens f < fl_ActualTokens f) \<and>
     0 \<le> fl_CooldownSeconds f \<and> fl_CooldownSeconds f \<le> 86400 \<and>
     (case fl_ResponseRetryHeaders f of None \<Rightarrow> True | Some h \<Rightarrow> headers_safe h)"

lemma retry_headers_normalize_safe: "retry_headers_normalize h = Some h' \<Longrightarrow> headers_safe h'"
  by (auto simp: retry_headers_normalize_def headers_safe_def Let_def split: option.splits if_splits)

lemma retry_headers_normalize_idem [simp]:
  "retry_headers_normalize (retry_headers_normalize h) = retry_headers_normalize h"
  by (auto simp: retry_headers_normalize_def Let_def split: option.splits)

lemma code_step_safe:
  "code_step ops f = (code, state, conf) \<Longrightarrow> code \<noteq> [] \<Longrightarrow>
   code_pattern code \<and> \<not> mo_shaped ops code \<and> state = ''retained'' \<and>
   (conf \<or> numeric_code_pattern code \<or> StandardErrorCode code)"
  by (auto simp: code_step_def Let_def split: if_splits prod.splits)

lemma code_step_empty:
  "code_step ops f = ([], state, conf) \<Longrightarrow>
   \<not> conf \<and> state \<in> {''missing'', ''redacted'', ''invalid''} \<and> (mo_shaped ops [] \<longrightarrow> state = ''redacted'')"
  by (auto simp: code_step_def Let_def enum_of_def code_states_def split: if_splits prod.splits)

lemma code_step_idem:
  assumes c: "code_step ops f = (code, state, conf)"
    and g: "fl_ProviderCode g = code" "fl_CodeState g = state" "fl_ConfiguredCode g = conf"
  shows "code_step ops g = (code, state, conf)"
proof (cases "code = []")
  case True
  with code_step_empty [of ops f state conf] c g show ?thesis
    by (auto simp: code_step_def Let_def enum_of_def code_states_def)
next
  case False
  with code_step_safe [OF c] g show ?thesis by (auto simp: code_step_def Let_def)
qed

lemma request_id_step_safe:
  "request_id_step ops v \<noteq> [] \<Longrightarrow>
   request_id_pattern (request_id_step ops v) \<and> \<not> mo_jwt ops (request_id_step ops v)"
  by (auto simp: request_id_step_def Let_def split: if_splits)

lemma request_id_step_idem [simp]:
  "request_id_step ops (request_id_step ops v) = request_id_step ops v"
  by (auto simp: request_id_step_def Let_def request_id_pattern_def)

lemma zero_outside_idem [simp]: "zero_outside lo hi (zero_outside lo hi v) = zero_outside lo hi v"
  by (simp add: zero_outside_def)

lemma zero_outside_range: "zero_outside lo hi v = 0 \<or> lo \<le> zero_outside lo hi v \<and> zero_outside lo hi v \<le> hi"
  by (simp add: zero_outside_def)

lemma tokens_step_idem [simp]: "tokens_step (tokens_step al) = tokens_step al"
  by (simp add: tokens_step_def)

lemma tokens_step_range:
  "tokens_step al = (0, 0) \<or> 0 < snd (tokens_step al) \<and> snd (tokens_step al) < fst (tokens_step al)"
  by (auto simp: tokens_step_def)

lemma code_step_normalized [simp]:
  "code_step ops (normalize_failure ops f) = code_step ops f"
  by (rule code_step_idem [of ops f "fst (code_step ops f)" "fst (snd (code_step ops f))"
        "snd (snd (code_step ops f))", simplified]) (simp_all add: normalize_failure_def)

lemma KeyLabel_pattern: "KeyLabel v \<noteq> [] \<Longrightarrow> key_label_pattern (KeyLabel v)"
  by (simp add: KeyLabel_def split: if_splits)

lemma KeyLabel_idem [simp]: "KeyLabel (KeyLabel v) = KeyLabel v"
  by (simp add: KeyLabel_def)

text \<open>
  Whatever a provider sends, a normalized failure stays within its closed vocabulary and
  bounds: enumerated source, phase, category and retryability; a provider code only if it is
  configured, numeric or standard, well-formed and not shaped like a credential; assigned key
  labels only; status, token and wait ranges; and retry headers that never combine a refusal
  with a wait.
\<close>

theorem normalized_failure_safe: "failure_safe ops (normalize_failure ops f)"
proof -
  have "case retry_headers_normalize (fl_ResponseRetryHeaders f) of None \<Rightarrow> True | Some h \<Rightarrow> headers_safe h"
    by (auto split: option.split intro: retry_headers_normalize_safe)
  moreover have "0 \<le> zero_outside 0 86400 v \<and> zero_outside 0 86400 v \<le> 86400" for v
    using zero_outside_range [of 0 86400 v] by auto
  moreover note tokens_step_range [of "(fl_ActualTokens f, fl_LimitTokens f)"]
  moreover note code_step_safe [of ops f "fst (code_step ops f)" "fst (snd (code_step ops f))"
      "snd (snd (code_step ops f))", simplified]
  ultimately show ?thesis
    unfolding failure_safe_def normalize_failure_def
    by (simp add: enum_of_range [simplified] KeyLabel_pattern request_id_step_safe zero_outside_range) auto
qed

text \<open>
  Normalization is stable: normalizing a normalized failure changes nothing but, possibly,
  the free message text, so the copies that the response, the audit row and the terminal event
  normalize again agree on every classified field.
\<close>

theorem failure_normalize_stable:
  "failure_normalize ops (failure_normalize ops fo) =
   map_option (\<lambda>f. f\<lparr>fl_ProviderMessage := mo_clean ops (fl_ProviderMessage f)\<rparr>) (failure_normalize ops fo)"
proof (cases fo)
  case None
  then show ?thesis by (simp add: failure_normalize_def)
next
  case (Some f)
  let ?n = "normalize_failure ops f"
  have "normalize_failure ops ?n = ?n\<lparr>fl_ProviderMessage := mo_clean ops (fl_ProviderMessage ?n)\<rparr>"
    unfolding normalize_failure_def [of ops ?n] code_step_normalized
    by (simp add: normalize_failure_def)
  with Some show ?thesis by (simp add: failure_normalize_def)
qed

lemma decision_normalize_Some:
  assumes "decision_normalize (Some d) = Some n"
  shows "n = d\<lparr>rd_Reason := enum_of (rd_Reason d) decision_reasons\<rparr>"
    and "enum_of (rd_Reason d) decision_reasons \<noteq> ''unknown''"
    and "rd_Action d = ''retain'' \<or> rd_Action d = ''switch''"
    and "0 \<le> rd_ThresholdMS d \<and> rd_ThresholdMS d \<le> 86400000"
    and "case rd_RemainingMS d of Some v \<Rightarrow> 0 \<le> v \<and> v \<le> 253402300799999 | None \<Rightarrow> True"
  using assms unfolding decision_normalize_def option.case
  by (simp_all only: if_split_eq1 if_distrib option.simps) (fastforce split: if_splits option.splits)+

text \<open>
  A recorded routing decision that survives normalization is bounded and names a known
  action and reason, and normalizing it again returns it unchanged.
\<close>

theorem decision_normalize_bounded:
  assumes "decision_normalize (Some d) = Some n"
  shows "n = d \<and> rd_Action n \<in> {''retain'', ''switch''} \<and> rd_Reason n \<in> set decision_reasons \<and>
     0 \<le> rd_ThresholdMS n \<and> rd_ThresholdMS n \<le> 86400000 \<and>
     (case rd_RemainingMS n of Some v \<Rightarrow> 0 \<le> v \<and> v \<le> 253402300799999 | None \<Rightarrow> True)"
proof -
  note facts = decision_normalize_Some [OF assms]
  have reason: "rd_Reason d \<in> set decision_reasons" and "enum_of (rd_Reason d) decision_reasons = rd_Reason d"
    using facts(2) by (auto simp: enum_of_def split: if_splits)
  with facts(1) have "n = d" by simp
  with facts reason show ?thesis by simp
qed

definition sample_decision :: routing_decision where
  "sample_decision = \<lparr>rd_FromProvider = ''p'', rd_ToProvider = ''q'', rd_Model = ''m'', rd_ToModel = ''m'', rd_Action = ''switch'',
     rd_Reason = ''exceeds_threshold'', rd_ThresholdMS = 30000, rd_RemainingMS = Some 60000, rd_CooldownUntilMS = 1,
     rd_WaitUnknown = False\<rparr>"

theorem decision_normalize_bounded_witness:
  "decision_normalize (Some sample_decision) = Some sample_decision \<and> rd_Action sample_decision \<in> {''retain'', ''switch''}"
proof -
  have eq: "decision_normalize (Some sample_decision) = Some sample_decision" by code_simp
  with decision_normalize_bounded [OF eq] show ?thesis by blast
qed

end
