(* ===== verification/Provider_Errors.thy ===== *)
theory Provider_Errors
  imports "HOL-Library.Multiset" Failure_Diagnostics Go_Float
begin

text \<open>
  \<^verbatim>\<open>internal/adapter\<close>: how an upstream error becomes a classified \<open>CallError\<close>
  (\<^verbatim>\<open>error_mapping.go\<close>, \<^verbatim>\<open>errors.go\<close>, \<^verbatim>\<open>failure_details.go\<close>, \<^verbatim>\<open>attempt_observer.go\<close>).

  An error body is what \<^verbatim>\<open>encoding/json\<close> reads in it, \<open>None\<close> for bytes that are no JSON; a
  number keeps its literal. Fields of a Go struct are matched as the library does, without
  regard to case, the last occurrence winning. \<open>http.ParseTime\<close> is the argument \<open>http_time\<close>.
\<close>

section \<open>Categories\<close>

type_synonym category = string

abbreviation "ProviderErrorInsufficientBalance \<equiv> ''insufficient_balance''"
abbreviation "ProviderErrorQuotaExhausted \<equiv> ''quota_exhausted''"
abbreviation "ProviderErrorAccessDenied \<equiv> ''provider_access_denied''"
abbreviation "ProviderErrorFairUseThrottled \<equiv> ''fair_use_throttled''"
abbreviation "ProviderErrorRateLimited \<equiv> ''rate_limited''"
abbreviation "ProviderErrorAuthentication \<equiv> ''authentication''"
abbreviation "ProviderErrorPermissionDenied \<equiv> ''permission_denied''"
abbreviation "ProviderErrorPolicyDenied \<equiv> ''policy_denied''"
abbreviation "ProviderErrorInvalidRequest \<equiv> ''invalid_request''"
abbreviation "ProviderErrorModelNotFound \<equiv> ''model_not_found''"
abbreviation "ProviderErrorTemporarilyUnavailable \<equiv> ''temporarily_unavailable''"

definition known_categories :: "category list" where
  "known_categories =
     [ProviderErrorInsufficientBalance, ProviderErrorQuotaExhausted, ProviderErrorAccessDenied,
      ProviderErrorFairUseThrottled, ProviderErrorRateLimited, ProviderErrorAuthentication,
      ProviderErrorPermissionDenied, ProviderErrorPolicyDenied, ProviderErrorInvalidRequest,
      ProviderErrorModelNotFound, ProviderErrorTemporarilyUnavailable]"

definition provider_scoped_terminal :: "category \<Rightarrow> bool" where
  "provider_scoped_terminal c \<longleftrightarrow>
     c \<in> {ProviderErrorInsufficientBalance, ProviderErrorQuotaExhausted, ProviderErrorAccessDenied,
          ProviderErrorFairUseThrottled}"

definition client_error_code :: "category \<Rightarrow> string" where
  "client_error_code c =
     (if c = ProviderErrorInsufficientBalance then ''provider_insufficient_balance''
      else if c = ProviderErrorQuotaExhausted then ''provider_quota_exhausted''
      else if c = ProviderErrorAccessDenied then ''provider_access_denied''
      else if c = ProviderErrorFairUseThrottled then ''provider_fair_use_throttled''
      else if c = ProviderErrorRateLimited then ''upstream_rate_limited''
      else if c = ProviderErrorAuthentication then ''upstream_authentication_failed''
      else if c = ProviderErrorPermissionDenied then ''upstream_permission_denied''
      else if c = ProviderErrorPolicyDenied then ''upstream_policy_denied''
      else if c = ProviderErrorInvalidRequest then ''upstream_invalid_request''
      else if c = ProviderErrorModelNotFound then ''provider_model_not_found''
      else if c = ProviderErrorTemporarilyUnavailable then ''provider_temporarily_unavailable''
      else ''upstream_error'')"

definition client_error_message :: "category \<Rightarrow> string" where
  "client_error_message c =
     (if c = ProviderErrorInsufficientBalance then ''The provider reports insufficient balance. Check its account balance or billing status, then retry.''
      else if c = ProviderErrorAccessDenied then ''The provider subscription does not permit the selected model. Check the subscription entitlement or select an eligible alternative provider.''
      else if c = ProviderErrorFairUseThrottled then ''The provider restricted this account under its fair use policy. Check account activity; if the unexpected load is not yours, investigate possible API key exposure and rotate the provider key. Request manual removal of the restriction in the provider account center; recovery time is unknown.''
      else if c = ProviderErrorQuotaExhausted then ''The provider reports an exhausted quota. Wait for its quota reset or select an eligible alternative provider.''
      else if c = ProviderErrorRateLimited then ''The provider is rate limiting requests. Wait for the indicated interval before retrying.''
      else if c = ProviderErrorAuthentication then ''The provider rejected its credentials. Check the API key configured for this provider.''
      else if c = ProviderErrorPermissionDenied then ''The provider denied access to this model or operation. Check the provider-side permissions.''
      else if c = ProviderErrorPolicyDenied then ''The provider blocked this request under its usage or content policy.''
      else if c = ProviderErrorInvalidRequest then ''The provider rejected the request as invalid.''
      else if c = ProviderErrorModelNotFound then ''The provider does not have access to the selected model.''
      else if c = ProviderErrorTemporarilyUnavailable then ''The provider is temporarily unavailable. TideMux may prefer another model:auto entry for new sessions.''
      else ''The provider request failed.'')"

definition client_error_kind :: "category \<Rightarrow> string \<Rightarrow> string" where
  "client_error_kind c protocol =
     (if protocol = ''anthropic'' then
        (if c = ProviderErrorInsufficientBalance then ''billing_error''
         else if c \<in> {ProviderErrorRateLimited, ProviderErrorQuotaExhausted, ProviderErrorFairUseThrottled}
           then ''rate_limit_error''
         else if c = ProviderErrorAuthentication then ''authentication_error''
         else if c \<in> {ProviderErrorPermissionDenied, ProviderErrorAccessDenied} then ''permission_error''
         else if c = ProviderErrorPolicyDenied then ''permission_error''
         else if c = ProviderErrorInvalidRequest then ''invalid_request_error''
         else if c = ProviderErrorModelNotFound then ''not_found_error''
         else if c = ProviderErrorTemporarilyUnavailable then ''api_error''
         else [])
      else
        (if c \<in> {ProviderErrorInsufficientBalance, ProviderErrorQuotaExhausted} then ''insufficient_quota''
         else if c \<in> {ProviderErrorRateLimited, ProviderErrorFairUseThrottled} then ''rate_limit_error''
         else if c = ProviderErrorAuthentication then ''authentication_error''
         else if c \<in> {ProviderErrorPermissionDenied, ProviderErrorAccessDenied} then ''permission_error''
         else if c = ProviderErrorPolicyDenied then ''permission_error''
         else if c = ProviderErrorInvalidRequest then ''invalid_request_error''
         else if c = ProviderErrorModelNotFound then ''not_found_error''
         else if c = ProviderErrorTemporarilyUnavailable then ''server_error''
         else ''api_error''))"

definition client_error_status :: "category \<Rightarrow> int" where
  "client_error_status c =
     (if c = ProviderErrorInsufficientBalance then 402
      else if c \<in> {ProviderErrorRateLimited, ProviderErrorQuotaExhausted, ProviderErrorFairUseThrottled} then 429
      else if c = ProviderErrorAuthentication then 502
      else if c = ProviderErrorPermissionDenied then 502
      else if c = ProviderErrorAccessDenied then 403
      else if c = ProviderErrorPolicyDenied then 403
      else if c = ProviderErrorInvalidRequest then 400
      else if c = ProviderErrorModelNotFound then 404
      else if c = ProviderErrorTemporarilyUnavailable then 503
      else 502)"

definition ClientError :: "category \<Rightarrow> string \<Rightarrow> int \<times> string \<times> string \<times> string" where
  "ClientError c protocol =
     (client_error_status c, client_error_code c, client_error_message c, client_error_kind c protocol)"

section \<open>Operator mappings\<close>

record error_mapping =
  em_UpstreamCode :: string
  em_HTTPStatus :: int
  em_Category :: category

definition safe_provider_error_code :: "string \<Rightarrow> bool" where
  "safe_provider_error_code v \<longleftrightarrow>
     \<not> (v = [] \<or> 128 < length v \<or> trim_space v \<noteq> v) \<and> list_all (\<lambda>c. is_alnum c \<or> c \<in> set ''._:-'') v"

datatype mapping_error = BadUpstreamCode | BadHTTPStatus | BadCategory | TooManyMappings | DuplicateMapping

definition mapping_validate :: "error_mapping \<Rightarrow> mapping_error option" where
  "mapping_validate m =
     (if \<not> safe_provider_error_code (em_UpstreamCode m) then Some BadUpstreamCode
      else if em_HTTPStatus m \<noteq> 0 \<and> (em_HTTPStatus m < 400 \<or> 599 < em_HTTPStatus m) then Some BadHTTPStatus
      else if em_Category m \<in> set known_categories then None
      else Some BadCategory)"

text \<open>The loop over the entries: each is compared with the ones before it.\<close>

fun validate_from :: "error_mapping list \<Rightarrow> error_mapping list \<Rightarrow> mapping_error option" where
  "validate_from before [] = None"
| "validate_from before (m # ms) =
     (case mapping_validate m of
        Some e \<Rightarrow> Some e
      | None \<Rightarrow>
          if list_ex (\<lambda>b. em_UpstreamCode b = em_UpstreamCode m \<and> em_HTTPStatus b = em_HTTPStatus m) before
          then Some DuplicateMapping
          else validate_from (before @ [m]) ms)"

definition ValidateProviderErrorMappings :: "error_mapping list \<Rightarrow> mapping_error option" where
  "ValidateProviderErrorMappings ms = (if 256 < length ms then Some TooManyMappings else validate_from [] ms)"

text \<open>The exact status wins where it is met; the last entry without a status is the fallback.\<close>

fun resolve_loop :: "string \<Rightarrow> int \<Rightarrow> category \<Rightarrow> error_mapping list \<Rightarrow> category" where
  "resolve_loop code status fallback [] = fallback"
| "resolve_loop code status fallback (m # ms) =
     (if em_UpstreamCode m \<noteq> code then resolve_loop code status fallback ms
      else if em_HTTPStatus m = status then em_Category m
      else if em_HTTPStatus m = 0 then resolve_loop code status (em_Category m) ms
      else resolve_loop code status fallback ms)"

definition hit_exact :: "string \<Rightarrow> int \<Rightarrow> error_mapping list \<Rightarrow> bool" where
  "hit_exact code status ms \<longleftrightarrow> list_ex (\<lambda>m. em_UpstreamCode m = code \<and> em_HTTPStatus m = status) ms"

definition resolveProviderErrorCategory ::
  "string \<Rightarrow> int \<Rightarrow> error_mapping list \<Rightarrow> category \<times> bool"
where
  "resolveProviderErrorCategory code status ms =
     (let c = resolve_loop code status [] ms in (c, hit_exact code status ms \<or> c \<noteq> []))"

section \<open>Error bodies\<close>

datatype json =
    JNull
  | JBool bool
  | JNum string
  | JStr string
  | JArr "json list"
  | JObj "(string \<times> json) list"

text \<open>Case folding of a key as the decoder compares names: ASCII letters, the Kelvin sign and the
  long s are all that fold to an ASCII letter.\<close>

fun fold_key :: "string \<Rightarrow> string" where
  "fold_key (a # b # c # s) =
     (if [a, b, c] = [CHR 0xE2, CHR 0x84, CHR 0xAA] then CHR ''k'' # fold_key s
      else if [a, b] = [CHR 0xC5, CHR 0xBF] then CHR ''s'' # fold_key (c # s)
      else to_lower a # fold_key (b # c # s))"
| "fold_key [a, b] = (if [a, b] = [CHR 0xC5, CHR 0xBF] then ''s'' else [to_lower a, to_lower b])"
| "fold_key [a] = [to_lower a]"
| "fold_key [] = []"

text \<open>The values a struct field named \<open>n\<close> receives, in order.\<close>

definition field_values :: "string \<Rightarrow> (string \<times> json) list \<Rightarrow> json list" where
  "field_values n kvs = map snd (filter (\<lambda>kv. fold_key (fst kv) = n) kvs)"

definition last_opt :: "'a list \<Rightarrow> 'a option" where
  "last_opt xs = (if xs = [] then None else Some (last xs))"

fun members :: "json \<Rightarrow> (string \<times> json) list" where
  "members (JObj kvs) = kvs"
| "members _ = []"

definition object_or_null :: "json \<Rightarrow> bool" where
  "object_or_null j \<longleftrightarrow> (case j of JObj _ \<Rightarrow> True | JNull \<Rightarrow> True | _ \<Rightarrow> False)"

definition string_or_null :: "json \<Rightarrow> bool" where
  "string_or_null j \<longleftrightarrow> (case j of JStr _ \<Rightarrow> True | JNull \<Rightarrow> True | _ \<Rightarrow> False)"

text \<open>\<open>envelope.Error\<close> as a raw message: the last value of the field.\<close>

definition raw_error :: "json option \<Rightarrow> json option" where
  "raw_error body =
     (case body of Some (JObj kvs) \<Rightarrow> last_opt (field_values ''error'' kvs) | _ \<Rightarrow> None)"

text \<open>The members of every \<open>error\<close> object of a body, as a nested struct receives them.\<close>

definition error_members :: "json option \<Rightarrow> (string \<times> json) list" where
  "error_members body =
     (case body of Some (JObj kvs) \<Rightarrow> concat (map members (field_values ''error'' kvs)) | _ \<Rightarrow> [])"

fun json_strings :: "json list \<Rightarrow> string list" where
  "json_strings [] = []"
| "json_strings (JStr s # js) = s # json_strings js"
| "json_strings (_ # js) = json_strings js"

text \<open>A string field of the nested struct, and whether decoding the named ones succeeded.\<close>

definition error_string :: "string \<Rightarrow> json option \<Rightarrow> string" where
  "error_string n body =
     (case last_opt (json_strings (field_values n (error_members body))) of None \<Rightarrow> [] | Some s \<Rightarrow> s)"

definition error_decodes :: "string list \<Rightarrow> json option \<Rightarrow> bool" where
  "error_decodes names body \<longleftrightarrow>
     (case body of
        None \<Rightarrow> False
      | Some j \<Rightarrow> object_or_null j \<and>
          list_all object_or_null (field_values ''error'' (members j)) \<and>
          list_all (\<lambda>n. list_all string_or_null (field_values n (error_members body))) names)"

definition decimal_seconds :: "string \<Rightarrow> bool" where
  "decimal_seconds v \<longleftrightarrow> v \<noteq> [] \<and> list_all is_digit v"

definition digit_val :: "char \<Rightarrow> int" where
  "digit_val c = int (of_char c) - 48"

definition decimal_val :: "string \<Rightarrow> int" where
  "decimal_val s = foldl (\<lambda>acc c. acc * 10 + digit_val c) 0 s"

text \<open>\<open>strconv.ParseInt(s, 10, 64)\<close> on the literals met here.\<close>

definition parse_int64 :: "string \<Rightarrow> int option" where
  "parse_int64 s =
     (let (neg, ds) = (case s of [] \<Rightarrow> (False, []) | c # cs \<Rightarrow> if c = CHR ''-'' then (True, cs) else (False, s));
          v = (if neg then - decimal_val ds else decimal_val ds)
      in if decimal_seconds ds \<and> min_int64 \<le> v \<and> v \<le> max_int64 then Some v else None)"

definition numeric_provider_code :: "json option \<Rightarrow> string" where
  "numeric_provider_code raw =
     (case raw of
        Some (JNum lit) \<Rightarrow> if decimal_seconds lit \<and> safe_provider_error_code lit then lit else []
      | _ \<Rightarrow> [])"

definition providerErrorCode :: "json option \<Rightarrow> string" where
  "providerErrorCode body =
     (case raw_error body of
        None \<Rightarrow> []
      | Some e \<Rightarrow>
          if \<not> object_or_null e then []
          else
            (let code = last_opt (field_values ''code'' (members e));
                 kind = last_opt (field_values ''type'' (members e))
             in case code of
                  Some (JStr s) \<Rightarrow>
                    if safe_provider_error_code s then s
                    else (case kind of Some (JStr k) \<Rightarrow> if safe_provider_error_code k then k else [] | _ \<Rightarrow> [])
                | _ \<Rightarrow>
                    if numeric_provider_code code \<noteq> [] then numeric_provider_code code
                    else (case kind of Some (JStr k) \<Rightarrow> if safe_provider_error_code k then k else [] | _ \<Rightarrow> [])))"

text \<open>An integer field: \<open>None\<close> when some occurrence does not decode.\<close>

fun int_field :: "int \<Rightarrow> json list \<Rightarrow> int option" where
  "int_field v [] = Some v"
| "int_field v (JNull # js) = int_field v js"
| "int_field v (JNum lit # js) =
     (case parse_int64 lit of None \<Rightarrow> None | Some n \<Rightarrow> int_field n js)"
| "int_field v (_ # js) = None"

definition providerErrorHTTPStatus :: "json option \<Rightarrow> int" where
  "providerErrorHTTPStatus body =
     (case raw_error body of
        None \<Rightarrow> 0
      | Some e \<Rightarrow>
          if \<not> object_or_null e then 0
          else (case (int_field 0 (field_values ''status'' (members e)),
                      int_field 0 (field_values ''status_code'' (members e))) of
                  (Some s, Some c) \<Rightarrow>
                    if 400 \<le> s \<and> s \<le> 599 then s else if 400 \<le> c \<and> c \<le> 599 then c else 0
                | _ \<Rightarrow> 0))"

text \<open>The standard identifiers, tried on the code and then on the type.\<close>

definition standard_category :: "int \<Rightarrow> string \<Rightarrow> category option" where
  "standard_category status v =
     (if v = ''insufficient_quota'' then Some ProviderErrorQuotaExhausted
      else if v \<in> {''invalid_request_error'', ''context_length_exceeded'', ''request_too_large''}
        then Some ProviderErrorInvalidRequest
      else if v \<in> {''rate_limit_error'', ''rate_limit_exceeded''} then Some ProviderErrorRateLimited
      else if v \<in> {''authentication_error'', ''invalid_api_key''} then Some ProviderErrorAuthentication
      else if v = ''permission_error'' then Some ProviderErrorPermissionDenied
      else if v \<in> {''not_found_error'', ''model_not_found''} then Some ProviderErrorModelNotFound
      else if v = ''billing_error'' then Some ProviderErrorInsufficientBalance
      else if v \<in> {''overloaded_error'', ''server_error'', ''api_error'', ''internal_error'', ''timeout_error''}
              \<and> (status = 0 \<or> 500 \<le> status)
        then Some ProviderErrorTemporarilyUnavailable
      else None)"

definition resolveErrorCategory :: "json option \<Rightarrow> int \<Rightarrow> error_mapping list \<Rightarrow> category \<times> bool" where
  "resolveErrorCategory body status ms =
     (let code = providerErrorCode body; r = resolveProviderErrorCategory code status ms
      in if snd r then (fst r, True)
         else (case standard_category status code of
                 Some c \<Rightarrow> (c, True)
               | None \<Rightarrow>
                   (case standard_category status (error_string ''type'' body) of
                      Some c \<Rightarrow> (c, True)
                    | None \<Rightarrow> ([], False))))"

section \<open>Call errors\<close>

text \<open>The fields of \<open>CallError\<close>.\<close>

record call_error =
  ce_Status :: int
  ce_Code :: string
  ce_UpstreamNotAttempted :: bool
  ce_FailoverSafe :: bool
  ce_BudgetCost :: "float64 option"
  ce_Param :: string
  ce_ProviderCode :: string
  ce_Category :: category
  ce_UpstreamStatus :: int
  ce_Cooldown :: duration
  ce_CooldownUntil :: time
  ce_RetryAfterSecs :: int
  ce_RetryProvided :: bool
  ce_RetryAfterValue :: string
  ce_Failure :: "failure option"
  ce_AllKeysCooling :: bool
  ce_RateLimitFailures :: u16
  ce_RequestStartedAt :: time
  ce_QueueMS :: int

text \<open>\<open>&CallError{Status: s, Code: c}\<close>: every other field has its zero value.\<close>

definition call_error_of :: "int \<Rightarrow> string \<Rightarrow> call_error" where
  "call_error_of s c =
     \<lparr>ce_Status = s, ce_Code = c, ce_UpstreamNotAttempted = False, ce_FailoverSafe = False,
      ce_BudgetCost = None, ce_Param = [], ce_ProviderCode = [], ce_Category = [],
      ce_UpstreamStatus = 0, ce_Cooldown = 0, ce_CooldownUntil = 0, ce_RetryAfterSecs = 0,
      ce_RetryProvided = False, ce_RetryAfterValue = [], ce_Failure = None,
      ce_AllKeysCooling = False, ce_RateLimitFailures = 0, ce_RequestStartedAt = 0, ce_QueueMS = 0\<rparr>"

text \<open>A Go error that may or may not be a \<open>CallError\<close>, as \<open>errors.As\<close> sees it.\<close>

datatype go_error = CallErr call_error | OtherErr string

fun as_call_error :: "go_error option \<Rightarrow> call_error option" where
  "as_call_error (Some (CallErr e)) = Some e"
| "as_call_error _ = None"

text \<open>What the code reads of an HTTP response: the status and \<open>Header.Get\<close>.\<close>

record http_response =
  resp_StatusCode :: int
  resp_Header :: "string \<Rightarrow> string"

section \<open>Retry-After\<close>

text \<open>\<open>time.Unix(sec, nsec)\<close> and the last second of the year 9999.\<close>

definition time_of_unix :: "int \<Rightarrow> int \<Rightarrow> time" where
  "time_of_unix s ns = (s + 62135596800) * second + ns"

abbreviation latest_unix :: int where "latest_unix \<equiv> 253402300799"

definition retryAfterDeadline ::
  "(string \<Rightarrow> time option) \<Rightarrow> http_response \<Rightarrow> time \<Rightarrow> time \<times> int \<times> bool"
where
  "retryAfterDeadline http_time resp now =
     (let v = trim_space (resp_Header resp ''Retry-After'') in
      if decimal_seconds v then
        (let maximumSeconds = latest_unix - unix_seconds now - 1 in
         case parse_int64 v of
           None \<Rightarrow> (time_of_unix latest_unix 0, maximumSeconds, True)
         | Some s \<Rightarrow>
             if maximumSeconds < s then (time_of_unix latest_unix 0, maximumSeconds, True)
             else (time_of_unix (unix_seconds now + s) (nanosecond_of now), s, True))
      else (case http_time v of
              None \<Rightarrow> (0, 0, False)
            | Some atime \<Rightarrow>
                if \<not> now < atime then (now, 0, True)
                else
                  (let s = unix_seconds atime - unix_seconds now
                   in (atime, if nanosecond_of now < nanosecond_of atime then s + 1 else s, True))))"

definition bounded_cooldown :: "duration \<Rightarrow> duration" where
  "bounded_cooldown delay = (if delay < second then second else if day < delay then day else delay)"

section \<open>Mapping an upstream error\<close>

definition mappedHTTPStatus :: "category \<Rightarrow> int \<Rightarrow> int" where
  "mappedHTTPStatus c upstream =
     (let status = client_error_status c in
      if upstream < 400 \<or> 499 < upstream then status
      else if c = ProviderErrorInsufficientBalance then (if upstream \<in> {402, 403} then upstream else status)
      else if c = ProviderErrorAuthentication then (if upstream \<in> {401, 403} then upstream else status)
      else if c \<in> {ProviderErrorPermissionDenied, ProviderErrorAccessDenied} then
        (if upstream = 403 then upstream else status)
      else if c = ProviderErrorPolicyDenied then (if upstream \<in> {400, 403} then upstream else status)
      else if c = ProviderErrorInvalidRequest then (if upstream \<in> {400, 413, 422} then upstream else status)
      else if c = ProviderErrorModelNotFound then (if upstream \<in> {400, 404} then upstream else status)
      else status)"

definition mappedProviderError ::
  "(string \<Rightarrow> time option) \<Rightarrow> time \<Rightarrow> http_response \<Rightarrow> category \<Rightarrow> string \<Rightarrow> call_error"
where
  "mappedProviderError http_time now resp c providerCode =
     (let r0 = (call_error_of (mappedHTTPStatus c (resp_StatusCode resp)) (client_error_code c))
                 \<lparr>ce_ProviderCode := providerCode, ce_Category := c, ce_UpstreamStatus := resp_StatusCode resp\<rparr>;
          r1 = (if provider_scoped_terminal c \<or> c = ProviderErrorModelNotFound \<or> c = ProviderErrorTemporarilyUnavailable
                then r0\<lparr>ce_FailoverSafe := True\<rparr> else r0)
      in if c \<in> {ProviderErrorRateLimited, ProviderErrorQuotaExhausted, ProviderErrorAccessDenied,
                 ProviderErrorFairUseThrottled, ProviderErrorTemporarilyUnavailable} then
           (let (until, secs, provided) = retryAfterDeadline http_time resp now;
                r2 = r1\<lparr>ce_RetryAfterSecs := secs, ce_RetryProvided := provided\<rparr>
            in if provided
               then r2\<lparr>ce_CooldownUntil := until, ce_Cooldown := time_sub until now,
                       ce_RetryAfterValue := trim_space (resp_Header resp ''Retry-After'')\<rparr>
               else if c = ProviderErrorRateLimited then r2\<lparr>ce_Cooldown := second\<rparr>
               else r2)
         else if c = ProviderErrorAuthentication then r1\<lparr>ce_Cooldown := 30 * second\<rparr>
         else r1)"

definition unsupported_phrases :: "string list" where
  "unsupported_phrases = [''not support'', ''unsupported'', ''unavailable'', ''unknown parameter'',
     ''unrecognized'', ''extra inputs are not permitted'']"

definition rejectable_params :: "string list" where
  "rejectable_params = [''response_format'', ''output_config'', ''reasoning_effort'', ''thinking'',
     ''temperature'', ''tools'', ''tool_choice'']"

definition invalidProviderRequestError :: "http_response \<Rightarrow> json option \<Rightarrow> call_error" where
  "invalidProviderRequestError resp body =
     (let message = map to_lower (error_string ''message'' body);
          hit = (if error_decodes [''message'', ''param''] body \<and> list_ex (contains_str message) unsupported_phrases
                 then find (\<lambda>p. error_string ''param'' body = p \<or> contains_str message p) rejectable_params
                 else None);
          base = (call_error_of (resp_StatusCode resp) ''upstream_invalid_request'')
                   \<lparr>ce_UpstreamStatus := resp_StatusCode resp\<rparr>
      in case hit of
           None \<Rightarrow> base
         | Some p \<Rightarrow> base\<lparr>ce_Code := ''unsupported_parameter_'' @ p, ce_Param := p\<rparr>)"

definition request_id_headers :: "string list" where
  "request_id_headers = [''request-id'', ''x-request-id'', ''x-ms-request-id'']"

definition providerRequestID :: "message_ops \<Rightarrow> (string \<Rightarrow> string) \<Rightarrow> string" where
  "providerRequestID ops hdr =
     (case find (\<lambda>v. v \<noteq> []) (map (\<lambda>n. fl_ProviderRequestID
          (normalize_failure ops (empty_failure\<lparr>fl_ProviderRequestID := hdr n\<rparr>))) request_id_headers) of
        None \<Rightarrow> []
      | Some v \<Rightarrow> v)"

definition providerFailure ::
  "message_ops \<Rightarrow> json option \<Rightarrow> http_response option \<Rightarrow> string \<Rightarrow> error_mapping list \<Rightarrow> failure"
where
  "providerFailure ops body resp source ms =
     (let f0 = empty_failure\<lparr>fl_Source := source, fl_CodeState := ''missing''\<rparr>;
          f1 = (case resp of None \<Rightarrow> f0
                | Some r \<Rightarrow> f0\<lparr>fl_HTTPStatus := resp_StatusCode r,
                               fl_ProviderRequestID := providerRequestID ops (resp_Header r)\<rparr>);
          f2 = f1\<lparr>fl_ErrorStatus := providerErrorHTTPStatus body\<rparr>;
          f3 = (if error_decodes [''type'', ''message''] body
                then f2\<lparr>fl_ProviderType := error_string ''type'' body,
                        fl_ProviderMessage := error_string ''message'' body\<rparr> else f2);
          code = providerErrorCode body
      in if code \<noteq> [] then
           f3\<lparr>fl_ProviderCode := code,
              fl_ConfiguredCode := snd (resolveProviderErrorCategory code
                (if source = ''stream_error'' then fl_ErrorStatus f3 else fl_HTTPStatus f3) ms)\<rparr>
         else if \<not> error_decodes [] body then f3\<lparr>fl_CodeState := ''invalid''\<rparr>
         else if list_ex (\<lambda>kv. fst kv = ''code'' \<or> fst kv = ''type'') (error_members body)
           then f3\<lparr>fl_CodeState := ''redacted''\<rparr>
         else f3)"

text \<open>The classification of \<open>upstreamError\<close>, before the failure details are attached.\<close>

definition upstream_error_class ::
  "(string \<Rightarrow> time option) \<Rightarrow> time \<Rightarrow> http_response \<Rightarrow> json option \<Rightarrow> error_mapping list \<Rightarrow> call_error"
where
  "upstream_error_class http_time now resp body ms =
     (let status = resp_StatusCode resp; (c, ok) = resolveErrorCategory body status ms in
      if ok then
        (if c = ProviderErrorInvalidRequest \<and> ce_Param (invalidProviderRequestError resp body) \<noteq> []
         then invalidProviderRequestError resp body
         else mappedProviderError http_time now resp c (providerErrorCode body))
      else if status = 429 then
        (mappedProviderError http_time now resp ProviderErrorRateLimited [])\<lparr>ce_ProviderCode := []\<rparr>
      else if status = 401 \<or> status = 403 then
        (call_error_of 502 ''upstream_error'')\<lparr>ce_UpstreamStatus := status, ce_Cooldown := 30 * second\<rparr>
      else if 500 \<le> status \<and> status \<le> 599 then
        (let (until, secs, provided) = retryAfterDeadline http_time resp now;
             r = (call_error_of 502 ''upstream_error'')\<lparr>ce_UpstreamStatus := status, ce_RetryProvided := provided\<rparr>
         in if provided
            then r\<lparr>ce_CooldownUntil := until, ce_Cooldown := time_sub until now, ce_RetryAfterSecs := secs,
                   ce_RetryAfterValue := trim_space (resp_Header resp ''Retry-After'')\<rparr>
            else r)
      else if status \<noteq> 400 \<and> status \<noteq> 413 \<and> status \<noteq> 422 then
        (call_error_of 502 ''upstream_error'')\<lparr>ce_UpstreamStatus := status\<rparr>
      else invalidProviderRequestError resp body)"

definition upstreamError ::
  "message_ops \<Rightarrow> (string \<Rightarrow> time option) \<Rightarrow> time \<Rightarrow> http_response \<Rightarrow> json option
     \<Rightarrow> error_mapping list \<Rightarrow> call_error"
where
  "upstreamError ops http_time now resp body ms =
     (upstream_error_class http_time now resp body ms)
       \<lparr>ce_Failure := Some (providerFailure ops body (Some resp) ''http_error'' ms)\<rparr>"

definition providerStreamError ::
  "message_ops \<Rightarrow> (string \<Rightarrow> time option) \<Rightarrow> time \<Rightarrow> http_response option \<Rightarrow> json option
     \<Rightarrow> error_mapping list \<Rightarrow> call_error"
where
  "providerStreamError ops http_time now resp body ms =
     (let code = providerErrorCode body; status = providerErrorHTTPStatus body;
          (c0, ok0) = resolveErrorCategory body status ms;
          (c, ok) = (if \<not> ok0 \<and> status = 429 then (ProviderErrorRateLimited, True) else (c0, ok0));
          base = (case resp of None \<Rightarrow> \<lparr>resp_StatusCode = 200, resp_Header = (\<lambda>_. [])\<rparr> | Some r \<Rightarrow> r);
          response = (if 0 < status then base\<lparr>resp_StatusCode := status\<rparr> else base);
          result = (if code = [] \<and> status \<noteq> 429 then call_error_of 502 ''upstream_stream_error''
                    else if \<not> ok then call_error_of 502 ''upstream_stream_error''
                    else mappedProviderError http_time now response c code)
      in result\<lparr>ce_Failure := Some (providerFailure ops body resp ''stream_error'' ms)\<rparr>)"

section \<open>Safe classes\<close>

record attempt_result =
  ar_Outcome :: string
  ar_FailureClass :: string

definition SafeFailureClass :: "go_error option \<Rightarrow> string" where
  "SafeFailureClass err =
     (case as_call_error err of
        None \<Rightarrow> ''upstream_error''
      | Some e \<Rightarrow>
          if ce_Category e \<in> set known_categories then ce_Category e
          else if ce_UpstreamStatus e = 401 then ''authentication''
          else if ce_UpstreamStatus e = 403 then ''permission_denied''
          else if ce_UpstreamStatus e = 429 then ''rate_limited''
          else if ce_Code e = ''upstream_transport_error'' then ''transport_error''
          else if ce_Code e \<in> {''invalid_upstream_response'', ''invalid_upstream_stream'',
                  ''invalid_upstream_content_type'', ''upstream_read_error'', ''upstream_response_too_large''}
            then ''invalid_response''
          else if ce_Code e = ''downstream_write_error'' then ''downstream_error''
          else if ce_Code e = ''upstream_timeout'' then ''timeout''
          else if ce_Code e \<in> {''request_canceled'', ''server_shutting_down''} then ''canceled''
          else ''upstream_error'')"

definition failureRetryability :: "call_error \<Rightarrow> string" where
  "failureRetryability e =
     (if provider_scoped_terminal (ce_Category e) then ''terminal''
      else if ce_Code e \<in> {''request_canceled'', ''server_shutting_down'', ''downstream_write_error''} then ''terminal''
      else if ce_Category e \<in> {ProviderErrorRateLimited, ProviderErrorTemporarilyUnavailable} then ''retryable''
      else if ce_Category e \<in> {ProviderErrorAuthentication, ProviderErrorPermissionDenied, ProviderErrorPolicyDenied,
              ProviderErrorInvalidRequest, ProviderErrorModelNotFound, ProviderErrorInsufficientBalance,
              ProviderErrorQuotaExhausted} then ''terminal''
      else
        (let status = (case ce_Failure e of
                         Some f \<Rightarrow> if fl_ErrorStatus f \<noteq> 0 then fl_ErrorStatus f else ce_UpstreamStatus e
                       | None \<Rightarrow> ce_UpstreamStatus e)
         in if status = 408 \<or> status = 409 \<or> status = 429 \<or> 500 \<le> status \<and> status \<le> 599 then ''retryable''
            else if 400 \<le> status \<and> status \<le> 499 then ''terminal''
            else if ce_Code e \<in> {''upstream_timeout'', ''upstream_transport_error'', ''upstream_read_error'',
                    ''upstream_stream_read_error'', ''incomplete_upstream_stream''} then ''retryable''
            else ''unknown''))"

section \<open>Resolution of mappings\<close>

definition mapping_key :: "error_mapping \<Rightarrow> string \<times> int" where
  "mapping_key m = (em_UpstreamCode m, em_HTTPStatus m)"

text \<open>The mapping of a key in a list where keys are distinct.\<close>

definition mapping_at :: "error_mapping list \<Rightarrow> string \<times> int \<Rightarrow> category option" where
  "mapping_at ms k = map_of (map (\<lambda>m. (mapping_key m, em_Category m)) ms) k"

lemma mapping_at_Nil [simp]: "mapping_at [] k = None"
  by (simp add: mapping_at_def)

lemma mapping_at_Cons [simp]:
  "mapping_at (m # ms) k = (if mapping_key m = k then Some (em_Category m) else mapping_at ms k)"
  by (auto simp: mapping_at_def)

lemma resolve_loop_spec:
  "distinct (map mapping_key ms) \<Longrightarrow>
   resolve_loop code status fb ms =
     (case mapping_at ms (code, status) of
        Some c \<Rightarrow> c
      | None \<Rightarrow> (case mapping_at ms (code, 0) of Some c \<Rightarrow> c | None \<Rightarrow> fb))"
proof (induction ms arbitrary: fb)
  case Nil
  then show ?case by simp
next
  case (Cons m ms)
  have "mapping_at ms (mapping_key m) = None"
    using Cons.prems by (auto simp: mapping_at_def map_of_eq_None_iff)
  with Cons show ?case by (auto simp: mapping_key_def split: option.splits)
qed

lemma hit_exact_spec: "hit_exact code status ms \<longleftrightarrow> mapping_at ms (code, status) \<noteq> None"
  by (induction ms) (auto simp: hit_exact_def mapping_key_def)

lemma mapping_at_perm:
  assumes "mset ms' = mset ms" and "distinct (map mapping_key ms)"
  shows "mapping_at ms' = mapping_at ms"
proof -
  let ?g = "\<lambda>m. (mapping_key m, em_Category m)"
  have "mset (map mapping_key ms') = mset (map mapping_key ms)" using assms(1) by simp
  then have "distinct (map mapping_key ms')" using assms(2) by (metis distinct_count_atmost_1 set_mset_mset)
  then have d: "distinct (map fst (map ?g ms'))" "distinct (map fst (map ?g ms))"
    using assms(2) by (simp_all add: comp_def)
  have "set (map ?g ms') = set (map ?g ms)" using assms(1) by (metis mset_map set_mset_mset)
  with d have "map_of (map ?g ms') = map_of (map ?g ms)"
    by (simp only: map_of_inject_set)
  then show ?thesis by (simp add: mapping_at_def fun_eq_iff)
qed

lemma validate_from_distinct:
  "validate_from before ms = None \<Longrightarrow> distinct (map mapping_key before) \<Longrightarrow>
   distinct (map mapping_key (before @ ms))"
proof (induction before ms rule: validate_from.induct)
  case (1 before)
  then show ?case by simp
next
  case (2 before m ms)
  then have "mapping_key m \<notin> mapping_key ` set before"
    by (auto simp: mapping_key_def list_ex_iff split: option.splits if_splits)
  moreover have "validate_from (before @ [m]) ms = None"
    using 2(2) by (auto split: option.splits if_splits)
  ultimately show ?case using 2 by (auto split: option.splits if_splits)
qed

lemma validated_distinct:
  "ValidateProviderErrorMappings ms = None \<Longrightarrow> distinct (map mapping_key ms)"
  using validate_from_distinct [of "[]" ms] by (auto simp: ValidateProviderErrorMappings_def split: if_splits)

text \<open>
  C20. For mappings that pass validation the category of a provider code does not depend on the
  order in which the operator lists them: a mapping for the exact status has priority, then the
  mapping without a status.
\<close>

theorem mapping_order_irrelevant:
  assumes "ValidateProviderErrorMappings ms = None" and "mset ms' = mset ms"
  shows "resolveProviderErrorCategory code status ms' = resolveProviderErrorCategory code status ms \<and>
     fst (resolveProviderErrorCategory code status ms) =
       (case mapping_at ms (code, status) of
          Some c \<Rightarrow> c
        | None \<Rightarrow> (case mapping_at ms (code, 0) of Some c \<Rightarrow> c | None \<Rightarrow> []))"
proof -
  have d: "distinct (map mapping_key ms)" by (rule validated_distinct [OF assms(1)])
  have "mset (map mapping_key ms') = mset (map mapping_key ms)" using assms(2) by simp
  with d have d': "distinct (map mapping_key ms')" by (metis distinct_count_atmost_1 set_mset_mset)
  show ?thesis
    unfolding resolveProviderErrorCategory_def Let_def resolve_loop_spec [OF d] resolve_loop_spec [OF d']
      hit_exact_spec mapping_at_perm [OF assms(2) d]
    by simp
qed

definition sample_mappings :: "error_mapping list" where
  "sample_mappings = [\<lparr>em_UpstreamCode = ''1113'', em_HTTPStatus = 429, em_Category = ProviderErrorInsufficientBalance\<rparr>,
     \<lparr>em_UpstreamCode = ''1113'', em_HTTPStatus = 0, em_Category = ProviderErrorRateLimited\<rparr>]"

theorem mapping_order_irrelevant_witness:
  "ValidateProviderErrorMappings sample_mappings = None \<and>
   fst (resolveProviderErrorCategory ''1113'' 429 (rev sample_mappings)) = ProviderErrorInsufficientBalance"
proof -
  have v: "ValidateProviderErrorMappings sample_mappings = None"
    and r: "fst (resolveProviderErrorCategory ''1113'' 429 sample_mappings) = ProviderErrorInsufficientBalance"
    by code_simp+
  from mapping_order_irrelevant [OF v mset_rev, of "''1113''" 429] v r show ?thesis by simp
qed

section \<open>Waits\<close>

lemma digit_val_nonneg: "is_digit c \<Longrightarrow> 0 \<le> digit_val c"
  by (simp add: is_digit_def digit_val_def)

lemma decimal_val_nonneg: "list_all is_digit s \<Longrightarrow> 0 \<le> decimal_val s"
proof -
  have "list_all is_digit s \<Longrightarrow> 0 \<le> acc \<Longrightarrow> 0 \<le> foldl (\<lambda>acc c. acc * 10 + digit_val c) acc s" for acc
    by (induction s arbitrary: acc) (auto simp: digit_val_nonneg)
  then show "list_all is_digit s \<Longrightarrow> 0 \<le> decimal_val s" by (simp add: decimal_val_def)
qed

lemma parse_int64_decimal:
  assumes "decimal_seconds v"
  shows "parse_int64 v = (if decimal_val v \<le> max_int64 then Some (decimal_val v) else None)"
proof -
  obtain c cs where v: "v = c # cs" "is_digit c"
    using assms by (cases v) (auto simp: decimal_seconds_def)
  have "c \<noteq> CHR ''-''" using v(2) by (auto simp: is_digit_def)
  moreover have "0 \<le> decimal_val v" using assms by (simp add: decimal_seconds_def decimal_val_nonneg)
  ultimately show ?thesis
    using v assms by (auto simp: parse_int64_def min_int64_def)
qed

lemma time_of_unix_now: "time_of_unix (unix_seconds now + s) (nanosecond_of now) = now + s * second"
  by (simp add: time_of_unix_def unix_seconds_def nanosecond_of_def algebra_simps)

text \<open>
  A decimal \<open>Retry-After\<close> is honoured exactly, and where the deadline would pass the year 9999
  (however many digits the provider sends, also beyond 64 bits) it is held at the last
  representable second: it never becomes an invalid or a shorter wait.
\<close>

theorem retry_after_held_fail_closed:
  assumes "decimal_seconds (trim_space (resp_Header resp ''Retry-After''))" and "0 \<le> now"
  shows "retryAfterDeadline http_time resp now =
    (let v = decimal_val (trim_space (resp_Header resp ''Retry-After''));
         room = latest_unix - unix_seconds now - 1
     in if v \<le> room then (now + v * second, v, True)
        else (time_of_unix latest_unix 0, room, True))"
proof -
  have "latest_unix - unix_seconds now - 1 \<le> max_int64"
    using assms(2) by (simp add: unix_seconds_def max_int64_def)
  then show ?thesis
    using assms(1)
    by (auto simp: retryAfterDeadline_def Let_def parse_int64_decimal time_of_unix_now)
qed

theorem retry_after_held_fail_closed_witness:
  "retryAfterDeadline (\<lambda>_. None) \<lparr>resp_StatusCode = 429, resp_Header = (\<lambda>_. ''99999999999999999999'')\<rparr> 0 =
     (time_of_unix latest_unix 0, latest_unix + 62135596799, True)"
proof -
  have "decimal_seconds (trim_space ''99999999999999999999'')" "decimal_val (trim_space ''99999999999999999999'') = 99999999999999999999"
    by code_simp+
  with retry_after_held_fail_closed [of "\<lparr>resp_StatusCode = 429, resp_Header = (\<lambda>_. ''99999999999999999999'')\<rparr>" 0 "\<lambda>_. None"]
  show ?thesis by (simp add: unix_seconds_def)
qed

section \<open>Classification\<close>

lemma mappedHTTPStatus_range: "400 \<le> mappedHTTPStatus c st \<and> mappedHTTPStatus c st \<le> 503"
  unfolding mappedHTTPStatus_def client_error_status_def Let_def by (simp split: if_splits)

lemma mappedProviderError_fields [simp]:
  "ce_UpstreamStatus (mappedProviderError ht now resp c pc) = resp_StatusCode resp"
  "ce_Category (mappedProviderError ht now resp c pc) = c"
  "ce_Status (mappedProviderError ht now resp c pc) = mappedHTTPStatus c (resp_StatusCode resp)"
  "ce_UpstreamNotAttempted (mappedProviderError ht now resp c pc) = False"
  "ce_BudgetCost (mappedProviderError ht now resp c pc) = None"
  unfolding mappedProviderError_def Let_def call_error_of_def
  by (simp_all split: prod.split)

lemma invalidProviderRequestError_fields [simp]:
  "ce_UpstreamStatus (invalidProviderRequestError resp body) = resp_StatusCode resp"
  "ce_Status (invalidProviderRequestError resp body) = resp_StatusCode resp"
  "ce_UpstreamNotAttempted (invalidProviderRequestError resp body) = False"
  "ce_BudgetCost (invalidProviderRequestError resp body) = None"
  "ce_Category (invalidProviderRequestError resp body) = []"
  unfolding invalidProviderRequestError_def Let_def call_error_of_def
  by (simp_all split: option.split)

text \<open>The shapes a classified error can have.\<close>

lemma upstream_error_class_shapes:
  fixes P :: "call_error \<Rightarrow> bool"
  assumes "P (invalidProviderRequestError resp body)"
    and "\<And>c pc. P (mappedProviderError ht now resp c pc)"
    and "\<And>c pc. P ((mappedProviderError ht now resp c pc)\<lparr>ce_ProviderCode := []\<rparr>)"
    and "P ((call_error_of 502 ''upstream_error'')\<lparr>ce_UpstreamStatus := resp_StatusCode resp, ce_Cooldown := 30 * second\<rparr>)"
    and "P ((call_error_of 502 ''upstream_error'')\<lparr>ce_UpstreamStatus := resp_StatusCode resp\<rparr>)"
    and "\<And>p cu cd ra rv. P ((call_error_of 502 ''upstream_error'')\<lparr>ce_UpstreamStatus := resp_StatusCode resp,
           ce_RetryProvided := p, ce_CooldownUntil := cu, ce_Cooldown := cd, ce_RetryAfterSecs := ra,
           ce_RetryAfterValue := rv\<rparr>)"
    and "\<And>p. P ((call_error_of 502 ''upstream_error'')\<lparr>ce_UpstreamStatus := resp_StatusCode resp,
           ce_RetryProvided := p\<rparr>)"
  shows "P (upstream_error_class ht now resp body ms)"
proof -
  have pick: "P (if b then x else y)" if "P x" "P y" for b x y
    using that by simp
  show ?thesis
    unfolding upstream_error_class_def Let_def case_prod_unfold
    by (intro pick assms)
qed

lemma upstream_error_class_fields:
  "ce_UpstreamNotAttempted (upstream_error_class ht now resp body ms) = False"
  "ce_UpstreamStatus (upstream_error_class ht now resp body ms) = resp_StatusCode resp"
  by (rule upstream_error_class_shapes [where P = "\<lambda>e. ce_UpstreamNotAttempted e = False"];
      simp add: call_error_of_def)
    (rule upstream_error_class_shapes [where P = "\<lambda>e. ce_UpstreamStatus e = resp_StatusCode resp"];
      simp add: call_error_of_def)

lemma upstream_error_class_status:
  assumes "400 \<le> resp_StatusCode resp" and "resp_StatusCode resp \<le> 599"
  shows "400 \<le> ce_Status (upstream_error_class ht now resp body ms) \<and>
         ce_Status (upstream_error_class ht now resp body ms) \<le> 599"
  by (rule upstream_error_class_shapes [where P = "\<lambda>e. 400 \<le> ce_Status e \<and> ce_Status e \<le> 599"])
    (simp_all add: call_error_of_def assms mappedHTTPStatus_range
      order_trans [OF mappedHTTPStatus_range [THEN conjunct2]])

text \<open>
  An error response of a provider is never taken for a request that was not sent: for every
  status and body the resulting error records the upstream status, does not claim that nothing
  was attempted (so a reservation is not released), carries failure details of source
  \<open>http_error\<close>, and its downstream status is a client or server error when the provider's was.
\<close>

theorem upstream_error_is_attempted:
  assumes "400 \<le> resp_StatusCode resp" and "resp_StatusCode resp \<le> 599"
  shows "let e = upstreamError ops http_time now resp body ms in
     \<not> ce_UpstreamNotAttempted e \<and> ce_UpstreamStatus e = resp_StatusCode resp \<and>
     400 \<le> ce_Status e \<and> ce_Status e \<le> 599 \<and>
     (\<exists>f. ce_Failure e = Some f \<and> fl_Source f = ''http_error'' \<and> fl_HTTPStatus f = resp_StatusCode resp)"
proof -
  let ?e = "upstream_error_class http_time now resp body ms"
  have "400 \<le> ce_Status ?e \<and> ce_Status ?e \<le> 599"
    by (rule upstream_error_class_status [OF assms])
  then have class_ok: "\<not> ce_UpstreamNotAttempted ?e \<and> ce_UpstreamStatus ?e = resp_StatusCode resp \<and>
      400 \<le> ce_Status ?e \<and> ce_Status ?e \<le> 599"
    by (simp add: upstream_error_class_fields)
  have "fl_Source (providerFailure ops body (Some resp) ''http_error'' ms) = ''http_error''"
    and "fl_HTTPStatus (providerFailure ops body (Some resp) ''http_error'' ms) = resp_StatusCode resp"
    by (simp_all add: providerFailure_def Let_def)
  with class_ok show ?thesis by (simp add: upstreamError_def Let_def)
qed

theorem upstream_error_is_attempted_witness:
  "\<not> ce_UpstreamNotAttempted (upstreamError plain_ops (\<lambda>_. None) second \<lparr>resp_StatusCode = 503, resp_Header = (\<lambda>_. [])\<rparr> None []) \<and>
   ce_UpstreamStatus (upstreamError plain_ops (\<lambda>_. None) second \<lparr>resp_StatusCode = 503, resp_Header = (\<lambda>_. [])\<rparr> None []) = 503"
  using upstream_error_is_attempted [of "\<lparr>resp_StatusCode = 503, resp_Header = (\<lambda>_. [])\<rparr>" plain_ops "\<lambda>_. None" second None "[]"]
  by (simp add: Let_def)

text \<open>
  The class under which a failure is counted and logged is always one of the fixed names,
  whatever code, message or status the provider returned, and every such name survives
  normalization unchanged.
\<close>

theorem safe_failure_class_closed:
  "SafeFailureClass err \<in> set failure_categories \<and>
   enum_of (SafeFailureClass err) failure_categories = SafeFailureClass err"
proof -
  have known: "c \<in> set known_categories \<Longrightarrow> c \<in> set failure_categories" for c
    by (auto simp: known_categories_def failure_categories_def)
  have names: "\<forall>n \<in> {''upstream_error'', ''authentication'', ''permission_denied'', ''rate_limited'',
      ''transport_error'', ''invalid_response'', ''downstream_error'', ''timeout'', ''canceled''}.
      n \<in> set failure_categories"
    by (simp add: failure_categories_def)
  have pick: "(if c then x else y) \<in> S" if "x \<in> S" "y \<in> S" for c and x y :: string and S
    using that by simp
  have "SafeFailureClass err \<in> set failure_categories"
  proof (cases "as_call_error err")
    case None
    then show ?thesis using names by (simp add: SafeFailureClass_def)
  next
    case (Some e)
    show ?thesis
    proof (cases "ce_Category e \<in> set known_categories")
      case True
      with Some show ?thesis using known by (simp add: SafeFailureClass_def)
    next
      case False
      show ?thesis
        unfolding SafeFailureClass_def Some option.case if_not_P [OF False]
        by (intro pick; rule names [THEN bspec]; simp)
    qed
  qed
  then show ?thesis by (simp add: enum_of_def)
qed

end
