(* ===== verification/Pricing.thy ===== *)
theory Pricing
  imports Go_Float Provider_Errors
begin

text \<open>
  Token usage and prices of the adapter (\<^verbatim>\<open>internal/adapter/protocol.go\<close> and \<^verbatim>\<open>pricing.go\<close>): the
  usage object of a provider response, the price of a model and the cost of a request.

  A response is a parsed JSON value, \<open>None\<close> when the bytes are not JSON. The host name of a base
  URL (\<open>url.Parse\<close> and \<open>Hostname\<close>), \<open>strings.ToUpper\<close> and \<open>strings.ToLower\<close>, which rest on tables
  that are not in the sources, are the fields of \<open>text_ops\<close>. Products and sums are rounded one by one; Go may
  fuse them on some processors.
\<close>

section \<open>Data\<close>

record text_ops =
  tx_upper :: "string \<Rightarrow> string"
  tx_lower :: "string \<Rightarrow> string"
  tx_hostname :: "string \<Rightarrow> string option"

record token_usage =
  tu_Input :: "int option"
  tu_Output :: "int option"
  tu_CacheRead :: "int option"
  tu_CacheWrite :: "int option"

record price =
  pr_Currency :: string
  pr_Source :: string
  pr_Version :: string
  pr_InputCacheHit :: "float64 option"
  pr_InputCacheMiss :: "float64 option"
  pr_Output :: "float64 option"

definition no_usage :: token_usage where
  "no_usage = \<lparr>tu_Input = None, tu_Output = None, tu_CacheRead = None, tu_CacheWrite = None\<rparr>"

definition amount_valid :: "float64 \<Rightarrow> bool" where
  "amount_valid x \<longleftrightarrow> \<not> (f_lt x (Fin 0) \<or> is_nan x \<or> is_inf x)"

definition price_validate :: "text_ops \<Rightarrow> price \<Rightarrow> bool" where
  "price_validate tx p \<longleftrightarrow>
     \<not> (length (pr_Currency p) \<noteq> 3 \<or> tx_upper tx (pr_Currency p) \<noteq> pr_Currency p \<or> trim_space (pr_Source p) = [] \<or>
        trim_space (pr_Version p) = [] \<or> pr_InputCacheHit p = None \<or> pr_InputCacheMiss p = None \<or> pr_Output p = None) \<and>
     list_all (\<lambda>x. case x of None \<Rightarrow> True | Some v \<Rightarrow> amount_valid v) [pr_InputCacheHit p, pr_InputCacheMiss p, pr_Output p]"

section \<open>Built-in prices\<close>

definition flash_models :: "string list" where
  "flash_models = [''deepseek-flash'', ''deepseek-v4-flash'', ''deepseek-v4-flash-vision-exp'']"

text \<open>The literals of the source are the doubles nearest to 0.006, 0.30 and 1.20.\<close>

definition BuiltInPrice :: "text_ops \<Rightarrow> string \<Rightarrow> string \<Rightarrow> price option" where
  "BuiltInPrice tx baseURL model =
     (if map_option (tx_lower tx) (tx_hostname tx baseURL) \<noteq> Some ''api.deepseek.com'' then None
      else if model \<notin> set flash_models then None
      else Some \<lparr>pr_Currency = ''USD'', pr_Source = ''https://api-docs.deepseek.com/quick_start/pricing/'',
             pr_Version = ''deepseek-v4-pricing-2026-08-16-peak'', pr_InputCacheHit = Some (round64 (6 / 1000)),
             pr_InputCacheMiss = Some (round64 (3 / 10)), pr_Output = Some (round64 (12 / 10))\<rparr>)"

section \<open>Usage\<close>

abbreviation usage_limit :: int where "usage_limit \<equiv> 1000000000000"

text \<open>The closure \<open>get\<close>: a missing or null member is no count, \<open>Inl\<close> is the error \<open>invalid usage\<close>.\<close>

datatype usage_error = InvalidUsage | IncompleteCacheUsage | InvalidCacheUsage

definition usage_member :: "(string \<times> json) list \<Rightarrow> string \<Rightarrow> json option" where
  "usage_member kvs key = last_opt (map snd (filter (\<lambda>kv. fst kv = key) kvs))"

fun usage_count :: "json option \<Rightarrow> usage_error + int option" where
  "usage_count None = Inr None"
| "usage_count (Some JNull) = Inr None"
| "usage_count (Some (JNum lit)) =
     (case parse_int64 lit of
        None \<Rightarrow> Inl InvalidUsage
      | Some n \<Rightarrow> if n < 0 \<or> usage_limit < n then Inl InvalidUsage else Inr (Some n))"
| "usage_count (Some _) = Inl InvalidUsage"

definition usage_get :: "(string \<times> json) list \<Rightarrow> string \<Rightarrow> usage_error + int option" where
  "usage_get kvs key = usage_count (usage_member kvs key)"

definition bind_usage :: "usage_error + 'a \<Rightarrow> ('a \<Rightarrow> usage_error + 'b) \<Rightarrow> usage_error + 'b" where
  "bind_usage x f = (case x of Inl e \<Rightarrow> Inl e | Inr v \<Rightarrow> f v)"

text \<open>\<open>prompt_tokens_details\<close> overrides a count only with a count.\<close>

definition usage_override :: "(string \<times> json) list \<Rightarrow> string \<Rightarrow> int option \<Rightarrow> usage_error + int option" where
  "usage_override d key old =
     (case usage_member d key of
        None \<Rightarrow> Inr old
      | Some JNull \<Rightarrow> Inr old
      | Some j \<Rightarrow> usage_count (Some j))"

definition usage_details :: "(string \<times> json) list \<Rightarrow> int option \<Rightarrow> usage_error + int option \<times> int option" where
  "usage_details kvs cacheRead =
     (case usage_member kvs ''prompt_tokens_details'' of
        None \<Rightarrow> Inr (cacheRead, None)
      | Some j \<Rightarrow>
          if \<not> object_or_null j then Inl InvalidUsage
          else bind_usage (usage_override (members j) ''cached_tokens'' cacheRead) (\<lambda>r.
               bind_usage (usage_override (members j) ''cache_write_tokens'' None) (\<lambda>w. Inr (r, w))))"

definition openai_usage :: "(string \<times> json) list \<Rightarrow> usage_error + token_usage" where
  "openai_usage kvs =
     bind_usage (usage_get kvs ''prompt_tokens'') (\<lambda>input.
     bind_usage (usage_get kvs ''completion_tokens'') (\<lambda>output.
     bind_usage (usage_get kvs ''prompt_cache_hit_tokens'') (\<lambda>hit.
     bind_usage (usage_details kvs hit) (\<lambda>(cacheRead, cacheWrite).
     bind_usage (usage_get kvs ''prompt_cache_miss_tokens'') (\<lambda>miss.
       if (case miss of
             None \<Rightarrow> False
           | Some m \<Rightarrow> (case (input, cacheRead) of (Some i, Some r) \<Rightarrow> m + r \<noteq> i | _ \<Rightarrow> True))
       then Inl IncompleteCacheUsage
       else Inr \<lparr>tu_Input = input, tu_Output = output, tu_CacheRead = cacheRead, tu_CacheWrite = cacheWrite\<rparr>)))))"

definition count_or_zero :: "int option \<Rightarrow> int" where
  "count_or_zero n = (case n of None \<Rightarrow> 0 | Some v \<Rightarrow> v)"

text \<open>Anthropic reports cached tokens apart from the input; the model of the code adds them to it.\<close>

definition anthropic_usage :: "(string \<times> json) list \<Rightarrow> usage_error + token_usage" where
  "anthropic_usage kvs =
     bind_usage (usage_get kvs ''input_tokens'') (\<lambda>input.
     bind_usage (usage_get kvs ''output_tokens'') (\<lambda>output.
     bind_usage (usage_get kvs ''cache_read_input_tokens'') (\<lambda>cacheRead.
     bind_usage (usage_get kvs ''cache_creation_input_tokens'') (\<lambda>cacheWrite.
       Inr \<lparr>tu_Input = map_option (\<lambda>v. v + count_or_zero cacheRead + count_or_zero cacheWrite) input,
            tu_Output = output, tu_CacheRead = cacheRead, tu_CacheWrite = cacheWrite\<rparr>))))"

definition ParseUsage :: "string \<Rightarrow> json option \<Rightarrow> usage_error + token_usage" where
  "ParseUsage protocol data =
     (case data of
        Some (JObj kvs) \<Rightarrow>
          bind_usage (if protocol = ''openai'' then openai_usage kvs else anthropic_usage kvs) (\<lambda>u.
            case tu_Input u of
              None \<Rightarrow> Inr u
            | Some i \<Rightarrow>
                if i < count_or_zero (tu_CacheRead u) + count_or_zero (tu_CacheWrite u) then Inl InvalidCacheUsage
                else Inr u)
      | _ \<Rightarrow> Inr no_usage)"

section \<open>Cost\<close>

definition f_int :: "int \<Rightarrow> float64" where
  "f_int n = round64 (of_int n)"

text \<open>The cost of an admissible usage, in the price's unit times a million.\<close>

definition cost_micro :: "price \<Rightarrow> token_usage \<Rightarrow> int \<Rightarrow> int \<Rightarrow> float64 \<Rightarrow> float64 \<Rightarrow> float64 \<Rightarrow> float64 option" where
  "cost_micro p u input output hit miss out =
     (case tu_CacheRead u of
        None \<Rightarrow>
          if \<not> f_eq hit miss then None
          else Some (f_add (f_mul (f_int output) out) (f_mul (f_int input) miss))
      | Some cacheRead \<Rightarrow>
          Some (f_add (f_mul (f_int output) out)
                  (f_add (f_mul (f_int cacheRead) hit) (f_mul (f_int (input - cacheRead)) miss))))"

definition Estimate :: "price \<Rightarrow> token_usage \<Rightarrow> float64 option" where
  "Estimate p u =
     (case (tu_Input u, tu_Output u, pr_InputCacheHit p, pr_InputCacheMiss p, pr_Output p) of
        (Some input, Some output, Some hit, Some miss, Some out) \<Rightarrow>
          (let cacheRead = count_or_zero (tu_CacheRead u) in
           if input < 0 \<or> output < 0 \<or> cacheRead < 0 then None
           else if (case tu_CacheWrite u of
                      None \<Rightarrow> False
                    | Some w \<Rightarrow> w < 0 \<or> input < cacheRead \<or> input - cacheRead < w) then None
           else if input < cacheRead then None
           else
             (case cost_micro p u input output hit miss out of
                None \<Rightarrow> None
              | Some c \<Rightarrow>
                  (let cost = f_div_pos c 1000000 in if is_inf cost \<or> is_nan cost then None else Some cost)))
      | _ \<Rightarrow> None)"

section \<open>What a parsed usage satisfies\<close>

definition count_in :: "int \<Rightarrow> int option \<Rightarrow> bool" where
  "count_in b n \<longleftrightarrow> (case n of None \<Rightarrow> True | Some v \<Rightarrow> 0 \<le> v \<and> v \<le> b)"

definition usage_wf :: "token_usage \<Rightarrow> bool" where
  "usage_wf u \<longleftrightarrow>
     count_in (3 * usage_limit) (tu_Input u) \<and> count_in usage_limit (tu_Output u) \<and>
     count_in usage_limit (tu_CacheRead u) \<and> count_in usage_limit (tu_CacheWrite u) \<and>
     (case tu_Input u of None \<Rightarrow> True | Some i \<Rightarrow> count_or_zero (tu_CacheRead u) + count_or_zero (tu_CacheWrite u) \<le> i)"

lemma bind_usage_Inr: "bind_usage x f = Inr v \<longleftrightarrow> (\<exists>w. x = Inr w \<and> f w = Inr v)"
  by (auto simp: bind_usage_def split: sum.splits)

lemma usage_count_in: "usage_count j = Inr n \<Longrightarrow> count_in usage_limit n"
  by (cases j rule: usage_count.cases) (auto simp: count_in_def split: option.splits if_splits)

lemma usage_get_in: "usage_get kvs key = Inr n \<Longrightarrow> count_in usage_limit n"
  by (auto simp: usage_get_def usage_count_in)

lemma usage_override_in: "usage_override d key old = Inr n \<Longrightarrow> count_in usage_limit old \<Longrightarrow> count_in usage_limit n"
  by (auto simp: usage_override_def split: option.splits json.splits intro: usage_count_in simp del: usage_count.simps)

lemma usage_details_in:
  assumes "usage_details kvs old = Inr (r, w)" "count_in usage_limit old"
  shows "count_in usage_limit r \<and> count_in usage_limit w"
proof (cases "usage_member kvs ''prompt_tokens_details''")
  case None
  with assms show ?thesis by (simp add: usage_details_def count_in_def)
next
  case (Some j)
  have "count_in usage_limit None" by (simp add: count_in_def)
  with assms Some show ?thesis
    by (auto simp: usage_details_def bind_usage_Inr split: if_splits dest: usage_override_in)
qed

lemma count_in_mono: "count_in b n \<Longrightarrow> b \<le> c \<Longrightarrow> count_in c n"
  by (auto simp: count_in_def split: option.splits)

lemma openai_usage_in:
  assumes "openai_usage kvs = Inr u"
  shows "count_in (3 * usage_limit) (tu_Input u)" "count_in usage_limit (tu_Output u)"
    "count_in usage_limit (tu_CacheRead u)" "count_in usage_limit (tu_CacheWrite u)"
proof -
  from assms obtain input outp hit r w where
    g: "usage_get kvs ''prompt_tokens'' = Inr input" "usage_get kvs ''completion_tokens'' = Inr outp"
      "usage_get kvs ''prompt_cache_hit_tokens'' = Inr hit" "usage_details kvs hit = Inr (r, w)"
    and u: "u = \<lparr>tu_Input = input, tu_Output = outp, tu_CacheRead = r, tu_CacheWrite = w\<rparr>"
    by (auto simp: openai_usage_def bind_usage_Inr split: if_splits)
  note usage_details_in [OF g(4) usage_get_in [OF g(3)]]
  with usage_get_in [OF g(1)] usage_get_in [OF g(2)] u
  show "count_in (3 * usage_limit) (tu_Input u)" "count_in usage_limit (tu_Output u)"
    "count_in usage_limit (tu_CacheRead u)" "count_in usage_limit (tu_CacheWrite u)"
    by (simp_all add: count_in_mono)
qed

lemma anthropic_usage_in:
  assumes "anthropic_usage kvs = Inr u"
  shows "count_in (3 * usage_limit) (tu_Input u)" "count_in usage_limit (tu_Output u)"
    "count_in usage_limit (tu_CacheRead u)" "count_in usage_limit (tu_CacheWrite u)"
proof -
  from assms obtain input outp r w where
    g: "usage_get kvs ''input_tokens'' = Inr input" "usage_get kvs ''output_tokens'' = Inr outp"
      "usage_get kvs ''cache_read_input_tokens'' = Inr r" "usage_get kvs ''cache_creation_input_tokens'' = Inr w"
    and u: "u = \<lparr>tu_Input = map_option (\<lambda>v. v + count_or_zero r + count_or_zero w) input,
                 tu_Output = outp, tu_CacheRead = r, tu_CacheWrite = w\<rparr>"
    by (auto simp: anthropic_usage_def bind_usage_Inr)
  note b = usage_get_in [OF g(1)] usage_get_in [OF g(2)] usage_get_in [OF g(3)] usage_get_in [OF g(4)]
  from b u show "count_in (3 * usage_limit) (tu_Input u)" "count_in usage_limit (tu_Output u)"
    "count_in usage_limit (tu_CacheRead u)" "count_in usage_limit (tu_CacheWrite u)"
    by (auto simp: count_in_def count_or_zero_def split: option.splits)
qed

lemma parsed_usage_wf:
  assumes "ParseUsage protocol data = Inr u"
  shows "usage_wf u"
proof (cases "\<exists>kvs. data = Some (JObj kvs)")
  case True
  then obtain kvs where "data = Some (JObj kvs)" by blast
  with assms have base: "(if protocol = ''openai'' then openai_usage kvs else anthropic_usage kvs) = Inr u"
    and "case tu_Input u of None \<Rightarrow> True | Some i \<Rightarrow> count_or_zero (tu_CacheRead u) + count_or_zero (tu_CacheWrite u) \<le> i"
    by (auto simp: ParseUsage_def bind_usage_Inr split: option.splits if_splits)
  with openai_usage_in anthropic_usage_in show ?thesis
    unfolding usage_wf_def by (cases "protocol = ''openai''") auto
next
  case False
  with assms have "u = no_usage" by (auto simp: ParseUsage_def split: option.splits json.splits)
  then show ?thesis by (simp add: usage_wf_def no_usage_def count_in_def)
qed

section \<open>Costs are amounts the ledger accepts\<close>

definition f_nonneg :: "float64 \<Rightarrow> bool" where
  "f_nonneg x \<longleftrightarrow> f_le (Fin 0) x"

lemma f_nonneg_simps [simp]: "f_nonneg (Fin a) \<longleftrightarrow> 0 \<le> a" "f_nonneg PosInf" "\<not> f_nonneg NegInf" "\<not> f_nonneg NaN"
  by (simp_all add: f_nonneg_def) (simp_all add: f_le_def)

lemma round64_nonneg:
  assumes "0 \<le> q"
  shows "f_nonneg (round64 q)"
proof (cases "q = 0")
  case False
  define u where "u = pow2 (max (- 1022) (exponent q) - 52)"
  define v where "v = of_int (round_even (q / u)) * u"
  have u: "0 < u" by (simp add: u_def)
  with assms have "0 \<le> \<lfloor>q / u\<rfloor>" by simp
  with round_even_ge [of "q / u"] have "0 \<le> round_even (q / u)" by (rule order_trans [rotated])
  then have "0 \<le> v" using u by (simp add: v_def)
  moreover have "round64 q = (if pow2 1024 \<le> v then PosInf else Fin v)"
    using assms False by (simp add: round64_def Let_def v_def u_def)
  ultimately show ?thesis by simp
qed simp

lemma f_int_nonneg: "0 \<le> n \<Longrightarrow> f_nonneg (f_int n)"
  by (simp add: f_int_def round64_nonneg)

lemma f_add_nonneg: "f_nonneg a \<Longrightarrow> f_nonneg b \<Longrightarrow> f_nonneg (f_add a b)"
  by (cases a; cases b) (auto simp: round64_nonneg)

lemma f_mul_nonneg: "f_nonneg a \<Longrightarrow> f_nonneg b \<Longrightarrow> f_nonneg (f_mul a b) \<or> is_nan (f_mul a b)"
  by (cases a; cases b) (auto simp: round64_nonneg is_nan_def)

lemma f_add_nan: "is_nan a \<or> is_nan b \<Longrightarrow> f_add a b = NaN"
  by (cases a; cases b) (auto simp: is_nan_def)

lemma f_div_pos_nonneg: "f_nonneg a \<Longrightarrow> 0 < b \<Longrightarrow> f_nonneg (f_div_pos a b)"
  by (cases a) (auto simp: round64_nonneg)

definition price_nonneg :: "price \<Rightarrow> bool" where
  "price_nonneg p \<longleftrightarrow> list_all (\<lambda>x. case x of None \<Rightarrow> True | Some v \<Rightarrow> f_nonneg v) [pr_InputCacheHit p, pr_InputCacheMiss p, pr_Output p]"

lemma amount_valid_iff: "amount_valid x \<longleftrightarrow> (\<exists>a. x = Fin a \<and> 0 \<le> a)"
  by (cases x) (auto simp: amount_valid_def is_nan_def is_inf_def)

lemma price_validate_nonneg: "price_validate tx p \<Longrightarrow> price_nonneg p"
  by (auto simp: price_validate_def price_nonneg_def amount_valid_iff split: option.splits)

definition never_neg :: "float64 \<Rightarrow> bool" where
  "never_neg x \<longleftrightarrow> f_nonneg x \<or> is_nan x"

lemma never_neg_mul: "0 \<le> n \<Longrightarrow> amount_valid r \<Longrightarrow> never_neg (f_mul (f_int n) r)"
  using f_mul_nonneg [OF f_int_nonneg, of n r] by (auto simp: amount_valid_iff never_neg_def)

lemma never_neg_add: "never_neg a \<Longrightarrow> never_neg b \<Longrightarrow> never_neg (f_add a b)"
  using f_add_nonneg f_add_nan is_nan_def never_neg_def by blast

lemma cost_micro_nonneg:
  assumes "cost_micro p u input outp hit miss out = Some c" "0 \<le> input" "0 \<le> outp"
    "0 \<le> count_or_zero (tu_CacheRead u)" "count_or_zero (tu_CacheRead u) \<le> input"
    and v: "amount_valid hit" "amount_valid miss" "amount_valid out"
  shows "never_neg c"
  using assms
  by (auto simp: cost_micro_def count_or_zero_def intro!: never_neg_add never_neg_mul split: option.splits if_splits)

lemma price_validate_rates:
  assumes "price_validate tx p"
  obtains hit miss out where "pr_InputCacheHit p = Some hit" "pr_InputCacheMiss p = Some miss" "pr_Output p = Some out"
    "amount_valid hit" "amount_valid miss" "amount_valid out"
  using assms by (auto simp: price_validate_def)

text \<open>The test of the cost at the end of \<open>Estimate\<close>.\<close>

definition finite_cost :: "float64 \<Rightarrow> float64 option" where
  "finite_cost c = (let cost = f_div_pos c 1000000 in if is_inf cost \<or> is_nan cost then None else Some cost)"

lemma finite_cost_valid:
  assumes "finite_cost c = Some d" "never_neg c"
  shows "amount_valid d"
proof -
  have d: "d = f_div_pos c 1000000" "\<not> is_inf d" "\<not> is_nan d"
    using assms(1) by (auto simp: finite_cost_def Let_def split: if_splits)
  then have "\<not> is_nan c" by (auto simp: is_nan_def)
  with assms(2) have "f_nonneg d" using d(1) by (simp add: f_div_pos_nonneg never_neg_def)
  with d(2,3) show ?thesis by (cases d) (simp_all add: amount_valid_iff is_inf_def)
qed

lemma Estimate_parsed:
  assumes "usage_wf u" "tu_Input u = Some input" "tu_Output u = Some outp"
    "pr_InputCacheHit p = Some hit" "pr_InputCacheMiss p = Some miss" "pr_Output p = Some out"
  shows "Estimate p u = (case cost_micro p u input outp hit miss out of None \<Rightarrow> None | Some c \<Rightarrow> finite_cost c)"
proof -
  from assms(1-3) have "0 \<le> input" "0 \<le> outp" "0 \<le> count_or_zero (tu_CacheRead u)"
    "count_or_zero (tu_CacheRead u) \<le> input"
    "\<not> (case tu_CacheWrite u of None \<Rightarrow> False
        | Some w \<Rightarrow> w < 0 \<or> input < count_or_zero (tu_CacheRead u) \<or> input - count_or_zero (tu_CacheRead u) < w)"
    by (auto simp: usage_wf_def count_in_def count_or_zero_def split: option.splits)
  with assms show ?thesis
    by (simp add: Estimate_def Let_def finite_cost_def not_less split: option.splits)
qed


definition sample_usage :: json where
  "sample_usage = JObj [(''prompt_tokens'', JNum ''1000000''), (''completion_tokens'', JNum ''500000''),
     (''prompt_tokens_details'', JObj [(''cached_tokens'', JNum ''500000'')])]"

definition sample_text_ops :: text_ops where
  "sample_text_ops = \<lparr>tx_upper = map to_upper, tx_lower = map to_lower, tx_hostname = (\<lambda>_. Some ''api.deepseek.com'')\<rparr>"

definition sample_price :: price where
  "sample_price = \<lparr>pr_Currency = ''USD'', pr_Source = ''list'', pr_Version = ''1'', pr_InputCacheHit = Some (Fin 1),
     pr_InputCacheMiss = Some (Fin 2), pr_Output = Some (Fin 3)\<rparr>"


end
