(* ===== verification/Go_Json.thy ===== *)
theory Go_Json
  imports Pricing "HOL-Library.List_Lexorder" "HOL-Library.Char_ord"
begin

text \<open>
  What the adapter uses of \<^verbatim>\<open>encoding/json\<close>, on parsed values.

  \<^item> A decoder takes the value the destination holds and a JSON value and returns the new value,
    \<open>None\<close> for a type error: \<open>null\<close> leaves a string, number or struct as it is, and a member that occurs
    twice is decoded twice into the same place. \<open>dec_member\<close> decodes one struct field; names are
    compared after case folding, as for struct fields, while a map (\<open>usage_member\<close>) compares them exactly.
  \<^item> A \<open>json.RawMessage\<close> is the value it holds, \<open>None\<close> when the member is absent:
    \<open>len(raw) == 0\<close> is \<open>None\<close> and the text \<open>null\<close> is \<open>JNull\<close>.
  \<^item> \<open>json_codec\<close> is the text side of the library: \<open>jc_parse\<close> reads one document (\<open>None\<close> for a syntax
    error or trailing data), \<open>jc_show\<close> is \<open>json.Marshal\<close> of a value, members in the order of the list (the
    model lists the members of a map by key, as the library does), \<open>jc_any\<close> is what passing through \<open>any\<close>
    does to a value (numbers become floats, the members of an object a map), and \<open>jc_raw\<close> the text of a raw message
    (a function of its value: the spacing of one document is not told from that of another).
  \<^item> \<open>strict_parse\<close> is \<open>StrictJSON\<close> and \<open>LenientJSON\<close> of \<^verbatim>\<open>internal/adapter/protocol.go\<close>.
\<close>

section \<open>Text\<close>

record json_codec =
  jc_parse :: "string \<Rightarrow> json option"
  jc_show :: "json \<Rightarrow> string"
  jc_any :: "json \<Rightarrow> json"
  jc_raw :: "json \<Rightarrow> string"

definition hex_digit :: "nat \<Rightarrow> char" where
  "hex_digit n = char_of (if n < 10 then n + 48 else n + 87)"

fun decimal_digits :: "nat \<Rightarrow> string" where
  "decimal_digits n = (if n < 10 then [hex_digit n] else decimal_digits (n div 10) @ [hex_digit (n mod 10)])"

declare decimal_digits.simps [simp del]

definition show_int :: "int \<Rightarrow> string" where
  "show_int n = (if n < 0 then CHR ''-'' # decimal_digits (nat (- n)) else decimal_digits (nat n))"

section \<open>Decoders\<close>

type_synonym 'a decoder = "'a \<Rightarrow> json \<Rightarrow> 'a option"

fun dec_string :: "string decoder" where
  "dec_string cur (JStr s) = Some s"
| "dec_string cur JNull = Some cur"
| "dec_string cur _ = None"

fun dec_int :: "int decoder" where
  "dec_int cur (JNum lit) = parse_int64 lit"
| "dec_int cur JNull = Some cur"
| "dec_int cur _ = None"

fun dec_raw :: "json option decoder" where
  "dec_raw cur j = Some (Some j)"

text \<open>A pointer: \<open>null\<close> makes it nil, anything else is decoded into what it points to.\<close>

definition dec_ptr :: "'a \<Rightarrow> 'a decoder \<Rightarrow> 'a option decoder" where
  "dec_ptr zero d cur j =
     (if j = JNull then Some None
      else map_option Some (d (case cur of None \<Rightarrow> zero | Some v \<Rightarrow> v) j))"

text \<open>A slice: element \<open>i\<close> is decoded into the element \<open>i\<close> that is there, if any.\<close>

fun dec_elems :: "'a \<Rightarrow> 'a decoder \<Rightarrow> 'a list \<Rightarrow> json list \<Rightarrow> 'a list option" where
  "dec_elems zero d cur [] = Some []"
| "dec_elems zero d cur (j # js) =
     (case d (case cur of [] \<Rightarrow> zero | v # _ \<Rightarrow> v) j of
        None \<Rightarrow> None
      | Some v \<Rightarrow> map_option (Cons v) (dec_elems zero d (tl cur) js))"

fun dec_list :: "'a \<Rightarrow> 'a decoder \<Rightarrow> 'a list decoder" where
  "dec_list zero d cur (JArr js) = dec_elems zero d cur js"
| "dec_list zero d cur JNull = Some []"
| "dec_list zero d cur _ = None"

fun dec_each :: "'a decoder \<Rightarrow> 'a \<Rightarrow> json list \<Rightarrow> 'a option" where
  "dec_each d v [] = Some v"
| "dec_each d v (j # js) = (case d v j of None \<Rightarrow> None | Some w \<Rightarrow> dec_each d w js)"

definition dec_member :: "string \<Rightarrow> 'a decoder \<Rightarrow> 'a \<Rightarrow> (string \<times> json) list \<Rightarrow> 'a option" where
  "dec_member name d v kvs = dec_each d v (field_values name kvs)"

text \<open>A struct accepts an object or \<open>null\<close>; \<open>f\<close> decodes its members.\<close>

fun dec_struct :: "((string \<times> json) list \<Rightarrow> 'a \<Rightarrow> 'a option) \<Rightarrow> 'a decoder" where
  "dec_struct f cur (JObj kvs) = f kvs cur"
| "dec_struct f cur JNull = Some cur"
| "dec_struct f cur _ = None"

text \<open>Decoding an absent raw message fails: there is no document.\<close>

definition dec_opt :: "'a decoder \<Rightarrow> 'a \<Rightarrow> json option \<Rightarrow> 'a option" where
  "dec_opt d zero raw = (case raw of None \<Rightarrow> None | Some j \<Rightarrow> d zero j)"

text \<open>A map decoded from an object keeps the last value of a key; the order is the one in which
  \<open>range\<close> meets the entries.\<close>

fun last_wins :: "(string \<times> json) list \<Rightarrow> (string \<times> json) list" where
  "last_wins [] = []"
| "last_wins (kv # kvs) = (if fst kv \<in> set (map fst kvs) then last_wins kvs else kv # last_wins kvs)"

lemma last_wins_subset: "set (last_wins kvs) \<subseteq> set kvs"
  by (induction kvs) auto

text \<open>\<open>json.Marshal\<close> of a map: the last value of a key, members sorted by key.\<close>

definition map_json :: "(string \<times> json) list \<Rightarrow> json" where
  "map_json kvs = JObj (sort_key fst (last_wins kvs))"

definition set_member :: "string \<Rightarrow> json \<Rightarrow> (string \<times> json) list \<Rightarrow> (string \<times> json) list" where
  "set_member k v kvs = map_put k v (last_wins kvs)"

definition sortedUniqueStrings :: "string list \<Rightarrow> string list" where
  "sortedUniqueStrings vs = remdups_adj (sort vs)"

section \<open>Strict parsing\<close>

text \<open>No object has two keys that agree in lower case.\<close>

function unique_keys :: "text_ops \<Rightarrow> json \<Rightarrow> bool" where
  "unique_keys tx (JObj kvs) \<longleftrightarrow>
     distinct (map (\<lambda>kv. tx_lower tx (fst kv)) kvs) \<and> list_all (\<lambda>kv. unique_keys tx (snd kv)) kvs"
| "unique_keys tx (JArr js) \<longleftrightarrow> list_all (unique_keys tx) js"
| "unique_keys tx (JStr s) \<longleftrightarrow> True"
| "unique_keys tx JNull \<longleftrightarrow> True"
| "unique_keys tx (JBool b) \<longleftrightarrow> True"
| "unique_keys tx (JNum n) \<longleftrightarrow> True"
  by pat_completeness auto
termination
proof (relation "measure (\<lambda>(tx, j). size j)", goal_cases)
  case 1
  show ?case by simp
next
  case (2 tx kvs kv)
  then have "size (snd kv) < Suc (size_list (\<lambda>x. Suc (size (snd x))) kvs)"
    by (induction kvs) auto
  then show ?case by (simp add: size_prod_simp)
next
  case (3 tx js j)
  then show ?case by (simp add: less_Suc_eq_le size_list_estimation')
qed

definition strict_value :: "text_ops \<Rightarrow> json \<Rightarrow> bool" where
  "strict_value tx j \<longleftrightarrow> unique_keys tx j \<and> j \<noteq> JNull"

definition strict_parse :: "json_codec \<Rightarrow> text_ops \<Rightarrow> string \<Rightarrow> json option" where
  "strict_parse codec tx data =
     (case jc_parse codec data of
        None \<Rightarrow> None
      | Some j \<Rightarrow> if strict_value tx j then Some j else None)"

text \<open>\<open>object(raw)\<close>\<close>

definition is_object :: "json option \<Rightarrow> bool" where
  "is_object raw \<longleftrightarrow> (case raw of Some (JObj _) \<Rightarrow> True | _ \<Rightarrow> False)"

section \<open>Lines\<close>

text \<open>\<open>strings.Split(s, "\n")\<close>, \<open>strings.TrimSuffix(l, "\r")\<close> and \<open>strings.TrimPrefix\<close>\<close>

fun split_lines :: "string \<Rightarrow> string list" where
  "split_lines [] = [[]]"
| "split_lines (c # s) =
     (if c = CHR 0x0A then [] # split_lines s
      else (case split_lines s of [] \<Rightarrow> [[c]] | l # ls \<Rightarrow> (c # l) # ls))"

definition trim_cr :: "string \<Rightarrow> string" where
  "trim_cr l = (if has_suffix l [CHR 0x0D] then butlast l else l)"

definition trim_prefix :: "string \<Rightarrow> string \<Rightarrow> string" where
  "trim_prefix s p = (if has_prefix s p then drop (length p) s else s)"

fun join_lines :: "string list \<Rightarrow> string" where
  "join_lines [] = []"
| "join_lines [l] = l"
| "join_lines (l # ls) = l @ [CHR 0x0A] @ join_lines ls"

end
