(* ===== verification/Prompt_Cache.thy ===== *)
theory Prompt_Cache
  imports Go_Json
begin

text \<open>
  \<^verbatim>\<open>internal/adapter/prompt_cache.go\<close> and \<^verbatim>\<open>estimate.go\<close>: the prompts remembered per session, and the
  token estimate made from them when a provider reports no usage.

  The cache keeps a map from keys to elements of a list in order of use, most recent first. An
  element is told apart by its address \<open>pe_addr\<close>; the map holds addresses. Taking the value of the
  back of an empty list is a nil dereference, the result \<open>None\<close>. The background loop of
  \<open>newPromptCache\<close> is the step that expires entries. The JSON codec is the argument \<open>codec\<close>.
\<close>

section \<open>State\<close>

record prompt_entry =
  pe_addr :: nat
  pe_key :: string
  pe_prompt :: string
  pe_touched :: time

record prompt_cache =
  pc_prompts :: "(string, nat) gomap"
  pc_recent :: "prompt_entry list"
  pc_bytes :: int
  pc_maxEntries :: int
  pc_maxBytes :: int
  pc_idleTTL :: duration
  pc_closed :: bool
  pc_fresh :: nat

definition newPromptCache :: "int \<Rightarrow> int \<Rightarrow> duration \<Rightarrow> prompt_cache" where
  "newPromptCache entries sz ttl =
     \<lparr>pc_prompts = [], pc_recent = [], pc_bytes = 0, pc_maxEntries = entries, pc_maxBytes = sz, pc_idleTTL = ttl,
      pc_closed = False, pc_fresh = 0\<rparr>"

definition NewPromptCache :: prompt_cache where
  "NewPromptCache = newPromptCache 256 16777216 (5 * minute)"

definition entry_size :: "prompt_entry \<Rightarrow> int" where
  "entry_size e = int (length (pe_key e)) + int (length (pe_prompt e))"

definition cache_Close :: "prompt_cache \<Rightarrow> prompt_cache" where
  "cache_Close c =
     (if pc_closed c then c else c\<lparr>pc_closed := True, pc_prompts := [], pc_recent := [], pc_bytes := 0\<rparr>)"

definition removeLocked :: "prompt_entry \<Rightarrow> prompt_cache \<Rightarrow> prompt_cache" where
  "removeLocked e c =
     c\<lparr>pc_prompts := map_del (pe_key e) (pc_prompts c),
       pc_bytes := pc_bytes c - entry_size e,
       pc_recent := filter (\<lambda>x. pe_addr x \<noteq> pe_addr e) (pc_recent c)\<rparr>"

definition list_back :: "prompt_cache \<Rightarrow> prompt_entry option" where
  "list_back c = (if pc_recent c = [] then None else Some (last (pc_recent c)))"

lemma removeLocked_shrinks:
  assumes "list_back c = Some e"
  shows "length (pc_recent (removeLocked e c)) < length (pc_recent c)"
proof -
  from assms have "e \<in> set (pc_recent c)" by (auto simp: list_back_def split: if_splits)
  then show ?thesis by (auto simp: removeLocked_def intro: length_filter_less)
qed

function expireLocked :: "time \<Rightarrow> prompt_cache \<Rightarrow> prompt_cache" where
  "expireLocked now c =
     (case list_back c of
        None \<Rightarrow> c
      | Some oldest \<Rightarrow>
          if time_sub now (pe_touched oldest) < pc_idleTTL c then c else expireLocked now (removeLocked oldest c))"
  by pat_completeness auto
termination
  by (relation "measure (\<lambda>(now, c). length (pc_recent c))") (simp_all add: removeLocked_shrinks)

declare expireLocked.simps [simp del]

text \<open>The eviction loop of \<open>rememberLocked\<close>; \<open>None\<close> is a nil dereference.\<close>

function evict :: "int \<Rightarrow> prompt_cache \<Rightarrow> prompt_cache option" where
  "evict sz c =
     (if pc_maxEntries c \<le> int (length (pc_prompts c)) \<or> pc_maxBytes c < pc_bytes c + sz then
        (case list_back c of
           None \<Rightarrow> None
         | Some oldest \<Rightarrow> evict sz (removeLocked oldest c))
      else Some c)"
  by pat_completeness auto
termination
  by (relation "measure (\<lambda>(sz, c). length (pc_recent c))") (simp_all add: removeLocked_shrinks)

declare evict.simps [simp del]

text \<open>The element a key maps to.\<close>

definition cached_entry :: "prompt_cache \<Rightarrow> string \<Rightarrow> prompt_entry option" where
  "cached_entry c key =
     (case map_of (pc_prompts c) key of
        None \<Rightarrow> None
      | Some a \<Rightarrow> find (\<lambda>e. pe_addr e = a) (pc_recent c))"

definition push_front :: "string \<Rightarrow> string \<Rightarrow> time \<Rightarrow> prompt_cache \<Rightarrow> prompt_cache" where
  "push_front key prompt now c =
     (let e = \<lparr>pe_addr = pc_fresh c, pe_key = key, pe_prompt = prompt, pe_touched = now\<rparr>
      in c\<lparr>pc_prompts := map_put key (pc_fresh c) (pc_prompts c), pc_recent := e # pc_recent c,
           pc_bytes := pc_bytes c + entry_size e, pc_fresh := Suc (pc_fresh c)\<rparr>)"

definition rememberLocked :: "string \<Rightarrow> string \<Rightarrow> time \<Rightarrow> prompt_cache \<Rightarrow> prompt_cache option" where
  "rememberLocked key prompt now c =
     (let c1 = (case cached_entry c key of None \<Rightarrow> c | Some previous \<Rightarrow> removeLocked previous c);
          sz = int (length key) + int (length prompt)
      in if pc_closed c1 \<or> pc_maxBytes c1 < sz then Some c1
         else map_option (push_front key prompt now) (evict sz c1))"

definition cache_key :: "string \<Rightarrow> string \<Rightarrow> string \<Rightarrow> string" where
  "cache_key protocol model session = protocol @ [CHR 0x00] @ model @ [CHR 0x00] @ session"

definition prompt_dropped :: "string list" where
  "prompt_dropped = [''model'', ''stream'', ''stream_options'', ''max_tokens'', ''max_completion_tokens'', ''temperature'',
     ''top_p'', ''stop'', ''stop_sequences'', ''metadata'']"

definition normalizedPrompt :: "json_codec \<Rightarrow> string \<Rightarrow> string" where
  "normalizedPrompt codec body =
     (case jc_parse codec body of
        Some (JObj kvs) \<Rightarrow>
          jc_show codec (jc_any codec (JObj (filter (\<lambda>kv. fst kv \<notin> set prompt_dropped) (last_wins kvs))))
      | Some JNull \<Rightarrow> jc_show codec JNull
      | _ \<Rightarrow> [])"

definition Remember :: "json_codec \<Rightarrow> string \<Rightarrow> string \<Rightarrow> string \<Rightarrow> string \<Rightarrow> time \<Rightarrow> prompt_cache \<Rightarrow> prompt_cache option" where
  "Remember codec protocol model session request now c =
     (if trim_space session = [] then Some c
      else
        (let prompt = normalizedPrompt codec request in
         if prompt = [] then Some c
         else rememberLocked (cache_key protocol model session) prompt now (expireLocked now c)))"

definition cache_Stats :: "time \<Rightarrow> prompt_cache \<Rightarrow> (nat \<times> int) \<times> prompt_cache" where
  "cache_Stats now c = (let c1 = expireLocked now c in ((length (pc_prompts c1), pc_bytes c1), c1))"

section \<open>Common prefixes\<close>

fun match_length :: "string \<Rightarrow> string \<Rightarrow> nat" where
  "match_length (a # as) (b # bs) = (if a = b then Suc (match_length as bs) else 0)"
| "match_length _ _ = 0"

definition rune_start :: "char \<Rightarrow> bool" where
  "rune_start c \<longleftrightarrow> \<not> (128 \<le> (of_char c :: nat) \<and> (of_char c :: nat) < 192)"

fun back_off :: "string \<Rightarrow> string \<Rightarrow> nat \<Rightarrow> nat" where
  "back_off a b 0 = 0"
| "back_off a b (Suc i) =
     (if Suc i < length a \<and> Suc i < length b \<and> \<not> rune_start (a ! Suc i) then back_off a b i else Suc i)"

definition commonPrefix :: "string \<Rightarrow> string \<Rightarrow> nat" where
  "commonPrefix a b = back_off a b (match_length a b)"

definition prefixAndRemember ::
  "string \<Rightarrow> string \<Rightarrow> string \<Rightarrow> string \<Rightarrow> time \<Rightarrow> prompt_cache \<Rightarrow> (nat \<times> prompt_cache) option"
where
  "prefixAndRemember protocol model session prompt now c =
     (if trim_space session = [] then Some (0, c)
      else
        (let key = cache_key protocol model session;
             c1 = expireLocked now c;
             hit = (case cached_entry c1 key of None \<Rightarrow> 0 | Some previous \<Rightarrow> commonPrefix (pe_prompt previous) prompt)
         in map_option (Pair hit) (rememberLocked key prompt now c1)))"

section \<open>Token estimate\<close>

text \<open>\<open>utf8.DecodeRune\<close> on a non-empty string: the size of the encoded rune at its start, \<open>None\<close> for
  an invalid encoding, which the decoder reports as an error of size 1.\<close>

definition in_byte :: "nat \<Rightarrow> nat \<Rightarrow> char \<Rightarrow> bool" where
  "in_byte lo hi c \<longleftrightarrow> lo \<le> of_char c \<and> of_char c \<le> hi"

fun rune_size :: "string \<Rightarrow> nat option" where
  "rune_size [] = None"
| "rune_size (c # s) =
     (let cont = (\<lambda>n. n \<le> length s \<and> list_all (in_byte 128 191) (take n s));
          second_in = (\<lambda>lo hi. case s of [] \<Rightarrow> False | d # _ \<Rightarrow> in_byte lo hi d)
      in if in_byte 0 127 c then Some 1
         else if in_byte 194 223 c then (if cont 1 then Some 2 else None)
         else if in_byte 224 239 c then
           (if cont 2 \<and> (if c = CHR 0xE0 then second_in 160 191 else if c = CHR 0xED then second_in 128 159 else True)
            then Some 3 else None)
         else if in_byte 240 244 c then
           (if cont 3 \<and> (if c = CHR 0xF0 then second_in 144 191 else if c = CHR 0xF4 then second_in 128 143 else True)
            then Some 4 else None)
         else None)"

definition run_char :: "char \<Rightarrow> bool" where
  "run_char c \<longleftrightarrow> is_alnum c \<or> c = CHR '' '' \<or> c = CHR 0x09 \<or> c = CHR 0x0A"

definition flush_run :: "int \<Rightarrow> int \<Rightarrow> int" where
  "flush_run tokens run = (if 0 < run then tokens + (run + 3) div 4 else tokens)"

text \<open>The loop: \<open>tokens\<close> so far and the length of the current run of letters, digits and blanks.\<close>

function count_tokens :: "string \<Rightarrow> int \<Rightarrow> int \<Rightarrow> int" where
  "count_tokens [] tokens run = flush_run tokens run"
| "count_tokens (c # s) tokens run =
     (case rune_size (c # s) of
        None \<Rightarrow> count_tokens s (flush_run tokens run + 1) 0
      | Some sz \<Rightarrow>
          if in_byte 0 127 c \<and> run_char c then count_tokens (drop (sz - 1) s) tokens (run + 1)
          else count_tokens (drop (sz - 1) s) (flush_run tokens run + 1) 0)"
  by pat_completeness auto
termination
  by (relation "measure (\<lambda>(s, _). length s)") auto

definition estimateTokens :: "string \<Rightarrow> int" where
  "estimateTokens data =
     (if data = [] then 0 else (let tokens = count_tokens data 0 0 in if tokens = 0 then 1 else tokens))"

section \<open>Output text\<close>

definition output_keys :: "string list" where
  "output_keys = [''content'', ''text'', ''thinking'', ''reasoning_content'', ''arguments'', ''input_json'', ''output_text'']"

lemma size_member: "kv \<in> set kvs \<Longrightarrow> size (snd kv) < Suc (size_list (\<lambda>x. Suc (size (snd x))) kvs)"
  by (induction kvs) auto

function output_walk :: "text_ops \<Rightarrow> string \<Rightarrow> json \<Rightarrow> string" where
  "output_walk tx key (JObj kvs) = concat (map (\<lambda>kv. output_walk tx (tx_lower tx (fst kv)) (snd kv)) (last_wins kvs))"
| "output_walk tx key (JArr js) = concat (map (output_walk tx key) js)"
| "output_walk tx key (JStr s) = (if key \<in> set output_keys then s else [])"
| "output_walk tx key JNull = []"
| "output_walk tx key (JBool b) = []"
| "output_walk tx key (JNum n) = []"
  by pat_completeness auto
termination
proof (relation "measure (\<lambda>(tx, key, j). size j)", goal_cases)
  case 1
  show ?case by simp
next
  case (2 tx key kvs kv)
  then have "kv \<in> set kvs" using last_wins_subset by blast
  from size_member [OF this] show ?case by (simp add: size_prod_simp)
next
  case (3 tx key js j)
  then show ?case by (simp add: less_Suc_eq_le size_list_estimation')
qed

definition appendOutputFields :: "json_codec \<Rightarrow> text_ops \<Rightarrow> string \<Rightarrow> string" where
  "appendOutputFields codec tx data = (case jc_parse codec data of None \<Rightarrow> [] | Some j \<Rightarrow> output_walk tx [] j)"

definition line_output :: "json_codec \<Rightarrow> text_ops \<Rightarrow> string \<Rightarrow> string" where
  "line_output codec tx line =
     (let l = trim_cr line in
      if has_prefix l ''data:'' then
        (let d = trim_space (drop 5 l) in if d \<noteq> ''[DONE]'' then appendOutputFields codec tx d else [])
      else [])"

definition estimateOutputTokens :: "json_codec \<Rightarrow> text_ops \<Rightarrow> string \<Rightarrow> int" where
  "estimateOutputTokens codec tx data =
     (if data = [] then 0
      else
        (let streamed = concat (map (line_output codec tx) (split_lines data));
             text = (if streamed = [] then appendOutputFields codec tx data else streamed)
         in estimateTokens text))"

section \<open>Local cost estimate\<close>

definition LocalEstimate ::
  "json_codec \<Rightarrow> text_ops \<Rightarrow> string \<Rightarrow> string \<Rightarrow> string \<Rightarrow> string \<Rightarrow> string \<Rightarrow> price \<Rightarrow> time \<Rightarrow> prompt_cache
     \<Rightarrow> ((float64 option \<times> token_usage \<times> string) \<times> prompt_cache) option"
where
  "LocalEstimate codec tx protocol model session request response price now c =
     (let prompt = normalizedPrompt codec request in
      if prompt = [] then Some ((None, no_usage, []), c)
      else
        (case prefixAndRemember protocol model session prompt now c of
           None \<Rightarrow> None
         | Some (h, c1) \<Rightarrow>
             (let hitBytes = (if 0 < h \<and> pr_InputCacheHit price = None then 0 else h);
                  hit = estimateTokens (take hitBytes prompt);
                  miss = estimateTokens (drop hitBytes prompt);
                  out = estimateOutputTokens codec tx response;
                  usage = \<lparr>tu_Input = Some (hit + miss), tu_Output = Some out, tu_CacheRead = Some hit, tu_CacheWrite = None\<rparr>
              in Some (case Estimate price usage of
                         None \<Rightarrow> (None, usage, [])
                       | Some cost \<Rightarrow> (Some cost, usage, ''local_estimated_cache_prefix''), c1))))"

section \<open>The cache stays within its bounds\<close>

definition cache_shape :: "prompt_cache \<Rightarrow> bool" where
  "cache_shape c \<longleftrightarrow>
     distinct (map pe_addr (pc_recent c)) \<and> distinct (map pe_key (pc_recent c)) \<and>
     list_all (\<lambda>e. pe_addr e < pc_fresh c) (pc_recent c) \<and>
     map_wf (pc_prompts c) \<and> set (pc_prompts c) = (\<lambda>e. (pe_key e, pe_addr e)) ` set (pc_recent c) \<and>
     pc_bytes c = sum_list (map entry_size (pc_recent c))"

definition cache_inv :: "prompt_cache \<Rightarrow> bool" where
  "cache_inv c \<longleftrightarrow>
     cache_shape c \<and> 1 \<le> pc_maxEntries c \<and> 0 \<le> pc_maxBytes c \<and>
     int (length (pc_recent c)) \<le> pc_maxEntries c \<and> pc_bytes c \<le> pc_maxBytes c \<and> (pc_closed c \<longrightarrow> pc_recent c = [])"

lemma shape_length:
  assumes "cache_shape c"
  shows "length (pc_prompts c) = length (pc_recent c)"
proof -
  from assms have wf: "distinct (map fst (pc_prompts c))" and keys: "distinct (map pe_key (pc_recent c))"
    and eq: "set (pc_prompts c) = (\<lambda>e. (pe_key e, pe_addr e)) ` set (pc_recent c)"
    by (simp_all add: cache_shape_def map_wf_def)
  from eq have "set (map fst (pc_prompts c)) = set (map pe_key (pc_recent c))" by (simp add: image_image)
  with wf keys show ?thesis by (metis distinct_card length_map)
qed

lemma shape_entry:
  assumes "cache_shape c"
  shows "cached_entry c key = Some e \<longleftrightarrow> e \<in> set (pc_recent c) \<and> pe_key e = key"
proof -
  from assms have shape: "distinct (map pe_addr (pc_recent c))" "distinct (map pe_key (pc_recent c))" "map_wf (pc_prompts c)"
    "set (pc_prompts c) = (\<lambda>e. (pe_key e, pe_addr e)) ` set (pc_recent c)" by (simp_all add: cache_shape_def)
  have look: "map_of (pc_prompts c) key = Some a \<longleftrightarrow> (\<exists>e \<in> set (pc_recent c). pe_key e = key \<and> pe_addr e = a)" for a
    using map_wf_lookup_iff [OF shape(3)] shape(4) by auto
  have find: "find (\<lambda>x. pe_addr x = pe_addr d) (pc_recent c) = Some d" if "d \<in> set (pc_recent c)" for d
    using that shape(1) by (induction "pc_recent c" arbitrary: c) (auto simp: find_Some_iff in_set_conv_nth distinct_conv_nth)
  show ?thesis
  proof
    assume "cached_entry c key = Some e"
    then obtain a where a: "map_of (pc_prompts c) key = Some a" "find (\<lambda>x. pe_addr x = a) (pc_recent c) = Some e"
      by (auto simp: cached_entry_def split: option.splits)
    from a(1) look obtain d where d: "d \<in> set (pc_recent c)" "pe_key d = key" "pe_addr d = a" by blast
    with find [OF d(1)] a(2) show "e \<in> set (pc_recent c) \<and> pe_key e = key" by simp
  next
    assume "e \<in> set (pc_recent c) \<and> pe_key e = key"
    with look [of "pe_addr e"] find [of e] show "cached_entry c key = Some e" by (auto simp: cached_entry_def)
  qed
qed

lemma remove_filter:
  assumes "cache_shape c" "e \<in> set (pc_recent c)"
  shows "filter (\<lambda>x. pe_addr x \<noteq> pe_addr e) (pc_recent c) = remove1 e (pc_recent c)"
    and "set (filter (\<lambda>x. pe_addr x \<noteq> pe_addr e) (pc_recent c)) = {x \<in> set (pc_recent c). pe_key x \<noteq> pe_key e}"
proof -
  from assms(1) have d: "distinct (map pe_addr (pc_recent c))" "distinct (map pe_key (pc_recent c))" by (simp_all add: cache_shape_def)
  have ia: "x = e" if "x \<in> set (pc_recent c)" "pe_addr x = pe_addr e" for x
    using d(1) assms(2) that by (auto simp: distinct_map inj_on_def)
  have ik: "x = e" if "x \<in> set (pc_recent c)" "pe_key x = pe_key e" for x
    using d(2) assms(2) that by (auto simp: distinct_map inj_on_def)
  have "filter (\<lambda>x. pe_addr x \<noteq> pe_addr e) (pc_recent c) = filter (\<lambda>x. x \<noteq> e) (pc_recent c)"
    by (rule filter_cong) (auto dest: ia)
  moreover have "distinct (pc_recent c)" using d(1) by (simp add: distinct_map)
  ultimately show "filter (\<lambda>x. pe_addr x \<noteq> pe_addr e) (pc_recent c) = remove1 e (pc_recent c)"
    by (simp add: distinct_remove1_removeAll removeAll_filter_not_eq eq_commute)
  show "set (filter (\<lambda>x. pe_addr x \<noteq> pe_addr e) (pc_recent c)) = {x \<in> set (pc_recent c). pe_key x \<noteq> pe_key e}"
    by (auto dest: ia ik)
qed

lemma removeLocked_fields [simp]:
  "pc_maxEntries (removeLocked e c) = pc_maxEntries c" "pc_maxBytes (removeLocked e c) = pc_maxBytes c"
  "pc_idleTTL (removeLocked e c) = pc_idleTTL c" "pc_closed (removeLocked e c) = pc_closed c" "pc_fresh (removeLocked e c) = pc_fresh c"
  by (simp_all add: removeLocked_def)

lemma shape_remove:
  assumes "cache_shape c" "e \<in> set (pc_recent c)"
  shows "cache_shape (removeLocked e c)"
proof -
  note rf = remove_filter [OF assms]
  have sum: "sum_list (map entry_size (remove1 e (pc_recent c))) = sum_list (map entry_size (pc_recent c)) - entry_size e"
    using assms(2) by (simp add: sum_list_map_remove1)
  have "set (map_del (pe_key e) (pc_prompts c)) = {kv \<in> set (pc_prompts c). fst kv \<noteq> pe_key e}"
    by (auto simp: map_del_def AList.delete_eq)
  moreover have "set (pc_prompts c) = (\<lambda>e. (pe_key e, pe_addr e)) ` set (pc_recent c)" using assms(1) by (simp add: cache_shape_def)
  ultimately have "set (map_del (pe_key e) (pc_prompts c)) =
      (\<lambda>e. (pe_key e, pe_addr e)) ` set (filter (\<lambda>x. pe_addr x \<noteq> pe_addr e) (pc_recent c))"
    unfolding rf(2) by auto
  with assms(1) sum show ?thesis
    unfolding cache_shape_def removeLocked_def
    by (auto simp: distinct_map_filter list_all_iff rf(1) [symmetric])
qed

lemma back_mem: "list_back c = Some e \<Longrightarrow> e \<in> set (pc_recent c)"
  by (auto simp: list_back_def split: if_splits)

text \<open>What removing entries keeps.\<close>

definition shrunk :: "prompt_cache \<Rightarrow> prompt_cache \<Rightarrow> bool" where
  "shrunk c d \<longleftrightarrow> cache_shape d \<and> pc_maxEntries d = pc_maxEntries c \<and> pc_maxBytes d = pc_maxBytes c \<and> pc_idleTTL d = pc_idleTTL c \<and>
     pc_closed d = pc_closed c \<and> pc_fresh d = pc_fresh c \<and> set (pc_recent d) \<subseteq> set (pc_recent c) \<and>
     length (pc_recent d) \<le> length (pc_recent c) \<and> pc_bytes d \<le> pc_bytes c"

lemma entry_size_nonneg: "0 \<le> entry_size e"
  by (simp add: entry_size_def)

lemma shrunk_refl: "cache_shape c \<Longrightarrow> shrunk c c"
  by (simp add: shrunk_def)

lemma shrunk_trans: "shrunk c d \<Longrightarrow> shrunk d e \<Longrightarrow> shrunk c e"
  by (auto simp: shrunk_def)

lemma shrunk_remove: "cache_shape c \<Longrightarrow> e \<in> set (pc_recent c) \<Longrightarrow> shrunk c (removeLocked e c)"
  using shape_remove [of c e] entry_size_nonneg [of e]
  by (auto simp: shrunk_def) (auto simp: removeLocked_def)

lemma shrunk_inv: "cache_inv c \<Longrightarrow> shrunk c d \<Longrightarrow> cache_inv d"
  by (auto simp: cache_inv_def shrunk_def)

lemma expire_shrunk: "cache_shape c \<Longrightarrow> shrunk c (expireLocked now c)"
proof (induction now c rule: expireLocked.induct)
  case (1 now c)
  show ?case
  proof (cases "list_back c")
    case None
    then show ?thesis using "1.prems" by (simp add: expireLocked.simps [of now c] shrunk_refl)
  next
    case (Some e)
    note sh = shrunk_remove [OF "1.prems" back_mem [OF Some]]
    show ?thesis
    proof (cases "time_sub now (pe_touched e) < pc_idleTTL c")
      case True
      then show ?thesis using Some "1.prems" by (simp add: expireLocked.simps [of now c] shrunk_refl)
    next
      case False
      with "1.IH" [OF Some] sh have "shrunk c (expireLocked now (removeLocked e c))"
        using shrunk_trans by (auto simp: shrunk_def)
      with Some False show ?thesis by (simp add: expireLocked.simps [of now c])
    qed
  qed
qed

lemma evict_returns:
  assumes "cache_shape c" "1 \<le> pc_maxEntries c" "sz \<le> pc_maxBytes c"
  shows "\<exists>d. evict sz c = Some d \<and> shrunk c d \<and> int (length (pc_recent d)) < pc_maxEntries d \<and> pc_bytes d + sz \<le> pc_maxBytes d"
  using assms
proof (induction sz c rule: evict.induct)
  case (1 sz c)
  note len = shape_length [OF "1.prems"(1)]
  show ?case
  proof (cases "pc_maxEntries c \<le> int (length (pc_prompts c)) \<or> pc_maxBytes c < pc_bytes c + sz")
    case False
    then have "evict sz c = Some c" by (simp add: evict.simps [of sz c])
    with False len "1.prems" shrunk_refl show ?thesis by auto
  next
    case True
    show ?thesis
    proof (cases "list_back c")
      case None
      then have "pc_recent c = []" by (auto simp: list_back_def split: if_splits)
      with True len "1.prems" show ?thesis by (auto simp: cache_shape_def)
    next
      case (Some e)
      note sh = shrunk_remove [OF "1.prems"(1) back_mem [OF Some]]
      have "cache_shape (removeLocked e c)" using sh by (simp add: shrunk_def)
      from "1.IH" [OF True Some this] "1.prems" obtain d where d: "evict sz (removeLocked e c) = Some d" "shrunk (removeLocked e c) d"
        "int (length (pc_recent d)) < pc_maxEntries d" "pc_bytes d + sz \<le> pc_maxBytes d" by auto
      moreover have "evict sz c = Some d" using True Some d(1) by (simp add: evict.simps [of sz c])
      ultimately show ?thesis using shrunk_trans [OF sh d(2)] by blast
    qed
  qed
qed

lemma map_put_new: "k \<notin> fst ` set m \<Longrightarrow> map_put k v m = m @ [(k, v)]"
  by (induction m) (auto simp: map_put_def)

lemma push_shape:
  assumes "cache_shape c" "key \<notin> pe_key ` set (pc_recent c)"
  shows "cache_shape (push_front key prompt now c)"
proof -
  have fresh: "pc_fresh c \<notin> pe_addr ` set (pc_recent c)" using assms(1) by (auto simp: cache_shape_def list_all_iff)
  have new: "key \<notin> fst ` set (pc_prompts c)" using assms by (auto simp: cache_shape_def)
  then have "map_put key (pc_fresh c) (pc_prompts c) = pc_prompts c @ [(key, pc_fresh c)]" by (rule map_put_new)
  moreover have "map_wf (map_put key (pc_fresh c) (pc_prompts c))" using assms(1) by (simp add: cache_shape_def)
  ultimately show ?thesis using assms fresh
    by (auto simp: cache_shape_def push_front_def Let_def list_all_iff)
qed

lemma remember_returns:
  assumes inv: "cache_inv c"
  obtains d where "rememberLocked key prompt now c = Some d" "cache_inv d"
    "pc_closed d = pc_closed c" "pc_maxBytes d = pc_maxBytes c"
    "\<not> pc_closed c \<Longrightarrow> int (length key) + int (length prompt) \<le> pc_maxBytes c \<Longrightarrow>
       map_option pe_prompt (cached_entry d key) = Some prompt"
proof -
  define c1 where "c1 = (case cached_entry c key of None \<Rightarrow> c | Some previous \<Rightarrow> removeLocked previous c)"
  define sz where "sz = int (length key) + int (length prompt)"
  have shape: "cache_shape c" using inv by (simp add: cache_inv_def)
  have sh: "shrunk c c1" and gone: "key \<notin> pe_key ` set (pc_recent c1)"
  proof -
    show "shrunk c c1"
      using shrunk_refl [OF shape] shrunk_remove [OF shape] shape_entry [OF shape]
      by (auto simp: c1_def split: option.splits)
    show "key \<notin> pe_key ` set (pc_recent c1)"
    proof (cases "cached_entry c key")
      case None
      then have "\<not> (e \<in> set (pc_recent c) \<and> pe_key e = key)" for e using shape_entry [OF shape, of key e] by simp
      with None show ?thesis by (auto simp: c1_def)
    next
      case (Some e)
      then have e: "e \<in> set (pc_recent c)" "pe_key e = key" using shape_entry [OF shape] by blast+
      have "pc_recent c1 = filter (\<lambda>x. pe_addr x \<noteq> pe_addr e) (pc_recent c)"
        by (simp add: c1_def Some removeLocked_def)
      then have "set (pc_recent c1) = {x \<in> set (pc_recent c). pe_key x \<noteq> pe_key e}"
        by (rule ssubst) (rule remove_filter(2) [OF shape e(1)])
      then have "pe_key e \<notin> pe_key ` set (pc_recent c1)" by (rule ssubst) auto
      then show ?thesis unfolding e(2) .
    qed
  qed
  have inv1: "cache_inv c1" using inv sh by (rule shrunk_inv)
  show ?thesis
  proof (cases "pc_closed c1 \<or> pc_maxBytes c1 < sz")
    case True
    then have "rememberLocked key prompt now c = Some c1"
      by (simp add: rememberLocked_def c1_def [symmetric] sz_def [symmetric] Let_def)
    then show ?thesis by (rule that [OF _ inv1]) (use sh True in \<open>auto simp: shrunk_def sz_def\<close>)
  next
    case False
    with inv1 evict_returns [of c1 sz] obtain d where d: "evict sz c1 = Some d" "shrunk c1 d"
      "int (length (pc_recent d)) < pc_maxEntries d" "pc_bytes d + sz \<le> pc_maxBytes d" by (auto simp: cache_inv_def)
    define d' where "d' = push_front key prompt now d"
    have ret: "rememberLocked key prompt now c = Some d'"
      using False d(1) by (simp add: rememberLocked_def c1_def [symmetric] sz_def [symmetric] Let_def d'_def)
    have fields: "pc_closed d' = pc_closed c" "pc_maxBytes d' = pc_maxBytes c" "pc_maxEntries d' = pc_maxEntries d"
      "length (pc_recent d') = Suc (length (pc_recent d))" "pc_bytes d' = pc_bytes d + sz" "pc_maxBytes d' = pc_maxBytes d"
      using sh d(2) by (simp_all add: d'_def push_front_def Let_def shrunk_def entry_size_def sz_def)
    have "cache_shape d" "key \<notin> pe_key ` set (pc_recent d)" using d(2) gone by (auto simp: shrunk_def)
    then have shape': "cache_shape d'" unfolding d'_def by (rule push_shape)
    have "cache_inv d" using inv1 d(2) by (rule shrunk_inv)
    with shape' fields d(3,4) False sh have "cache_inv d'" by (auto simp: cache_inv_def shrunk_def)
    moreover have "\<lparr>pe_addr = pc_fresh d, pe_key = key, pe_prompt = prompt, pe_touched = now\<rparr> \<in> set (pc_recent d')"
      by (simp add: d'_def push_front_def Let_def)
    with shape_entry [OF shape'] have "cached_entry d' key = Some \<lparr>pe_addr = pc_fresh d, pe_key = key, pe_prompt = prompt, pe_touched = now\<rparr>"
      by simp
    ultimately show ?thesis using that [OF ret] fields by simp
  qed
qed

text \<open>The operations on the cache, in any order.\<close>

inductive cache_step :: "prompt_cache \<Rightarrow> prompt_cache \<Rightarrow> bool" where
  remember: "Remember codec protocol model session request now c = Some d \<Longrightarrow> cache_step c d"
| prefix: "prefixAndRemember protocol model session prompt now c = Some (hit, d) \<Longrightarrow> cache_step c d"
| expire: "cache_step c (expireLocked now c)"
| stats: "cache_step c (snd (cache_Stats now c))"
| close: "cache_step c (cache_Close c)"

lemma expire_inv: "cache_inv c \<Longrightarrow> cache_inv (expireLocked now c)"
  by (rule shrunk_inv, assumption, rule expire_shrunk) (simp add: cache_inv_def)

lemma remember_some: "cache_inv c \<Longrightarrow> \<exists>d. rememberLocked key prompt now c = Some d \<and> cache_inv d"
  by (erule remember_returns [of c key prompt now]) blast

lemma Remember_returns: "cache_inv c \<Longrightarrow> \<exists>d. Remember codec protocol model session request now c = Some d \<and> cache_inv d"
  using remember_some [OF expire_inv] by (simp add: Remember_def Let_def)

lemma prefix_returns: "cache_inv c \<Longrightarrow> \<exists>hit d. prefixAndRemember protocol model session prompt now c = Some (hit, d) \<and> cache_inv d"
  using remember_some [OF expire_inv, of c "cache_key protocol model session" prompt now now]
  by (auto simp: prefixAndRemember_def Let_def)

lemma cache_step_inv: "cache_step c d \<Longrightarrow> cache_inv c \<Longrightarrow> cache_inv d"
proof (induction rule: cache_step.induct)
  case (remember codec protocol model session request now c d)
  from Remember_returns [OF remember.prems] remember.hyps show ?case by (metis option.inject)
next
  case (prefix protocol model session prompt now c hit d)
  from prefix_returns [OF prefix.prems] prefix.hyps show ?case by (metis option.inject prod.inject)
next
  case (expire c now)
  then show ?case by (rule expire_inv)
next
  case (stats c now)
  then show ?case by (simp add: cache_Stats_def Let_def expire_inv)
next
  case (close c)
  then show ?case by (simp add: cache_Close_def cache_inv_def cache_shape_def)
qed

interpretation cache_safety: safe_system "\<lambda>c. \<exists>entries sz ttl. c = newPromptCache entries sz ttl \<and> 1 \<le> entries \<and> 0 \<le> sz" cache_step cache_inv
proof unfold_locales
  fix c assume "\<exists>entries sz ttl. c = newPromptCache entries sz ttl \<and> 1 \<le> entries \<and> 0 \<le> sz"
  then show "cache_inv c" by (auto simp: newPromptCache_def cache_inv_def cache_shape_def)
qed (rule cache_step_inv)

text \<open>C31. The prompt cache never exceeds its limits and its eviction loop always ends. In every sequence of
  operations on a new cache, the entries are at most the limit, the byte count is exactly the bytes of the
  keys and prompts held and at most its limit, the map and the list agree, and a further
  \<open>Remember\<close> or prefix lookup returns: the loop never takes the back of an empty list. What was just remembered
  is found.\<close>

theorem prompt_cache_bounded:
  assumes "1 \<le> entries" "0 \<le> sz" "cache_step\<^sup>*\<^sup>* (newPromptCache entries sz ttl) c"
  shows "int (length (pc_prompts c)) \<le> pc_maxEntries c \<and>
    pc_bytes c = sum_list (map entry_size (pc_recent c)) \<and> pc_bytes c \<le> pc_maxBytes c \<and>
    length (pc_prompts c) = length (pc_recent c) \<and>
    Remember codec protocol model session request now c \<noteq> None \<and>
    prefixAndRemember protocol model session prompt now c \<noteq> None \<and>
    (\<exists>d. rememberLocked key prompt now c = Some d \<and>
       (\<not> pc_closed c \<and> int (length key) + int (length prompt) \<le> pc_maxBytes c \<longrightarrow>
          map_option pe_prompt (cached_entry d key) = Some prompt))"
proof -
  have inv: "cache_inv c" using cache_safety.run_inv [OF _ assms(3)] assms(1,2) by blast
  then have "cache_shape c" by (simp add: cache_inv_def)
  note len = shape_length [OF this]
  from inv have "int (length (pc_recent c)) \<le> pc_maxEntries c" "pc_bytes c = sum_list (map entry_size (pc_recent c))"
    "pc_bytes c \<le> pc_maxBytes c" by (simp_all add: cache_inv_def cache_shape_def)
  moreover obtain d where "rememberLocked key prompt now c = Some d"
    "\<not> pc_closed c \<Longrightarrow> int (length key) + int (length prompt) \<le> pc_maxBytes c \<Longrightarrow> map_option pe_prompt (cached_entry d key) = Some prompt"
    using remember_returns [OF inv, of key prompt now] by metis
  ultimately show ?thesis
    using len Remember_returns [OF inv] prefix_returns [OF inv] by (metis option.distinct(1))
qed

definition sample_cache :: prompt_cache where
  "sample_cache = newPromptCache 2 100 minute"

theorem prompt_cache_bounded_witness:
  "\<exists>c. cache_step\<^sup>*\<^sup>* sample_cache c \<and> length (pc_prompts c) = 1 \<and>
     rememberLocked ''k2'' ''abcdef'' second c \<noteq> None \<and> pc_bytes c \<le> pc_maxBytes c"
proof -
  define c where "c = the (map_option snd (prefixAndRemember ''openai'' ''m'' ''s'' ''prompt'' second sample_cache))"
  have "map_option fst (prefixAndRemember ''openai'' ''m'' ''s'' ''prompt'' second sample_cache) = Some 0"
    and len: "length (pc_prompts c) = 1" unfolding c_def by code_simp+
  then have "prefixAndRemember ''openai'' ''m'' ''s'' ''prompt'' second sample_cache = Some (0, c)"
    by (auto simp: c_def)
  then have run: "cache_step\<^sup>*\<^sup>* sample_cache c" using cache_step.prefix by blast
  have "cache_step\<^sup>*\<^sup>* (newPromptCache 2 100 minute) c" using run by (simp add: sample_cache_def)
  have "(1 :: int) \<le> 2" "(0 :: int) \<le> 100" by simp_all
  note bounded = prompt_cache_bounded [OF this \<open>cache_step\<^sup>*\<^sup>* (newPromptCache 2 100 minute) c\<close>, of undefined "[]" "[]" "[]" "[]" second "''abcdef''" "''k2''"]
  have "rememberLocked ''k2'' ''abcdef'' second c \<noteq> None" "pc_bytes c \<le> pc_maxBytes c"
    using bounded by auto
  with run len show ?thesis by blast
qed

section \<open>Common prefixes end at a character\<close>

text \<open>A cut at \<open>i\<close> does not split a character of either prompt.\<close>

definition clean_cut :: "string \<Rightarrow> string \<Rightarrow> nat \<Rightarrow> bool" where
  "clean_cut a b i \<longleftrightarrow> i = 0 \<or> length a \<le> i \<or> length b \<le> i \<or> rune_start (a ! i)"

lemma match_length_le: "match_length a b \<le> length a \<and> match_length a b \<le> length b"
  by (induction a b rule: match_length.induct) auto

lemma match_length_take_iff: "j \<le> length a \<Longrightarrow> j \<le> length b \<Longrightarrow> take j a = take j b \<longleftrightarrow> j \<le> match_length a b"
  by (induction a b arbitrary: j rule: match_length.induct) (auto simp: take_Cons split: nat.splits)

lemma back_off_spec:
  "back_off a b i \<le> i \<and> clean_cut a b (back_off a b i) \<and> (\<forall>j \<le> i. clean_cut a b j \<longrightarrow> j \<le> back_off a b i)"
proof (induction a b i rule: back_off.induct)
  case (2 a b i)
  show ?case
  proof (cases "Suc i < length a \<and> Suc i < length b \<and> \<not> rune_start (a ! Suc i)")
    case True
    then have "\<not> clean_cut a b (Suc i)" by (auto simp: clean_cut_def)
    with 2 True show ?thesis by (auto simp: le_Suc_eq)
  next
    case False
    then show ?thesis by (auto simp: clean_cut_def)
  qed
qed (simp add: clean_cut_def)

text \<open>The reused prefix is the longest one that is shared and does not split a UTF-8 character: both
  prompts agree up to it, it ends at the start of a character or at the end of a prompt, and every
  other such prefix is at most as long.\<close>

theorem common_prefix_exact:
  "commonPrefix a b \<le> min (length a) (length b) \<and> take (commonPrefix a b) a = take (commonPrefix a b) b \<and>
   clean_cut a b (commonPrefix a b) \<and>
   {j. j \<le> min (length a) (length b) \<and> take j a = take j b \<and> clean_cut a b j} \<subseteq> {..commonPrefix a b}"
proof -
  note spec = back_off_spec [of a b "match_length a b", folded commonPrefix_def]
  note le = match_length_le [of a b]
  have "commonPrefix a b \<le> length a" "commonPrefix a b \<le> length b" using spec le by linarith+
  moreover from this have "take (commonPrefix a b) a = take (commonPrefix a b) b"
    using match_length_take_iff spec by blast
  ultimately show ?thesis using spec by (auto simp: match_length_take_iff)
qed

section \<open>The estimate is proportional to the text\<close>

lemma rune_size_bounds: "rune_size (c # s) = Some n \<Longrightarrow> 1 \<le> n \<and> n \<le> 4 \<and> n \<le> Suc (length s) \<and> (in_byte 0 127 c \<longrightarrow> n = 1)"
  by (auto simp: Let_def split: if_splits)

declare rune_size.simps [simp del]

lemma flush_run_bounds: "0 \<le> run \<Longrightarrow> run \<le> 4 * (flush_run t run - t) \<and> flush_run t run - t \<le> run"
  by (auto simp: flush_run_def)

lemma count_tokens_bounds:
  "0 \<le> run \<Longrightarrow> int (length s) + run \<le> 4 * (count_tokens s t run - t) \<and> count_tokens s t run - t \<le> int (length s) + run"
proof (induction s t run rule: count_tokens.induct)
  case (1 t run)
  then show ?case using flush_run_bounds [of run t] by simp
next
  case (2 c s t run)
  note fl = flush_run_bounds [OF "2.prems", of t]
  show ?case
  proof (cases "rune_size (c # s)")
    case None
    have "int (length s) + 0 \<le> 4 * (count_tokens s (flush_run t run + 1) 0 - (flush_run t run + 1)) \<and>
        count_tokens s (flush_run t run + 1) 0 - (flush_run t run + 1) \<le> int (length s) + 0"
      by (rule "2.IH"(1) [OF None]) simp
    moreover have "count_tokens (c # s) t run = count_tokens s (flush_run t run + 1) 0" using None by simp
    ultimately show ?thesis using fl by (simp only: list.size) auto
  next
    case (Some n)
    note n = rune_size_bounds [OF Some]
    show ?thesis
    proof (cases "in_byte 0 127 c \<and> run_char c")
      case True
      have "int (length (drop (n - 1) s)) + (run + 1) \<le> 4 * (count_tokens (drop (n - 1) s) t (run + 1) - t) \<and>
          count_tokens (drop (n - 1) s) t (run + 1) - t \<le> int (length (drop (n - 1) s)) + (run + 1)"
        by (rule "2.IH"(2) [OF Some True]) (use "2.prems" in simp)
      moreover have "count_tokens (c # s) t run = count_tokens (drop (n - 1) s) t (run + 1)" using Some True by simp
      ultimately show ?thesis using n True by simp
    next
      case False
      have "int (length (drop (n - 1) s)) + 0 \<le> 4 * (count_tokens (drop (n - 1) s) (flush_run t run + 1) 0 - (flush_run t run + 1)) \<and>
          count_tokens (drop (n - 1) s) (flush_run t run + 1) 0 - (flush_run t run + 1) \<le> int (length (drop (n - 1) s)) + 0"
        by (rule "2.IH"(3) [OF Some False]) simp
      moreover have "count_tokens (c # s) t run = count_tokens (drop (n - 1) s) (flush_run t run + 1) 0"
        unfolding count_tokens.simps(2) Some option.case if_not_P [OF False] by (rule refl)
      ultimately show ?thesis using n fl by (simp only: list.size length_drop) auto
    qed
  qed
qed

text \<open>The fallback token estimate stays between a quarter of the bytes of the text and its bytes, and is
  positive exactly for a non-empty text, whatever the bytes, valid UTF-8 or not.\<close>

theorem token_estimate_bounds:
  "int (length data) \<le> 4 * estimateTokens data \<and> estimateTokens data \<le> int (length data) \<and>
   (0 < estimateTokens data) = (data \<noteq> [])"
  using count_tokens_bounds [of 0 data 0] by (auto simp: estimateTokens_def Let_def)

end
