(* ===== verification/Adapter_Content.thy ===== *)
theory Adapter_Content
  imports Go_Json
begin

text \<open>
  \<^verbatim>\<open>internal/adapter/tools.go\<close> and \<^verbatim>\<open>native_content.go\<close>, \<open>textContent\<close> and \<open>ValidateResponse\<close> of
  \<^verbatim>\<open>protocol.go\<close>: the message contents, tools and tool calls that both protocols exchange, what the adapter
  checks of them, and the check of a whole response.

  A struct is a record with its decoder; \<open>dec_all\<close> runs the decoders of the fields.
\<close>

section \<open>Struct decoders\<close>

type_synonym 'b field_decoder = "(string \<times> json) list \<Rightarrow> 'b \<Rightarrow> 'b option"

definition dec_into :: "string \<Rightarrow> 'a decoder \<Rightarrow> ('b \<Rightarrow> 'a) \<Rightarrow> ('a \<Rightarrow> 'b \<Rightarrow> 'b) \<Rightarrow> 'b field_decoder" where
  "dec_into name d get put kvs b = map_option (\<lambda>v. put v b) (dec_member name d (get b) kvs)"

fun dec_all :: "'b field_decoder list \<Rightarrow> 'b field_decoder" where
  "dec_all [] kvs b = Some b"
| "dec_all (f # fs) kvs b = Option.bind (f kvs b) (dec_all fs kvs)"

fun dec_bool :: "bool decoder" where
  "dec_bool cur (JBool b) = Some b"
| "dec_bool cur JNull = Some cur"
| "dec_bool cur _ = None"

section \<open>Content blocks\<close>

record cache_control =
  cc_Type :: string
  cc_TTL :: string

definition zero_cache_control :: cache_control where
  "zero_cache_control = \<lparr>cc_Type = [], cc_TTL = []\<rparr>"

definition dec_cache_control :: "cache_control decoder" where
  "dec_cache_control = dec_struct (dec_all
     [dec_into ''type'' dec_string cc_Type (\<lambda>v b. b\<lparr>cc_Type := v\<rparr>),
      dec_into ''ttl'' dec_string cc_TTL (\<lambda>v b. b\<lparr>cc_TTL := v\<rparr>)])"

definition cache_control_valid :: "cache_control option \<Rightarrow> bool" where
  "cache_control_valid c \<longleftrightarrow>
     (case c of None \<Rightarrow> True | Some v \<Rightarrow> cc_Type v = ''ephemeral'' \<and> cc_TTL v \<in> {[], ''5m'', ''1h''})"

record content_block =
  cb_Type :: string
  cb_Text :: "string option"
  cb_CacheControl :: "cache_control option"
  cb_ID :: string
  cb_Name :: string
  cb_Input :: "json option"
  cb_ToolUseID :: string
  cb_Content :: "json option"
  cb_IsError :: "bool option"
  cb_Thinking :: "string option"
  cb_Signature :: string
  cb_Data :: string
  cb_Source :: "json option"
  cb_Citations :: "json option"
  cb_Transformations :: "json option"
  cb_Title :: string
  cb_Context :: string
  cb_Caller :: "json option"
  cb_EncryptedContent :: string
  cb_ReturnCode :: "int option"
  cb_Stderr :: string
  cb_FileID :: string

definition zero_block :: content_block where
  "zero_block = \<lparr>cb_Type = [], cb_Text = None, cb_CacheControl = None, cb_ID = [], cb_Name = [], cb_Input = None,
     cb_ToolUseID = [], cb_Content = None, cb_IsError = None, cb_Thinking = None, cb_Signature = [], cb_Data = [],
     cb_Source = None, cb_Citations = None, cb_Transformations = None, cb_Title = [], cb_Context = [], cb_Caller = None,
     cb_EncryptedContent = [], cb_ReturnCode = None, cb_Stderr = [], cb_FileID = []\<rparr>"

definition dec_block :: "content_block decoder" where
  "dec_block = dec_struct (dec_all
     [dec_into ''type'' dec_string cb_Type (\<lambda>v b. b\<lparr>cb_Type := v\<rparr>),
      dec_into ''text'' (dec_ptr [] dec_string) cb_Text (\<lambda>v b. b\<lparr>cb_Text := v\<rparr>),
      dec_into ''cache_control'' (dec_ptr zero_cache_control dec_cache_control) cb_CacheControl (\<lambda>v b. b\<lparr>cb_CacheControl := v\<rparr>),
      dec_into ''id'' dec_string cb_ID (\<lambda>v b. b\<lparr>cb_ID := v\<rparr>),
      dec_into ''name'' dec_string cb_Name (\<lambda>v b. b\<lparr>cb_Name := v\<rparr>),
      dec_into ''input'' dec_raw cb_Input (\<lambda>v b. b\<lparr>cb_Input := v\<rparr>),
      dec_into ''tool_use_id'' dec_string cb_ToolUseID (\<lambda>v b. b\<lparr>cb_ToolUseID := v\<rparr>),
      dec_into ''content'' dec_raw cb_Content (\<lambda>v b. b\<lparr>cb_Content := v\<rparr>),
      dec_into ''is_error'' (dec_ptr False dec_bool) cb_IsError (\<lambda>v b. b\<lparr>cb_IsError := v\<rparr>),
      dec_into ''thinking'' (dec_ptr [] dec_string) cb_Thinking (\<lambda>v b. b\<lparr>cb_Thinking := v\<rparr>),
      dec_into ''signature'' dec_string cb_Signature (\<lambda>v b. b\<lparr>cb_Signature := v\<rparr>),
      dec_into ''data'' dec_string cb_Data (\<lambda>v b. b\<lparr>cb_Data := v\<rparr>),
      dec_into ''source'' dec_raw cb_Source (\<lambda>v b. b\<lparr>cb_Source := v\<rparr>),
      dec_into ''citations'' dec_raw cb_Citations (\<lambda>v b. b\<lparr>cb_Citations := v\<rparr>),
      dec_into ''transformations'' dec_raw cb_Transformations (\<lambda>v b. b\<lparr>cb_Transformations := v\<rparr>),
      dec_into ''title'' dec_string cb_Title (\<lambda>v b. b\<lparr>cb_Title := v\<rparr>),
      dec_into ''context'' dec_string cb_Context (\<lambda>v b. b\<lparr>cb_Context := v\<rparr>),
      dec_into ''caller'' dec_raw cb_Caller (\<lambda>v b. b\<lparr>cb_Caller := v\<rparr>),
      dec_into ''encrypted_content'' dec_string cb_EncryptedContent (\<lambda>v b. b\<lparr>cb_EncryptedContent := v\<rparr>),
      dec_into ''return_code'' (dec_ptr 0 dec_int) cb_ReturnCode (\<lambda>v b. b\<lparr>cb_ReturnCode := v\<rparr>),
      dec_into ''stderr'' dec_string cb_Stderr (\<lambda>v b. b\<lparr>cb_Stderr := v\<rparr>),
      dec_into ''file_id'' dec_string cb_FileID (\<lambda>v b. b\<lparr>cb_FileID := v\<rparr>)])"

text \<open>The blocks of which only the type is read.\<close>

definition dec_typed :: "string decoder" where
  "dec_typed = dec_struct (\<lambda>kvs ty. dec_member ''type'' dec_string ty kvs)"

definition lenient :: "text_ops \<Rightarrow> 'a decoder \<Rightarrow> 'a \<Rightarrow> json option \<Rightarrow> 'a option" where
  "lenient tx d zero raw =
     (case raw of None \<Rightarrow> None | Some j \<Rightarrow> if strict_value tx j then d zero j else None)"

definition nativeContentBlocks :: "text_ops \<Rightarrow> json option \<Rightarrow> bool" where
  "nativeContentBlocks tx raw \<longleftrightarrow>
     (case lenient tx (dec_list [] dec_typed) [] raw of None \<Rightarrow> False | Some types \<Rightarrow> list_all (\<lambda>ty. ty \<noteq> []) types)"

definition nativeContentBlock :: "text_ops \<Rightarrow> json option \<Rightarrow> bool" where
  "nativeContentBlock tx raw \<longleftrightarrow>
     (case lenient tx dec_typed [] raw of None \<Rightarrow> False | Some ty \<Rightarrow> ty \<noteq> [])"

definition dec_text_part :: "(string \<times> string option) decoder" where
  "dec_text_part = dec_struct (dec_all
     [dec_into ''type'' dec_string fst (\<lambda>v p. (v, snd p)),
      dec_into ''text'' (dec_ptr [] dec_string) snd (\<lambda>v p. (fst p, v))])"

definition messageContent :: "text_ops \<Rightarrow> string \<Rightarrow> json option \<Rightarrow> bool" where
  "messageContent tx protocol raw \<longleftrightarrow>
     (case raw of Some (JStr _) \<Rightarrow> True
      | _ \<Rightarrow>
          if protocol = ''anthropic'' then nativeContentBlocks tx raw
          else (case lenient tx (dec_list ([], None) dec_text_part) [] raw of
                  None \<Rightarrow> False
                | Some parts \<Rightarrow> parts \<noteq> [] \<and> list_all (\<lambda>p. fst p = ''text'' \<and> snd p \<noteq> None) parts))"

text \<open>\<open>textContent\<close>: \<open>null\<close> decodes to the empty string.\<close>

definition textContent :: "text_ops \<Rightarrow> json option \<Rightarrow> bool" where
  "textContent tx raw \<longleftrightarrow>
     (case raw of
        Some (JStr s) \<Rightarrow> s \<noteq> []
      | Some JNull \<Rightarrow> False
      | _ \<Rightarrow>
          (case lenient tx (dec_list ([], []) (dec_struct (dec_all
                  [dec_into ''type'' dec_string fst (\<lambda>v p. (v, snd p)),
                   dec_into ''text'' dec_string snd (\<lambda>v p. (fst p, v))]))) [] raw of
             None \<Rightarrow> False
           | Some parts \<Rightarrow> parts \<noteq> [] \<and> list_all (\<lambda>p. fst p = ''text'' \<and> snd p \<noteq> []) parts))"

section \<open>Unsupported blocks\<close>

definition anthropic_block_types :: "string list" where
  "anthropic_block_types = [''text'', ''image'', ''document'', ''search_result'', ''tool_use'', ''tool_result'', ''thinking'',
     ''redacted_thinking'', ''compaction'', ''server_tool_use'', ''web_search_tool_result'', ''web_fetch_tool_result'',
     ''code_execution_tool_result'', ''bash_code_execution_tool_result'', ''text_editor_code_execution_tool_result'',
     ''tool_search_tool_result'', ''container_upload'']"

definition supportedContentBlockType :: "string \<Rightarrow> string \<Rightarrow> bool" where
  "supportedContentBlockType protocol kind \<longleftrightarrow>
     (if protocol = ''openai'' then kind = ''text'' else kind \<in> set anthropic_block_types)"

definition dec_outline :: "(string \<times> json option) decoder" where
  "dec_outline = dec_struct (dec_all
     [dec_into ''type'' dec_string fst (\<lambda>v p. (v, snd p)),
      dec_into ''content'' dec_raw snd (\<lambda>v p. (fst p, v))])"

text \<open>The loop returns at the first unsupported type, and at the first tool result whatever it
  holds: the nested call never returns the empty string. The fuel \<open>n\<close> is the depth of the nesting.\<close>

fun unsupported_path :: "nat \<Rightarrow> string \<Rightarrow> json option \<Rightarrow> string \<Rightarrow> string"
  and unsupported_blocks :: "nat \<Rightarrow> string \<Rightarrow> nat \<Rightarrow> (string \<times> json option) list \<Rightarrow> string \<Rightarrow> string"
where
  "unsupported_path n protocol raw path =
     (case n of
        0 \<Rightarrow> path
      | Suc m \<Rightarrow>
          (case dec_opt (dec_list ([], None) dec_outline) [] raw of
             None \<Rightarrow> path
           | Some blocks \<Rightarrow> unsupported_blocks m protocol 0 blocks path))"
| "unsupported_blocks n protocol i [] path = path"
| "unsupported_blocks n protocol i ((kind, content) # bs) path =
     (let blockPath = path @ ''['' @ show_int (int i) @ '']'' in
      if \<not> supportedContentBlockType protocol kind then blockPath @ ''.type''
      else if kind = ''tool_result'' then
        (let nested = unsupported_path n protocol content (blockPath @ ''.content'') in
         if nested \<noteq> [] then nested else unsupported_blocks n protocol (Suc i) bs path)
      else unsupported_blocks n protocol (Suc i) bs path)"

definition unsupportedContentBlockPath :: "string \<Rightarrow> json option \<Rightarrow> string \<Rightarrow> string" where
  "unsupportedContentBlockPath protocol raw path =
     unsupported_path (case raw of None \<Rightarrow> 1 | Some j \<Rightarrow> Suc (size j)) protocol raw path"

section \<open>Tools\<close>

record tool_function =
  tf_Name :: string
  tf_Description :: string
  tf_Parameters :: "json option"
  tf_Strict :: "bool option"

record tool =
  tl_Type :: string
  tl_Function :: "tool_function option"
  tl_Name :: string
  tl_Description :: string
  tl_InputSchema :: "json option"
  tl_CacheControl :: "cache_control option"
  tl_EagerInputStreaming :: "bool option"
  tl_Extensions :: "(string \<times> json) list"

record tool_call =
  tc_ID :: string
  tc_Type :: string
  tc_Name :: string
  tc_Arguments :: string

definition zero_function :: tool_function where
  "zero_function = \<lparr>tf_Name = [], tf_Description = [], tf_Parameters = None, tf_Strict = None\<rparr>"

definition dec_function :: "tool_function decoder" where
  "dec_function = dec_struct (dec_all
     [dec_into ''name'' dec_string tf_Name (\<lambda>v b. b\<lparr>tf_Name := v\<rparr>),
      dec_into ''description'' dec_string tf_Description (\<lambda>v b. b\<lparr>tf_Description := v\<rparr>),
      dec_into ''parameters'' dec_raw tf_Parameters (\<lambda>v b. b\<lparr>tf_Parameters := v\<rparr>),
      dec_into ''strict'' (dec_ptr False dec_bool) tf_Strict (\<lambda>v b. b\<lparr>tf_Strict := v\<rparr>)])"

definition zero_tool_def :: tool where
  "zero_tool_def = \<lparr>tl_Type = [], tl_Function = None, tl_Name = [], tl_Description = [], tl_InputSchema = None,
     tl_CacheControl = None, tl_EagerInputStreaming = None, tl_Extensions = []\<rparr>"

definition known_tool_fields :: "string list" where
  "known_tool_fields = [''type'', ''function'', ''name'', ''description'', ''input_schema'', ''cache_control'', ''eager_input_streaming'']"

text \<open>\<open>Tool.UnmarshalJSON\<close> decodes into a fresh value; unknown members become extensions.\<close>

definition dec_tool :: "text_ops \<Rightarrow> tool decoder" where
  "dec_tool tx cur j =
     map_option
       (\<lambda>d. d\<lparr>tl_Extensions := filter (\<lambda>kv. tx_lower tx (fst kv) \<notin> set known_tool_fields) (last_wins (members j))\<rparr>)
       (dec_struct (dec_all
          [dec_into ''type'' dec_string tl_Type (\<lambda>v b. b\<lparr>tl_Type := v\<rparr>),
           dec_into ''function'' (dec_ptr zero_function dec_function) tl_Function (\<lambda>v b. b\<lparr>tl_Function := v\<rparr>),
           dec_into ''name'' dec_string tl_Name (\<lambda>v b. b\<lparr>tl_Name := v\<rparr>),
           dec_into ''description'' dec_string tl_Description (\<lambda>v b. b\<lparr>tl_Description := v\<rparr>),
           dec_into ''input_schema'' dec_raw tl_InputSchema (\<lambda>v b. b\<lparr>tl_InputSchema := v\<rparr>),
           dec_into ''cache_control'' (dec_ptr zero_cache_control dec_cache_control) tl_CacheControl (\<lambda>v b. b\<lparr>tl_CacheControl := v\<rparr>),
           dec_into ''eager_input_streaming'' (dec_ptr False dec_bool) tl_EagerInputStreaming
             (\<lambda>v b. b\<lparr>tl_EagerInputStreaming := v\<rparr>)]) zero_tool_def j)"

definition HasAnthropicServerTools :: "json_codec \<Rightarrow> text_ops \<Rightarrow> string \<Rightarrow> bool" where
  "HasAnthropicServerTools codec tx data \<longleftrightarrow>
     (case Option.bind (jc_parse codec data)
             (dec_struct (\<lambda>kvs ts. dec_member ''tools'' (dec_list zero_tool_def (dec_tool tx)) ts kvs) []) of
        None \<Rightarrow> False
      | Some ts \<Rightarrow> list_ex (\<lambda>t. tl_Type t \<noteq> [] \<and> tl_Type t \<noteq> ''custom'') ts)"

definition valid_openai_tool :: "tool \<Rightarrow> bool" where
  "valid_openai_tool t \<longleftrightarrow>
     tl_Type t = ''function'' \<and> tl_Name t = [] \<and> tl_InputSchema t = None \<and> tl_CacheControl t = None \<and> tl_Description t = [] \<and>
     (case tl_Function t of
        None \<Rightarrow> False
      | Some f \<Rightarrow> trim_space (tf_Name f) \<noteq> [] \<and> (tf_Parameters f = None \<or> is_object (tf_Parameters f)))"

definition valid_anthropic_tool :: "tool \<Rightarrow> bool" where
  "valid_anthropic_tool t \<longleftrightarrow>
     tl_Function t = None \<and> trim_space (tl_Name t) \<noteq> [] \<and> cache_control_valid (tl_CacheControl t) \<and>
     (tl_Type t \<in> {[], ''custom''} \<longrightarrow> is_object (tl_InputSchema t))"

definition validTools :: "string \<Rightarrow> tool list \<Rightarrow> bool" where
  "validTools protocol ts \<longleftrightarrow>
     list_all (if protocol = ''openai'' then valid_openai_tool else valid_anthropic_tool) ts"

definition zero_call :: tool_call where
  "zero_call = \<lparr>tc_ID = [], tc_Type = [], tc_Name = [], tc_Arguments = []\<rparr>"

definition dec_call :: "tool_call decoder" where
  "dec_call = dec_struct (dec_all
     [dec_into ''id'' dec_string tc_ID (\<lambda>v b. b\<lparr>tc_ID := v\<rparr>),
      dec_into ''type'' dec_string tc_Type (\<lambda>v b. b\<lparr>tc_Type := v\<rparr>),
      dec_into ''function'' (dec_struct (dec_all
          [dec_into ''name'' dec_string fst (\<lambda>v p. (v, snd p)),
           dec_into ''arguments'' dec_string snd (\<lambda>v p. (fst p, v))]))
        (\<lambda>b. (tc_Name b, tc_Arguments b)) (\<lambda>v b. b\<lparr>tc_Name := fst v, tc_Arguments := snd v\<rparr>)])"

fun valid_calls_from :: "string list \<Rightarrow> tool_call list \<Rightarrow> bool" where
  "valid_calls_from seen [] \<longleftrightarrow> True"
| "valid_calls_from seen (c # cs) \<longleftrightarrow>
     \<not> (tc_ID c = [] \<or> tc_ID c \<in> set seen \<or> tc_Type c \<noteq> ''function'' \<or> trim_space (tc_Name c) = []) \<and>
     valid_calls_from (tc_ID c # seen) cs"

definition validCalls :: "tool_call list \<Rightarrow> bool" where
  "validCalls cs \<longleftrightarrow> valid_calls_from [] cs"

record tool_choice =
  ch_Type :: string
  ch_Name :: string
  ch_Function :: "string option"
  ch_DisableParallel :: "bool option"

definition dec_tool_choice :: "tool_choice decoder" where
  "dec_tool_choice = dec_struct (dec_all
     [dec_into ''type'' dec_string ch_Type (\<lambda>v b. b\<lparr>ch_Type := v\<rparr>),
      dec_into ''name'' dec_string ch_Name (\<lambda>v b. b\<lparr>ch_Name := v\<rparr>),
      dec_into ''function'' (dec_ptr [] (dec_struct (\<lambda>kvs n. dec_member ''name'' dec_string n kvs))) ch_Function
        (\<lambda>v b. b\<lparr>ch_Function := v\<rparr>),
      dec_into ''disable_parallel_tool_use'' (dec_ptr False dec_bool) ch_DisableParallel (\<lambda>v b. b\<lparr>ch_DisableParallel := v\<rparr>)])"

definition zero_tool_choice :: tool_choice where
  "zero_tool_choice = \<lparr>ch_Type = [], ch_Name = [], ch_Function = None, ch_DisableParallel = None\<rparr>"

definition validChoice :: "text_ops \<Rightarrow> string \<Rightarrow> json option \<Rightarrow> bool" where
  "validChoice tx protocol raw \<longleftrightarrow>
     (case raw of
        None \<Rightarrow> True
      | Some (JStr s) \<Rightarrow> protocol = ''openai'' \<and> s \<in> {''auto'', ''none'', ''required''}
      | Some JNull \<Rightarrow> False
      | _ \<Rightarrow>
          (case lenient tx dec_tool_choice zero_tool_choice raw of
             None \<Rightarrow> False
           | Some c \<Rightarrow>
               if protocol = ''openai''
               then ch_Type c = ''function'' \<and> ch_Function c \<noteq> None \<and> ch_Function c \<noteq> Some [] \<and> ch_Name c = [] \<and>
                    ch_DisableParallel c = None
               else ch_Function c = None \<and>
                    (ch_Type c \<in> {''auto'', ''any'', ''none''} \<and> ch_Name c = [] \<or> ch_Type c = ''tool'' \<and> ch_Name c \<noteq> [])))"

section \<open>Whole responses\<close>

record response_message =
  rm_Role :: string
  rm_Content :: "json option"
  rm_Refusal :: string
  rm_Reasoning :: string
  rm_ToolCalls :: "tool_call list"

definition zero_message :: response_message where
  "zero_message = \<lparr>rm_Role = [], rm_Content = None, rm_Refusal = [], rm_Reasoning = [], rm_ToolCalls = []\<rparr>"

definition dec_response_message :: "response_message decoder" where
  "dec_response_message = dec_struct (dec_all
     [dec_into ''role'' dec_string rm_Role (\<lambda>v b. b\<lparr>rm_Role := v\<rparr>),
      dec_into ''content'' dec_raw rm_Content (\<lambda>v b. b\<lparr>rm_Content := v\<rparr>),
      dec_into ''refusal'' dec_string rm_Refusal (\<lambda>v b. b\<lparr>rm_Refusal := v\<rparr>),
      dec_into ''reasoning_content'' dec_string rm_Reasoning (\<lambda>v b. b\<lparr>rm_Reasoning := v\<rparr>),
      dec_into ''tool_calls'' (dec_list zero_call dec_call) rm_ToolCalls (\<lambda>v b. b\<lparr>rm_ToolCalls := v\<rparr>)])"

definition valid_response_message :: "text_ops \<Rightarrow> response_message \<Rightarrow> bool" where
  "valid_response_message tx m \<longleftrightarrow>
     rm_Role m = ''assistant'' \<and>
     (textContent tx (rm_Content m) \<or> rm_Refusal m \<noteq> [] \<or> rm_Reasoning m \<noteq> [] \<or> rm_ToolCalls m \<noteq> []) \<and>
     validCalls (rm_ToolCalls m)"

datatype response_error = InvalidResponse | ResponseUsage usage_error

definition parse_response_usage :: "string \<Rightarrow> json option \<Rightarrow> response_error + token_usage" where
  "parse_response_usage protocol raw =
     (case ParseUsage protocol raw of Inl e \<Rightarrow> Inl (ResponseUsage e) | Inr u \<Rightarrow> Inr u)"

definition ValidateResponse :: "json_codec \<Rightarrow> text_ops \<Rightarrow> string \<Rightarrow> string \<Rightarrow> response_error + token_usage" where
  "ValidateResponse codec tx protocol data =
     (if protocol = ''openai'' then
        (case lenient tx (dec_struct (dec_all
                [dec_into ''choices'' (dec_list (zero_message, []) (dec_struct (dec_all
                     [dec_into ''message'' dec_response_message fst (\<lambda>v p. (v, snd p)),
                      dec_into ''finish_reason'' dec_string snd (\<lambda>v p. (fst p, v))]))) fst (\<lambda>v p. (v, snd p)),
                 dec_into ''usage'' dec_raw snd (\<lambda>v p. (fst p, v))])) ([], None) (jc_parse codec data) of
           None \<Rightarrow> Inl InvalidResponse
         | Some (choices, usage) \<Rightarrow>
             if choices = [] \<or> \<not> list_all (\<lambda>c. valid_response_message tx (fst c)) choices then Inl InvalidResponse
             else parse_response_usage protocol usage)
      else
        (case lenient tx (dec_struct (dec_all
                [dec_into ''type'' dec_string (\<lambda>r. fst r) (\<lambda>v r. (v, snd r)),
                 dec_into ''role'' dec_string (\<lambda>r. fst (snd r)) (\<lambda>v r. (fst r, v, snd (snd r))),
                 dec_into ''content'' dec_raw (\<lambda>r. fst (snd (snd r))) (\<lambda>v r. (fst r, fst (snd r), v, snd (snd (snd r)))),
                 dec_into ''usage'' dec_raw (\<lambda>r. snd (snd (snd r))) (\<lambda>v r. (fst r, fst (snd r), fst (snd (snd r)), v))]))
              ([], [], None, None) (jc_parse codec data) of
           None \<Rightarrow> Inl InvalidResponse
         | Some (ty, role, content, usage) \<Rightarrow>
             if ty \<noteq> ''message'' \<or> role \<noteq> ''assistant'' \<or> \<not> messageContent tx ''anthropic'' content then Inl InvalidResponse
             else parse_response_usage protocol usage))"

section \<open>The search for unsupported blocks ends\<close>

lemma dec_each_raw: "dec_each dec_raw v js = Some (if js = [] then v else Some (last js))"
  by (induction js arbitrary: v) auto

lemma member_size: "(k, v) \<in> set kvs \<Longrightarrow> size v < size (JObj kvs)"
  by (induction kvs) auto

lemma outline_size:
  assumes "dec_outline ([], None) j = Some (kind, Some c)"
  shows "size c < size j"
proof (cases j)
  case (JObj kvs)
  let ?cs = "field_values ''content'' kvs"
  from assms JObj have "dec_each dec_raw None ?cs = Some (Some c)"
    by (auto simp: dec_outline_def dec_into_def dec_member_def bind_eq_Some_conv)
  then have "?cs \<noteq> []" and "c = last ?cs"
    by (auto simp: dec_each_raw split: if_splits)
  then have "c \<in> snd ` set kvs"
    using last_in_set [of ?cs] by (auto simp: field_values_def)
  with JObj show ?thesis by (auto dest: member_size)
qed (use assms in \<open>simp_all add: dec_outline_def\<close>)

lemma dec_elems_fresh:
  "dec_elems zero d [] js = Some vs \<Longrightarrow> v \<in> set vs \<Longrightarrow> \<exists>j\<in>set js. d zero j = Some v"
  by (induction js arbitrary: vs) (auto split: option.splits)

lemma outlines_size:
  assumes "dec_list ([], None) dec_outline [] j = Some bs" and "(kind, Some c) \<in> set bs"
  shows "size c < size j"
proof (cases j)
  case (JArr js)
  with assms obtain x where "x \<in> set js" and "dec_outline ([], None) x = Some (kind, Some c)"
    by (auto dest: dec_elems_fresh)
  then have "size c < size x" by (simp add: outline_size)
  moreover have "size x < size (JArr js)"
    using \<open>x \<in> set js\<close> by (induction js) auto
  ultimately show ?thesis using JArr by simp
qed (use assms in auto)

text \<open>The fuel that \<open>unsupportedContentBlockPath\<close> gives is enough: more does not change the result.\<close>

definition raw_size :: "json option \<Rightarrow> nat" where
  "raw_size raw = (case raw of None \<Rightarrow> 0 | Some j \<Rightarrow> size j)"

declare unsupported_path.simps [simp del]

lemma unsupported_path_fuel:
  "raw_size raw < n \<Longrightarrow> raw_size raw < m \<Longrightarrow> unsupported_path n protocol raw path = unsupported_path m protocol raw path"
proof (induction n arbitrary: m raw path)
  case (Suc n)
  from \<open>raw_size raw < m\<close> obtain m' where m: "m = Suc m'" by (cases m) auto
  have blocks: "unsupported_blocks n protocol i bs path = unsupported_blocks m' protocol i bs path"
    if "\<forall>b\<in>set bs. raw_size (snd b) < n \<and> raw_size (snd b) < m'" for i bs
    using that by (induction bs arbitrary: i) (auto simp: Let_def Suc.IH [of _ m'])
  have small: "\<forall>b\<in>set bs. raw_size (snd b) < n \<and> raw_size (snd b) < m'"
    if "raw = Some j" and "dec_list ([], None) dec_outline [] j = Some bs" and "bs \<noteq> []" for j bs
  proof
    fix b assume b: "b \<in> set bs"
    have "0 < size j" by (cases j) (use that in auto)
    with Suc.prems m that(1) have pos: "0 < n" "0 < m'" by (auto simp: raw_size_def)
    show "raw_size (snd b) < n \<and> raw_size (snd b) < m'"
    proof (cases "snd b")
      case (Some c)
      with b outlines_size [OF that(2), of "fst b" c] have "size c < size j" by (metis prod.collapse)
      with Suc.prems m that(1) Some show ?thesis by (simp add: raw_size_def)
    qed (use pos in \<open>simp add: raw_size_def\<close>)
  qed
  show ?case
  proof (cases raw)
    case None
    then show ?thesis by (simp add: m unsupported_path.simps dec_opt_def)
  next
    case (Some j)
    show ?thesis
    proof (cases "dec_list ([], None) dec_outline [] j")
      case None
      with Some show ?thesis by (simp add: m unsupported_path.simps dec_opt_def)
    next
      case (Some bs)
      show ?thesis
      proof (cases "bs = []")
        case True
        with Some \<open>raw = _\<close> show ?thesis by (simp add: m unsupported_path.simps dec_opt_def)
      next
        case False
        from blocks [OF small [OF \<open>raw = Some j\<close> Some False]] Some \<open>raw = Some j\<close>
        show ?thesis by (simp add: m unsupported_path.simps dec_opt_def)
      qed
    qed
  qed
qed simp

text \<open>The path that is reported can blame the wrong block: a valid tool result hides the block after it
  whose type is not supported.\<close>

lemma tool_result_hides_unsupported_block:
  "\<not> messageContent tx ''anthropic''
       (Some (JArr [JObj [(''type'', JStr ''tool_result''), (''content'', JStr ''ok'')], JObj [(''type'', JStr [])]]))"
  "unsupportedContentBlockPath ''anthropic''
     (Some (JArr [JObj [(''type'', JStr ''tool_result''), (''content'', JStr ''ok'')], JObj [(''type'', JStr [])]]))
     ''messages[0].content'' = ''messages[0].content[0].content''"
proof -
  show "\<not> messageContent tx ''anthropic''
       (Some (JArr [JObj [(''type'', JStr ''tool_result''), (''content'', JStr ''ok'')], JObj [(''type'', JStr [])]]))"
    by (auto simp: messageContent_def nativeContentBlocks_def lenient_def dec_typed_def dec_member_def field_values_def
        to_lower_def is_upper_def)
qed code_simp

end
