(* ===== verification/Stream_Translation.thy ===== *)
theory Stream_Translation
  imports Adapter_Content
begin

text \<open>
  The stream translators of \<^verbatim>\<open>internal/adapter/translate.go\<close>: server-sent events of one protocol in,
  events of the other out, one upstream frame at a time.

  What a translator sends is a list of typed events (\<open>anthropic_event\<close>, \<open>openai_chunk\<close>); the bytes
  are \<open>anthropic_bytes\<close> and \<open>chunk_bytes\<close> of them, through the codec. An upstream frame is bytes;
  \<open>parseSSEFrame\<close> splits it and the decoders of \<open>Go_Json\<close> read its data. Block indices count up from 0 and are
  natural numbers. \<open>None\<close> as the result of a step is the error \<^verbatim>\<open>invalid_upstream_stream\<close>.
\<close>

section \<open>Frames\<close>

definition parseSSEFrame :: "string \<Rightarrow> string \<times> string" where
  "parseSSEFrame frame =
     (let ls = map trim_cr (split_lines frame);
          events = map (\<lambda>l. trim_space (drop 6 l)) (filter (\<lambda>l. has_prefix l ''event:'') ls);
          datas = map (\<lambda>l. trim_space (drop 5 l)) (filter (\<lambda>l. has_prefix l ''data:'') ls)
      in (if events = [] then [] else last events, join_lines datas))"

definition anthropicEvent :: "json_codec \<Rightarrow> string \<Rightarrow> json \<Rightarrow> string" where
  "anthropicEvent codec event payload =
     ''event: '' @ event @ [CHR 0x0A] @ ''data: '' @ jc_show codec payload @ [CHR 0x0A, CHR 0x0A]"

definition firstNonEmpty :: "string \<Rightarrow> string \<Rightarrow> string" where
  "firstNonEmpty v fallback = (if v \<noteq> [] then v else fallback)"

text \<open>A conversion that would change the meaning: \<open>TranslationError\<close>, and the plain error.\<close>

datatype translate_error = PlainError | Conversion string string

definition json_int :: "int \<Rightarrow> json" where
  "json_int n = JNum (show_int n)"

section \<open>Stop reasons and usage\<close>

definition translateOpenAIStopReason :: "string option \<Rightarrow> translate_error + string" where
  "translateOpenAIStopReason reason =
     (case reason of
        None \<Rightarrow> Inr ''end_turn''
      | Some r \<Rightarrow>
          if r = [] \<or> r = ''stop'' then Inr ''end_turn''
          else if r = ''length'' then Inr ''max_tokens''
          else if r = ''tool_calls'' then Inr ''tool_use''
          else Inl (Conversion ''unrepresentable_finish_reason'' ''choices[0].finish_reason''))"

definition translateAnthropicStopReason :: "string option \<Rightarrow> translate_error + string \<times> string list" where
  "translateAnthropicStopReason reason =
     (case reason of
        None \<Rightarrow> Inr (''stop'', [])
      | Some r \<Rightarrow>
          if r = [] \<or> r = ''end_turn'' then Inr (''stop'', [])
          else if r = ''max_tokens'' then Inr (''length'', [])
          else if r = ''tool_use'' then Inr (''tool_calls'', [])
          else if r = ''stop_sequence'' then Inr (''stop'', [''stop_sequence''])
          else if r = ''refusal'' then Inr (''stop'', [''stop_reason''])
          else Inl (Conversion ''unrepresentable_finish_reason'' ''stop_reason''))"

text \<open>The closure \<open>get\<close> of the usage conversions: a count that is a non-negative integer; \<open>null\<close>
  decodes to 0.\<close>

definition usage_value :: "(string \<times> json) list \<Rightarrow> string \<Rightarrow> int option" where
  "usage_value kvs name =
     (case usage_member kvs name of
        None \<Rightarrow> None
      | Some j \<Rightarrow> (case dec_int 0 j of None \<Rightarrow> None | Some n \<Rightarrow> if n < 0 then None else Some n))"

text \<open>Addition of 64-bit integers wraps.\<close>

definition wrap64 :: "int \<Rightarrow> int" where
  "wrap64 n = (n + 9223372036854775808) mod 18446744073709551616 - 9223372036854775808"

definition translateAnthropicUsage :: "json option \<Rightarrow> int option \<Rightarrow> json option" where
  "translateAnthropicUsage raw inputFallback =
     (let j = (case raw of None \<Rightarrow> JNull | Some v \<Rightarrow> v) in
      if j = JNull \<and> inputFallback = None then None
      else
        (case (if j = JNull then JObj [] else j) of
           JObj kvs \<Rightarrow>
             (let cacheRead = usage_value kvs ''cache_read_input_tokens'';
                  cacheWrite = usage_value kvs ''cache_creation_input_tokens'';
                  base = (case usage_value kvs ''input_tokens'' of None \<Rightarrow> inputFallback | Some n \<Rightarrow> Some n);
                  input = map_option (\<lambda>n. wrap64 (wrap64 (n + count_or_zero cacheRead) + count_or_zero cacheWrite)) base;
                  out = usage_value kvs ''output_tokens''
              in if input = None \<and> out = None then None
                 else Some (JObj
                   ((case out of None \<Rightarrow> [] | Some n \<Rightarrow> [(''completion_tokens'', json_int n)]) @
                    (case input of None \<Rightarrow> [] | Some n \<Rightarrow> [(''prompt_tokens'', json_int n)]) @
                    (case cacheRead of None \<Rightarrow> [] | Some n \<Rightarrow> [(''prompt_tokens_details'', JObj [(''cached_tokens'', json_int n)])]) @
                    [(''total_tokens'', json_int (wrap64 (count_or_zero input + count_or_zero out)))])))
         | _ \<Rightarrow> None))"

definition anthropicInputTokens :: "json option \<Rightarrow> int option" where
  "anthropicInputTokens raw =
     (case dec_opt (dec_struct (\<lambda>kvs n. dec_member ''input_tokens'' dec_int n kvs)) 0 raw of
        None \<Rightarrow> None
      | Some n \<Rightarrow> if n < 0 then None else Some n)"

section \<open>Steps that send events\<close>

text \<open>A step sends a list of events and changes the translator, or fails.\<close>

type_synonym ('e, 't) emitter = "'t \<Rightarrow> ('e list \<times> 't) option"

definition quiet :: "('t \<Rightarrow> 't) \<Rightarrow> ('e, 't) emitter" where
  "quiet f t = Some ([], f t)"

definition and_then :: "('e, 't) emitter \<Rightarrow> ('e, 't) emitter \<Rightarrow> ('e, 't) emitter" where
  "and_then f g t =
     (case f t of
        None \<Rightarrow> None
      | Some (a, t1) \<Rightarrow> (case g t1 of None \<Rightarrow> None | Some (b, t2) \<Rightarrow> Some (a @ b, t2)))"

fun each :: "('x \<Rightarrow> ('e, 't) emitter) \<Rightarrow> 'x list \<Rightarrow> ('e, 't) emitter" where
  "each f [] = quiet (\<lambda>t. t)"
| "each f (x # xs) = and_then (f x) (each f xs)"

section \<open>From OpenAI to Anthropic\<close>

record tool_delta =
  td_Index :: int
  td_ID :: string
  td_Type :: string
  td_Name :: string
  td_Arguments :: string

record stream_choice =
  sc_Index :: int
  sc_Role :: string
  sc_Content :: "json option"
  sc_Refusal :: string
  sc_Reasoning :: string
  sc_ToolCalls :: "tool_delta list"
  sc_FinishReason :: "string option"

record stream_chunk =
  sk_ID :: string
  sk_Model :: string
  sk_Choices :: "stream_choice list"
  sk_Usage :: "json option"

definition zero_tool :: tool_delta where
  "zero_tool = \<lparr>td_Index = 0, td_ID = [], td_Type = [], td_Name = [], td_Arguments = []\<rparr>"

definition zero_choice :: stream_choice where
  "zero_choice = \<lparr>sc_Index = 0, sc_Role = [], sc_Content = None, sc_Refusal = [], sc_Reasoning = [],
     sc_ToolCalls = [], sc_FinishReason = None\<rparr>"

definition zero_chunk :: stream_chunk where
  "zero_chunk = \<lparr>sk_ID = [], sk_Model = [], sk_Choices = [], sk_Usage = None\<rparr>"

definition dec_tool_members :: "(string \<times> json) list \<Rightarrow> tool_delta \<Rightarrow> tool_delta option" where
  "dec_tool_members kvs d =
     Option.bind (dec_member ''index'' dec_int (td_Index d) kvs) (\<lambda>i.
     Option.bind (dec_member ''id'' dec_string (td_ID d) kvs) (\<lambda>n.
     Option.bind (dec_member ''type'' dec_string (td_Type d) kvs) (\<lambda>ty.
     Option.bind (dec_member ''function''
         (dec_struct (\<lambda>fs p.
            Option.bind (dec_member ''name'' dec_string (fst p) fs) (\<lambda>a.
            Option.bind (dec_member ''arguments'' dec_string (snd p) fs) (\<lambda>b. Some (a, b)))))
         (td_Name d, td_Arguments d) kvs) (\<lambda>(a, b).
       Some \<lparr>td_Index = i, td_ID = n, td_Type = ty, td_Name = a, td_Arguments = b\<rparr>))))"

definition dec_delta_members :: "(string \<times> json) list \<Rightarrow> stream_choice \<Rightarrow> stream_choice option" where
  "dec_delta_members kvs c =
     Option.bind (dec_member ''role'' dec_string (sc_Role c) kvs) (\<lambda>role.
     Option.bind (dec_member ''content'' dec_raw (sc_Content c) kvs) (\<lambda>content.
     Option.bind (dec_member ''refusal'' dec_string (sc_Refusal c) kvs) (\<lambda>refusal.
     Option.bind (dec_member ''reasoning_content'' dec_string (sc_Reasoning c) kvs) (\<lambda>reasoning.
     Option.bind (dec_member ''tool_calls'' (dec_list zero_tool (dec_struct dec_tool_members)) (sc_ToolCalls c) kvs) (\<lambda>calls.
       Some (c\<lparr>sc_Role := role, sc_Content := content, sc_Refusal := refusal, sc_Reasoning := reasoning,
                sc_ToolCalls := calls\<rparr>))))))"

definition dec_choice_members :: "(string \<times> json) list \<Rightarrow> stream_choice \<Rightarrow> stream_choice option" where
  "dec_choice_members kvs c =
     Option.bind (dec_member ''index'' dec_int (sc_Index c) kvs) (\<lambda>i.
     Option.bind (dec_member ''delta'' (dec_struct dec_delta_members) c kvs) (\<lambda>d.
     Option.bind (dec_member ''finish_reason'' (dec_ptr [] dec_string) (sc_FinishReason c) kvs) (\<lambda>f.
       Some (d\<lparr>sc_Index := i, sc_FinishReason := f\<rparr>))))"

definition dec_chunk :: "stream_chunk decoder" where
  "dec_chunk =
     dec_struct (\<lambda>kvs k.
       Option.bind (dec_member ''id'' dec_string (sk_ID k) kvs) (\<lambda>n.
       Option.bind (dec_member ''model'' dec_string (sk_Model k) kvs) (\<lambda>m.
       Option.bind (dec_member ''choices'' (dec_list zero_choice (dec_struct dec_choice_members)) (sk_Choices k) kvs) (\<lambda>cs.
       Option.bind (dec_member ''usage'' dec_raw (sk_Usage k) kvs) (\<lambda>u.
         Some \<lparr>sk_ID = n, sk_Model = m, sk_Choices = cs, sk_Usage = u\<rparr>)))))"

datatype content_start = TextBlock | ToolBlock string string

datatype block_delta = TextDelta string | InputDelta string

datatype anthropic_event =
    MessageStart string string int
  | BlockStart nat content_start
  | BlockDelta nat block_delta
  | BlockStop nat
  | MessageDelta string "int option"
  | MessageStop

fun block_type :: "content_start \<Rightarrow> string" where
  "block_type TextBlock = ''text''"
| "block_type (ToolBlock _ _) = ''tool_use''"

fun block_json :: "content_start \<Rightarrow> json" where
  "block_json TextBlock = JObj [(''text'', JStr []), (''type'', JStr ''text'')]"
| "block_json (ToolBlock toolID name) =
     JObj [(''id'', JStr toolID), (''input'', JObj []), (''name'', JStr name), (''type'', JStr ''tool_use'')]"

fun delta_json :: "block_delta \<Rightarrow> json" where
  "delta_json (TextDelta text) = JObj [(''text'', JStr text), (''type'', JStr ''text_delta'')]"
| "delta_json (InputDelta part) = JObj [(''partial_json'', JStr part), (''type'', JStr ''input_json_delta'')]"

fun event_json :: "anthropic_event \<Rightarrow> string \<times> json" where
  "event_json (MessageStart messageID model input) =
     (''message_start'', JObj [
        (''message'', JObj [(''content'', JArr []), (''id'', JStr messageID), (''model'', JStr model),
           (''role'', JStr ''assistant''), (''stop_reason'', JNull), (''stop_sequence'', JNull), (''type'', JStr ''message''),
           (''usage'', JObj [(''input_tokens'', json_int input)])]),
        (''type'', JStr ''message_start'')])"
| "event_json (BlockStart i b) =
     (''content_block_start'', JObj [(''content_block'', block_json b), (''index'', json_int (int i)),
        (''type'', JStr ''content_block_start'')])"
| "event_json (BlockDelta i d) =
     (''content_block_delta'', JObj [(''delta'', delta_json d), (''index'', json_int (int i)),
        (''type'', JStr ''content_block_delta'')])"
| "event_json (BlockStop i) =
     (''content_block_stop'', JObj [(''index'', json_int (int i)), (''type'', JStr ''content_block_stop'')])"
| "event_json (MessageDelta reason out) =
     (''message_delta'', JObj ([(''delta'', JObj [(''stop_reason'', JStr reason), (''stop_sequence'', JNull)]),
        (''type'', JStr ''message_delta'')] @
        (case out of None \<Rightarrow> [] | Some n \<Rightarrow> [(''usage'', JObj [(''output_tokens'', json_int n)])])))"
| "event_json MessageStop = (''message_stop'', JObj [(''type'', JStr ''message_stop'')])"

definition anthropic_bytes :: "json_codec \<Rightarrow> anthropic_event list \<Rightarrow> string" where
  "anthropic_bytes codec evs = concat (map (\<lambda>e. case event_json e of (n, j) \<Rightarrow> anthropicEvent codec n j) evs)"

record openai_translator =
  ot_model :: string
  ot_id :: string
  ot_started :: bool
  ot_finished :: bool
  ot_finishReason :: "string option"
  ot_inputTokens :: "int option"
  ot_outputTokens :: "int option"
  ot_nextIndex :: nat
  ot_activeType :: string
  ot_activeIndex :: nat
  ot_toolIndices :: "(int, nat) gomap"
  ot_omitted :: "string list"
  ot_sawReasoning :: bool
  ot_sawVisible :: bool

definition newOpenAIStreamTranslator :: "string \<Rightarrow> openai_translator" where
  "newOpenAIStreamTranslator model =
     \<lparr>ot_model = model, ot_id = [], ot_started = False, ot_finished = False, ot_finishReason = None,
      ot_inputTokens = None, ot_outputTokens = None, ot_nextIndex = 0, ot_activeType = [], ot_activeIndex = 0,
      ot_toolIndices = [], ot_omitted = [], ot_sawReasoning = False, ot_sawVisible = False\<rparr>"

definition updateUsage :: "json option \<Rightarrow> openai_translator \<Rightarrow> openai_translator" where
  "updateUsage raw t =
     (case raw of
        Some (JObj kvs) \<Rightarrow>
          (let t1 = (case usage_value kvs ''prompt_tokens'' of None \<Rightarrow> t | Some n \<Rightarrow> t\<lparr>ot_inputTokens := Some n\<rparr>)
           in case usage_value kvs ''completion_tokens'' of None \<Rightarrow> t1 | Some n \<Rightarrow> t1\<lparr>ot_outputTokens := Some n\<rparr>)
      | _ \<Rightarrow> t)"

definition streamText :: "json option \<Rightarrow> string option" where
  "streamText raw = (case raw of Some (JStr s) \<Rightarrow> Some s | _ \<Rightarrow> None)"

definition stopActiveBlock :: "(anthropic_event, openai_translator) emitter" where
  "stopActiveBlock t =
     (if ot_activeType t = [] then Some ([], t) else Some ([BlockStop (ot_activeIndex t)], t\<lparr>ot_activeType := []\<rparr>))"

definition open_block :: "content_start \<Rightarrow> (anthropic_event, openai_translator) emitter" where
  "open_block b t =
     (if (case b of TextBlock \<Rightarrow> False | ToolBlock toolID name \<Rightarrow> toolID = [] \<or> name = []) then None
      else Some ([BlockStart (ot_nextIndex t) b],
                 t\<lparr>ot_activeType := block_type b, ot_activeIndex := ot_nextIndex t, ot_nextIndex := Suc (ot_nextIndex t)\<rparr>))"

definition startBlock :: "content_start \<Rightarrow> (anthropic_event, openai_translator) emitter" where
  "startBlock b t =
     (if ot_activeType t = block_type b \<and> block_type b = ''text'' then Some ([], t)
      else and_then stopActiveBlock (open_block b) t)"

definition send_delta :: "block_delta \<Rightarrow> (anthropic_event, openai_translator) emitter" where
  "send_delta d t = Some ([BlockDelta (ot_activeIndex t) d], t)"

definition text_step :: "string \<Rightarrow> (anthropic_event, openai_translator) emitter" where
  "text_step text =
     (if text = [] then quiet (\<lambda>t. t)
      else and_then (startBlock TextBlock)
             (and_then (send_delta (TextDelta text)) (quiet (\<lambda>t. t\<lparr>ot_sawVisible := True\<rparr>))))"

definition refusal_step :: "string \<Rightarrow> (anthropic_event, openai_translator) emitter" where
  "refusal_step text =
     (if text = [] then quiet (\<lambda>t. t)
      else and_then (text_step text) (quiet (\<lambda>t. t\<lparr>ot_omitted := ot_omitted t @ [''choices[0].delta.refusal'']\<rparr>)))"

definition arguments_step :: "string \<Rightarrow> (anthropic_event, openai_translator) emitter" where
  "arguments_step part = (if part = [] then quiet (\<lambda>t. t) else send_delta (InputDelta part))"

text \<open>A fragment of a tool call. For an index met before, the block of the tool becomes the active
  one again, without a start of its own.\<close>

definition tool_block_step :: "tool_delta \<Rightarrow> (anthropic_event, openai_translator) emitter" where
  "tool_block_step call t =
     (case map_of (ot_toolIndices t) (td_Index call) of
        None \<Rightarrow>
          if td_ID call = [] \<or> td_Name call = [] then None
          else and_then (startBlock (ToolBlock (td_ID call) (td_Name call)))
                 (quiet (\<lambda>u. u\<lparr>ot_toolIndices := map_put (td_Index call) (ot_activeIndex u) (ot_toolIndices u)\<rparr>)) t
      | Some i \<Rightarrow>
          if ot_activeType t \<noteq> ''tool_use'' \<or> ot_activeIndex t \<noteq> i
          then and_then stopActiveBlock (quiet (\<lambda>u. u\<lparr>ot_activeType := ''tool_use'', ot_activeIndex := i\<rparr>)) t
          else Some ([], t))"

definition tool_step :: "tool_delta \<Rightarrow> (anthropic_event, openai_translator) emitter" where
  "tool_step call =
     and_then (quiet (\<lambda>t. t\<lparr>ot_sawVisible := True\<rparr>)) (and_then (tool_block_step call) (arguments_step (td_Arguments call)))"

definition reasoning_step :: "string \<Rightarrow> (anthropic_event, openai_translator) emitter" where
  "reasoning_step r =
     quiet (\<lambda>t. if r = [] then t
       else t\<lparr>ot_sawReasoning := True, ot_omitted := ot_omitted t @ [''choices[0].delta.reasoning_content'']\<rparr>)"

definition finish_step :: "string option \<Rightarrow> (anthropic_event, openai_translator) emitter" where
  "finish_step reason =
     quiet (\<lambda>t. case reason of
        None \<Rightarrow> t
      | Some r \<Rightarrow> if r = [] then t else t\<lparr>ot_finished := True, ot_finishReason := Some r\<rparr>)"

definition choice_text :: "stream_choice \<Rightarrow> string" where
  "choice_text c = (case streamText (sc_Content c) of None \<Rightarrow> [] | Some s \<Rightarrow> s)"

definition choice_step :: "stream_choice \<Rightarrow> (anthropic_event, openai_translator) emitter" where
  "choice_step c =
     (if sc_Index c \<noteq> 0 then quiet (\<lambda>t. t)
      else and_then (reasoning_step (sc_Reasoning c))
          (and_then (text_step (choice_text c))
          (and_then (refusal_step (sc_Refusal c))
          (and_then (each tool_step (sc_ToolCalls c)) (finish_step (sc_FinishReason c))))))"

definition start_message :: "(anthropic_event, openai_translator) emitter" where
  "start_message t =
     (if ot_started t then Some ([], t)
      else Some ([MessageStart (ot_id t) (ot_model t) (count_or_zero (ot_inputTokens t))], t\<lparr>ot_started := True\<rparr>))"

definition note_chunk :: "stream_chunk \<Rightarrow> openai_translator \<Rightarrow> openai_translator" where
  "note_chunk k t =
     updateUsage (sk_Usage k)
       (t\<lparr>ot_id := (if sk_ID k \<noteq> [] then sk_ID k else ot_id t), ot_model := (if sk_Model k \<noteq> [] then sk_Model k else ot_model t)\<rparr>)"

definition chunk_step :: "stream_chunk \<Rightarrow> (anthropic_event, openai_translator) emitter" where
  "chunk_step k = and_then (quiet (note_chunk k)) (and_then start_message (each choice_step (sk_Choices k)))"

definition openai_frame :: "json_codec \<Rightarrow> string \<Rightarrow> (anthropic_event, openai_translator) emitter" where
  "openai_frame codec frame t =
     (let data = snd (parseSSEFrame frame) in
      if data = [] then Some ([], t)
      else Option.bind (jc_parse codec data) (\<lambda>j. Option.bind (dec_chunk zero_chunk j) (\<lambda>k. chunk_step k t)))"

definition openai_terminal :: "openai_translator \<Rightarrow> translate_error + anthropic_event list" where
  "openai_terminal t =
     (if \<not> ot_started t \<or> \<not> ot_finished t then Inl PlainError
      else if ot_sawReasoning t \<and> \<not> ot_sawVisible t
        then Inl (Conversion ''unrepresentable_reasoning_only_response'' ''choices[0].delta.reasoning_content'')
      else
        (case translateOpenAIStopReason (ot_finishReason t) of
           Inl e \<Rightarrow> Inl e
         | Inr reason \<Rightarrow>
             Inr ((if ot_activeType t = [] then [] else [BlockStop (ot_activeIndex t)]) @
                  [MessageDelta reason (ot_outputTokens t), MessageStop])))"

definition openai_warnings :: "openai_translator \<Rightarrow> string list" where
  "openai_warnings t = sortedUniqueStrings (ot_omitted t)"

section \<open>From Anthropic to OpenAI\<close>

record anthropic_translator =
  at_model :: string
  at_id :: string
  at_created :: int
  at_inputTokens :: "int option"
  at_toolIndices :: "(int, nat) gomap"
  at_serverTools :: "int list"
  at_nextTool :: nat
  at_omitted :: "string list"
  at_sawVisible :: bool
  at_sawReasoning :: bool
  at_sawDropped :: bool

definition newAnthropicStreamTranslator :: "string \<Rightarrow> time \<Rightarrow> anthropic_translator" where
  "newAnthropicStreamTranslator model now =
     \<lparr>at_model = model, at_id = [], at_created = unix_seconds now, at_inputTokens = None, at_toolIndices = [],
      at_serverTools = [], at_nextTool = 0, at_omitted = [], at_sawVisible = False, at_sawReasoning = False,
      at_sawDropped = False\<rparr>"

datatype chunk_delta =
    RoleDelta
  | ContentDelta string
  | ReasoningDelta string
  | ToolStart nat string string
  | ToolArguments nat string
  | FinishDelta string

record openai_chunk =
  oc_id :: string
  oc_created :: int
  oc_model :: string
  oc_delta :: chunk_delta
  oc_usage :: "json option"

fun chunk_delta_json :: "chunk_delta \<Rightarrow> json" where
  "chunk_delta_json RoleDelta = JObj [(''content'', JStr []), (''role'', JStr ''assistant'')]"
| "chunk_delta_json (ContentDelta text) = JObj [(''content'', JStr text)]"
| "chunk_delta_json (ReasoningDelta text) = JObj [(''reasoning_content'', JStr text)]"
| "chunk_delta_json (ToolStart i toolID name) =
     JObj [(''tool_calls'', JArr [JObj [(''function'', JObj [(''arguments'', JStr []), (''name'', JStr name)]),
        (''id'', JStr toolID), (''index'', json_int (int i)), (''type'', JStr ''function'')]])]"
| "chunk_delta_json (ToolArguments i part) =
     JObj [(''tool_calls'', JArr [JObj [(''function'', JObj [(''arguments'', JStr part)]), (''index'', json_int (int i))]])]"
| "chunk_delta_json (FinishDelta reason) = JObj []"

fun chunk_finish_json :: "chunk_delta \<Rightarrow> json" where
  "chunk_finish_json (FinishDelta reason) = JStr reason"
| "chunk_finish_json _ = JNull"

definition chunk_json :: "openai_chunk \<Rightarrow> json" where
  "chunk_json k =
     JObj ([(''choices'', JArr [JObj [(''delta'', chunk_delta_json (oc_delta k)),
           (''finish_reason'', chunk_finish_json (oc_delta k)), (''index'', json_int 0)]]),
        (''created'', json_int (oc_created k)), (''id'', JStr (oc_id k)), (''model'', JStr (oc_model k)),
        (''object'', JStr ''chat.completion.chunk'')] @
        (case oc_usage k of None \<Rightarrow> [] | Some u \<Rightarrow> [(''usage'', u)]))"

definition chunk_bytes :: "json_codec \<Rightarrow> openai_chunk list \<Rightarrow> string" where
  "chunk_bytes codec ks = concat (map (\<lambda>k. ''data: '' @ jc_show codec (chunk_json k) @ [CHR 0x0A, CHR 0x0A]) ks)"

definition chunk :: "chunk_delta \<Rightarrow> json option \<Rightarrow> anthropic_translator \<Rightarrow> openai_chunk" where
  "chunk d usage t =
     \<lparr>oc_id = at_id t, oc_created = at_created t, oc_model = at_model t, oc_delta = d, oc_usage = usage\<rparr>"

text \<open>The result of a frame: the error, or the chunks sent and the translator after it.\<close>

type_synonym chunk_result = "translate_error + openai_chunk list \<times> anthropic_translator"

definition send_chunk :: "chunk_delta \<Rightarrow> json option \<Rightarrow> anthropic_translator \<Rightarrow> chunk_result" where
  "send_chunk d usage t = Inr ([chunk d usage t], t)"

definition at_drop :: "string \<Rightarrow> anthropic_translator \<Rightarrow> anthropic_translator" where
  "at_drop field t = t\<lparr>at_omitted := at_omitted t @ [field], at_sawDropped := True\<rparr>"

definition dec_start_message :: "(string \<times> string \<times> json option) decoder" where
  "dec_start_message = dec_struct (dec_all
     [dec_into ''id'' dec_string fst (\<lambda>v r. (v, snd r)),
      dec_into ''model'' dec_string (\<lambda>r. fst (snd r)) (\<lambda>v r. (fst r, v, snd (snd r))),
      dec_into ''usage'' dec_raw (\<lambda>r. snd (snd r)) (\<lambda>v r. (fst r, fst (snd r), v))])"

definition message_start_frame :: "(string \<times> json) list \<Rightarrow> anthropic_translator \<Rightarrow> chunk_result" where
  "message_start_frame obj t =
     (case dec_opt dec_start_message ([], [], None) (usage_member obj ''message'') of
        None \<Rightarrow> Inl PlainError
      | Some (messageID, model, usage) \<Rightarrow>
          (let t1 = t\<lparr>at_id := messageID, at_model := firstNonEmpty model (at_model t)\<rparr>;
               t2 = (case anthropicInputTokens usage of None \<Rightarrow> t1 | Some n \<Rightarrow> t1\<lparr>at_inputTokens := Some n\<rparr>)
           in send_chunk RoleDelta None t2))"

definition dec_block_start :: "(int \<times> content_block) decoder" where
  "dec_block_start = dec_struct (dec_all
     [dec_into ''index'' dec_int fst (\<lambda>v r. (v, snd r)),
      dec_into ''content_block'' dec_block snd (\<lambda>v r. (fst r, v))])"

definition other_block :: "int \<Rightarrow> string \<Rightarrow> anthropic_translator \<Rightarrow> anthropic_translator" where
  "other_block i kind t =
     (let t1 = (if kind = ''server_tool_use'' then t\<lparr>at_serverTools := i # at_serverTools t\<rparr> else t)
      in if kind \<noteq> ''text'' \<and> kind \<noteq> ''thinking'' then at_drop (''content['' @ show_int i @ ''].type'') t1 else t1)"

definition block_start_frame :: "json \<Rightarrow> anthropic_translator \<Rightarrow> chunk_result" where
  "block_start_frame j t =
     (case dec_block_start (0, zero_block) j of
        None \<Rightarrow> Inl PlainError
      | Some (i, b) \<Rightarrow>
          if cb_Type b \<noteq> ''tool_use'' then Inr ([], other_block i (cb_Type b) t)
          else if cb_ID b = [] \<or> cb_Name b = [] then Inl PlainError
          else
            send_chunk (ToolStart (at_nextTool t) (cb_ID b) (cb_Name b)) None
              (t\<lparr>at_sawVisible := True, at_nextTool := Suc (at_nextTool t),
                 at_toolIndices := map_put i (at_nextTool t) (at_toolIndices t)\<rparr>))"

record stream_delta =
  sd_Type :: string
  sd_Text :: string
  sd_Thinking :: string
  sd_PartialJSON :: string

definition dec_block_delta :: "(int \<times> stream_delta) decoder" where
  "dec_block_delta = dec_struct (dec_all
     [dec_into ''index'' dec_int fst (\<lambda>v r. (v, snd r)),
      dec_into ''delta'' (dec_struct (dec_all
         [dec_into ''type'' dec_string sd_Type (\<lambda>v b. b\<lparr>sd_Type := v\<rparr>),
          dec_into ''text'' dec_string sd_Text (\<lambda>v b. b\<lparr>sd_Text := v\<rparr>),
          dec_into ''thinking'' dec_string sd_Thinking (\<lambda>v b. b\<lparr>sd_Thinking := v\<rparr>),
          dec_into ''partial_json'' dec_string sd_PartialJSON (\<lambda>v b. b\<lparr>sd_PartialJSON := v\<rparr>)])) snd (\<lambda>v r. (fst r, v))])"

definition delta_step :: "int \<Rightarrow> stream_delta \<Rightarrow> anthropic_translator \<Rightarrow> chunk_result" where
  "delta_step i d t =
     (if sd_Type d = ''text_delta'' then
        send_chunk (ContentDelta (sd_Text d)) None (if sd_Text d \<noteq> [] then t\<lparr>at_sawVisible := True\<rparr> else t)
      else if sd_Type d = ''thinking_delta'' then
        send_chunk (ReasoningDelta (sd_Thinking d)) None (if sd_Thinking d \<noteq> [] then t\<lparr>at_sawReasoning := True\<rparr> else t)
      else if sd_Type d = ''input_json_delta'' then
        (if i \<in> set (at_serverTools t) then Inr ([], t)
         else (case map_of (at_toolIndices t) i of
                 None \<Rightarrow> Inl PlainError
               | Some k \<Rightarrow> send_chunk (ToolArguments k (sd_PartialJSON d)) None t))
      else Inr ([], at_drop ''content_block_delta.delta.type'' t))"

definition zero_stream_delta :: stream_delta where
  "zero_stream_delta = \<lparr>sd_Type = [], sd_Text = [], sd_Thinking = [], sd_PartialJSON = []\<rparr>"

definition block_delta_frame :: "json \<Rightarrow> anthropic_translator \<Rightarrow> chunk_result" where
  "block_delta_frame j t =
     (case dec_block_delta (0, zero_stream_delta) j of
        None \<Rightarrow> Inl PlainError
      | Some (i, d) \<Rightarrow> delta_step i d t)"

definition dec_message_delta :: "((string option \<times> string option) \<times> json option) decoder" where
  "dec_message_delta = dec_struct (dec_all
     [dec_into ''delta'' (dec_struct (dec_all
         [dec_into ''stop_reason'' (dec_ptr [] dec_string) fst (\<lambda>v r. (v, snd r)),
          dec_into ''stop_sequence'' (dec_ptr [] dec_string) snd (\<lambda>v r. (fst r, v))])) fst (\<lambda>v r. (v, snd r)),
      dec_into ''usage'' dec_raw snd (\<lambda>v r. (fst r, v))])"

definition message_delta_frame :: "json \<Rightarrow> anthropic_translator \<Rightarrow> chunk_result" where
  "message_delta_frame j t =
     (case dec_message_delta ((None, None), None) j of
        None \<Rightarrow> Inl PlainError
      | Some ((stopReason, stopSequence), usage) \<Rightarrow>
          (case translateAnthropicStopReason stopReason of
             Inl e \<Rightarrow> Inl e
           | Inr (finishReason, ws) \<Rightarrow>
               send_chunk (FinishDelta finishReason) (translateAnthropicUsage usage (at_inputTokens t))
                 (t\<lparr>at_omitted := at_omitted t @ ws @
                      (case stopSequence of None \<Rightarrow> [] | Some s \<Rightarrow> if s \<noteq> [] then [''stop_sequence''] else [])\<rparr>)))"

definition anthropic_frame :: "json_codec \<Rightarrow> text_ops \<Rightarrow> string \<Rightarrow> anthropic_translator \<Rightarrow> chunk_result" where
  "anthropic_frame codec tx frame t =
     (let (event, data) = parseSSEFrame frame in
      if data = [] then Inr ([], t)
      else
        (case strict_parse codec tx data of
           Some (JObj obj) \<Rightarrow>
             if event = ''message_start'' then message_start_frame obj t
             else if event = ''content_block_start'' then block_start_frame (JObj obj) t
             else if event = ''content_block_delta'' then block_delta_frame (JObj obj) t
             else if event = ''message_delta'' then message_delta_frame (JObj obj) t
             else Inr ([], t)
         | _ \<Rightarrow> Inl PlainError))"

definition anthropic_terminal :: "anthropic_translator \<Rightarrow> translate_error + string" where
  "anthropic_terminal t =
     (if at_sawDropped t \<and> \<not> at_sawVisible t \<and> \<not> at_sawReasoning t
      then Inl (Conversion ''unrepresentable_response_content'' (case at_omitted t of [] \<Rightarrow> [] | f # _ \<Rightarrow> f))
      else Inr (''data: [DONE]'' @ [CHR 0x0A, CHR 0x0A]))"

definition anthropic_warnings :: "anthropic_translator \<Rightarrow> string list" where
  "anthropic_warnings t = sortedUniqueStrings (at_omitted t)"

section \<open>The interface of both\<close>

datatype translator = FromAnthropic anthropic_translator | FromOpenAI openai_translator

definition newStreamTranslator :: "string \<Rightarrow> string \<Rightarrow> string \<Rightarrow> time \<Rightarrow> translator option" where
  "newStreamTranslator providerProtocol clientProtocol model now =
     (if providerProtocol = ''anthropic'' \<and> clientProtocol = ''openai''
      then Some (FromAnthropic (newAnthropicStreamTranslator model now))
      else if providerProtocol = ''openai'' \<and> clientProtocol = ''anthropic''
      then Some (FromOpenAI (newOpenAIStreamTranslator model))
      else None)"

fun translator_frame :: "json_codec \<Rightarrow> text_ops \<Rightarrow> string \<Rightarrow> translator \<Rightarrow> translate_error + string \<times> translator" where
  "translator_frame codec tx frame (FromAnthropic t) =
     (case anthropic_frame codec tx frame t of Inl e \<Rightarrow> Inl e | Inr (ks, u) \<Rightarrow> Inr (chunk_bytes codec ks, FromAnthropic u))"
| "translator_frame codec tx frame (FromOpenAI t) =
     (case openai_frame codec frame t of
        None \<Rightarrow> Inl PlainError
      | Some (evs, u) \<Rightarrow> Inr (anthropic_bytes codec evs, FromOpenAI u))"

fun translator_terminal :: "json_codec \<Rightarrow> translator \<Rightarrow> translate_error + string" where
  "translator_terminal codec (FromAnthropic t) = anthropic_terminal t"
| "translator_terminal codec (FromOpenAI t) =
     (case openai_terminal t of Inl e \<Rightarrow> Inl e | Inr evs \<Rightarrow> Inr (anthropic_bytes codec evs))"

fun translator_warnings :: "translator \<Rightarrow> string list" where
  "translator_warnings (FromAnthropic t) = anthropic_warnings t"
| "translator_warnings (FromOpenAI t) = openai_warnings t"

end
