(* ===== verification/Stream_Protocol.thy ===== *)
theory Stream_Protocol
  imports Stream_Translation
begin

text \<open>
  What a client may rely on in a translated stream: the grammar of an Anthropic event stream as an
  automaton over events, the numbering of the tool calls of an OpenAI stream, and that no text and
  no argument of a tool call is lost or moved between calls.
\<close>

section \<open>The grammar of an Anthropic stream\<close>

datatype phase = BeforeMessage | Between nat | Inside nat | AfterDelta | Complete

text \<open>Blocks are numbered from 0 without gaps, one is open at a time, and deltas go to the open one.\<close>

fun phase_step :: "phase \<Rightarrow> anthropic_event \<Rightarrow> phase option" where
  "phase_step BeforeMessage (MessageStart _ _ _) = Some (Between 0)"
| "phase_step (Between n) (BlockStart i _) = (if i = n then Some (Inside n) else None)"
| "phase_step (Inside n) (BlockDelta i _) = (if i = n then Some (Inside n) else None)"
| "phase_step (Inside n) (BlockStop i) = (if i = n then Some (Between (Suc n)) else None)"
| "phase_step (Between n) (MessageDelta _ _) = Some AfterDelta"
| "phase_step AfterDelta MessageStop = Some Complete"
| "phase_step _ _ = None"

fun phase_run :: "phase \<Rightarrow> anthropic_event list \<Rightarrow> phase option" where
  "phase_run p [] = Some p"
| "phase_run p (e # es) = Option.bind (phase_step p e) (\<lambda>q. phase_run q es)"

lemma phase_run_append: "phase_run p (a @ b) = Option.bind (phase_run p a) (\<lambda>q. phase_run q b)"
  by (induction a arbitrary: p) (auto simp: Option.bind_assoc)

section \<open>Upstream fragments\<close>

text \<open>The fragments of one choice in the order the translator meets them. A provider keeps its tool
  calls apart when it never returns to a call after a fragment of something else.\<close>

datatype fragment = TextFragment | ToolFragment int

definition choice_fragments :: "stream_choice \<Rightarrow> fragment list" where
  "choice_fragments c =
     (if sc_Index c \<noteq> 0 then []
      else (if choice_text c = [] then [] else [TextFragment]) @ (if sc_Refusal c = [] then [] else [TextFragment]) @
           map (\<lambda>d. ToolFragment (td_Index d)) (sc_ToolCalls c))"

definition chunk_fragments :: "stream_chunk \<Rightarrow> fragment list" where
  "chunk_fragments k = concat (map choice_fragments (sk_Choices k))"

type_synonym track = "int set \<times> fragment option"

fun track_step :: "track \<Rightarrow> fragment \<Rightarrow> track option" where
  "track_step (seen, lst) TextFragment = Some (seen, Some TextFragment)"
| "track_step (seen, lst) (ToolFragment i) =
     (if i \<in> seen \<and> lst \<noteq> Some (ToolFragment i) then None else Some (insert i seen, Some (ToolFragment i)))"

fun track_run :: "track \<Rightarrow> fragment list \<Rightarrow> track option" where
  "track_run s [] = Some s"
| "track_run s (f # fs) = Option.bind (track_step s f) (\<lambda>r. track_run r fs)"

definition calls_kept_apart :: "stream_chunk list \<Rightarrow> bool" where
  "calls_kept_apart ks \<longleftrightarrow> track_run ({}, None) (concat (map chunk_fragments ks)) \<noteq> None"

lemma track_run_append: "track_run s (a @ b) = Option.bind (track_run s a) (\<lambda>r. track_run r b)"
  by (induction a arbitrary: s) (auto simp: Option.bind_assoc)

section \<open>The translator follows the grammar\<close>

definition block_phase :: "openai_translator \<Rightarrow> phase" where
  "block_phase t = (if ot_activeType t = [] then Between (ot_nextIndex t) else Inside (ot_activeIndex t))"

text \<open>What links the translator to the fragments met so far.\<close>

definition coupled :: "track \<Rightarrow> openai_translator \<Rightarrow> bool" where
  "coupled s t \<longleftrightarrow>
     dom (map_of (ot_toolIndices t)) = fst s \<and>
     (ot_activeType t \<noteq> [] \<longrightarrow> Suc (ot_activeIndex t) = ot_nextIndex t) \<and>
     (case snd s of
        None \<Rightarrow> ot_activeType t = []
      | Some TextFragment \<Rightarrow> ot_activeType t = ''text''
      | Some (ToolFragment i) \<Rightarrow> ot_activeType t = ''tool_use'' \<and> map_of (ot_toolIndices t) i = Some (ot_activeIndex t))"

definition follows :: "(anthropic_event, openai_translator) emitter \<Rightarrow> fragment list \<Rightarrow> bool" where
  "follows f fs \<longleftrightarrow>
     (\<forall>s t es u r. coupled s t \<longrightarrow> f t = Some (es, u) \<longrightarrow> track_run s fs = Some r \<longrightarrow>
        phase_run (block_phase t) es = Some (block_phase u) \<and> coupled r u)"

lemma followsI:
  assumes "\<And>s t es u r. coupled s t \<Longrightarrow> f t = Some (es, u) \<Longrightarrow> track_run s fs = Some r \<Longrightarrow>
     phase_run (block_phase t) es = Some (block_phase u) \<and> coupled r u"
  shows "follows f fs"
  using assms unfolding follows_def by blast

lemma followsD:
  "follows f fs \<Longrightarrow> coupled s t \<Longrightarrow> f t = Some (es, u) \<Longrightarrow> track_run s fs = Some r \<Longrightarrow>
     phase_run (block_phase t) es = Some (block_phase u) \<and> coupled r u"
  unfolding follows_def by blast

lemma and_then_Some:
  "and_then f g t = Some (es, u) \<longleftrightarrow> (\<exists>a t1 b. f t = Some (a, t1) \<and> g t1 = Some (b, u) \<and> es = a @ b)"
  by (auto simp: and_then_def split: option.splits)

lemma quiet_Some [simp]: "quiet f t = Some (es, u) \<longleftrightarrow> es = [] \<and> u = f t"
  by (auto simp: quiet_def)

lemma follows_and_then:
  assumes "follows f a" and "follows g b"
  shows "follows (and_then f g) (a @ b)"
proof (rule followsI)
  fix s t es u r
  assume "coupled s t" "and_then f g t = Some (es, u)" "track_run s (a @ b) = Some r"
  then obtain a1 t1 b1 q where steps: "f t = Some (a1, t1)" "g t1 = Some (b1, u)" "es = a1 @ b1"
      and tracks: "track_run s a = Some q" "track_run q b = Some r"
    by (auto simp: and_then_Some track_run_append bind_eq_Some_conv)
  from followsD [OF assms(1) \<open>coupled s t\<close> steps(1) tracks(1)]
  have first: "phase_run (block_phase t) a1 = Some (block_phase t1)" "coupled q t1" by simp_all
  from followsD [OF assms(2) first(2) steps(2) tracks(2)] first(1) steps(3)
  show "phase_run (block_phase t) es = Some (block_phase u) \<and> coupled r u"
    by (simp add: phase_run_append)
qed

definition block_state :: "openai_translator \<Rightarrow> string \<times> nat \<times> nat \<times> (int, nat) gomap" where
  "block_state t = (ot_activeType t, ot_activeIndex t, ot_nextIndex t, ot_toolIndices t)"

lemma block_state_cong:
  assumes "block_state t = block_state u"
  shows "coupled s t = coupled s u" and "block_phase t = block_phase u"
proof -
  from assms have "ot_activeType t = ot_activeType u" "ot_activeIndex t = ot_activeIndex u"
    "ot_nextIndex t = ot_nextIndex u" "ot_toolIndices t = ot_toolIndices u"
    by (auto simp: block_state_def)
  then show "coupled s t = coupled s u" and "block_phase t = block_phase u"
    by (simp_all add: coupled_def block_phase_def split: option.split fragment.split)
qed

lemma follows_quiet:
  assumes "\<And>t. block_state (f t) = block_state t"
  shows "follows (quiet f) []"
proof (rule followsI)
  fix s t u r and es :: "anthropic_event list"
  assume "coupled s t" "quiet f t = Some (es, u)" "track_run s [] = Some r"
  with block_state_cong [OF assms [of t]] show "phase_run (block_phase t) es = Some (block_phase u) \<and> coupled r u"
    by simp
qed

lemma follows_each: "(\<And>x. follows (f x) (g x)) \<Longrightarrow> follows (each f xs) (concat (map g xs))"
  by (induction xs) (auto intro: follows_and_then follows_quiet)

section \<open>Blocks\<close>

lemma stop_phase:
  "stopActiveBlock t = Some (es, u) \<Longrightarrow> coupled s t \<Longrightarrow>
     phase_run (block_phase t) es = Some (Between (ot_nextIndex t)) \<and> u = t\<lparr>ot_activeType := []\<rparr>"
  by (auto simp: stopActiveBlock_def block_phase_def coupled_def split: if_splits)

lemma start_phase:
  assumes "startBlock b t = Some (es, u)" and "coupled s t"
    and fresh: "ot_activeType t \<noteq> block_type b \<or> block_type b \<noteq> ''text''"
  shows "phase_run (block_phase t) es = Some (block_phase u) \<and>
     u = t\<lparr>ot_activeType := block_type b, ot_activeIndex := ot_nextIndex t, ot_nextIndex := Suc (ot_nextIndex t)\<rparr>"
proof -
  from assms(1) fresh obtain a t1 c where stop: "stopActiveBlock t = Some (a, t1)"
      and opened: "open_block b t1 = Some (c, u)" "es = a @ c"
    by (auto simp: startBlock_def and_then_Some split: if_splits)
  from stop_phase [OF stop assms(2)] have "t1 = t\<lparr>ot_activeType := []\<rparr>"
    and "phase_run (block_phase t) a = Some (Between (ot_nextIndex t))" by simp_all
  with opened show ?thesis
    by (cases b) (auto simp: open_block_def phase_run_append block_phase_def split: if_splits)
qed

lemma text_follows: "follows (text_step text) (if text = [] then [] else [TextFragment])"
proof (cases "text = []")
  case True
  then show ?thesis by (simp add: text_step_def follows_quiet)
next
  case False
  show ?thesis
  proof (rule followsI)
    fix s t es u r
    assume c: "coupled s t" and run: "text_step text t = Some (es, u)"
      and track: "track_run s (if text = [] then [] else [TextFragment]) = Some r"
    from track False have r: "r = (fst s, Some TextFragment)" by (cases s) auto
    from run False obtain a t1 where start: "startBlock TextBlock t = Some (a, t1)"
        and es: "es = a @ [BlockDelta (ot_activeIndex t1) (TextDelta text)]" and u: "u = t1\<lparr>ot_sawVisible := True\<rparr>"
      by (auto simp: text_step_def and_then_Some send_delta_def)
    show "phase_run (block_phase t) es = Some (block_phase u) \<and> coupled r u"
    proof (cases "ot_activeType t = ''text''")
      case True
      with start have "a = []" "t1 = t" by (auto simp: startBlock_def)
      with True c es u r show ?thesis by (auto simp: block_phase_def coupled_def)
    next
      case False
      from start_phase [OF start c] False
      have "phase_run (block_phase t) a = Some (block_phase t1)"
        and "t1 = t\<lparr>ot_activeType := ''text'', ot_activeIndex := ot_nextIndex t, ot_nextIndex := Suc (ot_nextIndex t)\<rparr>"
        by simp_all
      with c es u r show ?thesis by (auto simp: phase_run_append block_phase_def coupled_def)
    qed
  qed
qed

lemma refusal_follows: "follows (refusal_step text) (if text = [] then [] else [TextFragment])"
proof (cases "text = []")
  case False
  have "follows (and_then (text_step text) (quiet (\<lambda>t. t\<lparr>ot_omitted := ot_omitted t @ [''choices[0].delta.refusal'']\<rparr>)))
          ((if text = [] then [] else [TextFragment]) @ [])"
    by (intro follows_and_then text_follows follows_quiet) (simp add: block_state_def)
  with False show ?thesis by (simp add: refusal_step_def)
qed (simp add: refusal_step_def follows_quiet)

lemma tool_block_follows: "follows (tool_block_step d) [ToolFragment (td_Index d)]"
proof (rule followsI)
  fix s t es u r
  assume c: "coupled s t" and run: "tool_block_step d t = Some (es, u)" and track: "track_run s [ToolFragment (td_Index d)] = Some r"
  let ?i = "td_Index d"
  from track have bk: "?i \<in> fst s \<longrightarrow> snd s = Some (ToolFragment ?i)" and r: "r = (insert ?i (fst s), Some (ToolFragment ?i))"
    by (cases s; auto split: if_splits)+
  show "phase_run (block_phase t) es = Some (block_phase u) \<and> coupled r u"
  proof (cases "map_of (ot_toolIndices t) ?i")
    case None
    with run obtain t1 where start: "startBlock (ToolBlock (td_ID d) (td_Name d)) t = Some (es, t1)"
        and u: "u = t1\<lparr>ot_toolIndices := map_put ?i (ot_activeIndex t1) (ot_toolIndices t1)\<rparr>"
      by (auto simp: tool_block_step_def and_then_Some split: if_splits)
    from start_phase [OF start c] have "phase_run (block_phase t) es = Some (block_phase t1)"
      and "t1 = t\<lparr>ot_activeType := ''tool_use'', ot_activeIndex := ot_nextIndex t, ot_nextIndex := Suc (ot_nextIndex t)\<rparr>"
      by simp_all
    with c u r show ?thesis by (auto simp: block_phase_def coupled_def go_map dom_def)
  next
    case (Some k)
    with c have "?i \<in> fst s" by (auto simp: coupled_def)
    with bk c Some have "ot_activeType t = ''tool_use''" "ot_activeIndex t = k" by (auto simp: coupled_def)
    with Some run have "es = []" "u = t" by (auto simp: tool_block_step_def)
    with c r bk \<open>?i \<in> fst s\<close> show ?thesis by (auto simp: coupled_def)
  qed
qed

text \<open>Arguments go to the block of the fragment met last.\<close>

lemma tool_follows: "follows (tool_step d) [ToolFragment (td_Index d)]"
proof (rule followsI)
  fix s t es u r
  assume c: "coupled s t" and run: "tool_step d t = Some (es, u)" and track: "track_run s [ToolFragment (td_Index d)] = Some r"
  let ?t = "t\<lparr>ot_sawVisible := True\<rparr>"
  from c have c1: "coupled s ?t" and p: "block_phase ?t = block_phase t"
    using block_state_cong [of ?t t] by (simp_all add: block_state_def)
  from run obtain a t1 b where block: "tool_block_step d ?t = Some (a, t1)"
      and rest: "arguments_step (td_Arguments d) t1 = Some (b, u)" "es = a @ b"
    by (auto simp: tool_step_def and_then_Some)
  from followsD [OF tool_block_follows c1 block track] p
  have first: "phase_run (block_phase t) a = Some (block_phase t1)" and cr: "coupled r t1" by simp_all
  from track have "snd r = Some (ToolFragment (td_Index d))" by (cases s) (auto split: if_splits)
  with cr have "ot_activeType t1 = ''tool_use''" by (simp add: coupled_def)
  with rest first cr show "phase_run (block_phase t) es = Some (block_phase u) \<and> coupled r u"
    by (auto simp: arguments_step_def send_delta_def phase_run_append block_phase_def split: if_splits)
qed

lemma choice_follows: "follows (choice_step c) (choice_fragments c)"
proof (cases "sc_Index c = 0")
  case True
  have "follows (choice_step c)
     ([] @ ((if choice_text c = [] then [] else [TextFragment]) @ ((if sc_Refusal c = [] then [] else [TextFragment]) @
       (concat (map (\<lambda>d. [ToolFragment (td_Index d)]) (sc_ToolCalls c)) @ []))))"
    unfolding choice_step_def reasoning_step_def finish_step_def
    using True
    by (simp only: if_False simp_thms)
       (intro follows_and_then text_follows refusal_follows follows_each tool_follows follows_quiet,
        auto simp: block_state_def split: option.split)
  then show ?thesis using True by (simp add: choice_fragments_def)
qed (simp add: choice_step_def choice_fragments_def follows_quiet)

section \<open>Whole streams\<close>

text \<open>A part of the translator that a step does not touch.\<close>

definition keeps :: "('t \<Rightarrow> 'p) \<Rightarrow> ('e, 't) emitter \<Rightarrow> bool" where
  "keeps p f \<longleftrightarrow> (\<forall>t es u. f t = Some (es, u) \<longrightarrow> p u = p t)"

lemma keeps_and_then: "keeps p f \<Longrightarrow> keeps p g \<Longrightarrow> keeps p (and_then f g)"
  unfolding keeps_def and_then_Some by metis

lemma keeps_quiet: "(\<And>t. p (f t) = p t) \<Longrightarrow> keeps p (quiet f)"
  by (simp add: keeps_def)

lemma keeps_each: "(\<And>x. keeps p (f x)) \<Longrightarrow> keeps p (each f xs)"
  by (induction xs) (auto intro: keeps_and_then keeps_quiet)

lemma block_keeps_started: "keeps ot_started stopActiveBlock" "keeps ot_started (startBlock b)" "keeps ot_started (send_delta d)"
  by (auto simp: keeps_def stopActiveBlock_def startBlock_def open_block_def send_delta_def and_then_Some split: if_splits)

lemma text_keeps_started: "keeps ot_started (text_step s)" "keeps ot_started (refusal_step s)"
  unfolding refusal_step_def text_step_def
  by (auto intro!: keeps_and_then keeps_quiet block_keeps_started)

lemma tool_keeps_started: "keeps ot_started (tool_step d)"
proof -
  have "keeps ot_started (tool_block_step d)"
    using block_keeps_started
    by (auto simp: keeps_def tool_block_step_def and_then_Some split: option.splits if_splits)
  moreover have "keeps ot_started (arguments_step a)" for a
    by (simp add: arguments_step_def keeps_quiet block_keeps_started)
  ultimately show ?thesis unfolding tool_step_def by (intro keeps_and_then keeps_quiet) simp_all
qed

lemma choice_keeps_started: "keeps ot_started (choice_step c)"
  unfolding choice_step_def reasoning_step_def finish_step_def
  by (auto intro!: keeps_and_then keeps_quiet keeps_each text_keeps_started tool_keeps_started split: option.splits if_splits)

definition message_phase :: "openai_translator \<Rightarrow> phase" where
  "message_phase t = (if ot_started t then block_phase t else BeforeMessage)"

definition stream_inv :: "track \<Rightarrow> openai_translator \<Rightarrow> bool" where
  "stream_inv s t \<longleftrightarrow> coupled s t \<and> (\<not> ot_started t \<longrightarrow> block_phase t = Between 0)"

lemma note_chunk_fields [simp]:
  "block_state (note_chunk k t) = block_state t" "ot_started (note_chunk k t) = ot_started t"
  by (auto simp: note_chunk_def updateUsage_def block_state_def Let_def split: option.split json.split)

lemma chunk_keeps_grammar:
  assumes inv: "stream_inv s t" and run: "chunk_step k t = Some (es, u)" and track: "track_run s (chunk_fragments k) = Some r"
  shows "phase_run (message_phase t) es = Some (message_phase u) \<and> stream_inv r u \<and> ot_started u"
proof -
  let ?t = "note_chunk k t"
  from run obtain a t0 b where start: "start_message ?t = Some (a, t0)"
      and rest: "each choice_step (sk_Choices k) t0 = Some (b, u)" and es: "es = a @ b"
    by (auto simp: chunk_step_def and_then_Some)
  have same: "block_state t0 = block_state t" and on: "ot_started t0"
    using start note_chunk_fields [of k t] by (auto simp: start_message_def block_state_def split: if_splits)
  from inv have c: "coupled s t0"
    using block_state_cong [OF same] by (simp add: stream_inv_def)
  have p: "block_phase t0 = block_phase t"
    using block_state_cong [OF same] by simp
  from follows_each [of choice_step choice_fragments "sk_Choices k", OF choice_follows]
  have "follows (each choice_step (sk_Choices k)) (chunk_fragments k)" by (simp add: chunk_fragments_def)
  from followsD [OF this c rest track] p
  have blocks: "phase_run (block_phase t) b = Some (block_phase u)" "coupled r u" by simp_all
  have "keeps ot_started (each choice_step (sk_Choices k))" by (intro keeps_each choice_keeps_started)
  with rest on have started: "ot_started u" by (auto simp: keeps_def)
  have "phase_run (message_phase t) a = Some (block_phase t)"
    using start inv by (auto simp: start_message_def message_phase_def stream_inv_def split: if_splits)
  with es blocks started show ?thesis by (simp add: phase_run_append message_phase_def stream_inv_def)
qed

lemma chunks_keep_grammar:
  "stream_inv s t \<Longrightarrow> each chunk_step ks t = Some (es, u) \<Longrightarrow> track_run s (concat (map chunk_fragments ks)) = Some r \<Longrightarrow>
     phase_run (message_phase t) es = Some (message_phase u) \<and> stream_inv r u"
proof (induction ks arbitrary: s t es)
  case (Cons k ks)
  then obtain a t1 b q where "chunk_step k t = Some (a, t1)" "each chunk_step ks t1 = Some (b, u)" "es = a @ b"
      "track_run s (chunk_fragments k) = Some q" "track_run q (concat (map chunk_fragments ks)) = Some r"
    by (auto simp: and_then_Some track_run_append bind_eq_Some_conv)
  with chunk_keeps_grammar [OF Cons.prems(1)] Cons.IH [of q t1 b] show ?case by (auto simp: phase_run_append)
qed auto

text \<open>The chunk a frame holds, \<open>None\<close> for a frame without data.\<close>

definition frame_chunk :: "json_codec \<Rightarrow> string \<Rightarrow> stream_chunk option" where
  "frame_chunk codec frame =
     (let data = snd (parseSSEFrame frame) in
      if data = [] then None else Option.bind (jc_parse codec data) (dec_chunk zero_chunk))"

definition stream_chunks :: "json_codec \<Rightarrow> string list \<Rightarrow> stream_chunk list" where
  "stream_chunks codec frames = List.map_filter (frame_chunk codec) frames"

lemma frames_as_chunks:
  "each (openai_frame codec) frames t = Some (es, u) \<Longrightarrow> each chunk_step (stream_chunks codec frames) t = Some (es, u)"
proof (induction frames arbitrary: t es)
  case (Cons f fs)
  then obtain a t1 b where first: "openai_frame codec f t = Some (a, t1)"
      and rest: "each chunk_step (stream_chunks codec fs) t1 = Some (b, u)" and es: "es = a @ b"
    by (auto simp: and_then_Some)
  from first show ?case
  proof (cases "frame_chunk codec f")
    case None
    with first have "a = []" "t1 = t"
      by (auto simp: openai_frame_def frame_chunk_def Let_def bind_eq_Some_conv split: if_splits)
    with None rest es show ?thesis by (simp add: stream_chunks_def map_filter_simps)
  next
    case (Some k)
    with first have "chunk_step k t = Some (a, t1)"
      by (auto simp: openai_frame_def frame_chunk_def Let_def bind_eq_Some_conv split: if_splits)
    with Some rest es show ?thesis by (auto simp: stream_chunks_def map_filter_simps and_then_Some)
  qed
qed (simp add: stream_chunks_def map_filter_simps)

lemma new_stream_inv: "stream_inv ({}, None) (newOpenAIStreamTranslator model)"
  by (simp add: stream_inv_def coupled_def block_phase_def newOpenAIStreamTranslator_def)

lemma terminal_completes:
  assumes "stream_inv r t" and "openai_terminal t = Inr tail"
  shows "phase_run (message_phase t) tail = Some Complete"
  using assms by (auto simp: openai_terminal_def message_phase_def block_phase_def split: if_splits sum.splits)


text \<open>Without that condition it can fail: the fragment of a call that was interrupted is sent to a block
  that was closed before, and this block is closed again.\<close>

definition call_fragment :: "int \<Rightarrow> string \<Rightarrow> tool_delta" where
  "call_fragment i part = \<lparr>td_Index = i, td_ID = ''c'' @ show_int i, td_Type = ''function'', td_Name = ''f'', td_Arguments = part\<rparr>"

definition sample_interleaved :: "stream_chunk list" where
  "sample_interleaved =
     [zero_chunk\<lparr>sk_Choices := [zero_choice\<lparr>sc_ToolCalls := [call_fragment 0 ''{'', call_fragment 1 ''{'']\<rparr>]\<rparr>,
      zero_chunk\<lparr>sk_Choices := [zero_choice\<lparr>sc_ToolCalls := [call_fragment 0 ''}'', call_fragment 1 ''}'']\<rparr>]\<rparr>,
      zero_chunk\<lparr>sk_Choices := [zero_choice\<lparr>sc_FinishReason := Some ''tool_calls''\<rparr>]\<rparr>]"

lemma interleaved_calls_break_the_stream:
  "map_option fst (each chunk_step sample_interleaved (newOpenAIStreamTranslator ''m'')) =
     Some [MessageStart [] ''m'' 0, BlockStart 0 (ToolBlock ''c0'' ''f''), BlockDelta 0 (InputDelta ''{''), BlockStop 0,
       BlockStart 1 (ToolBlock ''c1'' ''f''), BlockDelta 1 (InputDelta ''{''), BlockStop 1,
       BlockDelta 0 (InputDelta ''}''), BlockStop 0, BlockDelta 1 (InputDelta ''}'')]"
  "phase_run BeforeMessage
     [MessageStart [] ''m'' 0, BlockStart 0 (ToolBlock ''c0'' ''f''), BlockDelta 0 (InputDelta ''{''), BlockStop 0,
       BlockStart 1 (ToolBlock ''c1'' ''f''), BlockDelta 1 (InputDelta ''{''), BlockStop 1,
       BlockDelta 0 (InputDelta ''}''), BlockStop 0, BlockDelta 1 (InputDelta ''}'')] = None"
  by code_simp+

section \<open>No content is lost\<close>

definition text_sent :: "anthropic_event list \<Rightarrow> string" where
  "text_sent es = concat (map (\<lambda>e. case e of BlockDelta _ (TextDelta s) \<Rightarrow> s | _ \<Rightarrow> []) es)"

definition args_sent :: "nat \<Rightarrow> anthropic_event list \<Rightarrow> string" where
  "args_sent b es = concat (map (\<lambda>e. case e of BlockDelta i (InputDelta s) \<Rightarrow> if i = b then s else [] | _ \<Rightarrow> []) es)"

definition choice_calls :: "stream_choice \<Rightarrow> tool_delta list" where
  "choice_calls c = (if sc_Index c \<noteq> 0 then [] else sc_ToolCalls c)"

definition choice_texts :: "stream_choice \<Rightarrow> string" where
  "choice_texts c = (if sc_Index c \<noteq> 0 then [] else choice_text c @ sc_Refusal c)"

definition stream_text :: "stream_chunk list \<Rightarrow> string" where
  "stream_text ks = concat (map (\<lambda>k. concat (map choice_texts (sk_Choices k))) ks)"

definition stream_calls :: "stream_chunk list \<Rightarrow> tool_delta list" where
  "stream_calls ks = concat (map (\<lambda>k. concat (map choice_calls (sk_Choices k))) ks)"

definition args_of :: "int \<Rightarrow> tool_delta list \<Rightarrow> string" where
  "args_of i ds = concat (map td_Arguments (filter (\<lambda>d. td_Index d = i) ds))"

definition first_of :: "int \<Rightarrow> tool_delta list \<Rightarrow> tool_delta option" where
  "first_of i ds = find (\<lambda>d. td_Index d = i) ds"

lemma sent_simps [simp]:
  "text_sent [] = []" "text_sent (a @ b) = text_sent a @ text_sent b"
  "args_sent k [] = []" "args_sent k (a @ b) = args_sent k a @ args_sent k b"
  "args_of i [] = []" "args_of i (ds @ es) = args_of i ds @ args_of i es" "first_of i [] = None"
  by (simp_all add: text_sent_def args_sent_def args_of_def first_of_def)

lemma first_of_append: "first_of i (ds @ es) = (case first_of i ds of None \<Rightarrow> first_of i es | Some d \<Rightarrow> Some d)"
  by (induction ds) (auto simp: first_of_def)

lemma no_calls:
  assumes "i \<notin> td_Index ` set ds"
  shows "args_of i ds = []" and "first_of i ds = None"
proof -
  show "args_of i ds = []" using assms by (induction ds) (auto simp: args_of_def)
  show "first_of i ds = None" using assms by (auto simp: first_of_def find_None_iff)
qed

abbreviation block_of :: "openai_translator \<Rightarrow> int \<Rightarrow> nat option" where
  "block_of t \<equiv> map_of (ot_toolIndices t)"

definition tools_ok :: "openai_translator \<Rightarrow> bool" where
  "tools_ok t \<longleftrightarrow> inj_on (block_of t) (dom (block_of t)) \<and> (\<forall>i b. block_of t i = Some b \<longrightarrow> b < ot_nextIndex t)"

definition carried :: "openai_translator \<Rightarrow> anthropic_event list \<Rightarrow> openai_translator \<Rightarrow> string \<Rightarrow> tool_delta list \<Rightarrow> bool" where
  "carried t es u txt ds \<longleftrightarrow>
     tools_ok u \<and> text_sent es = txt \<and> ot_nextIndex t \<le> ot_nextIndex u \<and> block_of t \<subseteq>\<^sub>m block_of u \<and>
     dom (block_of u) = dom (block_of t) \<union> td_Index ` set ds \<and>
     (\<forall>i b. block_of u i = Some b \<longrightarrow> args_sent b es = args_of i ds) \<and>
     (\<forall>i b. block_of u i = Some b \<longrightarrow> block_of t i = None \<longrightarrow>
        ot_nextIndex t \<le> b \<and> (\<exists>d. first_of i ds = Some d \<and> BlockStart b (ToolBlock (td_ID d) (td_Name d)) \<in> set es)) \<and>
     (\<forall>b. ot_nextIndex u \<le> b \<longrightarrow> args_sent b es = [])"

definition carries :: "(anthropic_event, openai_translator) emitter \<Rightarrow> string \<Rightarrow> tool_delta list \<Rightarrow> bool" where
  "carries f txt ds \<longleftrightarrow> (\<forall>t es u. tools_ok t \<longrightarrow> f t = Some (es, u) \<longrightarrow> carried t es u txt ds)"

lemma carriesD: "carries f txt ds \<Longrightarrow> tools_ok t \<Longrightarrow> f t = Some (es, u) \<Longrightarrow> carried t es u txt ds"
  by (simp add: carries_def)

lemma carried_trans:
  assumes "carried t a t1 x ds" and "carried t1 b u y es"
  shows "carried t (a @ b) u (x @ y) (ds @ es)"
proof -
  have less: "ot_nextIndex t \<le> ot_nextIndex t1" "ot_nextIndex t1 \<le> ot_nextIndex u"
    using assms by (simp_all add: carried_def)
  have sub: "block_of t \<subseteq>\<^sub>m block_of t1" "block_of t1 \<subseteq>\<^sub>m block_of u"
    using assms by (simp_all add: carried_def)
  have one: "args_sent k (a @ b) = args_of i (ds @ es) \<and>
      (block_of t i = None \<longrightarrow> ot_nextIndex t \<le> k \<and>
        (\<exists>d. first_of i (ds @ es) = Some d \<and> BlockStart k (ToolBlock (td_ID d) (td_Name d)) \<in> set (a @ b)))"
    if k: "block_of u i = Some k" for i k
  proof (cases "block_of t1 i")
    case (Some k')
    with sub(2) k have "k' = k" by (auto simp: map_le_def dom_def)
    with Some have old: "args_sent k a = args_of i ds"
        "block_of t i = None \<Longrightarrow> ot_nextIndex t \<le> k \<and>
           (\<exists>d. first_of i ds = Some d \<and> BlockStart k (ToolBlock (td_ID d) (td_Name d)) \<in> set a)"
      using assms(1) by (simp_all add: carried_def)
    have "args_sent k b = args_of i es" using assms(2) k by (simp add: carried_def)
    with old show ?thesis by (fastforce simp: first_of_append)
  next
    case None
    then have "i \<notin> td_Index ` set ds" using assms(1) by (auto simp: carried_def)
    moreover have new: "ot_nextIndex t1 \<le> k \<and>
        (\<exists>d. first_of i es = Some d \<and> BlockStart k (ToolBlock (td_ID d) (td_Name d)) \<in> set b)"
      using None k assms(2) by (simp add: carried_def)
    moreover from new assms(1) have "args_sent k a = []" by (simp add: carried_def)
    moreover have "args_sent k b = args_of i es" using k assms(2) by (simp add: carried_def)
    ultimately show ?thesis using less(1) by (fastforce simp: first_of_append no_calls)
  qed
  have "dom (block_of u) = dom (block_of t) \<union> td_Index ` set (ds @ es)" using assms by (auto simp: carried_def)
  moreover have "block_of t \<subseteq>\<^sub>m block_of u" using sub by (rule map_le_trans)
  moreover have "tools_ok u" and "text_sent (a @ b) = x @ y" using assms by (simp_all add: carried_def)
  moreover have "args_sent k (a @ b) = []" if "ot_nextIndex u \<le> k" for k
    using that assms less by (simp add: carried_def)
  ultimately show ?thesis
    using less one unfolding carried_def by (blast intro: le_trans)
qed

lemma carries_and_then: "carries f x ds \<Longrightarrow> carries g y es \<Longrightarrow> carries (and_then f g) (x @ y) (ds @ es)"
  unfolding carries_def and_then_Some using carried_trans by (metis carried_def)

lemma carried_same:
  assumes "tools_ok t" and "block_state u = block_state t" and "text_sent es = x" and "\<And>b. args_sent b es = []"
  shows "carried t es u x []"
  using assms by (auto simp: carried_def block_state_def tools_ok_def)

lemma carries_quiet: "(\<And>t. block_state (f t) = block_state t) \<Longrightarrow> carries (quiet f) [] []"
  by (auto simp: carries_def intro: carried_same)

lemma carries_each:
  "(\<And>x. carries (f x) (txt x) (ds x)) \<Longrightarrow> carries (each f xs) (concat (map txt xs)) (concat (map ds xs))"
  by (induction xs) (auto intro: carries_and_then carries_quiet)

lemma stop_carried:
  assumes "stopActiveBlock t = Some (es, u)"
  shows "u = t\<lparr>ot_activeType := []\<rparr> \<and> text_sent es = [] \<and> args_sent b es = []"
  using assms by (cases t) (auto simp: stopActiveBlock_def text_sent_def args_sent_def split: if_splits)

lemma stop_frame:
  "stopActiveBlock t = Some (es, u) \<Longrightarrow> ot_toolIndices u = ot_toolIndices t \<and> ot_nextIndex u = ot_nextIndex t"
  by (auto simp: stopActiveBlock_def split: if_splits)

lemma start_carried:
  assumes "startBlock b t = Some (es, u)"
  shows "ot_toolIndices u = ot_toolIndices t \<and> text_sent es = [] \<and> args_sent k es = [] \<and>
     (u = t \<and> b = TextBlock \<or>
      ot_activeIndex u = ot_nextIndex t \<and> ot_nextIndex u = Suc (ot_nextIndex t) \<and> BlockStart (ot_nextIndex t) b \<in> set es)"
proof (cases "ot_activeType t = block_type b \<and> block_type b = ''text''")
  case True
  with assms show ?thesis by (cases b) (auto simp: startBlock_def)
next
  case False
  with assms obtain a t1 c where stop: "stopActiveBlock t = Some (a, t1)" and opened: "open_block b t1 = Some (c, u)" "es = a @ c"
    by (auto simp: startBlock_def and_then_Some split: if_splits)
  from opened(1) have "c = [BlockStart (ot_nextIndex t1) b]"
    and "u = t1\<lparr>ot_activeType := block_type b, ot_activeIndex := ot_nextIndex t1, ot_nextIndex := Suc (ot_nextIndex t1)\<rparr>"
    by (auto simp: open_block_def split: if_splits)
  with stop_carried [OF stop] opened(2) show ?thesis by (auto simp: text_sent_def args_sent_def)
qed

lemma text_carries: "carries (text_step s) s []"
proof (cases "s = []")
  case False
  show ?thesis
    unfolding carries_def
  proof (intro allI impI)
    fix t es u
    assume ok: "tools_ok t" and run: "text_step s t = Some (es, u)"
    from run False obtain a t1 where start: "startBlock TextBlock t = Some (a, t1)"
        and es: "es = a @ [BlockDelta (ot_activeIndex t1) (TextDelta s)]" and u: "u = t1\<lparr>ot_sawVisible := True\<rparr>"
      by (auto simp: text_step_def and_then_Some send_delta_def)
    have st: "ot_toolIndices t1 = ot_toolIndices t" "text_sent a = []" "args_sent k a = []"
        "ot_nextIndex t \<le> ot_nextIndex t1" for k
      using start_carried [OF start, of k] by auto
    have "text_sent es = s" and none: "args_sent k es = []" for k
      using st es by (simp_all add: text_sent_def args_sent_def)
    moreover from ok st have "tools_ok u" by (auto simp: u tools_ok_def intro: less_le_trans)
    ultimately show "carried t es u s []" using st by (auto simp: u carried_def)
  qed
qed (simp add: text_step_def carries_quiet)

lemma refusal_carries: "carries (refusal_step s) s []"
proof (cases "s = []")
  case False
  have "carries (and_then (text_step s) (quiet (\<lambda>t. t\<lparr>ot_omitted := ot_omitted t @ [''choices[0].delta.refusal'']\<rparr>))) (s @ []) ([] @ [])"
    by (intro carries_and_then text_carries carries_quiet) (simp add: block_state_def)
  with False show ?thesis by (simp add: refusal_step_def)
qed (simp add: refusal_step_def carries_quiet)

text \<open>After its block step, the block of the call is the active one.\<close>

lemma tool_block_carried:
  assumes ok: "tools_ok t" and run: "tool_block_step d t = Some (es, u)"
  shows "carried t es u [] [d\<lparr>td_Arguments := []\<rparr>] \<and> block_of u (td_Index d) = Some (ot_activeIndex u)"
proof (cases "block_of t (td_Index d)")
  case None
  with run obtain t1 where start: "startBlock (ToolBlock (td_ID d) (td_Name d)) t = Some (es, t1)"
      and u: "u = t1\<lparr>ot_toolIndices := map_put (td_Index d) (ot_activeIndex t1) (ot_toolIndices t1)\<rparr>"
    by (auto simp: tool_block_step_def and_then_Some split: if_splits)
  have st: "ot_toolIndices t1 = ot_toolIndices t" "text_sent es = []" "args_sent k es = []"
      "ot_activeIndex t1 = ot_nextIndex t" "ot_nextIndex t1 = Suc (ot_nextIndex t)"
      "BlockStart (ot_nextIndex t) (ToolBlock (td_ID d) (td_Name d)) \<in> set es" for k
    using start_carried [OF start, of k] by auto
  have look: "block_of u i = (if i = td_Index d then Some (ot_nextIndex t) else block_of t i)" for i
    by (simp add: u st go_map)
  have fresh: "block_of t i \<noteq> Some (ot_nextIndex t)" for i
    using ok by (auto simp: tools_ok_def)
  have nx: "ot_nextIndex u = Suc (ot_nextIndex t)" and ax: "ot_activeIndex u = ot_nextIndex t" by (simp_all add: u st)
  have "tools_ok u"
    using ok fresh unfolding tools_ok_def
    by (auto simp: look nx inj_on_def dom_def less_SucI split: if_splits)
  moreover have "block_of t \<subseteq>\<^sub>m block_of u" using None by (auto simp: map_le_def look dom_def)
  moreover have "dom (block_of u) = dom (block_of t) \<union> {td_Index d}" by (auto simp: look dom_def)
  moreover have "args_of i [d\<lparr>td_Arguments := []\<rparr>] = []" for i by (simp add: args_of_def)
  ultimately show ?thesis
    using st None by (auto simp: carried_def look nx ax first_of_def split: if_splits)
next
  case (Some k)
  have none: "args_of i [d\<lparr>td_Arguments := []\<rparr>] = []" for i by (simp add: args_of_def)
  from Some run have u: "ot_toolIndices u = ot_toolIndices t" "ot_nextIndex u = ot_nextIndex t" "ot_activeIndex u = k"
      and es: "text_sent es = []" "args_sent b es = []" for b
    by (auto simp: tool_block_step_def and_then_Some dest: stop_frame stop_carried split: if_splits)
  with ok Some none show ?thesis by (auto simp: carried_def tools_ok_def dom_def)
qed

lemma tool_carries: "carries (tool_step d) [] [d]"
  unfolding carries_def
proof (intro allI impI)
  fix t es u
  assume ok: "tools_ok t" and run: "tool_step d t = Some (es, u)"
  let ?t = "t\<lparr>ot_sawVisible := True\<rparr>"
  from run obtain a b where block: "tool_block_step d ?t = Some (a, u)"
      and rest: "arguments_step (td_Arguments d) u = Some (b, u)" "es = a @ b"
    by (auto simp: tool_step_def and_then_Some arguments_step_def send_delta_def split: if_splits)
  from ok have "tools_ok ?t" by (simp add: tools_ok_def)
  from tool_block_carried [OF this block] have c: "carried t a u [] [d\<lparr>td_Arguments := []\<rparr>]"
    and act: "block_of u (td_Index d) = Some (ot_activeIndex u)" by (auto simp: carried_def)
  from rest(1) have b: "text_sent b = []" "args_sent k b = (if k = ot_activeIndex u then td_Arguments d else [])" for k
    by (auto simp: arguments_step_def send_delta_def text_sent_def args_sent_def split: if_splits)
  have inj: "k = ot_activeIndex u \<longleftrightarrow> i = td_Index d" if "block_of u i = Some k" for i k
    using c act that by (auto simp: carried_def tools_ok_def inj_on_def dom_def)
  have args: "args_of i [d] = (if i = td_Index d then td_Arguments d else [])" "args_of i [d\<lparr>td_Arguments := []\<rparr>] = []" for i
    by (simp_all add: args_of_def)
  have below: "ot_activeIndex u < ot_nextIndex u" using c act by (auto simp: carried_def tools_ok_def)
  have "first_of i [d\<lparr>td_Arguments := []\<rparr>] = Some e \<Longrightarrow> first_of i [d] = Some d \<and> td_ID e = td_ID d \<and> td_Name e = td_Name d" for i e
    by (auto simp: first_of_def split: if_splits)
  with c b inj args below rest(2) show "carried t es u [] [d]"
    unfolding carried_def by simp metis
qed

lemma choice_carries: "carries (choice_step c) (choice_texts c) (choice_calls c)"
proof (cases "sc_Index c = 0")
  case True
  have nil: "concat (map (\<lambda>d. []) ds) = ([] :: string)" for ds :: "tool_delta list" by (induction ds) auto
  have "carries (each tool_step (sc_ToolCalls c)) [] (sc_ToolCalls c)"
    using carries_each [of tool_step "\<lambda>d. []" "\<lambda>d. [d]" "sc_ToolCalls c", OF tool_carries]
    by (simp only: nil concat_map_singleton map_ident)
  moreover have "carries (reasoning_step r) [] []" and "carries (finish_step o1) [] []" for r o1
    unfolding reasoning_step_def finish_step_def
    by (auto intro!: carries_quiet simp: block_state_def split: option.split)
  ultimately have "carries (choice_step c)
      ([] @ (choice_text c @ (sc_Refusal c @ ([] @ [])))) ([] @ ([] @ ([] @ (sc_ToolCalls c @ []))))"
    unfolding choice_step_def if_P [OF True] using True
    by (simp only: if_False simp_thms) (intro carries_and_then text_carries refusal_carries)
  then show ?thesis using True by (simp add: choice_texts_def choice_calls_def)
qed (simp add: choice_step_def choice_texts_def choice_calls_def carries_quiet)

lemma chunk_carries:
  "carries (chunk_step k) (concat (map choice_texts (sk_Choices k))) (concat (map choice_calls (sk_Choices k)))"
proof -
  have "carries start_message [] []"
    by (auto simp: carries_def start_message_def block_state_def text_sent_def args_sent_def intro!: carried_same split: if_splits)
  then have "carries (chunk_step k) ([] @ ([] @ concat (map choice_texts (sk_Choices k))))
      ([] @ ([] @ concat (map choice_calls (sk_Choices k))))"
    unfolding chunk_step_def by (intro carries_and_then carries_quiet carries_each choice_carries) simp_all
  then show ?thesis by simp
qed

text \<open>C9. No content is lost or moved in the translation from OpenAI, whatever the order of the fragments. The text
  sent is the text and the refusals of the stream, in order. Every tool call gets a block of its own,
  started under the identifier and the name of its first fragment, and the arguments sent to this
  block are the arguments of all its fragments, in order.\<close>

theorem translation_keeps_content:
  assumes "each (openai_frame codec) frames (newOpenAIStreamTranslator model) = Some (evs, t)"
  defines "ks \<equiv> stream_chunks codec frames"
  shows "text_sent evs = stream_text ks \<and>
    (\<forall>i\<in>td_Index ` set (stream_calls ks). \<exists>b d. block_of t i = Some b \<and> first_of i (stream_calls ks) = Some d \<and>
       BlockStart b (ToolBlock (td_ID d) (td_Name d)) \<in> set evs \<and> args_sent b evs = args_of i (stream_calls ks)) \<and>
    inj_on (block_of t) (td_Index ` set (stream_calls ks))"
proof -
  let ?new = "newOpenAIStreamTranslator model"
  have new: "tools_ok ?new" "block_of ?new = Map.empty"
    by (simp_all add: tools_ok_def newOpenAIStreamTranslator_def)
  have "carries (each chunk_step ks) (stream_text ks) (stream_calls ks)"
    unfolding stream_text_def stream_calls_def by (intro carries_each chunk_carries)
  from carriesD [OF this new(1) frames_as_chunks [OF assms(1), folded ks_def]]
  have c: "carried ?new evs t (stream_text ks) (stream_calls ks)" .
  then have dom: "dom (block_of t) = td_Index ` set (stream_calls ks)" by (simp add: carried_def new)
  have "\<exists>b d. block_of t i = Some b \<and> first_of i (stream_calls ks) = Some d \<and>
       BlockStart b (ToolBlock (td_ID d) (td_Name d)) \<in> set evs \<and> args_sent b evs = args_of i (stream_calls ks)"
    if "i \<in> td_Index ` set (stream_calls ks)" for i
  proof -
    from that dom obtain b where "block_of t i = Some b" by blast
    with c new(2) show ?thesis by (simp add: carried_def)
  qed
  with c dom show ?thesis by (simp add: carried_def tools_ok_def)
qed

section \<open>Sample stream\<close>

definition sample_call :: "int \<Rightarrow> (string \<times> json) list \<Rightarrow> json" where
  "sample_call i fs = JObj [(''index'', json_int i), (''id'', JStr (''c'' @ show_int i)), (''function'', JObj fs)]"

definition sample_stream_codec :: json_codec where
  "sample_stream_codec =
     \<lparr>jc_parse = map_of
        [(''A'', JObj [(''id'', JStr ''x''), (''choices'', JArr [JObj [(''delta'', JObj [(''content'', JStr ''hi'')])]])]),
         (''B'', JObj [(''choices'', JArr [JObj [(''delta'', JObj [(''tool_calls'', JArr
            [sample_call 3 [(''name'', JStr ''f''), (''arguments'', JStr ''{'')], sample_call 3 [(''arguments'', JStr ''}'')]])])]])]),
         (''C'', JObj [(''choices'', JArr [JObj [(''delta'', JObj []), (''finish_reason'', JStr ''tool_calls'')]])])],
      jc_show = (\<lambda>j. []), jc_any = (\<lambda>j. j), jc_raw = (\<lambda>j. [])\<rparr>"

definition sample_stream_frames :: "string list" where
  "sample_stream_frames = map (\<lambda>s. ''data: '' @ s @ [CHR 0x0A, CHR 0x0A]) [''A'', ''B'', ''C'']"

definition sample_events :: "anthropic_event list" where
  "sample_events = [MessageStart ''x'' ''m'' 0, BlockStart 0 TextBlock, BlockDelta 0 (TextDelta ''hi''), BlockStop 0,
     BlockStart 1 (ToolBlock ''c3'' ''f''), BlockDelta 1 (InputDelta ''{''), BlockDelta 1 (InputDelta ''}'')]"

definition sample_after :: openai_translator where
  "sample_after = (newOpenAIStreamTranslator ''m'')\<lparr>ot_id := ''x'', ot_started := True, ot_finished := True,
     ot_finishReason := Some ''tool_calls'', ot_nextIndex := 2, ot_activeType := ''tool_use'', ot_activeIndex := 1,
     ot_toolIndices := [(3, 1)], ot_sawVisible := True\<rparr>"

lemma sample_stream_run:
  "each (openai_frame sample_stream_codec) sample_stream_frames (newOpenAIStreamTranslator ''m'') = Some (sample_events, sample_after)"
  by code_simp


theorem translation_keeps_content_witness:
  "text_sent sample_events = ''hi'' \<and> args_sent 1 sample_events = ''{}''"
proof -
  have calls: "stream_text (stream_chunks sample_stream_codec sample_stream_frames) = ''hi''"
    "td_Index ` set (stream_calls (stream_chunks sample_stream_codec sample_stream_frames)) = {3}"
    "args_of 3 (stream_calls (stream_chunks sample_stream_codec sample_stream_frames)) = ''{}''"
    "block_of sample_after 3 = Some 1" by code_simp+
  from translation_keeps_content [OF sample_stream_run] show ?thesis by (auto simp: calls)
qed

end
