(* ===== verification/Stream_Reader.thy ===== *)
theory Stream_Reader
  imports Stream_Translation
begin

text \<open>
  \<^verbatim>\<open>internal/adapter/stream.go\<close>: reading an upstream event stream under the byte limits, checking every
  event, and holding the frame that ends the stream.

  The body is the bytes it will deliver with what follows them: a read error, and whether the last
  bytes come together with the end of the stream (\<open>wb_early_end\<close>), which decides at one boundary how
  the scanner meets a line without end. \<open>scan_line\<close> is \<open>bufio.Scanner\<close> with the split function of the code:
  a line with its line end, the rest of the stream at its end, or a line longer than the buffer. What is emitted goes to the
  argument \<open>emit\<close>, with a state of its own; its error stops the reader.
\<close>

section \<open>Completion signals\<close>

record signal_value =
  sv_Type :: string
  sv_StopReason :: string
  sv_FinishReasons :: "string list"

definition dec_signal :: "signal_value decoder" where
  "dec_signal = dec_struct (dec_all
     [dec_into ''type'' dec_string sv_Type (\<lambda>v b. b\<lparr>sv_Type := v\<rparr>),
      dec_into ''delta'' (dec_struct (\<lambda>kvs r. dec_member ''stop_reason'' dec_string r kvs)) sv_StopReason (\<lambda>v b. b\<lparr>sv_StopReason := v\<rparr>),
      dec_into ''choices'' (dec_list [] (dec_struct (\<lambda>kvs r. dec_member ''finish_reason'' dec_string r kvs))) sv_FinishReasons
        (\<lambda>v b. b\<lparr>sv_FinishReasons := v\<rparr>)])"

definition signal_in :: "json_codec \<Rightarrow> string \<Rightarrow> string \<Rightarrow> bool" where
  "signal_in codec protocol frame \<longleftrightarrow>
     (let data = snd (parseSSEFrame frame) in
      protocol = ''openai'' \<and> data = ''[DONE]'' \<or>
      (case Option.bind (jc_parse codec data) (dec_signal \<lparr>sv_Type = [], sv_StopReason = [], sv_FinishReasons = []\<rparr>) of
         None \<Rightarrow> False
       | Some v \<Rightarrow>
           protocol = ''anthropic'' \<and> (sv_Type v = ''message_stop'' \<or> sv_Type v = ''message_delta'' \<and> sv_StopReason v \<noteq> []) \<or>
           protocol = ''openai'' \<and> list_ex (\<lambda>r. r \<noteq> []) (sv_FinishReasons v)))"

text \<open>\<open>strings.Split(s, "\n\n")\<close>, on text whose CRLF line ends are replaced.\<close>

fun split_frames :: "string \<Rightarrow> string list" where
  "split_frames (a # b # s) =
     (if a = CHR 0x0A \<and> b = CHR 0x0A then [] # split_frames s
      else (case split_frames (b # s) of [] \<Rightarrow> [[a]] | l # ls \<Rightarrow> (a # l) # ls))"
| "split_frames s = [s]"

definition streamSignalsCompletion :: "json_codec \<Rightarrow> string \<Rightarrow> string \<Rightarrow> bool" where
  "streamSignalsCompletion codec protocol frames \<longleftrightarrow>
     list_ex (signal_in codec protocol) (split_frames (replace_all [CHR 0x0D, CHR 0x0A] [CHR 0x0A] frames))"

section \<open>Lines\<close>

record stream_limits =
  lim_StreamBytes :: int
  lim_EventBytes :: int

record wire_body =
  wb_data :: string
  wb_read_error :: bool
  wb_early_end :: bool

datatype line_scan = Line string | TooLong | NoLine

definition line_end :: "string \<Rightarrow> nat option" where
  "line_end s = (if CHR 0x0A \<in> set s then Some (length (takeWhile (\<lambda>c. c \<noteq> CHR 0x0A) s)) else None)"

definition scan_line :: "bool \<Rightarrow> nat \<Rightarrow> string \<Rightarrow> line_scan" where
  "scan_line early buffer s =
     (case line_end s of
        Some i \<Rightarrow> if i < buffer then Line (take (Suc i) s) else TooLong
      | None \<Rightarrow>
          if buffer < length s \<or> buffer = length s \<and> \<not> early \<and> s \<noteq> [] then TooLong
          else if s = [] then NoLine else Line s)"

section \<open>Events\<close>

text \<open>What the loop keeps between events.\<close>

record stream_state =
  st_usage :: "(string \<times> json) list"
  st_started :: bool
  st_finished :: bool

definition new_stream_state :: stream_state where
  "new_stream_state = \<lparr>st_usage = [], st_started = False, st_finished = False\<rparr>"

datatype event_result =
    Fail string
  | UpstreamError string
  | Pass stream_state
  | Terminal stream_state

definition trim_field :: "string \<Rightarrow> string \<Rightarrow> string" where
  "trim_field name l = trim_prefix (trim_prefix l name) '' ''"

definition frame_lines :: "string \<Rightarrow> string list" where
  "frame_lines raw = map trim_cr (split_lines raw)"

definition frame_event :: "string \<Rightarrow> string" where
  "frame_event raw =
     (let es = filter (\<lambda>l. has_prefix l ''event:'') (frame_lines raw) in if es = [] then [] else trim_field ''event:'' (last es))"

definition frame_data :: "string \<Rightarrow> string list" where
  "frame_data raw = map (trim_field ''data:'') (filter (\<lambda>l. has_prefix l ''data:'') (frame_lines raw))"

text \<open>\<open>merge\<close>: the members of a usage object override those seen before.\<close>

definition merge_usage :: "json option \<Rightarrow> stream_state \<Rightarrow> stream_state option" where
  "merge_usage raw s =
     (case raw of
        None \<Rightarrow> Some s
      | Some JNull \<Rightarrow> Some s
      | Some (JObj kvs) \<Rightarrow> Some (s\<lparr>st_usage := foldl (\<lambda>m kv. map_put (fst kv) (snd kv) m) (st_usage s) kvs\<rparr>)
      | Some _ \<Rightarrow> None)"

record upstream_choice =
  uc_Index :: int
  uc_Delta :: "json option"
  uc_FinishReason :: "string option"

definition dec_upstream_choice :: "upstream_choice decoder" where
  "dec_upstream_choice = dec_struct (dec_all
     [dec_into ''index'' dec_int uc_Index (\<lambda>v b. b\<lparr>uc_Index := v\<rparr>),
      dec_into ''delta'' dec_raw uc_Delta (\<lambda>v b. b\<lparr>uc_Delta := v\<rparr>),
      dec_into ''finish_reason'' (dec_ptr [] dec_string) uc_FinishReason (\<lambda>v b. b\<lparr>uc_FinishReason := v\<rparr>)])"

fun upstream_choices :: "upstream_choice list \<Rightarrow> stream_state \<Rightarrow> stream_state option" where
  "upstream_choices [] s = Some s"
| "upstream_choices (c # cs) s =
     (if \<not> is_object (uc_Delta c) then None
      else if uc_Index c \<noteq> 0 then upstream_choices cs s
      else upstream_choices cs
        (s\<lparr>st_started := True,
           st_finished := (st_finished s \<or> uc_FinishReason c \<noteq> None \<and> uc_FinishReason c \<noteq> Some [])\<rparr>))"

definition openai_event :: "(string \<times> json) list \<Rightarrow> stream_state \<Rightarrow> event_result" where
  "openai_event obj s =
     (case dec_opt (dec_list \<lparr>uc_Index = 0, uc_Delta = None, uc_FinishReason = None\<rparr> dec_upstream_choice) []
             (usage_member obj ''choices'') of
        None \<Rightarrow> Fail ''invalid_upstream_stream''
      | Some cs \<Rightarrow>
          (case upstream_choices cs s of
             None \<Rightarrow> Fail ''invalid_upstream_stream''
           | Some s1 \<Rightarrow>
               (case merge_usage (usage_member obj ''usage'') s1 of
                  None \<Rightarrow> Fail ''invalid_upstream_usage''
                | Some s2 \<Rightarrow> Pass s2)))"

definition dec_message :: "(json option \<times> string \<times> json option) decoder" where
  "dec_message = dec_struct (dec_all
     [dec_into ''usage'' dec_raw fst (\<lambda>v r. (v, snd r)),
      dec_into ''role'' dec_string (\<lambda>r. fst (snd r)) (\<lambda>v r. (fst r, v, snd (snd r))),
      dec_into ''content'' dec_raw (\<lambda>r. snd (snd r)) (\<lambda>v r. (fst r, fst (snd r), v))])"

definition message_start_event :: "text_ops \<Rightarrow> (string \<times> json) list \<Rightarrow> stream_state \<Rightarrow> event_result" where
  "message_start_event tx obj s =
     (if st_started s then Fail ''invalid_upstream_stream''
      else
        (case dec_opt dec_message (None, [], None) (usage_member obj ''message'') of
           None \<Rightarrow> Fail ''invalid_upstream_stream''
         | Some (usage, role, content) \<Rightarrow>
             if role \<noteq> ''assistant'' then Fail ''invalid_upstream_stream''
             else
               (case merge_usage usage (s\<lparr>st_started := True\<rparr>) of
                  None \<Rightarrow> Fail ''invalid_upstream_stream''
                | Some s1 \<Rightarrow>
                    if content \<noteq> None \<and> \<not> messageContent tx ''anthropic'' content then Fail ''invalid_upstream_stream''
                    else Pass s1)))"

definition message_delta_event :: "(string \<times> json) list \<Rightarrow> stream_state \<Rightarrow> event_result" where
  "message_delta_event obj s =
     (if \<not> st_started s then Fail ''invalid_upstream_stream''
      else
        (case dec_opt (dec_struct (\<lambda>kvs r. dec_member ''stop_reason'' (dec_ptr [] dec_string) r kvs)) None (usage_member obj ''delta'') of
           None \<Rightarrow> Fail ''invalid_upstream_stream''
         | Some reason \<Rightarrow>
             (case merge_usage (usage_member obj ''usage'')
                     (s\<lparr>st_finished := (st_finished s \<or> reason \<noteq> None \<and> reason \<noteq> Some [])\<rparr>) of
                None \<Rightarrow> Fail ''invalid_upstream_usage''
              | Some s1 \<Rightarrow> Pass s1)))"

definition anthropic_event_check :: "text_ops \<Rightarrow> string \<Rightarrow> (string \<times> json) list \<Rightarrow> stream_state \<Rightarrow> event_result" where
  "anthropic_event_check tx kind obj s =
     (if kind = ''message_start'' then message_start_event tx obj s
      else if kind = ''content_block_start'' then
        (if \<not> st_started s \<or> \<not> nativeContentBlock tx (usage_member obj ''content_block'') then Fail ''invalid_upstream_stream''
         else Pass s)
      else if kind = ''message_delta'' then message_delta_event obj s
      else if kind = ''message_stop'' then
        (if \<not> st_started s \<or> \<not> st_finished s then Fail ''incomplete_upstream_stream'' else Terminal s)
      else if kind = ''ping'' then Pass s
      else if \<not> st_started s then Fail ''invalid_upstream_stream''
      else Pass s)"

text \<open>The type of the object: a value that is no string leaves the empty string.\<close>

definition event_kind :: "(string \<times> json) list \<Rightarrow> string" where
  "event_kind obj = (case usage_member obj ''type'' of Some (JStr k) \<Rightarrow> k | _ \<Rightarrow> [])"

text \<open>One frame with data.\<close>

definition check_event :: "json_codec \<Rightarrow> text_ops \<Rightarrow> string \<Rightarrow> string \<Rightarrow> string \<Rightarrow> stream_state \<Rightarrow> event_result" where
  "check_event codec tx protocol event data s =
     (if event = ''error'' then UpstreamError data
      else if protocol = ''openai'' \<and> event \<noteq> [] \<and> event \<noteq> ''message'' then Fail ''invalid_upstream_stream''
      else if protocol = ''openai'' \<and> data = ''[DONE]'' then
        (if \<not> st_started s \<or> \<not> st_finished s then Fail ''incomplete_upstream_stream'' else Terminal s)
      else
        (case strict_parse codec tx data of
           Some (JObj obj) \<Rightarrow>
             (let kind = event_kind obj in
              if protocol = ''anthropic'' \<and> event \<noteq> [] \<and> event \<noteq> kind then Fail ''invalid_upstream_stream''
              else if usage_member obj ''error'' \<noteq> None \<or> kind = ''error'' then UpstreamError data
              else if protocol = ''openai'' then openai_event obj s
              else anthropic_event_check tx kind obj s)
         | _ \<Rightarrow> Fail ''invalid_upstream_stream''))"

section \<open>The reader\<close>

datatype 'x read_result =
    ReadFail string
  | ReadUpstream string
  | EmitError 'x
  | ReadDone token_usage string

text \<open>The frame that ended at an empty line: the state to go on with, or the result.\<close>

definition finish_stream :: "string \<Rightarrow> string \<Rightarrow> stream_state \<Rightarrow> 'x read_result" where
  "finish_stream protocol raw s =
     (case ParseUsage protocol (Some (JObj (st_usage s))) of
        Inl e \<Rightarrow> ReadFail ''invalid_upstream_usage''
      | Inr u \<Rightarrow> ReadDone u raw)"

definition emit_frame ::
  "(string \<Rightarrow> 'e \<Rightarrow> 'x option \<times> 'e) \<Rightarrow> string \<Rightarrow> stream_state \<Rightarrow> 'e \<Rightarrow> ('x read_result + stream_state) \<times> 'e"
where
  "emit_frame emit raw s e =
     (case emit raw e of
        (Some x, e1) \<Rightarrow> (Inl (EmitError x), e1)
      | (None, e1) \<Rightarrow> (Inr s, e1))"

definition take_frame ::
  "json_codec \<Rightarrow> text_ops \<Rightarrow> string \<Rightarrow> (string \<Rightarrow> 'e \<Rightarrow> 'x option \<times> 'e) \<Rightarrow> string \<Rightarrow> stream_state \<Rightarrow> 'e
     \<Rightarrow> ('x read_result + stream_state) \<times> 'e"
where
  "take_frame codec tx protocol emit raw s e =
     (if frame_data raw = [] then emit_frame emit raw s e
      else
        (case check_event codec tx protocol (frame_event raw) (join_lines (frame_data raw)) s of
           Fail code \<Rightarrow> (Inl (ReadFail code), e)
         | UpstreamError data \<Rightarrow> (Inl (ReadUpstream data), e)
         | Terminal s1 \<Rightarrow> (Inl (finish_stream protocol raw s1), e)
         | Pass s1 \<Rightarrow> emit_frame emit raw s1 e))"

text \<open>\<open>strings.TrimSuffix(strings.TrimSuffix(wireLine, "\n"), "\r") == ""\<close>\<close>

definition blank_line :: "string \<Rightarrow> bool" where
  "blank_line w \<longleftrightarrow> trim_cr (if has_suffix w [CHR 0x0A] then butlast w else w) = []"

lemma scan_line_prefix: "scan_line early buffer s = Line w \<Longrightarrow> w \<noteq> [] \<and> s = w @ drop (length w) s"
  by (auto simp: scan_line_def line_end_def min_def split: option.splits if_splits)

lemma scan_line_shorter: "scan_line early buffer s = Line w \<Longrightarrow> length (drop (length w) s) < length s"
  by (drule scan_line_prefix, cases w; cases s; auto)

function read_loop ::
  "json_codec \<Rightarrow> text_ops \<Rightarrow> string \<Rightarrow> stream_limits \<Rightarrow> bool \<Rightarrow> bool \<Rightarrow> (string \<Rightarrow> 'e \<Rightarrow> 'x option \<times> 'e)
     \<Rightarrow> string \<Rightarrow> string \<Rightarrow> int \<Rightarrow> stream_state \<Rightarrow> 'e \<Rightarrow> 'x read_result \<times> 'e"
where
  "read_loop codec tx protocol limits early failed emit rest frame bytes s e =
     (case scan_line early (nat (lim_EventBytes limits + 1)) rest of
        TooLong \<Rightarrow> (ReadFail ''upstream_event_too_large'', e)
      | NoLine \<Rightarrow> (ReadFail (if failed then ''upstream_stream_read_error'' else ''incomplete_upstream_stream''), e)
      | Line w \<Rightarrow>
          (let bytes1 = bytes + int (length w); frame1 = frame @ w; rest1 = drop (length w) rest in
           if lim_StreamBytes limits < bytes1 then (ReadFail ''upstream_response_too_large'', e)
           else if lim_EventBytes limits < int (length frame1) then (ReadFail ''upstream_event_too_large'', e)
           else if \<not> blank_line w then read_loop codec tx protocol limits early failed emit rest1 frame1 bytes1 s e
           else
             (case take_frame codec tx protocol emit frame1 s e of
                (Inl r, e1) \<Rightarrow> (r, e1)
              | (Inr s1, e1) \<Rightarrow> read_loop codec tx protocol limits early failed emit rest1 [] bytes1 s1 e1)))"
  by pat_completeness auto
termination
proof (relation "measure (\<lambda>(codec, tx, protocol, limits, early, failed, emit, rest, _). length rest)", goal_cases)
  case 1
  show ?case by simp
qed (auto dest: scan_line_shorter)

declare read_loop.simps [simp del]

definition readStreamWithLimits ::
  "json_codec \<Rightarrow> text_ops \<Rightarrow> string \<Rightarrow> wire_body \<Rightarrow> stream_limits \<Rightarrow> (string \<Rightarrow> 'e \<Rightarrow> 'x option \<times> 'e) \<Rightarrow> 'e
     \<Rightarrow> 'x read_result \<times> 'e"
where
  "readStreamWithLimits codec tx protocol body limits emit e =
     (let n = nat (lim_StreamBytes limits + 1); whole = length (wb_data body) \<le> n in
      read_loop codec tx protocol limits (wb_early_end body \<and> whole) (wb_read_error body \<and> whole) emit
        (take n (wb_data body)) [] 0 new_stream_state e)"

section \<open>The wire bytes are passed on unchanged\<close>

text \<open>An emitter that records what it is given, on top of another one.\<close>

definition recording :: "(string \<Rightarrow> 'e \<Rightarrow> 'x option \<times> 'e) \<Rightarrow> string \<Rightarrow> string list \<times> 'e \<Rightarrow> 'x option \<times> string list \<times> 'e" where
  "recording emit raw p = (case emit raw (snd p) of (x, e1) \<Rightarrow> (x, fst p @ [raw], e1))"

text \<open>The frame that is returned and not emitted, and what makes it the end of the stream.\<close>

definition held_frame :: "'x read_result \<Rightarrow> string" where
  "held_frame r = (case r of ReadDone _ raw \<Rightarrow> raw | _ \<Rightarrow> [])"

definition ends_stream :: "json_codec \<Rightarrow> text_ops \<Rightarrow> string \<Rightarrow> 'x read_result \<Rightarrow> bool" where
  "ends_stream codec tx protocol r \<longleftrightarrow>
     (case r of
        ReadDone u raw \<Rightarrow>
          frame_data raw \<noteq> [] \<and>
          (\<exists>s. st_started s \<and> st_finished s \<and>
             check_event codec tx protocol (frame_event raw) (join_lines (frame_data raw)) s = Terminal s \<and>
             ParseUsage protocol (Some (JObj (st_usage s))) = Inr u)
      | _ \<Rightarrow> True)"

lemma check_event_terminal:
  assumes "check_event codec tx protocol event data s = Terminal s1"
  shows "s1 = s \<and> st_started s \<and> st_finished s"
  using assms
  by (auto simp: check_event_def openai_event_def anthropic_event_check_def message_start_event_def message_delta_event_def Let_def
      split: if_splits option.splits json.splits prod.splits)

lemma take_frame_recording:
  assumes "take_frame codec tx protocol (recording emit) raw s (fs, e) = (r, (gs, e1))"
  shows "(gs = fs @ [raw] \<and> (\<forall>x. r = Inl x \<longrightarrow> held_frame x = [] \<and> ends_stream codec tx protocol x)) \<or>
         (gs = fs \<and> (\<exists>x. r = Inl x \<and> held_frame x \<in> {[], raw} \<and> ends_stream codec tx protocol x))"
proof -
  have emitted: ?thesis if "emit_frame (recording emit) raw t (fs, e) = (r, (gs, e1))" for t
    using that by (auto simp: emit_frame_def recording_def held_frame_def ends_stream_def split: prod.splits option.splits)
  show ?thesis
  proof (cases "frame_data raw = []")
    case True
    with assms emitted show ?thesis by (simp add: take_frame_def)
  next
    case False
    show ?thesis
    proof (cases "check_event codec tx protocol (frame_event raw) (join_lines (frame_data raw)) s")
      case (Pass t)
      with False assms emitted show ?thesis by (simp add: take_frame_def)
    next
      case (Terminal t)
      with check_event_terminal [OF Terminal] False assms show ?thesis
        by (auto simp: take_frame_def finish_stream_def held_frame_def ends_stream_def split: sum.splits)
    qed (use False assms in \<open>auto simp: take_frame_def held_frame_def ends_stream_def\<close>)
  qed
qed

text \<open>What the loop adds: frames whose bytes, with the held one, are a prefix of what was to be read.\<close>

definition wire_exact :: "json_codec \<Rightarrow> text_ops \<Rightarrow> string \<Rightarrow> stream_limits \<Rightarrow> string \<Rightarrow> int \<Rightarrow> string list \<Rightarrow> 'x read_result \<Rightarrow> bool" where
  "wire_exact codec tx protocol limits input bytes gs r \<longleftrightarrow>
     (\<exists>rest. input = concat gs @ held_frame r @ rest) \<and>
     bytes + int (length (concat gs @ held_frame r)) \<le> lim_StreamBytes limits \<and>
     list_all (\<lambda>g. int (length g) \<le> lim_EventBytes limits) (held_frame r # gs) \<and>
     ends_stream codec tx protocol r"

lemma read_loop_exact:
  assumes "read_loop codec tx protocol limits early failed (recording emit) rest frame bytes s (fs, e) = (r, (hs, e1))"
    and "bytes \<le> lim_StreamBytes limits" and "0 \<le> lim_EventBytes limits"
  shows "\<exists>gs. hs = fs @ gs \<and> wire_exact codec tx protocol limits (frame @ rest) (bytes - int (length frame)) gs r"
  using assms
proof (induction codec tx protocol limits early failed "recording emit" rest frame bytes s "(fs, e)" arbitrary: fs e rule: read_loop.induct)
  case (1 codec tx protocol limits early failed rest frame bytes s)
  note run = "1.prems"(1) [unfolded read_loop.simps [of _ _ _ _ _ _ _ rest]]
  have stop: "\<exists>gs. hs = fs @ gs \<and> wire_exact codec tx protocol limits (frame @ rest) (bytes - int (length frame)) gs r"
    if "r = ReadFail code" "hs = fs" for code
    using that "1.prems"(2,3) by (auto simp: wire_exact_def held_frame_def ends_stream_def)
  show ?case
  proof (cases "scan_line early (nat (lim_EventBytes limits + 1)) rest")
    case (Line w)
    let ?bytes1 = "bytes + int (length w)" and ?frame1 = "frame @ w" and ?rest1 = "drop (length w) rest"
    from scan_line_prefix [OF Line] have w: "rest = w @ ?rest1" by simp
    consider "lim_StreamBytes limits < ?bytes1" | "lim_EventBytes limits < int (length ?frame1)"
      | "\<not> lim_StreamBytes limits < ?bytes1" "\<not> lim_EventBytes limits < int (length ?frame1)" by blast
    then show ?thesis
    proof cases
      case 3
      show ?thesis
      proof (cases "blank_line w")
        case False
        with 3 Line run have "read_loop codec tx protocol limits early failed (recording emit) ?rest1 ?frame1 ?bytes1 s (fs, e) = (r, (hs, e1))"
          by (simp add: Let_def)
        from "1.hyps"(1) [OF Line refl refl refl 3 False this] 3 "1.prems"(3)
        obtain gs where "hs = fs @ gs" "wire_exact codec tx protocol limits (?frame1 @ ?rest1) (?bytes1 - int (length ?frame1)) gs r"
          by auto
        with w show ?thesis by auto
      next
        case True
        obtain q fs1 e2 where taken: "take_frame codec tx protocol (recording emit) ?frame1 s (fs, e) = (q, (fs1, e2))"
          by (metis prod.exhaust)
        show ?thesis
        proof (cases q)
          case (Inl x)
          with 3 Line True run taken have "r = x" "hs = fs1" by (simp_all add: Let_def)
          with take_frame_recording [OF taken] Inl 3 w "1.prems"(3) show ?thesis
            by (auto simp: wire_exact_def intro: exI [of _ ?rest1])
        next
          case (Inr s1)
          with 3 Line True run taken
          have "read_loop codec tx protocol limits early failed (recording emit) ?rest1 [] ?bytes1 s1 (fs1, e2) = (r, (hs, e1))"
            by (simp add: Let_def)
          from "1.hyps"(2) [OF Line refl refl refl 3 _ taken [symmetric] Inr this] True 3 "1.prems"(3)
          obtain gs where gs: "hs = fs1 @ gs" "wire_exact codec tx protocol limits ?rest1 ?bytes1 gs r" by auto
          from take_frame_recording [OF taken] Inr have "fs1 = fs @ [?frame1]" by auto
          with gs w 3 show ?thesis
            by (intro exI [of _ "?frame1 # gs"]) (auto simp: wire_exact_def)
        qed
      qed
    qed (use Line run stop in \<open>auto simp: Let_def split: if_splits\<close>)
  qed (use run stop in auto)
qed

text \<open>Recording changes nothing.\<close>

lemma take_frame_unrecorded:
  "take_frame codec tx protocol (recording emit) raw s (fs, e) = (q, (gs, e1)) \<Longrightarrow> take_frame codec tx protocol emit raw s e = (q, e1)"
  by (auto simp: take_frame_def emit_frame_def recording_def split: if_splits event_result.splits prod.splits option.splits)

lemma read_loop_unrecorded:
  "read_loop codec tx protocol limits early failed (recording emit) rest frame bytes s (fs, e) = (r, (hs, e1)) \<Longrightarrow>
     read_loop codec tx protocol limits early failed emit rest frame bytes s e = (r, e1)"
proof (induction codec tx protocol limits early failed emit rest frame bytes s e arbitrary: fs rule: read_loop.induct)
  case (1 codec tx protocol limits early failed emit rest frame bytes s e)
  note run = "1.prems" [unfolded read_loop.simps [of _ _ _ _ _ _ _ rest]]
  show ?case
  proof (cases "scan_line early (nat (lim_EventBytes limits + 1)) rest")
    case (Line w)
    let ?bytes1 = "bytes + int (length w)" and ?frame1 = "frame @ w" and ?rest1 = "drop (length w) rest"
    consider "lim_StreamBytes limits < ?bytes1 \<or> lim_EventBytes limits < int (length ?frame1)"
      | "\<not> lim_StreamBytes limits < ?bytes1" "\<not> lim_EventBytes limits < int (length ?frame1)" by blast
    then show ?thesis
    proof cases
      case 2
      show ?thesis
      proof (cases "blank_line w")
        case False
        from "1.IH"(1) [OF Line refl refl refl 2 False] False 2 Line run show ?thesis
          by (subst read_loop.simps) (simp add: Let_def)
      next
        case True
        obtain q fs1 e2 where taken: "take_frame codec tx protocol (recording emit) ?frame1 s (fs, e) = (q, (fs1, e2))"
          by (metis prod.exhaust)
        note plain = take_frame_unrecorded [OF taken]
        show ?thesis
        proof (cases q)
          case (Inl x)
          with 2 Line True run taken plain show ?thesis
            by (subst read_loop.simps) (simp add: Let_def)
        next
          case (Inr s1)
          from "1.IH"(2) [OF Line refl refl refl 2 _ plain [symmetric] Inr] True Inr 2 Line run taken plain show ?thesis
            by (subst read_loop.simps) (simp add: Let_def)
        qed
      qed
    qed (use Line run in \<open>subst read_loop.simps; auto simp: Let_def split: if_splits\<close>)
  qed (use run in \<open>subst read_loop.simps; auto\<close>)+
qed

lemma reader_exact:
  assumes "readStreamWithLimits codec tx protocol body limits (recording emit) ([], e) = (r, (frames, e1))"
    and "0 \<le> lim_StreamBytes limits" and "0 \<le> lim_EventBytes limits"
  shows "readStreamWithLimits codec tx protocol body limits emit e = (r, e1) \<and>
    (\<exists>rest. wb_data body = concat frames @ held_frame r @ rest) \<and>
    int (length (concat frames @ held_frame r)) \<le> lim_StreamBytes limits \<and>
    list_all (\<lambda>g. int (length g) \<le> lim_EventBytes limits) (held_frame r # frames) \<and>
    ends_stream codec tx protocol r"
proof -
  let ?n = "nat (lim_StreamBytes limits + 1)"
  note run = assms(1) [unfolded readStreamWithLimits_def Let_def]
  from read_loop_exact [OF run] assms(2,3)
  have exact: "wire_exact codec tx protocol limits (take ?n (wb_data body)) 0 frames r" by auto
  then obtain rest where "take ?n (wb_data body) = concat frames @ held_frame r @ rest" by (auto simp: wire_exact_def)
  then have "wb_data body = concat frames @ held_frame r @ rest @ drop ?n (wb_data body)"
    by (metis append.assoc append_take_drop_id)
  with exact read_loop_unrecorded [OF run] show ?thesis
    by (auto simp: wire_exact_def readStreamWithLimits_def Let_def)
qed

text \<open>C10. Streaming is byte-exact and bounded. For every body, every limit and every receiver, the frames passed on
  are exactly the beginning of the wire bytes, cut into events of at most \<open>EventBytes\<close>; with the frame that ends
  the stream they are at most \<open>StreamBytes\<close>. That frame is never passed on: it is returned, and only
  when it is the terminal event of a stream that has started and announced why it finishes.\<close>

theorem stream_bytes_preserved:
  assumes "readStreamWithLimits codec tx protocol body limits (recording emit) ([], e) = (r, (frames, e1))"
    and "0 \<le> lim_StreamBytes limits" and "0 \<le> lim_EventBytes limits"
  shows "readStreamWithLimits codec tx protocol body limits emit e = (r, e1) \<and>
    (\<exists>rest. wb_data body = concat frames @ held_frame r @ rest) \<and>
    int (length (concat frames @ held_frame r)) \<le> lim_StreamBytes limits \<and>
    list_all (\<lambda>g. int (length g) \<le> lim_EventBytes limits) (held_frame r # frames) \<and>
    ends_stream codec tx protocol r"
  by (rule reader_exact [OF assms])

section \<open>Sample stream\<close>

definition sample_reader_codec :: json_codec where
  "sample_reader_codec =
     \<lparr>jc_parse = map_of [(''A'', JObj [(''choices'', JArr [JObj [(''delta'', JObj []), (''finish_reason'', JStr ''stop'')]])])],
      jc_show = (\<lambda>j. []), jc_any = (\<lambda>j. j), jc_raw = (\<lambda>j. [])\<rparr>"

definition sample_reader_text :: text_ops where
  "sample_reader_text = \<lparr>tx_upper = (\<lambda>s. s), tx_lower = (\<lambda>s. s), tx_hostname = (\<lambda>s. None)\<rparr>"

definition sample_first :: string where
  "sample_first = ''data: A'' @ [CHR 0x0D, CHR 0x0A, CHR 0x0A]"

definition sample_last :: string where
  "sample_last = ''data: [DONE]'' @ [CHR 0x0A, CHR 0x0A]"

definition sample_body :: wire_body where
  "sample_body = \<lparr>wb_data = sample_first @ sample_last @ ''x'', wb_read_error = False, wb_early_end = False\<rparr>"

definition sample_limits :: stream_limits where
  "sample_limits = \<lparr>lim_StreamBytes = 64, lim_EventBytes = 20\<rparr>"

definition accept_all :: "string \<Rightarrow> nat \<Rightarrow> string option \<times> nat" where
  "accept_all raw n = (None, Suc n)"

lemma sample_read:
  "readStreamWithLimits sample_reader_codec sample_reader_text ''openai'' sample_body sample_limits (recording accept_all) ([], 0) =
     (ReadDone no_usage sample_last, ([sample_first], 1))"
  by code_simp

theorem stream_bytes_preserved_witness:
  "readStreamWithLimits sample_reader_codec sample_reader_text ''openai'' sample_body sample_limits accept_all 0 =
     (ReadDone no_usage sample_last, 1) \<and>
   ends_stream sample_reader_codec sample_reader_text ''openai'' (ReadDone no_usage sample_last :: string read_result)"
  using stream_bytes_preserved [OF sample_read] by (simp add: sample_limits_def)

end
