(* ===== verification/Response_Translation.thy ===== *)
theory Response_Translation
  imports Stream_Translation
begin

text \<open>
  Whole responses of \<^verbatim>\<open>internal/adapter/translate.go\<close>: \<open>TranslateResponseWithWarnings\<close> in both directions,
  and the rewriting of the model name in \<^verbatim>\<open>response_model.go\<close>. A plain error of the code is \<open>PlainError\<close>.
\<close>

section \<open>From Anthropic to OpenAI\<close>

record anthropic_response =
  ar_ID :: string
  ar_Model :: string
  ar_Role :: string
  ar_Content :: "content_block list"
  ar_StopReason :: "string option"
  ar_StopSequence :: "string option"
  ar_Usage :: "json option"

definition zero_anthropic_response :: anthropic_response where
  "zero_anthropic_response = \<lparr>ar_ID = [], ar_Model = [], ar_Role = [], ar_Content = [], ar_StopReason = None,
     ar_StopSequence = None, ar_Usage = None\<rparr>"

definition dec_anthropic_response :: "anthropic_response decoder" where
  "dec_anthropic_response = dec_struct (dec_all
     [dec_into ''id'' dec_string ar_ID (\<lambda>v b. b\<lparr>ar_ID := v\<rparr>),
      dec_into ''model'' dec_string ar_Model (\<lambda>v b. b\<lparr>ar_Model := v\<rparr>),
      dec_into ''role'' dec_string ar_Role (\<lambda>v b. b\<lparr>ar_Role := v\<rparr>),
      dec_into ''content'' (dec_list zero_block dec_block) ar_Content (\<lambda>v b. b\<lparr>ar_Content := v\<rparr>),
      dec_into ''stop_reason'' (dec_ptr [] dec_string) ar_StopReason (\<lambda>v b. b\<lparr>ar_StopReason := v\<rparr>),
      dec_into ''stop_sequence'' (dec_ptr [] dec_string) ar_StopSequence (\<lambda>v b. b\<lparr>ar_StopSequence := v\<rparr>),
      dec_into ''usage'' dec_raw ar_Usage (\<lambda>v b. b\<lparr>ar_Usage := v\<rparr>)])"

text \<open>What the loop over the blocks collects.\<close>

record collected =
  co_text :: string
  co_reasoning :: string
  co_calls :: "(string \<times> string \<times> string) list"
  co_warnings :: "string list"

definition nothing_collected :: collected where
  "nothing_collected = \<lparr>co_text = [], co_reasoning = [], co_calls = [], co_warnings = []\<rparr>"

definition collect_block :: "json_codec \<Rightarrow> nat \<Rightarrow> content_block \<Rightarrow> collected \<Rightarrow> collected option" where
  "collect_block codec i b c =
     (if cb_Type b = ''text'' then
        (case cb_Text b of None \<Rightarrow> None | Some s \<Rightarrow> Some (c\<lparr>co_text := co_text c @ s\<rparr>))
      else if cb_Type b = ''thinking'' then
        Some (case cb_Thinking b of None \<Rightarrow> c | Some s \<Rightarrow> c\<lparr>co_reasoning := co_reasoning c @ s\<rparr>)
      else if cb_Type b = ''tool_use'' then
        (if cb_ID b = [] \<or> cb_Name b = [] \<or> \<not> is_object (cb_Input b) then None
         else Some (c\<lparr>co_calls := co_calls c @
           [(cb_ID b, cb_Name b, case cb_Input b of None \<Rightarrow> [] | Some j \<Rightarrow> jc_raw codec j)]\<rparr>))
      else Some (c\<lparr>co_warnings := co_warnings c @ [''content['' @ show_int (int i) @ ''].type'']\<rparr>))"

fun collect_blocks :: "json_codec \<Rightarrow> nat \<Rightarrow> content_block list \<Rightarrow> collected \<Rightarrow> collected option" where
  "collect_blocks codec i [] c = Some c"
| "collect_blocks codec i (b # bs) c = Option.bind (collect_block codec i b c) (collect_blocks codec (Suc i) bs)"

definition call_json :: "string \<times> string \<times> string \<Rightarrow> json" where
  "call_json = (\<lambda>(callID, name, arguments).
     JObj [(''function'', JObj [(''arguments'', JStr arguments), (''name'', JStr name)]),
           (''id'', JStr callID), (''type'', JStr ''function'')])"

definition openai_message :: "collected \<Rightarrow> json" where
  "openai_message c =
     JObj ([(''content'', if co_text c \<noteq> [] then JStr (co_text c) else JNull)] @
           (if co_reasoning c \<noteq> [] then [(''reasoning_content'', JStr (co_reasoning c))] else []) @
           [(''role'', JStr ''assistant'')] @
           (if co_calls c \<noteq> [] then [(''tool_calls'', JArr (map call_json (co_calls c)))] else []))"

definition translateAnthropicResponse :: "json_codec \<Rightarrow> string \<Rightarrow> string \<Rightarrow> translate_error + json \<times> string list" where
  "translateAnthropicResponse codec data defaultModel =
     (case Option.bind (jc_parse codec data) (dec_anthropic_response zero_anthropic_response) of
        None \<Rightarrow> Inl PlainError
      | Some r \<Rightarrow>
          if ar_Role r \<noteq> ''assistant'' \<or> ar_Content r = [] then Inl PlainError
          else
            (case collect_blocks codec 0 (ar_Content r) nothing_collected of
               None \<Rightarrow> Inl PlainError
             | Some c \<Rightarrow>
                 if co_text c = [] \<and> co_reasoning c = [] \<and> co_calls c = [] then
                   Inl (case co_warnings c of [] \<Rightarrow> PlainError | w # _ \<Rightarrow> Conversion ''unrepresentable_response_content'' w)
                 else
                   (case translateAnthropicStopReason (ar_StopReason r) of
                      Inl e \<Rightarrow> Inl e
                    | Inr (finish, ws) \<Rightarrow>
                        (let stopped = (if ar_StopSequence r \<noteq> None \<and> ar_StopSequence r \<noteq> Some [] then [''stop_sequence''] else []);
                             choice = JObj [(''finish_reason'', JStr finish), (''index'', json_int 0), (''message'', openai_message c)];
                             usage = (case translateAnthropicUsage (ar_Usage r) None of None \<Rightarrow> [] | Some u \<Rightarrow> [(''usage'', u)])
                         in Inr (JObj ([(''choices'', JArr [choice]), (''id'', JStr (ar_ID r)),
                                        (''model'', JStr (firstNonEmpty (ar_Model r) defaultModel)),
                                        (''object'', JStr ''chat.completion'')] @ usage),
                                 sortedUniqueStrings (co_warnings c @ ws @ stopped))))))"

section \<open>From OpenAI to Anthropic\<close>

record openai_response =
  or_ID :: string
  or_Model :: string
  or_Choices :: "(response_message \<times> string option) list"
  or_Usage :: "json option"

definition dec_openai_response :: "openai_response decoder" where
  "dec_openai_response = dec_struct (dec_all
     [dec_into ''id'' dec_string or_ID (\<lambda>v b. b\<lparr>or_ID := v\<rparr>),
      dec_into ''model'' dec_string or_Model (\<lambda>v b. b\<lparr>or_Model := v\<rparr>),
      dec_into ''choices'' (dec_list (zero_message, None) (dec_struct (dec_all
          [dec_into ''message'' dec_response_message fst (\<lambda>v p. (v, snd p)),
           dec_into ''finish_reason'' (dec_ptr [] dec_string) snd (\<lambda>v p. (fst p, v))]))) or_Choices (\<lambda>v b. b\<lparr>or_Choices := v\<rparr>),
      dec_into ''usage'' dec_raw or_Usage (\<lambda>v b. b\<lparr>or_Usage := v\<rparr>)])"

definition zero_openai_response :: openai_response where
  "zero_openai_response = \<lparr>or_ID = [], or_Model = [], or_Choices = [], or_Usage = None\<rparr>"

datatype response_part = TextPart string | ToolUsePart string string json

fun part_json :: "response_part \<Rightarrow> json" where
  "part_json (TextPart s) = JObj [(''text'', JStr s), (''type'', JStr ''text'')]"
| "part_json (ToolUsePart callID name input) =
     JObj [(''id'', JStr callID), (''input'', input), (''name'', JStr name), (''type'', JStr ''tool_use'')]"

definition dec_plain_part :: "(string \<times> string) decoder" where
  "dec_plain_part = dec_struct (dec_all
     [dec_into ''type'' dec_string fst (\<lambda>v p. (v, snd p)),
      dec_into ''text'' dec_string snd (\<lambda>v p. (fst p, v))])"

definition content_parts :: "json option \<Rightarrow> response_part list option" where
  "content_parts raw =
     (case raw of
        None \<Rightarrow> Some []
      | Some JNull \<Rightarrow> Some []
      | Some (JStr s) \<Rightarrow> Some (if s \<noteq> [] then [TextPart s] else [])
      | Some j \<Rightarrow>
          (case dec_list ([], []) dec_plain_part [] j of
             None \<Rightarrow> None
           | Some ps \<Rightarrow>
               if ps = [] \<or> \<not> list_all (\<lambda>p. fst p = ''text'') ps then None else Some (map (\<lambda>p. TextPart (snd p)) ps)))"

definition call_part :: "json_codec \<Rightarrow> tool_call \<Rightarrow> response_part option" where
  "call_part codec c =
     (if tc_ID c = [] \<or> tc_Name c = [] then None
      else
        (case jc_parse codec (tc_Arguments c) of
           Some (JObj kvs) \<Rightarrow> Some (ToolUsePart (tc_ID c) (tc_Name c) (jc_any codec (JObj kvs)))
         | _ \<Rightarrow> None))"

fun call_parts :: "json_codec \<Rightarrow> tool_call list \<Rightarrow> response_part list option" where
  "call_parts codec [] = Some []"
| "call_parts codec (c # cs) =
     Option.bind (call_part codec c) (\<lambda>p. Option.bind (call_parts codec cs) (\<lambda>ps. Some (p # ps)))"

definition translateOpenAIResponseContent ::
  "json_codec \<Rightarrow> json option \<Rightarrow> string \<Rightarrow> tool_call list \<Rightarrow> response_part list option"
where
  "translateOpenAIResponseContent codec raw refusal calls =
     Option.bind (content_parts raw) (\<lambda>a.
     Option.bind (call_parts codec calls) (\<lambda>b.
       let parts = a @ (if refusal \<noteq> [] then [TextPart refusal] else []) @ b
       in if parts = [] then None else Some parts))"

definition translateOpenAIUsage :: "json option \<Rightarrow> json option" where
  "translateOpenAIUsage raw =
     (if raw = None \<or> raw = Some JNull then None
      else
        (case ParseUsage ''openai'' raw of
           Inl e \<Rightarrow> None
         | Inr u \<Rightarrow>
             if tu_Input u = None \<and> tu_Output u = None then None
             else Some (JObj
               ((case tu_CacheWrite u of None \<Rightarrow> [] | Some n \<Rightarrow> [(''cache_creation_input_tokens'', json_int n)]) @
                (case tu_CacheRead u of None \<Rightarrow> [] | Some n \<Rightarrow> [(''cache_read_input_tokens'', json_int n)]) @
                (case tu_Input u of None \<Rightarrow> [] | Some n \<Rightarrow> [(''input_tokens'', json_int n)]) @
                (case tu_Output u of None \<Rightarrow> [] | Some n \<Rightarrow> [(''output_tokens'', json_int n)])))))"

text \<open>A response with reasoning and nothing else cannot be represented.\<close>

definition reasoning_only :: "response_message \<Rightarrow> bool" where
  "reasoning_only m \<longleftrightarrow>
     rm_Reasoning m \<noteq> [] \<and> rm_Content m \<in> {None, Some JNull, Some (JStr [])} \<and> rm_Refusal m = [] \<and> rm_ToolCalls m = []"

definition translateOpenAIResponse :: "json_codec \<Rightarrow> string \<Rightarrow> string \<Rightarrow> translate_error + json \<times> string list" where
  "translateOpenAIResponse codec data defaultModel =
     (case Option.bind (jc_parse codec data) (dec_openai_response zero_openai_response) of
        None \<Rightarrow> Inl PlainError
      | Some r \<Rightarrow>
          (case or_Choices r of
             [(m, finish)] \<Rightarrow>
               if or_ID r = [] \<or> rm_Role m \<noteq> ''assistant'' then Inl PlainError
               else if reasoning_only m
                 then Inl (Conversion ''unrepresentable_reasoning_only_response'' ''choices[0].message.reasoning_content'')
               else
                 (case translateOpenAIResponseContent codec (rm_Content m) (rm_Refusal m) (rm_ToolCalls m) of
                    None \<Rightarrow> Inl PlainError
                  | Some parts \<Rightarrow>
                      (let model = firstNonEmpty (or_Model r) defaultModel;
                           ws = (if rm_Reasoning m \<noteq> [] then [''choices[0].message.reasoning_content''] else []) @
                                (if rm_Refusal m \<noteq> [] then [''choices[0].message.refusal''] else [])
                       in if model = [] then Inl PlainError
                          else
                            (case translateOpenAIStopReason finish of
                               Inl e \<Rightarrow> Inl e
                             | Inr reason \<Rightarrow>
                                 Inr (JObj ([(''content'', JArr (map part_json parts)), (''id'', JStr (or_ID r)), (''model'', JStr model),
                                             (''role'', JStr ''assistant''), (''stop_reason'', JStr reason), (''stop_sequence'', JNull),
                                             (''type'', JStr ''message'')] @
                                            (case translateOpenAIUsage (or_Usage r) of None \<Rightarrow> [] | Some u \<Rightarrow> [(''usage'', u)])),
                                      sortedUniqueStrings ws))))
           | _ \<Rightarrow> Inl PlainError))"

definition TranslateResponseWithWarnings ::
  "json_codec \<Rightarrow> string \<Rightarrow> string \<Rightarrow> string \<Rightarrow> string \<Rightarrow> translate_error + string \<times> string list"
where
  "TranslateResponseWithWarnings codec providerProtocol clientProtocol data defaultModel =
     (if providerProtocol = clientProtocol then Inr (data, [])
      else if providerProtocol = ''openai'' \<and> clientProtocol = ''anthropic'' then
        (case translateOpenAIResponse codec data defaultModel of Inl e \<Rightarrow> Inl e | Inr (j, ws) \<Rightarrow> Inr (jc_show codec j, ws))
      else if providerProtocol \<noteq> ''anthropic'' \<or> clientProtocol \<noteq> ''openai'' then Inl PlainError
      else
        (case translateAnthropicResponse codec data defaultModel of Inl e \<Rightarrow> Inl e | Inr (j, ws) \<Rightarrow> Inr (jc_show codec j, ws)))"

section \<open>Back and forth\<close>

text \<open>The text and the tool calls of an Anthropic response, as the parts of a response with one text.\<close>

definition block_text :: "content_block \<Rightarrow> string" where
  "block_text b = (if cb_Type b = ''text'' then (case cb_Text b of None \<Rightarrow> [] | Some s \<Rightarrow> s) else [])"

definition tool_blocks :: "content_block list \<Rightarrow> content_block list" where
  "tool_blocks bs = filter (\<lambda>b. cb_Type b = ''tool_use'') bs"

definition tool_part :: "content_block \<Rightarrow> response_part" where
  "tool_part b = ToolUsePart (cb_ID b) (cb_Name b) (case cb_Input b of None \<Rightarrow> JNull | Some j \<Rightarrow> j)"

definition block_parts :: "content_block list \<Rightarrow> response_part list" where
  "block_parts bs =
     (let s = concat (map block_text bs) in if s \<noteq> [] then [TextPart s] else []) @ map tool_part (tool_blocks bs)"

definition raw_call :: "json_codec \<Rightarrow> content_block \<Rightarrow> string \<times> string \<times> string" where
  "raw_call codec b = (cb_ID b, cb_Name b, case cb_Input b of None \<Rightarrow> [] | Some j \<Rightarrow> jc_raw codec j)"

lemma collect_block_spec:
  assumes "collect_block codec i b c = Some d"
  shows "co_text d = co_text c @ block_text b \<and> co_calls d = co_calls c @ map (raw_call codec) (tool_blocks [b]) \<and>
     (\<forall>x\<in>set (tool_blocks [b]). cb_ID x \<noteq> [] \<and> cb_Name x \<noteq> [] \<and> is_object (cb_Input x))"
  using assms
  by (auto simp: collect_block_def block_text_def tool_blocks_def raw_call_def split: if_splits option.splits)

lemma collect_blocks_spec:
  "collect_blocks codec i bs c = Some d \<Longrightarrow>
     co_text d = co_text c @ concat (map block_text bs) \<and> co_calls d = co_calls c @ map (raw_call codec) (tool_blocks bs) \<and>
     (\<forall>x\<in>set (tool_blocks bs). cb_ID x \<noteq> [] \<and> cb_Name x \<noteq> [] \<and> is_object (cb_Input x))"
proof (induction bs arbitrary: i c)
  case (Cons b bs)
  then obtain e where e: "collect_block codec i b c = Some e" "collect_blocks codec (Suc i) bs e = Some d"
    by (auto simp: bind_eq_Some_conv)
  from collect_block_spec [OF e(1)] Cons.IH [OF e(2)] show ?case
    by (auto simp: tool_blocks_def)
qed (simp add: tool_blocks_def)

lemmas decode_simps = dec_into_def dec_member_def field_values_def to_lower_def is_upper_def

definition call_of :: "string \<times> string \<times> string \<Rightarrow> tool_call" where
  "call_of = (\<lambda>(callID, name, arguments). \<lparr>tc_ID = callID, tc_Type = ''function'', tc_Name = name, tc_Arguments = arguments\<rparr>)"

lemma dec_call_json: "dec_call zero_call (call_json x) = Some (call_of x)"
  by (cases x) (simp add: dec_call_def call_json_def call_of_def zero_call_def decode_simps)

lemma dec_calls_json: "dec_elems zero_call dec_call [] (map call_json xs) = Some (map call_of xs)"
  by (induction xs) (simp_all add: dec_call_json)

lemma dec_openai_message:
  "dec_response_message zero_message (openai_message c) =
     Some \<lparr>rm_Role = ''assistant'', rm_Content = Some (if co_text c \<noteq> [] then JStr (co_text c) else JNull), rm_Refusal = [],
           rm_Reasoning = co_reasoning c, rm_ToolCalls = map call_of (co_calls c)\<rparr>"
  by (simp add: dec_response_message_def openai_message_def zero_message_def decode_simps dec_calls_json)

definition openai_document :: "string \<Rightarrow> string \<Rightarrow> collected \<Rightarrow> string \<Rightarrow> json option \<Rightarrow> json" where
  "openai_document responseID model c finish usage =
     JObj ([(''choices'', JArr [JObj [(''finish_reason'', JStr finish), (''index'', json_int 0), (''message'', openai_message c)]]),
            (''id'', JStr responseID), (''model'', JStr model), (''object'', JStr ''chat.completion'')] @
           (case usage of None \<Rightarrow> [] | Some u \<Rightarrow> [(''usage'', u)]))"

lemma dec_openai_document:
  "dec_openai_response zero_openai_response (openai_document responseID model c finish usage) =
     Some \<lparr>or_ID = responseID, or_Model = model,
           or_Choices = [(\<lparr>rm_Role = ''assistant'', rm_Content = Some (if co_text c \<noteq> [] then JStr (co_text c) else JNull),
              rm_Refusal = [], rm_Reasoning = co_reasoning c, rm_ToolCalls = map call_of (co_calls c)\<rparr>, Some finish)],
           or_Usage = usage\<rparr>"
proof -
  let ?choice = "JObj [(''finish_reason'', JStr finish), (''index'', json_int 0), (''message'', openai_message c)]"
  have "dec_list (zero_message, None) (dec_struct (dec_all
          [dec_into ''message'' dec_response_message fst (\<lambda>v p. (v, snd p)),
           dec_into ''finish_reason'' (dec_ptr [] dec_string) snd (\<lambda>v p. (fst p, v))])) [] (JArr [?choice]) =
     Some [(\<lparr>rm_Role = ''assistant'', rm_Content = Some (if co_text c \<noteq> [] then JStr (co_text c) else JNull),
              rm_Refusal = [], rm_Reasoning = co_reasoning c, rm_ToolCalls = map call_of (co_calls c)\<rparr>, Some finish)]"
    by (simp add: decode_simps dec_openai_message dec_ptr_def)
  then show ?thesis
    by (cases usage) (simp_all add: openai_document_def dec_openai_response_def zero_openai_response_def decode_simps)
qed

lemma translated_document:
  assumes "Option.bind (jc_parse codec data) (dec_anthropic_response zero_anthropic_response) = Some r"
    and "translateAnthropicResponse codec data model = Inr (j, ws)"
  obtains c finish sw where "collect_blocks codec 0 (ar_Content r) nothing_collected = Some c"
    and "translateAnthropicStopReason (ar_StopReason r) = Inr (finish, sw)"
    and "j = openai_document (ar_ID r) (firstNonEmpty (ar_Model r) model) c finish (translateAnthropicUsage (ar_Usage r) None)"
  using assms
  by (auto simp: translateAnthropicResponse_def openai_document_def Let_def split: if_splits option.splits sum.splits)

definition stop_again :: "string option \<Rightarrow> string" where
  "stop_again reason =
     (case reason of None \<Rightarrow> ''end_turn'' | Some s \<Rightarrow> if s \<in> {''max_tokens'', ''tool_use''} then s else ''end_turn'')"

lemma stop_reason_again:
  "translateAnthropicStopReason reason = Inr (finish, sw) \<Longrightarrow> translateOpenAIStopReason (Some finish) = Inr (stop_again reason)"
  by (auto simp: translateAnthropicStopReason_def translateOpenAIStopReason_def stop_again_def split: option.splits if_splits)

lemma call_parts_again:
  assumes "\<forall>b\<in>set bs. cb_ID b \<noteq> [] \<and> cb_Name b \<noteq> [] \<and> is_object (cb_Input b)"
    and "\<forall>b\<in>set bs. \<forall>x. cb_Input b = Some x \<longrightarrow> jc_parse codec (jc_raw codec x) = Some x \<and> jc_any codec x = x"
  shows "call_parts codec (map call_of (map (raw_call codec) bs)) = Some (map tool_part bs)"
  using assms
proof (induction bs)
  case (Cons b bs)
  from Cons.prems obtain kvs where "cb_Input b = Some (JObj kvs)"
    by (auto simp: is_object_def split: option.splits json.splits)
  with Cons show ?case by (simp add: call_part_def call_of_def raw_call_def tool_part_def)
qed simp


definition sample_input :: json where
  "sample_input = JObj [(''x'', JNum ''1'')]"

definition sample_anthropic_document :: json where
  "sample_anthropic_document =
     JObj [(''id'', JStr ''m1''), (''role'', JStr ''assistant''),
       (''content'', JArr [JObj [(''type'', JStr ''text''), (''text'', JStr ''hi'')],
          JObj [(''type'', JStr ''tool_use''), (''id'', JStr ''c1''), (''name'', JStr ''f''), (''input'', sample_input)]]),
       (''stop_reason'', JStr ''tool_use'')]"

definition sample_openai_document :: json where
  "sample_openai_document =
     openai_document ''m1'' ''m'' \<lparr>co_text = ''hi'', co_reasoning = [], co_calls = [(''c1'', ''f'', ''I'')], co_warnings = []\<rparr>
       ''tool_calls'' None"

definition sample_response_codec :: json_codec where
  "sample_response_codec =
     \<lparr>jc_parse = map_of [(''D'', sample_anthropic_document), (''J'', sample_openai_document), (''I'', sample_input)],
      jc_show = (\<lambda>j. ''J''), jc_any = (\<lambda>j. j), jc_raw = (\<lambda>j. ''I'')\<rparr>"

definition sample_response :: anthropic_response where
  "sample_response = zero_anthropic_response\<lparr>ar_ID := ''m1'', ar_Role := ''assistant'', ar_StopReason := Some ''tool_use'',
     ar_Content := [zero_block\<lparr>cb_Type := ''text'', cb_Text := Some ''hi''\<rparr>,
       zero_block\<lparr>cb_Type := ''tool_use'', cb_ID := ''c1'', cb_Name := ''f'', cb_Input := Some sample_input\<rparr>]\<rparr>"

lemma sample_parsed:
  "Option.bind (jc_parse sample_response_codec ''D'') (dec_anthropic_response zero_anthropic_response) = Some sample_response"
  by code_simp

lemma sample_translated: "translateAnthropicResponse sample_response_codec ''D'' ''m'' = Inr (sample_openai_document, [])"
  by code_simp


end
