(* ===== verification/Stream_Delivery.thy ===== *)
theory Stream_Delivery
  imports Stream_Reader Response_Translation
begin

text \<open>
  What a streaming attempt does with the frames it reads (the stream branch of \<open>doAttempt\<close> in
  \<^verbatim>\<open>internal/adapter/client.go\<close>): translate, rename the model (\<^verbatim>\<open>response_model.go\<close>), hold everything
  from the first frame that completes the client's turn, and pass the rest to the client.

  The client is the argument \<open>sink\<close> with a state of its own; its result is whether writing failed.
\<close>

section \<open>Renaming the model\<close>

definition setResponseModel :: "json_codec \<Rightarrow> string \<Rightarrow> string \<Rightarrow> string" where
  "setResponseModel codec response model =
     (if model = [] then response
      else (case jc_parse codec response of
              Some (JObj kvs) \<Rightarrow> jc_show codec (map_json (set_member ''model'' (JStr model) kvs))
            | _ \<Rightarrow> response))"

text \<open>\<open>bytes.SplitAfter\<close>\<close>

function split_after :: "string \<Rightarrow> string \<Rightarrow> string list" where
  "split_after sep [] = [[]]"
| "split_after sep (c # s) =
     (if sep \<noteq> [] \<and> has_prefix (c # s) sep then sep # split_after sep (drop (length sep) (c # s))
      else (case split_after sep s of [] \<Rightarrow> [[c]] | p # ps \<Rightarrow> (c # p) # ps))"
  by pat_completeness auto
termination
  by (relation "measure (\<lambda>(sep, s). length s)") auto

definition line_break :: "string \<Rightarrow> string" where
  "line_break l =
     (if has_suffix l [CHR 0x0D, CHR 0x0A] then [CHR 0x0D, CHR 0x0A] else if has_suffix l [CHR 0x0A] then [CHR 0x0A] else [])"

definition line_content :: "string \<Rightarrow> string" where
  "line_content l = trim_cr (if has_suffix l [CHR 0x0A] then butlast l else l)"

text \<open>The first data line is replaced, further ones are dropped.\<close>

fun rebuild_lines :: "string \<Rightarrow> bool \<Rightarrow> string list \<Rightarrow> string" where
  "rebuild_lines encoded replaced [] = []"
| "rebuild_lines encoded replaced (l # ls) =
     (if \<not> has_prefix (line_content l) ''data:'' then l @ rebuild_lines encoded replaced ls
      else if replaced then rebuild_lines encoded replaced ls
      else ''data: '' @ encoded @ line_break l @ rebuild_lines encoded True ls)"

definition renamed_payload :: "string \<Rightarrow> string \<Rightarrow> string \<Rightarrow> (string \<times> json) list \<Rightarrow> json option" where
  "renamed_payload protocol event model kvs =
     (if protocol = ''anthropic'' then
        (if event \<noteq> ''message_start'' \<and> event_kind kvs \<noteq> ''message_start'' then None
         else
           (case usage_member kvs ''message'' of
              Some (JObj ms) \<Rightarrow> Some (map_json (set_member ''message'' (map_json (set_member ''model'' (JStr model) ms)) kvs))
            | _ \<Rightarrow> None))
      else if usage_member kvs ''choices'' = None then None
      else Some (map_json (set_member ''model'' (JStr model) kvs)))"

definition setSingleStreamResponseModel :: "json_codec \<Rightarrow> string \<Rightarrow> string \<Rightarrow> string \<Rightarrow> string" where
  "setSingleStreamResponseModel codec protocol frame model =
     (let (event, data) = parseSSEFrame frame in
      if model = [] \<or> data = [] then frame
      else
        (case jc_parse codec data of
           Some (JObj kvs) \<Rightarrow>
             (case renamed_payload protocol event model kvs of
                None \<Rightarrow> frame
              | Some j \<Rightarrow>
                  (let ls = split_after [CHR 0x0A] frame in
                   if list_ex (\<lambda>l. has_prefix (line_content l) ''data:'') ls then rebuild_lines (jc_show codec j) False ls
                   else frame))
         | _ \<Rightarrow> frame))"

definition setStreamResponseModel :: "json_codec \<Rightarrow> string \<Rightarrow> string \<Rightarrow> string \<Rightarrow> string" where
  "setStreamResponseModel codec protocol frames model =
     (if model = [] then frames
      else concat (map (\<lambda>group. concat (map (\<lambda>frame. setSingleStreamResponseModel codec protocol frame model)
             (split_after [CHR 0x0D, CHR 0x0A, CHR 0x0D, CHR 0x0A] group))) (split_after [CHR 0x0A, CHR 0x0A] frames)))"

section \<open>Delivery\<close>

record 'k delivery =
  dv_translator :: "translator option"
  dv_completion :: string
  dv_delivered :: bool
  dv_converting :: bool
  dv_sink :: 'k

fun conversion_error :: "translate_error \<Rightarrow> call_error" where
  "conversion_error (Conversion code field) = (call_error_of 502 code)\<lparr>ce_Param := field\<rparr>"
| "conversion_error PlainError = call_error_of 502 ''invalid_upstream_stream''"

text \<open>The frame as the client gets it, with the translator after it.\<close>

definition client_frame ::
  "json_codec \<Rightarrow> text_ops \<Rightarrow> string \<Rightarrow> string \<Rightarrow> string \<Rightarrow> translator option \<Rightarrow> translate_error + string \<times> translator option"
where
  "client_frame codec tx clientProtocol responseModel raw tr =
     (let renamed = (\<lambda>f. setStreamResponseModel codec clientProtocol f responseModel) in
      case tr of
        None \<Rightarrow> Inr (renamed raw, None)
      | Some t \<Rightarrow>
          (case translator_frame codec tx raw t of Inl e \<Rightarrow> Inl e | Inr (f, u) \<Rightarrow> Inr (renamed f, Some u)))"

definition hold_or_send ::
  "json_codec \<Rightarrow> string \<Rightarrow> stream_limits \<Rightarrow> (string \<Rightarrow> 'k \<Rightarrow> bool \<times> 'k) \<Rightarrow> string \<Rightarrow> 'k delivery \<Rightarrow> call_error option \<times> 'k delivery"
where
  "hold_or_send codec clientProtocol limits sink frame d =
     (if frame = [] then (None, d)
      else if dv_completion d \<noteq> [] \<or> streamSignalsCompletion codec clientProtocol frame then
        (if lim_StreamBytes limits < int (length (dv_completion d)) + int (length frame)
         then (Some (call_error_of 502 ''upstream_response_too_large''), d)
         else (None, d\<lparr>dv_completion := dv_completion d @ frame\<rparr>))
      else
        (let (failed, k) = sink frame (dv_sink d); d1 = d\<lparr>dv_delivered := True, dv_sink := k\<rparr>
         in (if failed then Some (call_error_of 502 ''downstream_write_error'') else None, d1)))"

definition deliver ::
  "json_codec \<Rightarrow> text_ops \<Rightarrow> string \<Rightarrow> string \<Rightarrow> stream_limits \<Rightarrow> (string \<Rightarrow> 'k \<Rightarrow> bool \<times> 'k) \<Rightarrow> string \<Rightarrow> 'k delivery
     \<Rightarrow> call_error option \<times> 'k delivery"
where
  "deliver codec tx clientProtocol responseModel limits sink raw d =
     (case client_frame codec tx clientProtocol responseModel raw (dv_translator d) of
        Inl e \<Rightarrow> (Some (conversion_error e), d\<lparr>dv_converting := True\<rparr>)
      | Inr (frame, tr) \<Rightarrow> hold_or_send codec clientProtocol limits sink frame (d\<lparr>dv_translator := tr\<rparr>))"

record stream_attempt =
  sa_protocol :: string
  sa_client :: string
  sa_responseModel :: string
  sa_limits :: stream_limits

definition new_delivery :: "stream_attempt \<Rightarrow> string \<Rightarrow> time \<Rightarrow> bool \<Rightarrow> 'k \<Rightarrow> 'k delivery" where
  "new_delivery sa model now delivered k =
     \<lparr>dv_translator = newStreamTranslator (sa_protocol sa) (sa_client sa) model now, dv_completion = [],
      dv_delivered = delivered, dv_converting = False, dv_sink = k\<rparr>"

definition terminal_frame :: "json_codec \<Rightarrow> translator option \<Rightarrow> string \<Rightarrow> translate_error + string" where
  "terminal_frame codec tr raw = (case tr of None \<Rightarrow> Inr raw | Some t \<Rightarrow> translator_terminal codec t)"

text \<open>The errors of the reader; \<open>stream_error\<close> maps an error event of the provider.\<close>

definition finish_delivery ::
  "json_codec \<Rightarrow> stream_attempt \<Rightarrow> (string \<Rightarrow> call_error) \<Rightarrow> call_error read_result \<Rightarrow> 'k delivery
     \<Rightarrow> (go_error + string \<times> token_usage) \<times> 'k delivery"
where
  "finish_delivery codec sa stream_error r d =
     (case r of
        ReadFail code \<Rightarrow> (Inl (CallErr (call_error_of 502 code)), d)
      | ReadUpstream data \<Rightarrow> (Inl (CallErr (stream_error data)), d)
      | EmitError e \<Rightarrow> (Inl (CallErr e), d)
      | ReadDone usage raw \<Rightarrow>
          (case terminal_frame codec (dv_translator d) raw of
             Inl (Conversion code field) \<Rightarrow>
               (Inl (CallErr ((call_error_of 502 code)\<lparr>ce_Param := field\<rparr>)), d\<lparr>dv_converting := True\<rparr>)
           | Inl PlainError \<Rightarrow> (Inl (OtherErr ''invalid_upstream_stream''), d\<lparr>dv_converting := True\<rparr>)
           | Inr data \<Rightarrow>
               if lim_StreamBytes (sa_limits sa) < int (length (dv_completion d)) + int (length data)
               then (Inl (CallErr (call_error_of 502 ''upstream_response_too_large'')), d)
               else (Inr (dv_completion d @ data, usage), d)))"

definition attempt_stream ::
  "json_codec \<Rightarrow> text_ops \<Rightarrow> stream_attempt \<Rightarrow> (string \<Rightarrow> call_error) \<Rightarrow> (string \<Rightarrow> 'k \<Rightarrow> bool \<times> 'k) \<Rightarrow> wire_body \<Rightarrow> 'k delivery
     \<Rightarrow> (go_error + string \<times> token_usage) \<times> 'k delivery"
where
  "attempt_stream codec tx sa stream_error sink body d =
     (let (r, d1) = readStreamWithLimits codec tx (sa_protocol sa) body (sa_limits sa)
            (deliver codec tx (sa_client sa) (sa_responseModel sa) (sa_limits sa) sink) d
      in finish_delivery codec sa stream_error r d1)"

section \<open>The reader as a run of its receiver\<close>

definition receiver_ok :: "('e \<Rightarrow> bool) \<Rightarrow> ('x \<Rightarrow> 'e \<Rightarrow> bool) \<Rightarrow> 'x read_result \<times> 'e \<Rightarrow> bool" where
  "receiver_ok P Q out \<longleftrightarrow> (case fst out of EmitError x \<Rightarrow> Q x (snd out) | _ \<Rightarrow> P (snd out))"

definition receives :: "(string \<Rightarrow> 'e \<Rightarrow> 'x option \<times> 'e) \<Rightarrow> ('e \<Rightarrow> bool) \<Rightarrow> ('x \<Rightarrow> 'e \<Rightarrow> bool) \<Rightarrow> bool" where
  "receives emit P Q \<longleftrightarrow>
     (\<forall>raw e. P e \<longrightarrow> (case emit raw e of (None, e1) \<Rightarrow> P e1 | (Some x, e1) \<Rightarrow> Q x e1))"

lemma take_frame_receives:
  assumes "receives emit P Q" and "P e" and "take_frame codec tx protocol emit raw s e = (q, e1)"
  shows "(case q of Inl r \<Rightarrow> receiver_ok P Q (r, e1) | Inr s1 \<Rightarrow> P e1)"
proof -
  have emitted: ?thesis if "emit_frame emit raw u e = (q, e1)" for u
    using assms(1) [unfolded receives_def, rule_format, OF assms(2), of raw] that
    by (auto simp: emit_frame_def receiver_ok_def split: prod.splits option.splits)
  show ?thesis
    using assms emitted
    by (auto simp: take_frame_def finish_stream_def receiver_ok_def split: if_splits event_result.splits sum.splits)
qed

lemma read_loop_receives:
  "receives emit P Q \<Longrightarrow> P e \<Longrightarrow> receiver_ok P Q (read_loop codec tx protocol limits early failed emit rest frame bytes s e)"
proof (induction codec tx protocol limits early failed emit rest frame bytes s e rule: read_loop.induct)
  case (1 codec tx protocol limits early failed emit rest frame bytes s e)
  show ?case
  proof (cases "scan_line early (nat (lim_EventBytes limits + 1)) rest")
    case (Line w)
    let ?bytes1 = "bytes + int (length w)" and ?frame1 = "frame @ w" and ?rest1 = "drop (length w) rest"
    consider "lim_StreamBytes limits < ?bytes1 \<or> lim_EventBytes limits < int (length ?frame1)"
      | "\<not> lim_StreamBytes limits < ?bytes1" "\<not> lim_EventBytes limits < int (length ?frame1)" by blast
    then show ?thesis
    proof cases
      case 2
      show ?thesis
      proof (cases "blank_line w")
        case False
        from "1.IH"(1) [OF Line refl refl refl 2 False "1.prems"] False 2 Line show ?thesis
          by (subst read_loop.simps) (simp add: Let_def)
      next
        case True
        obtain q e2 where taken: "take_frame codec tx protocol emit ?frame1 s e = (q, e2)" by (metis prod.exhaust)
        note ok = take_frame_receives [OF "1.prems" taken]
        show ?thesis
        proof (cases q)
          case (Inl x)
          with 2 Line True taken ok show ?thesis by (subst read_loop.simps) (simp add: Let_def)
        next
          case (Inr s1)
          with ok have "P e2" by simp
          from "1.IH"(2) [OF Line refl refl refl 2 _ taken [symmetric] Inr "1.prems"(1) this] True Inr 2 Line taken show ?thesis
            by (subst read_loop.simps) (simp add: Let_def)
        qed
      qed
    qed (use Line "1.prems" in \<open>subst read_loop.simps; auto simp: Let_def receiver_ok_def\<close>)
  qed (use "1.prems" in \<open>subst read_loop.simps; auto simp: receiver_ok_def\<close>)+
qed

lemma reader_receives:
  assumes "receives emit P Q" and "P e" and "readStreamWithLimits codec tx protocol body limits emit e = (r, e1)"
  shows "receiver_ok P Q (r, e1)"
  using read_loop_receives [OF assms(1,2)] assms(3) unfolding readStreamWithLimits_def Let_def by metis

section \<open>What the client sees\<close>

text \<open>A client that records what is written to it.\<close>

definition watched :: "(string \<Rightarrow> 'k \<Rightarrow> bool \<times> 'k) \<Rightarrow> string \<Rightarrow> string list \<times> 'k \<Rightarrow> bool \<times> string list \<times> 'k" where
  "watched sink frame p = (case sink frame (snd p) of (failed, k) \<Rightarrow> (failed, fst p @ [frame], k))"

text \<open>The frames of a stream as the client would get them one after another.\<close>

fun client_frames ::
  "json_codec \<Rightarrow> text_ops \<Rightarrow> string \<Rightarrow> string \<Rightarrow> string list \<Rightarrow> translator option \<Rightarrow> (string list \<times> translator option) option"
where
  "client_frames codec tx clientProtocol responseModel [] tr = Some ([], tr)"
| "client_frames codec tx clientProtocol responseModel (f # fs) tr =
     (case client_frame codec tx clientProtocol responseModel f tr of
        Inl e \<Rightarrow> None
      | Inr (g, tr1) \<Rightarrow>
          map_option (\<lambda>(gs, u). (g # gs, u)) (client_frames codec tx clientProtocol responseModel fs tr1))"

lemma client_frames_snoc:
  "client_frames codec tx cp rm fs tr = Some (gs, u) \<Longrightarrow> client_frame codec tx cp rm f u = Inr (g, v) \<Longrightarrow>
     client_frames codec tx cp rm (fs @ [f]) tr = Some (gs @ [g], v)"
  by (induction fs arbitrary: tr gs) (auto split: sum.splits prod.splits)

text \<open>What holds between frames: what was sent and what is held are the frames so far, in order, and
  nothing sent completes the client's turn.\<close>

definition in_order ::
  "json_codec \<Rightarrow> text_ops \<Rightarrow> stream_attempt \<Rightarrow> translator option \<Rightarrow> string list \<Rightarrow> (string list \<times> 'k) delivery \<Rightarrow> bool"
where
  "in_order codec tx sa tr fs d \<longleftrightarrow>
     (\<exists>gs. client_frames codec tx (sa_client sa) (sa_responseModel sa) fs tr = Some (gs, dv_translator d) \<and>
           concat (fst (dv_sink d)) @ dv_completion d = concat gs) \<and>
     list_all (\<lambda>g. \<not> streamSignalsCompletion codec (sa_client sa) g) (fst (dv_sink d))"

definition sent_before ::
  "json_codec \<Rightarrow> text_ops \<Rightarrow> stream_attempt \<Rightarrow> translator option \<Rightarrow> string list \<Rightarrow> (string list \<times> 'k) delivery \<Rightarrow> bool"
where
  "sent_before codec tx sa tr fs d \<longleftrightarrow>
     (\<exists>n gs u rest. client_frames codec tx (sa_client sa) (sa_responseModel sa) (take n fs) tr = Some (gs, u) \<and>
        concat (fst (dv_sink d)) @ rest = concat gs) \<and>
     list_all (\<lambda>g. \<not> streamSignalsCompletion codec (sa_client sa) g) (fst (dv_sink d))"

lemma in_order_sent: "in_order codec tx sa tr fs d \<Longrightarrow> sent_before codec tx sa tr (fs @ fs2) d"
  unfolding in_order_def sent_before_def by (metis append_eq_conv_conj)

lemma hold_or_send_order:
  assumes order: "in_order codec tx sa tr fs d"
    and next_frame: "client_frame codec tx (sa_client sa) (sa_responseModel sa) f (dv_translator d) = Inr (g, u)"
    and step: "hold_or_send codec (sa_client sa) limits (watched sink) g (d\<lparr>dv_translator := u\<rparr>) = (x, d1)"
  shows "(case x of None \<Rightarrow> in_order codec tx sa tr (fs @ [f]) d1 | Some e \<Rightarrow> sent_before codec tx sa tr (fs @ [f]) d1)"
proof -
  from order obtain gs where gs: "client_frames codec tx (sa_client sa) (sa_responseModel sa) fs tr = Some (gs, dv_translator d)"
      and cat: "concat (fst (dv_sink d)) @ dv_completion d = concat gs"
    by (auto simp: in_order_def)
  note snoc = client_frames_snoc [OF gs next_frame]
  have quiet: "list_all (\<lambda>g. \<not> streamSignalsCompletion codec (sa_client sa) g) (fst (dv_sink d))"
    using order by (simp add: in_order_def)
  show ?thesis
  proof (cases "g = [] \<or> dv_completion d \<noteq> [] \<or> streamSignalsCompletion codec (sa_client sa) g")
    case True
    from in_order_sent [OF order, of "[f]"] have sent: "sent_before codec tx sa tr (fs @ [f]) (d\<lparr>dv_translator := u\<rparr>)"
      by (simp add: sent_before_def)
    from True step snoc cat quiet sent show ?thesis
      by (auto simp: hold_or_send_def in_order_def split: if_splits)
  next
    case False
    then obtain failed k where sent: "sink g (snd (dv_sink d)) = (failed, k)" by (metis prod.exhaust)
    with False step have d1: "d1 = d\<lparr>dv_translator := u, dv_delivered := True, dv_sink := (fst (dv_sink d) @ [g], k)\<rparr>"
      and x: "x = (if failed then Some (call_error_of 502 ''downstream_write_error'') else None)"
      by (auto simp: hold_or_send_def watched_def Let_def)
    have "in_order codec tx sa tr (fs @ [f]) d1"
      using False snoc cat quiet by (auto simp: d1 in_order_def)
    with x in_order_sent [of codec tx sa tr "fs @ [f]" d1 "[]"] show ?thesis by auto
  qed
qed

lemma deliver_receives:
  fixes sink :: "string \<Rightarrow> 'k \<Rightarrow> bool \<times> 'k"
  shows "receives (recording (deliver codec tx (sa_client sa) (sa_responseModel sa) limits (watched sink)))
     (\<lambda>p. in_order codec tx sa tr (fst p) (snd p)) (\<lambda>x p. sent_before codec tx sa tr (fst p) (snd p))"
  unfolding receives_def
proof (intro allI impI)
  fix raw and e :: "string list \<times> (string list \<times> 'k) delivery"
  assume order: "in_order codec tx sa tr (fst e) (snd e)"
  show "case recording (deliver codec tx (sa_client sa) (sa_responseModel sa) limits (watched sink)) raw e of
          (None, e1) \<Rightarrow> in_order codec tx sa tr (fst e1) (snd e1)
        | (Some x, e1) \<Rightarrow> sent_before codec tx sa tr (fst e1) (snd e1)"
  proof (cases "client_frame codec tx (sa_client sa) (sa_responseModel sa) raw (dv_translator (snd e))")
    case (Inl err)
    with in_order_sent [OF order, of "[raw]"] show ?thesis
      by (simp add: recording_def deliver_def sent_before_def)
  next
    case (Inr p)
    then obtain g u where g: "client_frame codec tx (sa_client sa) (sa_responseModel sa) raw (dv_translator (snd e)) = Inr (g, u)"
      by (cases p) auto
    obtain x d1 where "hold_or_send codec (sa_client sa) limits (watched sink) g ((snd e)\<lparr>dv_translator := u\<rparr>) = (x, d1)"
      by (metis prod.exhaust)
    with hold_or_send_order [OF order g this] g show ?thesis
      by (auto simp: recording_def deliver_def split: option.splits)
  qed
qed

lemma finish_delivery_sink: "finish_delivery codec sa stream_error r d = (res, d1) \<Longrightarrow> dv_sink d1 = dv_sink d"
  by (auto simp: finish_delivery_def split: read_result.splits sum.splits translate_error.splits if_splits)

lemma finish_delivery_success:
  "finish_delivery codec sa stream_error r d = (Inr (held, usage), d1) \<Longrightarrow>
     \<exists>raw final. r = ReadDone usage raw \<and> terminal_frame codec (dv_translator d) raw = Inr final \<and> held = dv_completion d @ final \<and>
       int (length held) \<le> lim_StreamBytes (sa_limits sa)"
  by (auto simp: finish_delivery_def split: read_result.splits sum.splits translate_error.splits if_splits)

lemma in_order_new:
  "in_order codec tx sa (newStreamTranslator (sa_protocol sa) (sa_client sa) model now) [] (new_delivery sa model now delivered ([], k))"
  by (simp add: in_order_def new_delivery_def)

text \<open>C6. The client never sees the end of a response before the attempt succeeded. For every stream, translator, limit
  and client: no frame that completes the client's turn (a finish reason, a stop reason, \<open>[DONE]\<close>, an error) is written
  while the stream is read. The client gets the translation of the frames read, in order, with nothing dropped, reordered or
  repeated: all of them and the terminal frame when the attempt succeeds, the last part being what the attempt returns, at
  most \<open>StreamBytes\<close> of it; a prefix of them when it fails.\<close>

theorem completion_waits_for_success:
  fixes codec tx sa body and sink :: "string \<Rightarrow> 'k \<Rightarrow> bool \<times> 'k"
  defines "tr \<equiv> \<lambda>model now. newStreamTranslator (sa_protocol sa) (sa_client sa) model now"
    and "client \<equiv> client_frames codec tx (sa_client sa) (sa_responseModel sa)"
  assumes run: "attempt_stream codec tx sa stream_error (watched sink) body (new_delivery sa model now delivered ([], k)) = (res, d)"
    and limits: "0 \<le> lim_StreamBytes (sa_limits sa)" "0 \<le> lim_EventBytes (sa_limits sa)"
  shows "list_all (\<lambda>g. \<not> streamSignalsCompletion codec (sa_client sa) g) (fst (dv_sink d)) \<and>
    (\<exists>frames rest. wb_data body = concat frames @ rest \<and>
      (case res of
         Inl err \<Rightarrow>
           (\<exists>n gs u unsent. client (take n frames) (tr model now) = Some (gs, u) \<and> concat (fst (dv_sink d)) @ unsent = concat gs)
       | Inr (held, usage) \<Rightarrow>
           (\<exists>gs u raw final. client frames (tr model now) = Some (gs, u) \<and> terminal_frame codec u raw = Inr final \<and>
              concat (fst (dv_sink d)) @ held = concat gs @ final \<and> has_prefix rest raw \<and>
              int (length held) \<le> lim_StreamBytes (sa_limits sa))))"
proof -
  let ?emit = "deliver codec tx (sa_client sa) (sa_responseModel sa) (sa_limits sa) (watched sink)"
  let ?d0 = "new_delivery sa model now delivered ([], k)"
  obtain r frames d1 where recorded:
      "readStreamWithLimits codec tx (sa_protocol sa) body (sa_limits sa) (recording ?emit) ([], ?d0) = (r, (frames, d1))"
    by (metis prod.exhaust)
  from reader_exact [OF recorded limits] obtain rest
    where read: "readStreamWithLimits codec tx (sa_protocol sa) body (sa_limits sa) ?emit ?d0 = (r, d1)"
      and wire: "wb_data body = concat frames @ held_frame r @ rest" by blast
  from run read have end_of_run: "finish_delivery codec sa stream_error r d1 = (res, d)" by (simp add: attempt_stream_def)
  have ok: "receiver_ok (\<lambda>p. in_order codec tx sa (tr model now) (fst p) (snd p))
      (\<lambda>x p. sent_before codec tx sa (tr model now) (fst p) (snd p)) (r, (frames, d1))"
    unfolding tr_def by (rule reader_receives [OF deliver_receives _ recorded]) (simp add: in_order_new)
  have sent: "sent_before codec tx sa (tr model now) frames d1"
  proof (cases r)
    case (EmitError x)
    with ok show ?thesis by (simp add: receiver_ok_def)
  qed (use ok in_order_sent [of codec tx sa "tr model now" frames d1 "[]"] in \<open>simp_all add: receiver_ok_def\<close>)
  note sink = finish_delivery_sink [OF end_of_run]
  show ?thesis
  proof (cases res)
    case (Inl err)
    have "\<exists>n gs u unsent. client (take n frames) (tr model now) = Some (gs, u) \<and> concat (fst (dv_sink d)) @ unsent = concat gs"
      using sent unfolding client_def sent_before_def sink by blast
    with sent wire Inl show ?thesis by (auto simp: sent_before_def sink)
  next
    case (Inr p)
    then obtain held usage where p: "res = Inr (held, usage)" by (cases p) auto
    from finish_delivery_success [OF end_of_run [unfolded p]] obtain raw final
      where r: "r = ReadDone usage raw" and final: "terminal_frame codec (dv_translator d1) raw = Inr final"
        "held = dv_completion d1 @ final" "int (length held) \<le> lim_StreamBytes (sa_limits sa)" by blast
    from ok r have "in_order codec tx sa (tr model now) frames d1" by (simp add: receiver_ok_def)
    then obtain gs where gs: "client frames (tr model now) = Some (gs, dv_translator d1)"
        "concat (fst (dv_sink d1)) @ dv_completion d1 = concat gs" by (auto simp: in_order_def client_def)
    have "has_prefix (held_frame r @ rest) raw" by (simp add: r held_frame_def has_prefix_def)
    moreover have "\<exists>gs u raw final. client frames (tr model now) = Some (gs, u) \<and> terminal_frame codec u raw = Inr final \<and>
        concat (fst (dv_sink d)) @ held = concat gs @ final \<and> has_prefix (held_frame r @ rest) raw \<and>
        int (length held) \<le> lim_StreamBytes (sa_limits sa)"
      using calculation gs final unfolding sink by (metis append.assoc)
    moreover have "list_all (\<lambda>g. \<not> streamSignalsCompletion codec (sa_client sa) g) (fst (dv_sink d))"
      using sent by (simp add: sent_before_def sink)
    ultimately show ?thesis using wire unfolding p sum.case prod.case by blast
  qed
qed

section \<open>Sample delivery\<close>

definition sample_attempt :: stream_attempt where
  "sample_attempt = \<lparr>sa_protocol = ''openai'', sa_client = ''openai'', sa_responseModel = [], sa_limits = sample_limits\<rparr>"

definition accepting :: "string \<Rightarrow> nat \<Rightarrow> bool \<times> nat" where
  "accepting frame n = (False, Suc n)"

definition sample_stream_error :: "string \<Rightarrow> call_error" where
  "sample_stream_error data = call_error_of 502 ''upstream_error''"

text \<open>The frame with the finish reason is held, and returned together with \<open>[DONE]\<close>.\<close>

lemma sample_delivery:
  "attempt_stream sample_reader_codec sample_reader_text sample_attempt sample_stream_error (watched accepting) sample_body
     (new_delivery sample_attempt ''m'' 0 False ([], 0)) =
     (Inr (sample_first @ sample_last, no_usage),
      \<lparr>dv_translator = None, dv_completion = sample_first, dv_delivered = False, dv_converting = False, dv_sink = ([], 0)\<rparr>)"
  by code_simp

theorem completion_waits_for_success_witness:
  "\<exists>frames gs u raw final. client_frames sample_reader_codec sample_reader_text ''openai'' [] frames
       (newStreamTranslator ''openai'' ''openai'' ''m'' 0) = Some (gs, u) \<and>
     terminal_frame sample_reader_codec u raw = Inr final \<and> sample_first @ sample_last = concat gs @ final"
  using completion_waits_for_success [OF sample_delivery]
  by (simp add: sample_attempt_def sample_limits_def) blast

end
