(* ===== verification/Limiter.thy ===== *)
theory Limiter
  imports Go_Prelude
begin

text \<open>
  \<^verbatim>\<open>internal/limiter\<close>: the optional gate on in-flight provider calls (\<^verbatim>\<open>concurrency.go\<close>) and
  the limiter on logical sessions (\<^verbatim>\<open>sessions.go\<close>).

  A method is a function from the receiver to the receiver after the call. A context is what
  the code reads of it, the value of \<open>ctx.Err()\<close> at each point where it is called. The two
  \<open>select\<close> statements of \<open>Acquire\<close> are two operations, the second one taking the branch that
  fires, and \<open>gate_step\<close> interleaves any number of callers. \<open>session_step\<close> does the same for
  the leases of a session limiter; its states carry the leases that have not been released.
\<close>

section \<open>Errors\<close>

datatype ctx_error = Canceled | DeadlineExceeded

datatype limiter_error =
    NilReceiver
  | NegativeLimit
  | NegativeIdleTimeout
  | SessionIdRequired
  | ErrActiveSessionLimit
  | CtxErr ctx_error

section \<open>The concurrency gate\<close>

text \<open>The buffered channel is its capacity and the number of elements in it; \<open>None\<close> is the nil
  channel of a disabled gate.\<close>

record slot_channel =
  chan_cap :: nat
  chan_len :: nat

record concurrency_gate =
  slots :: "slot_channel option"

record admission =
  queued :: bool
  queue_wait :: duration

definition no_admission :: admission where
  "no_admission = \<lparr>queued = False, queue_wait = 0\<rparr>"

definition new_concurrency_gate :: "int \<Rightarrow> limiter_error + concurrency_gate" where
  "new_concurrency_gate maxInFlight =
     (if maxInFlight < 0 then Inl NegativeLimit
      else if maxInFlight = 0 then Inr \<lparr>slots = None\<rparr>
      else Inr \<lparr>slots = Some \<lparr>chan_cap = nat maxInFlight, chan_len = 0\<rparr>\<rparr>)"

text \<open>A receive from an empty channel blocks for ever: \<open>None\<close>.\<close>

definition gate_release :: "concurrency_gate \<Rightarrow> concurrency_gate option" where
  "gate_release g =
     (case slots g of
        None \<Rightarrow> Some g
      | Some ch \<Rightarrow> if chan_len ch = 0 then None
                  else Some (g\<lparr>slots := Some (ch\<lparr>chan_len := chan_len ch - 1\<rparr>)\<rparr>))"

definition chan_send :: "slot_channel \<Rightarrow> slot_channel" where
  "chan_send ch = ch\<lparr>chan_len := Suc (chan_len ch)\<rparr>"

datatype acquire_result =
    Acquired admission
  | AcquireFailed admission limiter_error
  | MustWait

text \<open>
  A slot has just been sent to the channel: the second look at the context gives it back when
  the caller was cancelled meanwhile.
\<close>

definition after_send ::
  "concurrency_gate \<Rightarrow> slot_channel \<Rightarrow> admission \<Rightarrow> ctx_error option \<Rightarrow> acquire_result \<times> concurrency_gate"
where
  "after_send g ch adm err =
     (let g' = g\<lparr>slots := Some (chan_send ch)\<rparr>
      in case err of
           None \<Rightarrow> (Acquired adm, g')
         | Some e \<Rightarrow> (AcquireFailed no_admission (CtxErr e),
                      case gate_release g' of None \<Rightarrow> g' | Some g'' \<Rightarrow> g''))"

text \<open>\<open>Acquire\<close> up to and including the non-blocking \<open>select\<close>; \<open>err1\<close> and \<open>err2\<close> are the two
  readings of the context.\<close>

definition gate_acquire ::
  "concurrency_gate option \<Rightarrow> ctx_error option \<Rightarrow> ctx_error option
     \<Rightarrow> acquire_result \<times> concurrency_gate option"
where
  "gate_acquire g err1 err2 =
     (case g of
        None \<Rightarrow> (AcquireFailed no_admission NilReceiver, None)
      | Some g \<Rightarrow>
          (case err1 of
             Some e \<Rightarrow> (AcquireFailed no_admission (CtxErr e), Some g)
           | None \<Rightarrow>
               (case slots g of
                  None \<Rightarrow> (Acquired no_admission, Some g)
                | Some ch \<Rightarrow>
                    if chan_len ch < chan_cap ch
                    then (let (r, g') = after_send g ch no_admission err2 in (r, Some g'))
                    else (MustWait, Some g))))"

text \<open>The blocking \<open>select\<close>: the branch that fires, and the time spent waiting. A send fires only
  while the channel has room.\<close>

datatype wake = SlotSent "ctx_error option" | CtxDone ctx_error

definition gate_wait ::
  "concurrency_gate \<Rightarrow> wake \<Rightarrow> duration \<Rightarrow> (acquire_result \<times> concurrency_gate) option"
where
  "gate_wait g w waited =
     (case slots g of
        None \<Rightarrow> None
      | Some ch \<Rightarrow>
          (case w of
             SlotSent err \<Rightarrow>
               if chan_len ch < chan_cap ch
               then Some (after_send g ch \<lparr>queued = True, queue_wait = waited\<rparr> err)
               else None
           | CtxDone e \<Rightarrow>
               Some (AcquireFailed \<lparr>queued = True, queue_wait = waited\<rparr> (CtxErr e), g)))"

section \<open>The session limiter\<close>

abbreviation defaultSessionIdleTTL :: duration where
  "defaultSessionIdleTTL \<equiv> 5 * minute"

record session_entry =
  se_requests :: int
  se_lastInput :: time
  se_lastOutput :: time
  se_retain :: bool

record session_limiter =
  sl_max :: int
  sl_idleTTL :: duration
  sl_sessions :: "(string, session_entry) gomap"
  sl_rejected :: u64

text \<open>\<open>lease_bound\<close> is whether the lease points to a limiter; the zero lease of a disabled limiter
  does not.\<close>

record session_lease =
  lease_bound :: bool
  lease_id :: string
  lease_released :: bool

definition zero_lease :: session_lease where
  "zero_lease = \<lparr>lease_bound = False, lease_id = [], lease_released = False\<rparr>"

definition new_session_entry :: session_entry where
  "new_session_entry =
     \<lparr>se_requests = 0, se_lastInput = 0, se_lastOutput = 0, se_retain = False\<rparr>"

definition new_session_limiter :: "int \<Rightarrow> duration \<Rightarrow> limiter_error + session_limiter" where
  "new_session_limiter maxSessions idleTTL =
     (if maxSessions < 0 then Inl NegativeLimit
      else if idleTTL < 0 then Inl NegativeIdleTimeout
      else Inr \<lparr>sl_max = maxSessions, sl_idleTTL = (if idleTTL = 0 then defaultSessionIdleTTL else idleTTL),
                sl_sessions = [], sl_rejected = 0\<rparr>)"

definition idle_since_both_directions :: "session_entry \<Rightarrow> time \<Rightarrow> duration \<Rightarrow> bool" where
  "idle_since_both_directions e now idleTTL \<longleftrightarrow>
     (let inputIdle = (se_lastInput e = 0 \<or> idleTTL \<le> time_sub now (se_lastInput e));
          outputIdle = (se_lastOutput e = 0 \<or> idleTTL \<le> time_sub now (se_lastOutput e))
      in inputIdle \<and> outputIdle)"

definition expire_locked :: "time \<Rightarrow> session_limiter \<Rightarrow> session_limiter" where
  "expire_locked now l =
     l\<lparr>sl_sessions := map_keep
        (\<lambda>sid e. \<not> (se_requests e = 0 \<and> idle_since_both_directions e now (sl_idleTTL l)))
        (sl_sessions l)\<rparr>"

text \<open>The entry of an admitted request: one more request, and input just now.\<close>

definition admit_entry :: "time \<Rightarrow> session_entry \<Rightarrow> session_entry" where
  "admit_entry now e = e\<lparr>se_requests := se_requests e + 1, se_lastInput := now\<rparr>"

definition acquire_with_limit ::
  "session_limiter option \<Rightarrow> ctx_error option \<Rightarrow> string \<Rightarrow> int \<Rightarrow> time
     \<Rightarrow> (limiter_error + session_lease) \<times> session_limiter option"
where
  "acquire_with_limit l ctxErr rawId maxSessions now =
     (case l of
        None \<Rightarrow> (Inl NilReceiver, None)
      | Some l0 \<Rightarrow>
          if maxSessions < 0 then (Inl NegativeLimit, Some l0)
          else (case ctxErr of
             Some e \<Rightarrow> (Inl (CtxErr e), Some l0)
           | None \<Rightarrow>
               (let sid = trim_space rawId in
                if sid = [] then (Inl SessionIdRequired, Some l0)
                else
                  (let l1 = expire_locked now l0 in
                   case map_of (sl_sessions l1) sid of
                     Some e \<Rightarrow>
                       (Inr \<lparr>lease_bound = True, lease_id = sid, lease_released = False\<rparr>,
                        Some (l1\<lparr>sl_sessions := map_put sid (admit_entry now e) (sl_sessions l1)\<rparr>))
                   | None \<Rightarrow>
                       if 0 < maxSessions \<and> maxSessions \<le> int (length (sl_sessions l1))
                       then (Inl ErrActiveSessionLimit, Some (l1\<lparr>sl_rejected := sl_rejected l1 + 1\<rparr>))
                       else
                         (Inr \<lparr>lease_bound = True, lease_id = sid, lease_released = False\<rparr>,
                          Some (l1\<lparr>sl_sessions :=
                             map_put sid (admit_entry now new_session_entry) (sl_sessions l1)\<rparr>))))))"

definition session_acquire ::
  "session_limiter option \<Rightarrow> ctx_error option \<Rightarrow> string \<Rightarrow> time
     \<Rightarrow> (limiter_error + session_lease) \<times> session_limiter option"
where
  "session_acquire l ctxErr sid now =
     (case l of
        None \<Rightarrow> (Inl NilReceiver, None)
      | Some l0 \<Rightarrow> if sl_max l0 = 0 then (Inr zero_lease, Some l0)
                  else acquire_with_limit (Some l0) ctxErr sid (sl_max l0) now)"

definition lease_touch :: "bool \<Rightarrow> session_lease \<Rightarrow> time \<Rightarrow> session_limiter \<Rightarrow> session_limiter" where
  "lease_touch input lease now l =
     (if \<not> lease_bound lease \<or> lease_released lease then l
      else (case map_of (sl_sessions l) (lease_id lease) of
              None \<Rightarrow> l
            | Some e \<Rightarrow>
                l\<lparr>sl_sessions := map_put (lease_id lease)
                   (if input then e\<lparr>se_lastInput := now\<rparr> else e\<lparr>se_lastOutput := now\<rparr>)
                   (sl_sessions l)\<rparr>))"

text \<open>\<open>once.Do\<close>: a lease that has been released does nothing again.\<close>

definition lease_release ::
  "bool \<Rightarrow> session_lease \<Rightarrow> session_limiter \<Rightarrow> session_lease \<times> session_limiter"
where
  "lease_release retain lease l =
     (if \<not> lease_bound lease \<or> lease_released lease then (lease, l)
      else
        (lease\<lparr>lease_released := True\<rparr>,
         case map_of (sl_sessions l) (lease_id lease) of
           None \<Rightarrow> l
         | Some e \<Rightarrow>
             (let e1 = (if 0 < se_requests e then e\<lparr>se_requests := se_requests e - 1\<rparr> else e);
                  e2 = (if retain then e1\<lparr>se_retain := True\<rparr> else e1)
              in if se_requests e2 = 0 \<and> \<not> se_retain e2
                 then l\<lparr>sl_sessions := map_del (lease_id lease) (sl_sessions l)\<rparr>
                 else l\<lparr>sl_sessions := map_put (lease_id lease) e2 (sl_sessions l)\<rparr>)))"

definition limiter_close :: "session_limiter \<Rightarrow> session_limiter" where
  "limiter_close l = l\<lparr>sl_sessions := []\<rparr>"

definition limiter_stats ::
  "session_limiter option \<Rightarrow> time \<Rightarrow> (int \<times> nat \<times> u64) \<times> session_limiter option"
where
  "limiter_stats l now =
     (case l of
        None \<Rightarrow> ((0, 0, 0), None)
      | Some l0 \<Rightarrow>
          (let l1 = expire_locked now l0
           in ((sl_max l1, length (sl_sessions l1), sl_rejected l1), Some l1)))"

section \<open>Callers of the gate\<close>

datatype caller_phase = NotStarted | InQueue | Holding | Finished

record gate_sys =
  gs_gate :: concurrency_gate
  gs_phase :: "nat \<Rightarrow> caller_phase"

definition gate_init :: "concurrency_gate \<Rightarrow> gate_sys" where
  "gate_init g = \<lparr>gs_gate = g, gs_phase = (\<lambda>_. NotStarted)\<rparr>"

text \<open>Where a caller is after a result of \<open>Acquire\<close>.\<close>

fun phase_after :: "acquire_result \<Rightarrow> caller_phase" where
  "phase_after (Acquired adm) = Holding"
| "phase_after (AcquireFailed adm e) = Finished"
| "phase_after MustWait = InQueue"

inductive gate_step :: "gate_sys \<Rightarrow> gate_sys \<Rightarrow> bool" where
  try_acquire:
    "gs_phase s r = NotStarted \<Longrightarrow> gate_acquire (Some (gs_gate s)) err1 err2 = (res, Some g') \<Longrightarrow>
     gate_step s \<lparr>gs_gate = g', gs_phase = (gs_phase s)(r := phase_after res)\<rparr>"
| wake_up:
    "gs_phase s r = InQueue \<Longrightarrow> gate_wait (gs_gate s) w waited = Some (res, g') \<Longrightarrow>
     gate_step s \<lparr>gs_gate = g', gs_phase = (gs_phase s)(r := phase_after res)\<rparr>"
| give_back:
    "gs_phase s r = Holding \<Longrightarrow> gate_release (gs_gate s) = Some g' \<Longrightarrow>
     gate_step s \<lparr>gs_gate = g', gs_phase = (gs_phase s)(r := Finished)\<rparr>"

definition holders :: "gate_sys \<Rightarrow> nat set" where
  "holders s = {r. gs_phase s r = Holding}"

definition gate_inv :: "nat \<Rightarrow> gate_sys \<Rightarrow> bool" where
  "gate_inv n s \<longleftrightarrow> finite (holders s) \<and>
     (case slots (gs_gate s) of
        None \<Rightarrow> n = 0
      | Some ch \<Rightarrow> chan_cap ch = n \<and> chan_len ch = card (holders s) \<and> card (holders s) \<le> n)"

lemma holders_acquired:
  "gs_phase s r \<noteq> Holding \<Longrightarrow>
   holders \<lparr>gs_gate = g, gs_phase = (gs_phase s)(r := Holding)\<rparr> = insert r (holders s)"
  by (auto simp: holders_def)

lemma holders_unchanged:
  "gs_phase s r \<noteq> Holding \<Longrightarrow> p \<noteq> Holding \<Longrightarrow>
   holders \<lparr>gs_gate = g, gs_phase = (gs_phase s)(r := p)\<rparr> = holders s"
  by (auto simp: holders_def)

lemma holders_released:
  "holders \<lparr>gs_gate = g, gs_phase = (gs_phase s)(r := Finished)\<rparr> = holders s - {r}"
  by (auto simp: holders_def)

lemma after_send_result:
  "after_send g ch adm err = (res, g') \<Longrightarrow>
   (err = None \<and> res = Acquired adm \<and> g' = g\<lparr>slots := Some (chan_send ch)\<rparr>) \<or>
   (\<exists>e. err = Some e \<and> res = AcquireFailed no_admission (CtxErr e) \<and> g' = g\<lparr>slots := Some ch\<rparr>)"
  by (auto simp: after_send_def gate_release_def chan_send_def Let_def split: option.splits)

text \<open>A caller that was not holding a slot keeps the invariant whatever the result.\<close>

lemma gate_inv_after_send:
  assumes "gate_inv n s" and "slots (gs_gate s) = Some ch" and "chan_len ch < chan_cap ch"
    and "after_send (gs_gate s) ch adm err = (res, g')" and "gs_phase s r \<noteq> Holding"
  shows "gate_inv n \<lparr>gs_gate = g', gs_phase = (gs_phase s)(r := phase_after res)\<rparr>"
proof -
  have "r \<notin> holders s" using assms(5) by (simp add: holders_def)
  then show ?thesis
    using after_send_result [OF assms(4)] assms(1-3,5)
    by (auto simp: gate_inv_def holders_acquired holders_unchanged chan_send_def)
qed

lemma gate_inv_idle_caller:
  assumes "gate_inv n s" and "gs_phase s r \<noteq> Holding" and "phase_after res \<noteq> Holding"
  shows "gate_inv n \<lparr>gs_gate = gs_gate s, gs_phase = (gs_phase s)(r := phase_after res)\<rparr>"
  using assms by (auto simp: gate_inv_def holders_unchanged split: option.splits)

lemma gate_step_inv: "gate_step s t \<Longrightarrow> gate_inv n s \<Longrightarrow> gate_inv n t"
proof (induction rule: gate_step.induct)
  case (try_acquire s r err1 err2 res g')
  then show ?case
    by (auto simp: gate_acquire_def split: option.splits if_splits prod.splits
        intro: gate_inv_after_send gate_inv_idle_caller)
      (auto simp: gate_inv_def holders_acquired holders_unchanged)
next
  case (wake_up s r w waited res g')
  then show ?case
    by (auto simp: gate_wait_def split: option.splits if_splits wake.splits
        intro: gate_inv_after_send gate_inv_idle_caller)
next
  case (give_back s r g')
  then have "r \<in> holders s" by (simp add: holders_def)
  with give_back show ?case
    by (auto simp: gate_inv_def gate_release_def holders_released card_Diff_singleton
        split: option.splits if_splits)
qed

interpretation gate_safety: safe_system
  "\<lambda>s. \<exists>g. new_concurrency_gate n = Inr g \<and> s = gate_init g" gate_step "gate_inv (nat n)" for n
proof (unfold_locales, goal_cases)
  case (1 s)
  then show ?case
    by (auto simp: new_concurrency_gate_def gate_init_def gate_inv_def holders_def split: if_splits)
next
  case (2 s t)
  then show ?case by (rule gate_step_inv)
qed

text \<open>
  C19. A gate created with a positive limit never has more than that many callers holding a slot,
  however the callers are interleaved, cancelled before or after the send, or woken from the
  queue; the slots in the channel are exactly the callers that hold one, so none leaks, and a
  caller that holds a slot can always give it back without blocking.
\<close>

theorem gate_in_flight_bounded:
  assumes "new_concurrency_gate n = Inr g" and "0 < n" and "gate_step\<^sup>*\<^sup>* (gate_init g) s"
  shows "finite (holders s) \<and> int (card (holders s)) \<le> n \<and>
         (\<exists>ch. slots (gs_gate s) = Some ch \<and> chan_len ch = card (holders s)) \<and>
         (\<forall>r. gs_phase s r = Holding \<longrightarrow> gate_release (gs_gate s) \<noteq> None)"
proof -
  have inv: "gate_inv (nat n) s"
    using assms(1,3) by (intro gate_safety.run_inv [of n "gate_init g" s]) auto
  then obtain ch where ch: "slots (gs_gate s) = Some ch" "chan_len ch = card (holders s)"
    using assms(2) by (auto simp: gate_inv_def split: option.splits)
  have "card (holders s) \<noteq> 0" if "gs_phase s r = Holding" for r
    using inv that by (auto simp: gate_inv_def holders_def)
  with inv ch assms(2) show ?thesis by (auto simp: gate_inv_def gate_release_def)
qed

theorem gate_in_flight_bounded_witness:
  "(\<exists>g. new_concurrency_gate 1 = Inr g \<and>
     finite (holders (gate_init g)) \<and> int (card (holders (gate_init g))) \<le> 1)"
proof -
  have g: "new_concurrency_gate 1 = Inr \<lparr>slots = Some \<lparr>chan_cap = 1, chan_len = 0\<rparr>\<rparr>"
    by (simp add: new_concurrency_gate_def)
  from gate_in_flight_bounded [OF g _ rtranclp.rtrancl_refl] g show ?thesis by auto
qed

section \<open>Leases of a session limiter\<close>

record session_sys =
  ss_limiter :: session_limiter
  ss_leases :: "session_lease list"

definition lease_count :: "session_lease list \<Rightarrow> string \<Rightarrow> nat" where
  "lease_count ls sid = length (filter (\<lambda>le. lease_id le = sid) ls)"

text \<open>The requests of the gateway on one limiter; \<open>lims\<close> are the limits in force, since each
  request brings the limit of the configuration it was admitted under.\<close>

inductive session_step :: "int set \<Rightarrow> session_sys \<Rightarrow> session_sys \<Rightarrow> bool" for lims where
  sess_acquired:
    "m \<in> lims \<Longrightarrow> acquire_with_limit (Some (ss_limiter s)) err sid m now = (Inr le, Some l') \<Longrightarrow>
     session_step lims s \<lparr>ss_limiter = l', ss_leases = le # ss_leases s\<rparr>"
| sess_refused:
    "m \<in> lims \<Longrightarrow> acquire_with_limit (Some (ss_limiter s)) err sid m now = (Inl e, Some l') \<Longrightarrow>
     session_step lims s (s\<lparr>ss_limiter := l'\<rparr>)"
| sess_touched:
    "le \<in> set (ss_leases s) \<Longrightarrow>
     session_step lims s (s\<lparr>ss_limiter := lease_touch input le now (ss_limiter s)\<rparr>)"
| sess_released:
    "le \<in> set (ss_leases s) \<Longrightarrow> lease_release retain le (ss_limiter s) = (le', l') \<Longrightarrow>
     session_step lims s \<lparr>ss_limiter = l', ss_leases = remove1 le (ss_leases s)\<rparr>"
| sess_stats:
    "limiter_stats (Some (ss_limiter s)) now = (r, Some l') \<Longrightarrow>
     session_step lims s (s\<lparr>ss_limiter := l'\<rparr>)"

text \<open>The invariant: the request count of an entry is the number of its unreleased leases, a
  session with a lease is present, and an entry without one is there only because a successful
  request retained it.\<close>

definition entry_ok :: "session_lease list \<Rightarrow> string \<Rightarrow> session_entry option \<Rightarrow> bool" where
  "entry_ok ls sid eo =
     (case eo of
        None \<Rightarrow> lease_count ls sid = 0
      | Some e \<Rightarrow> se_requests e = int (lease_count ls sid) \<and> (se_requests e = 0 \<longrightarrow> se_retain e))"

definition session_inv :: "session_sys \<Rightarrow> bool" where
  "session_inv s \<longleftrightarrow>
     map_wf (sl_sessions (ss_limiter s)) \<and>
     (\<forall>le \<in> set (ss_leases s). lease_bound le \<and> \<not> lease_released le) \<and>
     (\<forall>sid. entry_ok (ss_leases s) sid (map_of (sl_sessions (ss_limiter s)) sid))"

lemma lease_count_Cons [simp]:
  "lease_count (le # ls) sid = (if lease_id le = sid then Suc (lease_count ls sid) else lease_count ls sid)"
  by (simp add: lease_count_def)

lemma lease_count_Nil [simp]: "lease_count [] sid = 0"
  by (simp add: lease_count_def)

lemma lease_count_pos: "le \<in> set ls \<Longrightarrow> 0 < lease_count ls (lease_id le)"
  by (auto simp: lease_count_def filter_empty_conv)

lemma lease_count_remove1:
  "le \<in> set ls \<Longrightarrow>
   lease_count (remove1 le ls) sid =
     (if lease_id le = sid then lease_count ls sid - 1 else lease_count ls sid)"
  by (induction ls) (auto, metis Suc_pred lease_count_pos One_nat_def)

lemma session_inv_lookup:
  "session_inv s \<Longrightarrow> entry_ok (ss_leases s) sid (map_of (sl_sessions (ss_limiter s)) sid)"
  by (simp add: session_inv_def)

lemma session_inv_wf: "session_inv s \<Longrightarrow> map_wf (sl_sessions (ss_limiter s))"
  by (simp add: session_inv_def)

lemma expire_lookup:
  "map_wf (sl_sessions l) \<Longrightarrow> map_of (sl_sessions (expire_locked now l)) sid =
     (case map_of (sl_sessions l) sid of
        None \<Rightarrow> None
      | Some e \<Rightarrow> if se_requests e = 0 \<and> idle_since_both_directions e now (sl_idleTTL l)
                  then None else Some e)"
  by (simp add: expire_locked_def lookup_keep split: option.split)

lemma expire_sessions_wf [simp]:
  "map_wf (sl_sessions l) \<Longrightarrow> map_wf (sl_sessions (expire_locked now l))"
  by (simp add: expire_locked_def)

lemma expire_length_le [simp]: "length (sl_sessions (expire_locked now l)) \<le> length (sl_sessions l)"
  by (simp add: expire_locked_def)

lemma session_inv_expire:
  assumes "session_inv s"
  shows "session_inv (s\<lparr>ss_limiter := expire_locked now (ss_limiter s)\<rparr>)"
proof -
  have "entry_ok (ss_leases s) sid (map_of (sl_sessions (expire_locked now (ss_limiter s))) sid)" for sid
    using session_inv_wf [OF assms] session_inv_lookup [OF assms, of sid]
    by (auto simp: expire_lookup entry_ok_def split: option.splits)
  with assms show ?thesis by (simp add: session_inv_def)
qed

text \<open>Each step of the limiter, from the state after expiry.\<close>

lemma acquire_with_limit_cases:
  assumes "acquire_with_limit (Some l) err rawId m now = (res, Some l')"
  shows "l' = l \<and> (\<exists>e. res = Inl e) \<or>
    l' = (expire_locked now l)\<lparr>sl_rejected := sl_rejected l + 1\<rparr> \<and> res = Inl ErrActiveSessionLimit \<or>
    (\<exists>sid e. sid = trim_space rawId \<and>
       (map_of (sl_sessions (expire_locked now l)) sid = Some e \<or>
        map_of (sl_sessions (expire_locked now l)) sid = None \<and> e = new_session_entry \<and>
        \<not> (0 < m \<and> m \<le> int (length (sl_sessions (expire_locked now l))))) \<and>
       res = Inr \<lparr>lease_bound = True, lease_id = sid, lease_released = False\<rparr> \<and>
       l' = (expire_locked now l)\<lparr>sl_sessions :=
              map_put sid (admit_entry now e) (sl_sessions (expire_locked now l))\<rparr>)"
  using assms
  by (auto simp: acquire_with_limit_def Let_def expire_locked_def split: option.splits if_splits)

lemma session_inv_put:
  assumes "session_inv s"
    and "\<forall>le \<in> set ls. lease_bound le \<and> \<not> lease_released le"
    and "entry_ok ls sid (Some e)"
    and "\<And>sid'. sid' \<noteq> sid \<Longrightarrow> lease_count ls sid' = lease_count (ss_leases s) sid'"
  shows "session_inv \<lparr>ss_limiter = (ss_limiter s)\<lparr>sl_sessions := map_put sid e (sl_sessions (ss_limiter s))\<rparr>,
                      ss_leases = ls\<rparr>"
proof -
  have "entry_ok ls sid' (map_of (map_put sid e (sl_sessions (ss_limiter s))) sid')" for sid'
    using assms(3,4) session_inv_lookup [OF assms(1), of sid']
    by (cases "sid' = sid") (auto simp: lookup_put entry_ok_def split: option.splits)
  with assms(1,2) show ?thesis by (simp add: session_inv_def)
qed

lemma session_inv_del:
  assumes "session_inv s"
    and "\<forall>le \<in> set ls. lease_bound le \<and> \<not> lease_released le"
    and "lease_count ls sid = 0"
    and "\<And>sid'. sid' \<noteq> sid \<Longrightarrow> lease_count ls sid' = lease_count (ss_leases s) sid'"
  shows "session_inv \<lparr>ss_limiter = (ss_limiter s)\<lparr>sl_sessions := map_del sid (sl_sessions (ss_limiter s))\<rparr>,
                      ss_leases = ls\<rparr>"
proof -
  have "entry_ok ls sid' (map_of (map_del sid (sl_sessions (ss_limiter s))) sid')" for sid'
    using assms(3,4) session_inv_lookup [OF assms(1), of sid']
    by (cases "sid' = sid") (auto simp: lookup_del entry_ok_def split: option.splits)
  with assms(1,2) show ?thesis by (simp add: session_inv_def)
qed

lemma session_inv_acquire:
  assumes inv: "session_inv s"
    and acq: "acquire_with_limit (Some (ss_limiter s)) err rawId m now = (Inr le, Some l')"
  shows "session_inv \<lparr>ss_limiter = l', ss_leases = le # ss_leases s\<rparr>"
proof -
  let ?s1 = "s\<lparr>ss_limiter := expire_locked now (ss_limiter s)\<rparr>"
  from acquire_with_limit_cases [OF acq] obtain sid e where
    e: "map_of (sl_sessions (ss_limiter ?s1)) sid = Some e \<or>
        map_of (sl_sessions (ss_limiter ?s1)) sid = None \<and> e = new_session_entry"
    and le: "le = \<lparr>lease_bound = True, lease_id = sid, lease_released = False\<rparr>"
    and l': "l' = (ss_limiter ?s1)\<lparr>sl_sessions :=
               map_put sid (admit_entry now e) (sl_sessions (ss_limiter ?s1))\<rparr>"
    by auto
  have inv1: "session_inv ?s1" by (rule session_inv_expire [OF inv])
  have ok: "entry_ok (le # ss_leases s) sid (Some (admit_entry now e))"
    using e session_inv_lookup [OF inv1, of sid]
    by (auto simp: entry_ok_def admit_entry_def new_session_entry_def le)
  have "session_inv \<lparr>ss_limiter = (ss_limiter ?s1)\<lparr>sl_sessions :=
          map_put sid (admit_entry now e) (sl_sessions (ss_limiter ?s1))\<rparr>, ss_leases = le # ss_leases s\<rparr>"
    using inv1 ok by (intro session_inv_put) (auto simp: session_inv_def le)
  with l' show ?thesis by simp
qed

lemma session_inv_release:
  assumes inv: "session_inv s" and le: "le \<in> set (ss_leases s)"
    and rel: "lease_release retain le (ss_limiter s) = (le', l')"
  shows "session_inv \<lparr>ss_limiter = l', ss_leases = remove1 le (ss_leases s)\<rparr>"
proof -
  let ?ls = "remove1 le (ss_leases s)" and ?sid = "lease_id le"
  have bound: "\<forall>le \<in> set ?ls. lease_bound le \<and> \<not> lease_released le"
    using inv by (auto simp: session_inv_def dest: set_mp [OF set_remove1_subset])
  have others: "sid' \<noteq> ?sid \<Longrightarrow> lease_count ?ls sid' = lease_count (ss_leases s) sid'" for sid'
    using le by (simp add: lease_count_remove1)
  have n: "lease_count ?ls ?sid = lease_count (ss_leases s) ?sid - 1"
    using le by (simp add: lease_count_remove1)
  have pos: "0 < lease_count (ss_leases s) ?sid" by (rule lease_count_pos [OF le])
  then obtain e where e: "map_of (sl_sessions (ss_limiter s)) ?sid = Some e"
    and req: "se_requests e = int (lease_count (ss_leases s) ?sid)"
    using session_inv_lookup [OF inv, of ?sid] by (auto simp: entry_ok_def split: option.splits)
  define e2 where "e2 = (let e1 = e\<lparr>se_requests := se_requests e - 1\<rparr>
                         in if retain then e1\<lparr>se_retain := True\<rparr> else e1)"
  have l': "l' = (if se_requests e2 = 0 \<and> \<not> se_retain e2
                  then (ss_limiter s)\<lparr>sl_sessions := map_del ?sid (sl_sessions (ss_limiter s))\<rparr>
                  else (ss_limiter s)\<lparr>sl_sessions := map_put ?sid e2 (sl_sessions (ss_limiter s))\<rparr>)"
    using rel e req pos inv le
    by (auto simp: lease_release_def e2_def Let_def session_inv_def split: if_splits)
  have req2: "se_requests e2 = int (lease_count ?ls ?sid)"
    using req pos by (simp add: e2_def n Let_def)
  show ?thesis
  proof (cases "se_requests e2 = 0 \<and> \<not> se_retain e2")
    case True
    then show ?thesis using session_inv_del [OF inv bound _ others] req2 l' by simp
  next
    case False
    then have "entry_ok ?ls ?sid (Some e2)" using req2 by (auto simp: entry_ok_def)
    from session_inv_put [OF inv bound this others] show ?thesis using l' False by simp
  qed
qed

lemma session_inv_touch:
  assumes "session_inv s"
  shows "session_inv (s\<lparr>ss_limiter := lease_touch input le now (ss_limiter s)\<rparr>)"
proof (cases "map_of (sl_sessions (ss_limiter s)) (lease_id le)")
  case None
  with assms show ?thesis by (simp add: lease_touch_def)
next
  case (Some e)
  define e' where "e' = (if input then e\<lparr>se_lastInput := now\<rparr> else e\<lparr>se_lastOutput := now\<rparr>)"
  have ok: "entry_ok (ss_leases s) (lease_id le) (Some e')"
    using session_inv_lookup [OF assms, of "lease_id le"] Some by (simp add: entry_ok_def e'_def)
  have bound: "\<forall>le \<in> set (ss_leases s). lease_bound le \<and> \<not> lease_released le"
    using assms by (simp add: session_inv_def)
  from session_inv_put [OF assms bound ok refl]
  have "session_inv (s\<lparr>ss_limiter := (ss_limiter s)\<lparr>sl_sessions :=
          map_put (lease_id le) e' (sl_sessions (ss_limiter s))\<rparr>\<rparr>)"
    by (cases s) simp
  with assms Some show ?thesis
    by (auto simp: lease_touch_def e'_def)
qed

lemma session_step_inv: "session_step lims s t \<Longrightarrow> session_inv s \<Longrightarrow> session_inv t"
proof (induction rule: session_step.induct)
  case (sess_refused m s err sid now e l')
  from acquire_with_limit_cases [OF sess_refused(2)] sess_refused(3)
  show ?case
    using session_inv_expire [OF sess_refused(3), of now] by (auto simp: session_inv_def)
next
  case (sess_stats s now r l')
  then show ?case using session_inv_expire [of s now] by (auto simp: limiter_stats_def Let_def)
qed (auto intro: session_inv_acquire session_inv_touch session_inv_release)

definition session_init :: "session_limiter \<Rightarrow> session_sys" where
  "session_init l = \<lparr>ss_limiter = l, ss_leases = []\<rparr>"

lemma new_session_limiter_empty: "new_session_limiter m ttl = Inr l \<Longrightarrow> sl_sessions l = []"
  by (auto simp: new_session_limiter_def split: if_splits)

interpretation session_safety: safe_system
  "\<lambda>s. \<exists>m ttl l. new_session_limiter m ttl = Inr l \<and> s = session_init l"
  "session_step lims" session_inv for lims
proof (unfold_locales, goal_cases)
  case (1 s)
  then show ?case
    by (auto simp: session_init_def session_inv_def entry_ok_def new_session_limiter_empty)
next
  case (2 s t)
  then show ?case by (rule session_step_inv)
qed

text \<open>A small run for the examples: one request of session \<open>s1\<close> under the limit 1.\<close>

definition sample_limiter :: session_limiter where
  "sample_limiter = \<lparr>sl_max = 0, sl_idleTTL = 5 * minute, sl_sessions = [], sl_rejected = 0\<rparr>"

definition sample_session_run :: session_sys where
  "sample_session_run =
     \<lparr>ss_limiter = sample_limiter\<lparr>sl_sessions :=
        [(''s1'', \<lparr>se_requests = 1, se_lastInput = 5, se_lastOutput = 0, se_retain = False\<rparr>)]\<rparr>,
      ss_leases = [\<lparr>lease_bound = True, lease_id = ''s1'', lease_released = False\<rparr>]\<rparr>"

definition sample_retained :: session_entry where
  "sample_retained = \<lparr>se_requests = 0, se_lastInput = 5, se_lastOutput = 9, se_retain = True\<rparr>"

lemma trim_s1: "trim_space ''s1'' = ''s1''"
  by (simp add: trim_space_def strip_front.simps space_runes_def)

lemma sample_limiter_new: "new_session_limiter 0 0 = Inr sample_limiter"
  by (simp add: new_session_limiter_def sample_limiter_def)

lemma sample_session_run_steps:
  "(session_step {1})\<^sup>*\<^sup>* (session_init sample_limiter) sample_session_run"
proof -
  have "acquire_with_limit (Some (ss_limiter (session_init sample_limiter))) None ''s1'' 1 5 =
      (Inr \<lparr>lease_bound = True, lease_id = ''s1'', lease_released = False\<rparr>,
       Some (ss_limiter sample_session_run))"
    by (simp add: acquire_with_limit_def session_init_def sample_limiter_def sample_session_run_def
        trim_s1 expire_locked_def map_keep_def map_put_def admit_entry_def new_session_entry_def Let_def)
  from sess_acquired [where lims = "{1}", OF _ this]
  have "session_step {1} (session_init sample_limiter) sample_session_run"
    by (simp add: sample_session_run_def session_init_def)
  then show ?thesis by (rule r_into_rtranclp)
qed

text \<open>What a step can do to the number of tracked sessions when every request brings the same
  limit.\<close>

lemma session_step_bounded:
  assumes "session_step {m} s t" and "0 < m" and "session_inv s"
    and "length (sl_sessions (ss_limiter s)) \<le> nat m"
  shows "length (sl_sessions (ss_limiter t)) \<le> nat m"
  using assms
proof (induction rule: session_step.induct)
  case (sess_acquired m' s err sid now le l')
  from acquire_with_limit_cases [OF sess_acquired(2)] obtain sid' e where
    e: "map_of (sl_sessions (expire_locked now (ss_limiter s))) sid' = Some e \<or>
        \<not> (0 < m' \<and> m' \<le> int (length (sl_sessions (expire_locked now (ss_limiter s)))))"
    and l': "l' = (expire_locked now (ss_limiter s))\<lparr>sl_sessions :=
       map_put sid' (admit_entry now e) (sl_sessions (expire_locked now (ss_limiter s)))\<rparr>"
    by auto
  have "length (sl_sessions (expire_locked now (ss_limiter s))) \<le> nat m"
    using sess_acquired.prems(3) expire_length_le order_trans by blast
  with e l' sess_acquired show ?case
    by (auto simp: length_put in_keys_iff)
next
  case (sess_refused m' s err sid now e l')
  have "length (sl_sessions (expire_locked now (ss_limiter s))) \<le> nat m"
    using sess_refused.prems(3) expire_length_le order_trans by blast
  with acquire_with_limit_cases [OF sess_refused(2)] sess_refused.prems(3) show ?case by auto
next
  case (sess_touched le s input now)
  then show ?case by (auto simp: lease_touch_def length_put in_keys_iff split: option.splits)
next
  case (sess_released le s retain le' l')
  then show ?case
    by (auto simp: lease_release_def length_put in_keys_iff Let_def split: option.splits if_splits
        intro: order_trans [OF length_del_le])
next
  case (sess_stats s now r l')
  have "length (sl_sessions (expire_locked now (ss_limiter s))) \<le> nat m"
    using sess_stats.prems(3) expire_length_le order_trans by blast
  with sess_stats show ?case by (auto simp: limiter_stats_def Let_def)
qed

text \<open>
  The session ceiling holds: from a new limiter, as long as every request brings the same
  positive limit, at most that many logical sessions are tracked, in every interleaving of
  admissions, refusals, activity, releases and status queries.
\<close>

theorem session_ceiling:
  assumes "new_session_limiter m0 ttl = Inr l" and "0 < m"
    and "(session_step {m})\<^sup>*\<^sup>* (session_init l) s"
  shows "int (length (sl_sessions (ss_limiter s))) \<le> m"
proof -
  have "length (sl_sessions (ss_limiter s)) \<le> nat m"
  proof (rule session_safety.run_bounded [OF _ assms(3)])
    show "\<exists>m ttl l'. new_session_limiter m ttl = Inr l' \<and> session_init l = session_init l'"
      using assms(1) by blast
    show "length (sl_sessions (ss_limiter (session_init l))) \<le> nat m"
      using assms(1) by (simp add: session_init_def new_session_limiter_empty)
  qed (rule session_step_bounded [OF _ assms(2)])
  with assms(2) show ?thesis by linarith
qed

theorem session_ceiling_witness:
  "int (length (sl_sessions (ss_limiter sample_session_run))) \<le> 1 \<and>
   length (sl_sessions (ss_limiter sample_session_run)) = 1"
  using session_ceiling [OF sample_limiter_new _ sample_session_run_steps]
  by (simp add: sample_session_run_def)

text \<open>
  C12. Leases are accounted exactly, whatever limits the requests bring: a session with an
  unreleased lease is always tracked, the request count of a tracked session is the number of
  its unreleased leases, and a session without one is tracked only after a successful request
  retained it.
\<close>

theorem session_lease_accounting:
  assumes "new_session_limiter m0 ttl = Inr l" and "(session_step lims)\<^sup>*\<^sup>* (session_init l) s"
  shows "case map_of (sl_sessions (ss_limiter s)) sid of
           None \<Rightarrow> lease_count (ss_leases s) sid = 0
         | Some e \<Rightarrow> se_requests e = int (lease_count (ss_leases s) sid) \<and>
                     (lease_count (ss_leases s) sid = 0 \<longrightarrow> se_retain e)"
proof -
  have "session_inv s"
    using assms by (intro session_safety.run_inv [of "session_init l" lims s]) auto
  from session_inv_lookup [OF this, of sid] show ?thesis
    by (simp add: entry_ok_def split: option.splits)
qed

theorem session_lease_accounting_witness:
  "case map_of (sl_sessions (ss_limiter sample_session_run)) ''s1'' of
     None \<Rightarrow> lease_count (ss_leases sample_session_run) ''s1'' = 0
   | Some e \<Rightarrow> se_requests e = int (lease_count (ss_leases sample_session_run) ''s1'') \<and>
               (lease_count (ss_leases sample_session_run) ''s1'' = 0 \<longrightarrow> se_retain e)"
  by (rule session_lease_accounting [OF sample_limiter_new sample_session_run_steps])

text \<open>
  A retained session is dropped by no step unless it has no request in flight and both its
  input and its output have been idle for the configured time at that step.
\<close>

theorem retained_session_kept:
  assumes "session_step lims s t" and "session_inv s"
    and "map_of (sl_sessions (ss_limiter s)) sid = Some e" and "se_retain e"
    and "map_of (sl_sessions (ss_limiter t)) sid = None"
  shows "se_requests e = 0 \<and> (\<exists>now. idle_since_both_directions e now (sl_idleTTL (ss_limiter s)))"
  using assms
proof (induction rule: session_step.induct)
  case (sess_acquired m s err rid now le l')
  from acquire_with_limit_cases [OF sess_acquired(2)] sess_acquired.prems show ?case
    by (auto simp: lookup_put expire_lookup session_inv_wf split: if_splits)
next
  case (sess_refused m s err rid now e' l')
  from acquire_with_limit_cases [OF sess_refused(2)] sess_refused.prems show ?case
    by (auto simp: expire_lookup session_inv_wf split: if_splits)
next
  case (sess_touched le s input now)
  then show ?case by (auto simp: lease_touch_def lookup_put split: option.splits if_splits)
next
  case (sess_released le s retain le' l')
  then show ?case
    by (auto simp: lease_release_def lookup_put lookup_del Let_def split: option.splits if_splits)
next
  case (sess_stats s now r l')
  then show ?case
    by (auto simp: limiter_stats_def Let_def expire_lookup session_inv_wf split: if_splits)
qed

theorem retained_session_kept_witness:
  "se_requests sample_retained = 0 \<and>
   (\<exists>now. idle_since_both_directions sample_retained now (5 * minute))"
proof -
  let ?l = "\<lparr>sl_max = 0, sl_idleTTL = 5 * minute, sl_sessions = [(''s1'', sample_retained)], sl_rejected = 0\<rparr>"
  let ?s = "\<lparr>ss_limiter = ?l, ss_leases = []\<rparr>" and ?t = "\<lparr>ss_limiter = ?l\<lparr>sl_sessions := []\<rparr>, ss_leases = []\<rparr>"
  have "session_step {1} ?s (?s\<lparr>ss_limiter := ?l\<lparr>sl_sessions := []\<rparr>\<rparr>)"
    by (rule sess_stats [where now = "6 * minute" and r = "(0, 0, 0)"])
      (simp add: limiter_stats_def expire_locked_def map_keep_def idle_since_both_directions_def
        time_sub_def min_int64_def max_int64_def sample_retained_def)
  then have "session_step {1} ?s ?t" by simp
  moreover have "session_inv ?s"
    by (simp add: session_inv_def map_wf_def entry_ok_def sample_retained_def)
  ultimately show ?thesis
    using retained_session_kept [of "{1}" ?s ?t "''s1''" sample_retained]
    by (simp add: sample_retained_def)
qed

text \<open>
  A request of a session that is already admitted (still tracked after expiry) is never
  refused for capacity and takes no further slot, under any non-negative limit, even one below
  the number of tracked sessions.
\<close>

theorem admitted_session_shares_slot:
  assumes "map_wf (sl_sessions l)" and "0 \<le> m" and "trim_space rawId \<noteq> []"
    and "map_of (sl_sessions (expire_locked now l)) (trim_space rawId) = Some e"
  shows "\<exists>le l'. acquire_with_limit (Some l) None rawId m now = (Inr le, Some l') \<and>
           length (sl_sessions l') = length (sl_sessions (expire_locked now l)) \<and>
           map_of (sl_sessions l') (trim_space rawId) =
             Some (e\<lparr>se_requests := se_requests e + 1, se_lastInput := now\<rparr>)"
  using assms
  by (auto simp: acquire_with_limit_def Let_def length_put in_keys_iff lookup_put admit_entry_def)

theorem admitted_session_shares_slot_witness:
  "\<exists>le l'. acquire_with_limit (Some (ss_limiter sample_session_run)) None ''s1'' 1 7 = (Inr le, Some l') \<and>
     length (sl_sessions l') = 1"
  using admitted_session_shares_slot [of "ss_limiter sample_session_run" 1 "''s1''" 7]
  by (auto simp: sample_session_run_def trim_s1 expire_locked_def map_keep_def map_wf_def)

end
