(* ===== verification/Idle_Timeout.thy ===== *)
theory Idle_Timeout
  imports Limiter
begin

text \<open>
  \<^verbatim>\<open>internal/adapter/stream_timeout.go\<close>: a stream without a total timeout is cancelled when the provider
  sends nothing for ten minutes while the gateway waits for it.

  A method of \<open>streamIdleTimer\<close> runs under its mutex and is one step. The runtime is the list of armed timers, each
  with the generation that its callback captured and the instant at which it is due, and the callbacks that have started and
  have not got the mutex yet: \<open>Stop\<close> takes back an armed timer but not a callback that has started. An event names
  what happens next, so that every interleaving is a list of events.
\<close>

section \<open>The timer\<close>

datatype cancel_cause = DeadlineCause | PlainCancel

record idle_timer =
  it_timer :: "nat option"
  it_generation :: u64
  it_cause :: "cancel_cause option"

definition defaultStreamIdleTimeout :: duration where
  "defaultStreamIdleTimeout = 10 * minute"

text \<open>The first cause of a cancelled context stays.\<close>

definition cancel_with :: "cancel_cause \<Rightarrow> idle_timer \<Rightarrow> idle_timer" where
  "cancel_with c t = (case it_cause t of None \<Rightarrow> t\<lparr>it_cause := Some c\<rparr> | Some _ \<Rightarrow> t)"

definition idle_callback :: "u64 \<Rightarrow> idle_timer \<Rightarrow> idle_timer" where
  "idle_callback g t = (if it_generation t = g then cancel_with DeadlineCause t else t)"

record armed_timer =
  am_handle :: nat
  am_generation :: u64
  am_due :: time

record idle_sys =
  is_now :: time
  is_timer :: idle_timer
  is_armed :: "armed_timer list"
  is_running :: "u64 list"
  is_fresh :: nat

definition idle_start :: "idle_sys \<Rightarrow> idle_sys" where
  "idle_start s =
     (let t = is_timer s in
      if it_timer t \<noteq> None then s
      else
        (let g = it_generation t + 1 in
         s\<lparr>is_timer := t\<lparr>it_timer := Some (is_fresh s), it_generation := g\<rparr>,
           is_armed := \<lparr>am_handle = is_fresh s, am_generation = g, am_due = is_now s + defaultStreamIdleTimeout\<rparr> # is_armed s,
           is_fresh := Suc (is_fresh s)\<rparr>))"

definition idle_stop :: "idle_sys \<Rightarrow> idle_sys" where
  "idle_stop s =
     (let t = is_timer s; t1 = t\<lparr>it_generation := it_generation t + 1\<rparr> in
      case it_timer t of
        None \<Rightarrow> s\<lparr>is_timer := t1\<rparr>
      | Some h \<Rightarrow> s\<lparr>is_timer := t1\<lparr>it_timer := None\<rparr>, is_armed := filter (\<lambda>a. am_handle a \<noteq> h) (is_armed s)\<rparr>)"

definition idle_close :: "idle_sys \<Rightarrow> idle_sys" where
  "idle_close s = (let s1 = idle_stop s in s1\<lparr>is_timer := cancel_with PlainCancel (is_timer s1)\<rparr>)"

text \<open>\<open>streamIdleBody.Read\<close> around a read of the provider's body: the timer is started before the read and stopped after
  it unless it returned nothing.\<close>

definition read_progress :: "nat \<Rightarrow> bool \<Rightarrow> bool" where
  "read_progress n failed \<longleftrightarrow> 0 < n \<or> failed"

definition body_read_end :: "nat \<Rightarrow> bool \<Rightarrow> idle_sys \<Rightarrow> idle_sys" where
  "body_read_end n failed s = (if read_progress n failed then idle_stop s else s)"

section \<open>Runs\<close>

datatype idle_event =
    Elapse duration
  | WaitStart
  | ReadEnd nat bool
  | WaitStop
  | AttemptClose
  | Expire nat
  | RunCallback u64

fun idle_step :: "idle_event \<Rightarrow> idle_sys \<Rightarrow> idle_sys option" where
  "idle_step (Elapse d) s = (if d < 0 then None else Some (s\<lparr>is_now := is_now s + d\<rparr>))"
| "idle_step WaitStart s = Some (idle_start s)"
| "idle_step (ReadEnd n failed) s = Some (body_read_end n failed s)"
| "idle_step WaitStop s = Some (idle_stop s)"
| "idle_step AttemptClose s = Some (idle_close s)"
| "idle_step (Expire h) s =
     (case find (\<lambda>a. am_handle a = h \<and> am_due a \<le> is_now s) (is_armed s) of
        None \<Rightarrow> None
      | Some a \<Rightarrow> Some (s\<lparr>is_armed := remove1 a (is_armed s), is_running := am_generation a # is_running s\<rparr>))"
| "idle_step (RunCallback g) s =
     (if g \<in> set (is_running s) then Some (s\<lparr>is_running := remove1 g (is_running s), is_timer := idle_callback g (is_timer s)\<rparr>)
      else None)"

definition new_idle :: "time \<Rightarrow> idle_sys" where
  "new_idle now =
     \<lparr>is_now = now, is_timer = \<lparr>it_timer = None, it_generation = 0, it_cause = None\<rparr>, is_armed = [], is_running = [], is_fresh = 0\<rparr>"

fun idle_run :: "idle_event list \<Rightarrow> idle_sys \<Rightarrow> idle_sys option" where
  "idle_run [] s = Some s"
| "idle_run (ev # evs) s = Option.bind (idle_step ev s) (idle_run evs)"

text \<open>What the code promises, said without timers: for how long the current wait has lasted. A read that
  returns nothing does not end a wait, and a new read does not restart it.\<close>

fun wait_after :: "duration option \<Rightarrow> idle_event \<Rightarrow> duration option" where
  "wait_after w (Elapse d) = map_option (\<lambda>x. x + d) w"
| "wait_after w WaitStart = (if w = None then Some 0 else w)"
| "wait_after w (ReadEnd n failed) = (if read_progress n failed then None else w)"
| "wait_after w WaitStop = None"
| "wait_after w AttemptClose = None"
| "wait_after w (Expire h) = w"
| "wait_after w (RunCallback g) = w"

definition waited :: "idle_event list \<Rightarrow> duration option" where
  "waited evs = foldl wait_after None evs"

section \<open>The invariant\<close>

text \<open>The timer and the wait agree, and no callback of an earlier generation can be taken for the current one.
  \<open>n\<close> bounds the generation: it counts the events.\<close>

definition idle_inv :: "nat \<Rightarrow> duration option \<Rightarrow> idle_sys \<Rightarrow> bool" where
  "idle_inv n w s \<longleftrightarrow>
     unat (it_generation (is_timer s)) \<le> n \<and>
     list_all (\<lambda>g. unat g \<le> unat (it_generation (is_timer s))) (is_running s) \<and>
     (case it_timer (is_timer s) of
        None \<Rightarrow> w = None \<and> is_armed s = [] \<and> it_generation (is_timer s) \<notin> set (is_running s)
      | Some h \<Rightarrow>
          (\<exists>d. w = Some d \<and> 0 \<le> d \<and>
            (if is_armed s = []
             then defaultStreamIdleTimeout \<le> d \<and> (it_cause (is_timer s) \<noteq> None \<or> it_generation (is_timer s) \<in> set (is_running s))
             else is_armed s =
                [\<lparr>am_handle = h, am_generation = it_generation (is_timer s), am_due = is_now s - d + defaultStreamIdleTimeout\<rparr>] \<and>
                it_generation (is_timer s) \<notin> set (is_running s))))"

lemma next_generation:
  fixes g :: u64
  assumes "unat g \<le> n" and "Suc n < 2 ^ 64"
  shows "unat (g + 1) = Suc (unat g)"
  using assms by (simp add: unat_word_ariths)

lemma idle_inv_new: "idle_inv 0 None (new_idle now)"
  by (simp add: idle_inv_def new_idle_def)

lemma idle_inv_later: "idle_inv n w s \<Longrightarrow> n \<le> m \<Longrightarrow> idle_inv m w s"
  by (auto simp: idle_inv_def split: option.splits)

lemma cancel_with_fields [simp]:
  "it_timer (cancel_with c t) = it_timer t"
  "it_generation (cancel_with c t) = it_generation t"
  "it_cause (cancel_with c t) \<noteq> None"
  by (simp_all add: cancel_with_def split: option.splits)

lemma idle_callback_fields [simp]:
  "it_timer (idle_callback g t) = it_timer t"
  "it_generation (idle_callback g t) = it_generation t"
  by (simp_all add: idle_callback_def)

text \<open>The running callbacks are older than a new generation.\<close>

lemma newer_generation:
  assumes "idle_inv n w s" and "Suc n < 2 ^ 64"
  shows "unat (it_generation (is_timer s) + 1) \<le> Suc n \<and>
    list_all (\<lambda>g. unat g \<le> unat (it_generation (is_timer s) + 1)) (is_running s) \<and>
    it_generation (is_timer s) + 1 \<notin> set (is_running s)"
proof -
  let ?g = "it_generation (is_timer s)"
  from assms(1) have g: "unat ?g \<le> n" and old: "list_all (\<lambda>g. unat g \<le> unat ?g) (is_running s)"
    by (simp_all add: idle_inv_def)
  note next_generation [OF g assms(2)]
  with g old show ?thesis by (fastforce simp: list_all_iff)
qed

lemma idle_start_inv:
  assumes "idle_inv n w s" and "Suc n < 2 ^ 64"
  shows "idle_inv (Suc n) (wait_after w WaitStart) (idle_start s)"
proof (cases "it_timer (is_timer s)")
  case None
  with assms(1) newer_generation [OF assms] show ?thesis
    by (simp add: idle_inv_def idle_start_def Let_def)
next
  case (Some h)
  with assms(1) have "w \<noteq> None" by (auto simp: idle_inv_def)
  with Some idle_inv_later [OF assms(1), of "Suc n"] show ?thesis by (auto simp: idle_start_def Let_def)
qed

lemma idle_stop_inv:
  assumes "idle_inv n w s" and "Suc n < 2 ^ 64"
  shows "idle_inv (Suc n) None (idle_stop s)"
proof (cases "it_timer (is_timer s)")
  case None
  with assms(1) newer_generation [OF assms] show ?thesis
    by (simp add: idle_inv_def idle_stop_def Let_def)
next
  case (Some h)
  with assms(1) have "filter (\<lambda>a. am_handle a \<noteq> h) (is_armed s) = []"
    by (auto simp: idle_inv_def split: if_splits)
  with Some assms(1) newer_generation [OF assms] show ?thesis
    by (simp add: idle_inv_def idle_stop_def Let_def)
qed

lemma idle_close_inv:
  assumes "idle_inv n w s" and "Suc n < 2 ^ 64"
  shows "idle_inv (Suc n) None (idle_close s)"
proof -
  from idle_stop_inv [OF assms] have "it_timer (is_timer (idle_stop s)) = None"
    by (auto simp: idle_inv_def split: option.splits)
  with idle_stop_inv [OF assms] show ?thesis by (simp add: idle_close_def idle_inv_def Let_def)
qed

lemma idle_expire_inv:
  assumes inv: "idle_inv n w s" and step: "idle_step (Expire h) s = Some s1"
  shows "idle_inv (Suc n) w s1"
proof -
  from step obtain a where a: "find (\<lambda>a. am_handle a = h \<and> am_due a \<le> is_now s) (is_armed s) = Some a"
    and s1: "s1 = s\<lparr>is_armed := remove1 a (is_armed s), is_running := am_generation a # is_running s\<rparr>"
    by (auto split: option.splits)
  from a have "a \<in> set (is_armed s)" and due: "am_due a \<le> is_now s" by (auto simp: find_Some_iff)
  with inv obtain k d where "it_timer (is_timer s) = Some k" "w = Some d" "0 \<le> d"
      and "is_armed s = [\<lparr>am_handle = k, am_generation = it_generation (is_timer s), am_due = is_now s - d + defaultStreamIdleTimeout\<rparr>]"
    by (auto simp: idle_inv_def split: option.splits if_splits)
  with \<open>a \<in> set (is_armed s)\<close> due inv show ?thesis by (simp add: s1 idle_inv_def)
qed

lemma idle_callback_inv:
  assumes inv: "idle_inv n w s" and step: "idle_step (RunCallback g) s = Some s1"
  shows "idle_inv (Suc n) w s1"
proof -
  from step have g: "g \<in> set (is_running s)"
    and s1: "s1 = s\<lparr>is_running := remove1 g (is_running s), is_timer := idle_callback g (is_timer s)\<rparr>"
    by (simp_all split: if_splits)
  have fewer: "list_all P (remove1 g xs)" if "list_all P xs" for P and xs :: "u64 list"
    using that by (meson list_all_iff notin_set_remove1)
  have kept: "x \<in> set (remove1 g xs)" if "x \<in> set xs" "x \<noteq> g" for x and xs :: "u64 list"
    using that by simp
  show ?thesis
  proof (cases "it_timer (is_timer s)")
    case None
    with inv fewer show ?thesis by (auto simp: s1 idle_inv_def dest: notin_set_remove1)
  next
    case (Some k)
    with inv g fewer kept show ?thesis
      by (auto simp: s1 idle_inv_def idle_callback_def dest: notin_set_remove1 split: if_splits)
  qed
qed

lemma idle_step_inv:
  assumes inv: "idle_inv n w s" and bound: "Suc n < 2 ^ 64" and step: "idle_step ev s = Some s1"
  shows "idle_inv (Suc n) (wait_after w ev) s1"
proof (cases ev)
  case (Elapse d)
  with inv step show ?thesis
    by (auto simp: idle_inv_def split: if_splits option.splits)
next
  case WaitStart
  with step idle_start_inv [OF inv bound] show ?thesis by simp
next
  case (ReadEnd k failed)
  with step idle_stop_inv [OF inv bound] idle_inv_later [OF inv, of "Suc n"] show ?thesis
    by (auto simp: body_read_end_def split: if_splits)
next
  case WaitStop
  with step idle_stop_inv [OF inv bound] show ?thesis by simp
next
  case AttemptClose
  with step idle_close_inv [OF inv bound] show ?thesis by simp
next
  case (Expire h)
  with step idle_expire_inv [OF inv] show ?thesis by simp
next
  case (RunCallback g)
  with step idle_callback_inv [OF inv] show ?thesis by simp
qed

lemma idle_run_inv:
  assumes "idle_inv n w s" and "n + length evs < 2 ^ 64" and "idle_run evs s = Some s1"
  shows "idle_inv (n + length evs) (foldl wait_after w evs) s1"
  using assms
proof (induction evs arbitrary: n w s)
  case (Cons ev evs)
  then obtain s0 where step: "idle_step ev s = Some s0" and rest: "idle_run evs s0 = Some s1"
    by (auto simp: bind_eq_Some_conv)
  from Cons.prems(2) have "Suc n < 2 ^ 64" by simp
  from Cons.IH [OF idle_step_inv [OF Cons.prems(1) this step] _ rest] Cons.prems(2) show ?case by simp
qed simp

section \<open>Ten minutes of silence and nothing less\<close>

lemma cause_changes:
  assumes "idle_step ev s = Some s1" and "it_cause (is_timer s) = None" and "it_cause (is_timer s1) = Some DeadlineCause"
  shows "it_generation (is_timer s) \<in> set (is_running s)"
  using assms
  by (cases ev)
    (auto simp: idle_start_def idle_stop_def idle_close_def body_read_end_def idle_callback_def cancel_with_def Let_def
      split: if_splits option.splits)

lemma overdue:
  assumes "idle_inv n w s" and "it_generation (is_timer s) \<in> set (is_running s)"
  shows "\<exists>d. w = Some d \<and> defaultStreamIdleTimeout \<le> d"
  using assms by (auto simp: idle_inv_def split: option.splits if_splits)

lemma callback_cancels:
  assumes "it_generation (is_timer s) \<in> set (is_running s)" and "it_cause (is_timer s) = None"
  shows "\<exists>s1. idle_run [RunCallback (it_generation (is_timer s))] s = Some s1 \<and> it_cause (is_timer s1) = Some DeadlineCause"
  using assms by (simp add: idle_callback_def cancel_with_def)

lemma silence_cancels:
  assumes inv: "idle_inv n (Some d) s" and d: "defaultStreamIdleTimeout \<le> d" and none: "it_cause (is_timer s) = None"
  shows "\<exists>later s1. set later \<subseteq> range Expire \<union> range RunCallback \<and> idle_run later s = Some s1 \<and>
    it_cause (is_timer s1) = Some DeadlineCause"
proof -
  from inv obtain h where h: "it_timer (is_timer s) = Some h"
    by (auto simp: idle_inv_def split: option.splits)
  show ?thesis
  proof (cases "is_armed s = []")
    case True
    with inv h none have "it_generation (is_timer s) \<in> set (is_running s)" by (simp add: idle_inv_def)
    from callback_cancels [OF this none] show ?thesis
      by (intro exI [of _ "[RunCallback (it_generation (is_timer s))]"]) auto
  next
    case False
    let ?g = "it_generation (is_timer s)"
    from False inv h obtain a where armed: "is_armed s = [a]" and a: "am_handle a = h" "am_generation a = ?g" "am_due a \<le> is_now s"
      using d by (auto simp: idle_inv_def)
    let ?s1 = "s\<lparr>is_armed := [], is_running := ?g # is_running s\<rparr>"
    have "idle_step (Expire h) s = Some ?s1" using armed a by simp
    moreover from callback_cancels [of ?s1] none
    obtain s2 where "idle_run [RunCallback ?g] ?s1 = Some s2" "it_cause (is_timer s2) = Some DeadlineCause" by auto
    ultimately show ?thesis
      by (intro exI [of _ "[Expire h, RunCallback ?g]"] exI [of _ s2]) auto
  qed
qed

text \<open>C15. A default stream is cancelled after ten minutes in which the provider sent nothing, and for no shorter wait. In every
  interleaving of reads, expiring timers and late callbacks (fewer than \<open>2 ^ 64\<close> of them): a step that cancels the request with the
  deadline happens only while one wait has lasted ten minutes, whatever old callbacks are still running; and when a
  wait has lasted ten minutes, the runtime has what it needs to cancel the request, so the timer never misses.\<close>

theorem idle_timeout_exact:
  assumes run: "idle_run evs (new_idle now) = Some s" and bound: "length evs < 2 ^ 64"
    and open_request: "it_cause (is_timer s) = None"
  shows "(\<forall>ev s1. idle_step ev s = Some s1 \<longrightarrow> it_cause (is_timer s1) = Some DeadlineCause \<longrightarrow>
      (\<exists>d. waited evs = Some d \<and> 10 * minute \<le> d)) \<and>
    (\<forall>d. waited evs = Some d \<longrightarrow> 10 * minute \<le> d \<longrightarrow>
      (\<exists>later s1. set later \<subseteq> range Expire \<union> range RunCallback \<and> idle_run later s = Some s1 \<and>
        it_cause (is_timer s1) = Some DeadlineCause))"
proof -
  from idle_run_inv [OF idle_inv_new _ run] bound have inv: "idle_inv (length evs) (waited evs) s"
    by (simp add: waited_def)
  from cause_changes [OF _ open_request] overdue [OF inv] silence_cancels [of "length evs" _ s] inv open_request show ?thesis
    by (auto simp: defaultStreamIdleTimeout_def)
qed

definition sample_idle_events :: "idle_event list" where
  "sample_idle_events =
     [WaitStart, Elapse (9 * minute), ReadEnd 5 False, WaitStart, Elapse (9 * minute), ReadEnd 0 False, WaitStart, Elapse minute]"

lemma sample_wait_run:
  "\<exists>s. idle_run sample_idle_events (new_idle 0) = Some s \<and> it_cause (is_timer s) = None"
  by (simp add: sample_idle_events_def new_idle_def idle_start_def idle_stop_def body_read_end_def read_progress_def
      defaultStreamIdleTimeout_def)

theorem idle_timeout_exact_witness:
  "\<exists>s later s1. idle_run sample_idle_events (new_idle 0) = Some s \<and> idle_run later s = Some s1 \<and>
     it_cause (is_timer s1) = Some DeadlineCause"
proof -
  obtain s where s: "idle_run sample_idle_events (new_idle 0) = Some s" "it_cause (is_timer s) = None"
    using sample_wait_run by blast
  have "length sample_idle_events < 2 ^ 64" and "waited sample_idle_events = Some (10 * minute)"
    by (simp_all add: sample_idle_events_def waited_def read_progress_def)
  with idle_timeout_exact [OF s(1) _ s(2)] s(1) show ?thesis by fastforce
qed

end
