(* ===== verification/Call_Options.thy ===== *)
theory Call_Options
  imports Stream_Reader
begin

text \<open>
  What bounds and accompanies a call: \<^verbatim>\<open>internal/adapter/limits.go\<close> and \<^verbatim>\<open>options.go\<close>. Zero selects a default.
\<close>

section \<open>Limits\<close>

record call_limits = stream_limits +
  lim_UpstreamTimeoutSeconds :: int
  lim_RequestBytes :: int
  lim_ResponseBytes :: int

definition or_default :: "int \<Rightarrow> int \<Rightarrow> int" where
  "or_default n d = (if n = 0 then d else n)"

definition Effective :: "call_limits \<Rightarrow> call_limits" where
  "Effective l =
     l\<lparr>lim_UpstreamTimeoutSeconds := or_default (lim_UpstreamTimeoutSeconds l) 60,
       lim_RequestBytes := or_default (lim_RequestBytes l) (32 * 1048576),
       lim_ResponseBytes := or_default (lim_ResponseBytes l) (8 * 1048576),
       lim_StreamBytes := or_default (lim_StreamBytes l) (64 * 1048576),
       lim_EventBytes := or_default (lim_EventBytes l) (1048576)\<rparr>"

definition UpstreamTimeout :: "call_limits \<Rightarrow> bool \<Rightarrow> duration" where
  "UpstreamTimeout l stream =
     (if stream \<and> lim_UpstreamTimeoutSeconds l = 0 then 0 else lim_UpstreamTimeoutSeconds (Effective l) * second)"

definition limits_validate :: "call_limits \<Rightarrow> bool" where
  "limits_validate l \<longleftrightarrow>
     \<not> (lim_UpstreamTimeoutSeconds l < 0 \<or> 3600 < lim_UpstreamTimeoutSeconds l) \<and>
     list_all (\<lambda>n. \<not> (n < 0 \<or> 1073741824 < n)) [lim_RequestBytes l, lim_ResponseBytes l, lim_StreamBytes l, lim_EventBytes l] \<and>
     \<not> lim_StreamBytes (Effective l) < lim_EventBytes (Effective l)"

definition reader_limits :: "call_limits \<Rightarrow> stream_limits" where
  "reader_limits l = stream_limits.truncate l"

lemma effective_positive:
  assumes "limits_validate l"
  shows "0 < lim_StreamBytes (Effective l)" "0 < lim_EventBytes (Effective l)"
    "0 < lim_ResponseBytes (Effective l)" "0 < lim_UpstreamTimeoutSeconds (Effective l)"
    "lim_EventBytes (Effective l) \<le> lim_StreamBytes (Effective l)"
  using assms by (auto simp: limits_validate_def Effective_def or_default_def)

section \<open>Options\<close>

abbreviation SessionIDHeader :: string where
  "SessionIDHeader \<equiv> ''X-TideMux-Session-ID''"

record call_options =
  op_AnthropicBeta :: string
  op_SessionID :: string
  op_RequestScopedSession :: bool
  op_ResponseModel :: string
  op_RequestStartedAt :: time
  op_PriorQueueMS :: int
  op_RoutingDecision :: "routing_decision option"

text \<open>\<open>strings.ContainsAny(s, "\r\n\x00")\<close>\<close>

definition breaks_header :: "string \<Rightarrow> bool" where
  "breaks_header s \<longleftrightarrow> list_ex (\<lambda>c. c \<in> {CHR 0x0D, CHR 0x0A, CHR 0x00}) s"

fun split_commas :: "string \<Rightarrow> string list" where
  "split_commas [] = [[]]"
| "split_commas (c # s) =
     (if c = CHR '','' then [] # split_commas s
      else (case split_commas s of [] \<Rightarrow> [[c]] | l # ls \<Rightarrow> (c # l) # ls))"

definition feature_char :: "char \<Rightarrow> bool" where
  "feature_char c \<longleftrightarrow> is_alnum c \<or> c \<in> {CHR ''-'', CHR ''_'', CHR ''.''}"

definition beta_feature :: "string \<Rightarrow> bool" where
  "beta_feature f \<longleftrightarrow> trim_space f \<noteq> [] \<and> list_all feature_char (trim_space f)"

text \<open>The code and the parameter of the error.\<close>

definition options_validate :: "call_options \<Rightarrow> string \<Rightarrow> (string \<times> string) option" where
  "options_validate opts protocol =
     (if 256 < length (op_SessionID opts) \<or> breaks_header (op_SessionID opts) then Some (''invalid_session_id'', SessionIDHeader)
      else if op_AnthropicBeta opts = [] then None
      else if protocol \<noteq> ''anthropic'' \<or> 4096 < length (op_AnthropicBeta opts) \<or> breaks_header (op_AnthropicBeta opts) \<or>
              \<not> list_all beta_feature (split_commas (op_AnthropicBeta opts))
      then Some (''invalid_beta_header'', ''anthropic-beta'')
      else None)"

end
