(* ===== verification/Client_Config.thy ===== *)
theory Client_Config
  imports Go_Prelude
begin

text \<open>
  The settings of an upstream client (\<open>Client\<close> of \<^verbatim>\<open>internal/adapter/client.go\<close>) that routing reads as well.
\<close>

record client_config =
  cl_Protocol :: string
  cl_MaxOutputTokens :: int
  cl_ModelOutputLimits :: "(string, int) gomap"

definition OutputTokenDefault :: "'a client_config_scheme \<Rightarrow> string \<Rightarrow> int" where
  "OutputTokenDefault c model =
     (if 0 < cl_MaxOutputTokens c then cl_MaxOutputTokens c
      else
        (let limit = (case map_of (cl_ModelOutputLimits c) model of None \<Rightarrow> 0 | Some l \<Rightarrow> l)
         in if 0 < limit \<and> limit < 4096 then limit else 0))"

end
