(* ===== verification/Upstream_Attempt.thy ===== *)
theory Upstream_Attempt
  imports Stream_Delivery Idle_Timeout Call_Options Client_Config
begin

text \<open>
  One HTTP attempt at a provider (\<open>doAttempt\<close> of \<^verbatim>\<open>internal/adapter/client.go\<close> and \<^verbatim>\<open>attempt_observer.go\<close>): the
  request it sends, every branch of the response, and what becomes of its error on the way out.

  What the network and the contexts do is an argument: whether the request could be built, the events of the
  connection, the answer with its body, and the state of the contexts at each point where the code asks for it.
\<close>

section \<open>The client and its request\<close>

record upstream_client = client_config +
  cl_Limits :: call_limits
  cl_BaseURL :: string
  cl_APIKey :: string
  cl_APIVersion :: string
  cl_Upstream :: string
  cl_ProviderRef :: string
  cl_BackendID :: string
  cl_ForwardErrorMessages :: "bool option"
  cl_RedactValues :: "string list"
  cl_Prices :: "(string, price) gomap"
  cl_ErrorCodeMappings :: "error_mapping list"
  cl_CacheNamespace :: string

record gateway_ops =
  go_codec :: json_codec
  go_text :: text_ops
  go_messages :: message_ops
  go_http_time :: "string \<Rightarrow> time option"

definition upstream_url :: "upstream_client \<Rightarrow> string" where
  "upstream_url c =
     rev (dropWhile (\<lambda>x. x = CHR ''/'') (rev (cl_BaseURL c))) @
     (if cl_Protocol c = ''anthropic'' then ''/messages'' else ''/chat/completions'')"

definition upstream_headers :: "upstream_client \<Rightarrow> string \<Rightarrow> call_options \<Rightarrow> (string \<times> string) list" where
  "upstream_headers c apiKey opts =
     [(''Content-Type'', ''application/json'')] @
     (if cl_Protocol c = ''openai'' then [(''Authorization'', ''Bearer '' @ apiKey)]
      else [(''x-api-key'', apiKey), (''anthropic-version'', cl_APIVersion c)] @
        (if op_AnthropicBeta opts \<noteq> [] then [(''anthropic-beta'', op_AnthropicBeta opts)] else [])) @
     (if op_SessionID opts \<noteq> [] then [(SessionIDHeader, op_SessionID opts)] else [])"

section \<open>The connection\<close>

datatype trace_event = DNSStart | ConnectStart | TLSHandshakeStart | GotConn | WroteHeaders | GotFirstResponseByte

fun event_phase :: "trace_event \<Rightarrow> nat" where
  "event_phase DNSStart = 1"
| "event_phase ConnectStart = 2"
| "event_phase TLSHandshakeStart = 3"
| "event_phase GotConn = 4"
| "event_phase WroteHeaders = 5"
| "event_phase GotFirstResponseByte = 6"

text \<open>The phase only advances, whatever the order of the events.\<close>

definition advance :: "nat \<Rightarrow> nat \<Rightarrow> nat" where
  "advance next phase = (if phase < next then next else phase)"

definition trace_phase :: "trace_event list \<Rightarrow> nat" where
  "trace_phase evs = fold (\<lambda>ev. advance (event_phase ev)) evs 0"

definition attempt_phases :: "string list" where
  "attempt_phases =
     [''request'', ''dns'', ''connect'', ''tls'', ''request'', ''response_headers'', ''response_body'', ''stream'', ''conversion'']"

record attempt_world =
  aw_now :: time
  aw_request_ok :: bool
  aw_done_before :: bool
  aw_trace :: "trace_event list"
  aw_answer :: "bool + http_response \<times> wire_body"
  aw_done_after :: bool
  aw_body_timed_out :: bool
  aw_observed :: string
  aw_observed_cause :: "cancel_cause option"
  aw_parent_done :: bool
  aw_cause :: "cancel_cause option"

section \<open>The branches of a response\<close>

record 'k attempt_run =
  rn_result :: "go_error + string \<times> token_usage"
  rn_phase :: nat
  rn_response :: "http_response option"
  rn_initiated :: bool
  rn_timed_out :: bool
  rn_delivered :: bool
  rn_observed :: string
  rn_sink :: 'k

definition bad_gateway :: "string \<Rightarrow> go_error + string \<times> token_usage" where
  "bad_gateway code = Inl (CallErr (call_error_of 502 code))"

definition max_error_body :: nat where
  "max_error_body = 65536"

definition error_response :: "gateway_ops \<Rightarrow> upstream_client \<Rightarrow> time \<Rightarrow> http_response \<Rightarrow> wire_body \<Rightarrow> call_error" where
  "error_response ops c now resp body =
     upstreamError (go_messages ops) (go_http_time ops) now resp (jc_parse (go_codec ops) (take max_error_body (wb_data body)))
       (cl_ErrorCodeMappings c)"

text \<open>A whole response: its result, the last phase and the bytes read.\<close>

definition response_branch ::
  "gateway_ops \<Rightarrow> upstream_client \<Rightarrow> string \<Rightarrow> string \<Rightarrow> call_options \<Rightarrow> call_limits \<Rightarrow> wire_body
     \<Rightarrow> (go_error + string \<times> token_usage) \<times> nat \<times> string"
where
  "response_branch ops c clientProtocol model opts limits body =
     (let n = nat (lim_ResponseBytes limits + 1); data = take n (wb_data body) in
      if (wb_read_error body \<or> wb_early_end body) \<and> length (wb_data body) \<le> n then (bad_gateway ''upstream_read_error'', 6, data)
      else if lim_ResponseBytes limits < int (length data) then (bad_gateway ''upstream_response_too_large'', 6, data)
      else
        (case ValidateResponse (go_codec ops) (go_text ops) (cl_Protocol c) data of
           Inl e \<Rightarrow> (bad_gateway ''invalid_upstream_response'', 6, data)
         | Inr usage \<Rightarrow>
             (case TranslateResponseWithWarnings (go_codec ops) (cl_Protocol c) clientProtocol data model of
                Inl (Conversion code field) \<Rightarrow> (Inl (CallErr ((call_error_of 502 code)\<lparr>ce_Param := field\<rparr>)), 8, data)
              | Inl PlainError \<Rightarrow> (bad_gateway ''invalid_upstream_response'', 8, data)
              | Inr (out, warnings) \<Rightarrow> (Inr (setResponseModel (go_codec ops) out (op_ResponseModel opts), usage), 8, data))))"

definition stream_branch ::
  "gateway_ops \<Rightarrow> upstream_client \<Rightarrow> attempt_world \<Rightarrow> string \<Rightarrow> string \<Rightarrow> call_options \<Rightarrow> call_limits
     \<Rightarrow> (string \<Rightarrow> 'k \<Rightarrow> bool \<times> 'k) \<Rightarrow> http_response \<Rightarrow> wire_body \<Rightarrow> bool \<Rightarrow> 'k \<Rightarrow> 'k attempt_run"
where
  "stream_branch ops c w clientProtocol model opts limits sink resp body delivered k =
     (let base = \<lparr>rn_result = bad_gateway ''invalid_upstream_content_type'', rn_phase = 6, rn_response = Some resp, rn_initiated = True,
            rn_timed_out = False, rn_delivered = delivered, rn_observed = [], rn_sink = k\<rparr> in
      if \<not> has_prefix (tx_lower (go_text ops) (resp_Header resp ''Content-Type'')) ''text/event-stream'' then base
      else
        (let sa = \<lparr>sa_protocol = cl_Protocol c, sa_client = clientProtocol, sa_responseModel = op_ResponseModel opts,
               sa_limits = reader_limits limits\<rparr>;
             stream_error = (\<lambda>data. providerStreamError (go_messages ops) (go_http_time ops) (aw_now w) (Some resp)
               (jc_parse (go_codec ops) data) (cl_ErrorCodeMappings c));
             (result, d) = attempt_stream (go_codec ops) (go_text ops) sa stream_error sink body
               (new_delivery sa model (aw_now w) delivered k)
         in base\<lparr>rn_result := result, rn_phase := (if dv_converting d then 8 else 7), rn_timed_out := aw_body_timed_out w,
              rn_delivered := dv_delivered d, rn_observed := aw_observed w, rn_sink := dv_sink d\<rparr>))"

definition transport_error :: "attempt_world \<Rightarrow> call_error" where
  "transport_error w =
     (let e = call_error_of 502 ''upstream_transport_error'' in
      if WroteHeaders \<notin> set (aw_trace w) \<and> \<not> aw_done_after w
      then e\<lparr>ce_Cooldown := 5 * second, ce_UpstreamNotAttempted := True, ce_FailoverSafe := True\<rparr> else e)"

text \<open>\<open>sink\<close> is \<open>None\<close> for a call without streaming.\<close>

definition exchange ::
  "gateway_ops \<Rightarrow> upstream_client \<Rightarrow> attempt_world \<Rightarrow> string \<Rightarrow> string \<Rightarrow> call_options \<Rightarrow> call_limits
     \<Rightarrow> (string \<Rightarrow> 'k \<Rightarrow> bool \<times> 'k) option \<Rightarrow> bool \<Rightarrow> 'k \<Rightarrow> 'k attempt_run"
where
  "exchange ops c w clientProtocol model opts limits sink delivered k =
     (let base = \<lparr>rn_result = bad_gateway ''upstream_request_failed'', rn_phase = 0, rn_response = None, rn_initiated = False,
            rn_timed_out = False, rn_delivered = delivered, rn_observed = [], rn_sink = k\<rparr> in
      if \<not> aw_request_ok w then base
      else if aw_done_before w then base\<lparr>rn_result := bad_gateway ''upstream_transport_error''\<rparr>
      else
        (case aw_answer w of
           Inl timed_out \<Rightarrow>
             base\<lparr>rn_result := Inl (CallErr (transport_error w)), rn_phase := trace_phase (aw_trace w), rn_initiated := True,
               rn_timed_out := timed_out\<rparr>
         | Inr (resp, body) \<Rightarrow>
             (let answered = base\<lparr>rn_phase := advance 6 (trace_phase (aw_trace w)), rn_response := Some resp, rn_initiated := True\<rparr> in
              if resp_StatusCode resp < 200 \<or> 300 \<le> resp_StatusCode resp
              then answered\<lparr>rn_result := Inl (CallErr (error_response ops c (aw_now w) resp body))\<rparr>
              else
                (case sink of
                   Some s \<Rightarrow> stream_branch ops c w clientProtocol model opts limits s resp body delivered k
                 | None \<Rightarrow>
                     (let (result, phase, read) = response_branch ops c clientProtocol model opts limits body
                      in answered\<lparr>rn_result := result, rn_phase := phase, rn_timed_out := aw_body_timed_out w, rn_observed := read\<rparr>)))))"

section \<open>The error on its way out\<close>

definition attempt_secrets :: "upstream_client \<Rightarrow> string \<Rightarrow> call_options \<Rightarrow> string list" where
  "attempt_secrets c apiKey opts = apiKey # op_SessionID opts # cl_RedactValues c"

definition failure_source :: "string \<Rightarrow> nat \<Rightarrow> bool \<Rightarrow> bool \<Rightarrow> string" where
  "failure_source code phase responded streaming =
     (if code = ''downstream_write_error'' then ''downstream''
      else if phase = 8 then ''conversion''
      else if \<not> responded then ''transport''
      else if streaming then ''stream''
      else ''response'')"

definition located_failure :: "message_ops \<Rightarrow> nat \<Rightarrow> http_response option \<Rightarrow> bool \<Rightarrow> call_error \<Rightarrow> failure" where
  "located_failure mo phase resp streaming e =
     (let f0 = (case ce_Failure e of None \<Rightarrow> empty_failure | Some f \<Rightarrow> f);
          f1 = f0\<lparr>fl_Source := (if fl_Source f0 = [] then failure_source (ce_Code e) phase (resp \<noteq> None) streaming else fl_Source f0),
                 fl_Phase := attempt_phases ! phase\<rparr>
      in case resp of
           None \<Rightarrow> f1
         | Some r \<Rightarrow>
             f1\<lparr>fl_HTTPStatus := resp_StatusCode r,
               fl_ProviderRequestID := (if fl_ProviderRequestID f1 = [] then providerRequestID mo (resp_Header r) else fl_ProviderRequestID f1)\<rparr>)"

definition classified_failure :: "call_error \<Rightarrow> failure \<Rightarrow> failure" where
  "classified_failure e f =
     (let class = SafeFailureClass (Some (CallErr e));
          f1 = f\<lparr>fl_Category := (if class = ''upstream_error'' then ''unknown'' else class),
                fl_CooldownScope := (if provider_scoped_terminal (ce_Category e) then ''provider'' else fl_CooldownScope f)\<rparr>
      in f1\<lparr>fl_Retryability := failureRetryability (e\<lparr>ce_Failure := Some f1\<rparr>)\<rparr>)"

definition attempt_failure ::
  "message_ops \<Rightarrow> upstream_client \<Rightarrow> string list \<Rightarrow> nat \<Rightarrow> http_response option \<Rightarrow> bool \<Rightarrow> call_error \<Rightarrow> call_error"
where
  "attempt_failure mo c secrets phase resp streaming e =
     (let kept = failure_redact mo secrets (Some (classified_failure e (located_failure mo phase resp streaming e)))
      in e\<lparr>ce_Failure := (if cl_ForwardErrorMessages c = Some False then map_option (\<lambda>f. f\<lparr>fl_ProviderMessage := []\<rparr>) kept else kept),
           ce_ProviderCode := (if list_ex (\<lambda>s. s \<noteq> [] \<and> contains_str (ce_ProviderCode e) s) secrets then [] else ce_ProviderCode e)\<rparr>)"

definition httpAttemptResult :: "cancel_cause option \<Rightarrow> go_error option \<Rightarrow> bool \<Rightarrow> attempt_result" where
  "httpAttemptResult cause err timedOut =
     (if err = None then \<lparr>ar_Outcome = ''success'', ar_FailureClass = []\<rparr>
      else
        (let class = SafeFailureClass err in
         if timedOut \<or> cause = Some DeadlineCause \<or> class = ''timeout'' then \<lparr>ar_Outcome = ''timeout'', ar_FailureClass = ''timeout''\<rparr>
         else if cause = Some PlainCancel \<or> class = ''canceled'' then \<lparr>ar_Outcome = ''canceled'', ar_FailureClass = ''canceled''\<rparr>
         else \<lparr>ar_Outcome = ''failure'', ar_FailureClass = class\<rparr>))"

fun error_of :: "'e + 'a \<Rightarrow> 'e option" where
  "error_of (Inl e) = Some e"
| "error_of (Inr x) = None"

definition failure_of :: "go_error option \<Rightarrow> failure option" where
  "failure_of err = Option.bind (as_call_error err) ce_Failure"

text \<open>A stream without a total timeout runs under the idle timer.\<close>

definition idle_watched :: "upstream_client \<Rightarrow> bool \<Rightarrow> bool" where
  "idle_watched c streaming \<longleftrightarrow> streaming \<and> lim_UpstreamTimeoutSeconds (cl_Limits c) = 0"

definition idle_expired :: "upstream_client \<Rightarrow> attempt_world \<Rightarrow> bool \<Rightarrow> bool" where
  "idle_expired c w streaming \<longleftrightarrow> idle_watched c streaming \<and> \<not> aw_parent_done w \<and> aw_cause w = Some DeadlineCause"

definition final_error ::
  "gateway_ops \<Rightarrow> upstream_client \<Rightarrow> attempt_world \<Rightarrow> string list \<Rightarrow> bool \<Rightarrow> 'k attempt_run \<Rightarrow> go_error \<Rightarrow> go_error"
where
  "final_error ops c w secrets streaming r err =
     (let err1 = (if idle_expired c w streaming
                  then CallErr ((call_error_of 504 ''upstream_timeout'')\<lparr>ce_Failure := failure_of (Some err)\<rparr>) else err)
      in case err1 of
           CallErr e \<Rightarrow> CallErr (attempt_failure (go_messages ops) c secrets (rn_phase r) (rn_response r) streaming e)
         | OtherErr msg \<Rightarrow> OtherErr msg)"

text \<open>The observer sees the error before it is completed.\<close>

definition doAttempt ::
  "gateway_ops \<Rightarrow> upstream_client \<Rightarrow> attempt_world \<Rightarrow> string \<Rightarrow> string \<Rightarrow> (string \<Rightarrow> 'k \<Rightarrow> bool \<times> 'k) option \<Rightarrow> call_options \<Rightarrow> call_limits
     \<Rightarrow> string \<Rightarrow> bool \<Rightarrow> 'k \<Rightarrow> 'k attempt_run \<times> attempt_result option"
where
  "doAttempt ops c w clientProtocol model sink opts limits apiKey delivered k =
     (let r = exchange ops c w clientProtocol model opts limits sink delivered k;
          observation = (if rn_initiated r
                         then Some (httpAttemptResult (aw_observed_cause w) (error_of (rn_result r)) (rn_timed_out r)) else None)
      in case rn_result r of
           Inl err \<Rightarrow> (r\<lparr>rn_result := Inl (final_error ops c w (attempt_secrets c apiKey opts) (sink \<noteq> None) r err)\<rparr>, observation)
         | Inr ok \<Rightarrow> (r, observation))"

section \<open>Where the errors come from\<close>

text \<open>An error as a branch makes it: its failure details, if any, come from the provider's answer.\<close>

definition fresh_error :: "call_error \<Rightarrow> bool" where
  "fresh_error e \<longleftrightarrow>
     (case ce_Failure e of None \<Rightarrow> True | Some f \<Rightarrow> fl_Source f = ''http_error'' \<or> fl_Source f = ''stream_error'')"

definition unproven :: "call_error \<Rightarrow> bool" where
  "unproven e \<longleftrightarrow> \<not> ce_UpstreamNotAttempted e \<and> fresh_error e"

lemma unproven_plain [simp]: "unproven (call_error_of s code)" "unproven ((call_error_of s code)\<lparr>ce_Param := p\<rparr>)"
  by (simp_all add: unproven_def fresh_error_def call_error_of_def)

lemma failure_details_source [simp]: "fl_Source (providerFailure mo body resp source ms) = source"
  by (simp add: providerFailure_def Let_def split: option.split)

lemma upstream_error_unproven: "unproven (upstreamError mo ht now resp body ms)"
  by (simp add: unproven_def fresh_error_def upstreamError_def upstream_error_class_fields)

lemma stream_error_unproven: "unproven (providerStreamError mo ht now resp body ms)"
  by (simp add: unproven_def fresh_error_def providerStreamError_def Let_def call_error_of_def split: prod.split)

lemma conversion_unproven: "unproven (conversion_error x)"
  by (cases x) simp_all

lemma hold_or_send_unproven: "hold_or_send codec cp limits sink f d = (Some e, d1) \<Longrightarrow> unproven e"
  by (auto simp: hold_or_send_def Let_def split: if_splits prod.splits)

lemma deliver_receives_unproven:
  "receives (deliver codec tx cp rm limits sink) (\<lambda>_. True) (\<lambda>e _. unproven e)"
  unfolding receives_def
proof (intro allI impI)
  fix raw d
  show "case deliver codec tx cp rm limits sink raw d of (None, e1) \<Rightarrow> True | (Some x, e1) \<Rightarrow> unproven x"
    by (cases "client_frame codec tx cp rm raw (dv_translator d)")
      (auto simp: deliver_def conversion_unproven dest: hold_or_send_unproven split: prod.splits option.splits)
qed

lemma attempt_stream_unproven:
  assumes "attempt_stream codec tx sa se sink body d = (Inl (CallErr e), d1)" and provider: "\<And>data. unproven (se data)"
  shows "unproven e"
proof -
  let ?emit = "deliver codec tx (sa_client sa) (sa_responseModel sa) (sa_limits sa) sink"
  obtain r d2 where read: "readStreamWithLimits codec tx (sa_protocol sa) body (sa_limits sa) ?emit d = (r, d2)"
    by (cases "readStreamWithLimits codec tx (sa_protocol sa) body (sa_limits sa) ?emit d")
  with assms(1) have finished: "finish_delivery codec sa se r d2 = (Inl (CallErr e), d1)" by (simp add: attempt_stream_def)
  from reader_receives [OF deliver_receives_unproven TrueI read]
  have emitted: "unproven x" if "r = EmitError x" for x using that by (simp add: receiver_ok_def)
  from finished provider emitted show ?thesis
    by (auto simp: finish_delivery_def split: read_result.splits sum.splits translate_error.splits if_splits)
qed

lemma response_branch_unproven: "response_branch ops c cp model opts limits body = (Inl (CallErr e), p, read) \<Longrightarrow> unproven e"
  by (auto simp: response_branch_def Let_def bad_gateway_def split: if_splits sum.splits translate_error.splits)

lemma stream_branch_result:
  assumes "rn_result (stream_branch ops c w cp model opts limits sink resp body delivered k) = Inl (CallErr e)"
  shows "unproven e"
proof (cases "has_prefix (tx_lower (go_text ops) (resp_Header resp ''Content-Type'')) ''text/event-stream''")
  case True
  let ?sa = "\<lparr>sa_protocol = cl_Protocol c, sa_client = cp, sa_responseModel = op_ResponseModel opts, sa_limits = reader_limits limits\<rparr>"
    and ?se = "\<lambda>data. providerStreamError (go_messages ops) (go_http_time ops) (aw_now w) (Some resp)
      (jc_parse (go_codec ops) data) (cl_ErrorCodeMappings c)"
  obtain result d where run: "attempt_stream (go_codec ops) (go_text ops) ?sa ?se sink body (new_delivery ?sa model (aw_now w) delivered k) = (result, d)"
    by fastforce
  with assms True have "result = Inl (CallErr e)" by (simp add: stream_branch_def Let_def)
  with run attempt_stream_unproven stream_error_unproven show ?thesis by blast
qed (use assms in \<open>auto simp: stream_branch_def Let_def bad_gateway_def\<close>)

text \<open>The phase of every branch is one of the list.\<close>

lemma trace_phase_bound: "trace_phase evs \<le> 6"
proof -
  have "n \<le> 6 \<Longrightarrow> fold (\<lambda>ev. advance (event_phase ev)) evs n \<le> 6" for n
  proof (induction evs arbitrary: n)
    case (Cons ev evs)
    have "event_phase ev \<le> 6" by (cases ev) simp_all
    with Cons show ?case by (simp add: advance_def)
  qed simp
  then show ?thesis by (simp add: trace_phase_def)
qed

lemma response_branch_phase: "response_branch ops c cp model opts limits body = (result, p, read) \<Longrightarrow> p \<le> 8"
  by (auto simp: response_branch_def Let_def split: if_splits sum.splits translate_error.splits)

lemma stream_branch_phase: "rn_phase (stream_branch ops c w cp model opts limits sink resp body delivered k) \<le> 8"
  by (simp add: stream_branch_def Let_def split: prod.split)

lemma exchange_phase: "rn_phase (exchange ops c w cp model opts limits sink delivered k) \<le> 8"
proof -
  have "advance 6 (trace_phase (aw_trace w)) = 6" "trace_phase (aw_trace w) \<le> 8"
    using trace_phase_bound [of "aw_trace w"] by (auto simp: advance_def)
  then show ?thesis
    by (auto simp: exchange_def Let_def stream_branch_phase dest: response_branch_phase split: sum.split option.split prod.split)
qed

lemma attempt_phase_known: "p \<le> 8 \<Longrightarrow> attempt_phases ! p \<in> set failure_phases"
proof -
  assume "p \<le> 8"
  then have "p < length attempt_phases" by (simp add: attempt_phases_def)
  then have "attempt_phases ! p \<in> set attempt_phases" by (rule nth_mem)
  moreover have "set attempt_phases \<subseteq> set failure_phases" by code_simp
  ultimately show ?thesis by blast
qed

text \<open>Only a transport error before the headers were written claims that nothing reached the provider.\<close>

definition not_sent :: "attempt_world \<Rightarrow> bool" where
  "not_sent w \<longleftrightarrow> aw_request_ok w \<and> \<not> aw_done_before w \<and> (\<exists>timed_out. aw_answer w = Inl timed_out) \<and> WroteHeaders \<notin> set (aw_trace w)"

lemma exchange_error:
  assumes "rn_result (exchange ops c w cp model opts limits sink delivered k) = Inl (CallErr e)"
  shows "fresh_error e \<and> (ce_UpstreamNotAttempted e \<longrightarrow> not_sent w)"
proof (cases "aw_request_ok w \<and> \<not> aw_done_before w")
  case False
  with assms have "unproven e" by (auto simp: exchange_def Let_def bad_gateway_def split: if_splits)
  then show ?thesis by (simp add: unproven_def)
next
  case sent: True
  show ?thesis
  proof (cases "aw_answer w")
    case (Inl timed_out)
    with sent assms have "e = transport_error w" by (simp add: exchange_def Let_def)
    with sent Inl show ?thesis by (simp add: transport_error_def Let_def fresh_error_def call_error_of_def not_sent_def)
  next
    case (Inr p)
    obtain resp body where p: "p = (resp, body)" by (cases p)
    have "unproven e"
    proof (cases "resp_StatusCode resp < 200 \<or> 300 \<le> resp_StatusCode resp")
      case True
      with sent assms Inr p have "e = error_response ops c (aw_now w) resp body" by (simp add: exchange_def Let_def)
      then show ?thesis by (simp add: error_response_def upstream_error_unproven)
    next
      case ok: False
      show ?thesis
      proof (cases sink)
        case None
        obtain result phase read where run: "response_branch ops c cp model opts limits body = (result, phase, read)" by (metis prod.exhaust)
        with sent assms Inr p ok None have "result = Inl (CallErr e)" by (simp add: exchange_def Let_def)
        with run show ?thesis by (blast intro: response_branch_unproven)
      next
        case (Some s)
        with sent assms Inr p ok show ?thesis by (auto simp: exchange_def Let_def intro: stream_branch_result)
      qed
    qed
    then show ?thesis by (simp add: unproven_def)
  qed
qed

section \<open>What leaves an attempt\<close>

text \<open>A failure that names a secret in none of the texts of the provider that are stored as they came.\<close>

definition names_secret :: "string \<Rightarrow> failure \<Rightarrow> bool" where
  "names_secret s f \<longleftrightarrow>
     contains_str (fl_ProviderCode f) s \<or> contains_str (fl_ProviderRequestID f) s \<or> contains_str (fl_ProviderType f) s"

lemma contains_empty [simp]: "contains_str [] s \<longleftrightarrow> s = []"
  by simp

lemma redact_value_hides:
  assumes "s \<noteq> []"
  shows "\<not> names_secret s (redact_value s f)"
  using assms by (simp add: names_secret_def redact_value_def Let_def)

lemma redact_value_keeps_hidden:
  "s \<noteq> [] \<Longrightarrow> \<not> names_secret s f \<Longrightarrow> \<not> names_secret s (redact_value v f)"
  by (simp add: names_secret_def redact_value_def Let_def)

lemma redact_fold_keeps_hidden:
  "s \<noteq> [] \<Longrightarrow> \<not> names_secret s f \<Longrightarrow> \<not> names_secret s (fold redact_value vs f)"
  by (induction vs arbitrary: f) (simp_all add: redact_value_keeps_hidden)

lemma redact_fold_hides:
  "s \<in> set vs \<Longrightarrow> s \<noteq> [] \<Longrightarrow> \<not> names_secret s (fold redact_value vs f)"
  by (induction vs arbitrary: f) (auto simp: redact_value_hides redact_fold_keeps_hidden)

lemma redact_fold_frame:
  "fl_Source (fold redact_value vs f) = fl_Source f \<and> fl_Phase (fold redact_value vs f) = fl_Phase f"
  by (induction vs arbitrary: f) (simp_all add: redact_value_def Let_def)

lemma normalize_keeps_hidden:
  "s \<noteq> [] \<Longrightarrow> \<not> names_secret s f \<Longrightarrow> \<not> names_secret s (normalize_failure mo f)"
  by (auto simp: names_secret_def normalize_failure_def code_step_def request_id_step_def Let_def)

lemma failure_safe_message [simp]: "failure_safe mo (f\<lparr>fl_ProviderMessage := m\<rparr>) = failure_safe mo f"
  by (simp add: failure_safe_def)

lemma redacted_failure:
  assumes "failure_redact mo vs (Some f) = Some g"
  shows "failure_safe mo g" "fl_Source g = enum_of (fl_Source f) failure_sources" "fl_Phase g = enum_of (fl_Phase f) failure_phases"
    "s \<in> set vs \<Longrightarrow> s \<noteq> [] \<Longrightarrow> \<not> names_secret s g"
proof -
  let ?f1 = "fold redact_value vs f"
  let ?f2 = "?f1\<lparr>fl_ProviderMessage := mo_redact mo (fl_ProviderMessage ?f1)\<rparr>"
  let ?f3 = "?f2\<lparr>fl_ActualTokens := fst (mo_facts mo (fl_ProviderMessage ?f2)), fl_LimitTokens := snd (mo_facts mo (fl_ProviderMessage ?f2))\<rparr>"
  from assms have g: "g = normalize_failure mo ?f3"
    by (simp add: failure_redact_def failure_normalize_def Let_def)
  show "failure_safe mo g" unfolding g by (rule normalized_failure_safe)
  from redact_fold_frame [of vs f] show "fl_Source g = enum_of (fl_Source f) failure_sources"
    "fl_Phase g = enum_of (fl_Phase f) failure_phases"
    unfolding g by (simp_all add: normalize_failure_def)
  assume "s \<in> set vs" and s: "s \<noteq> []"
  then have "\<not> names_secret s ?f1" by (rule redact_fold_hides)
  then have "\<not> names_secret s ?f3" by (simp add: names_secret_def)
  with s show "\<not> names_secret s g" unfolding g by (rule normalize_keeps_hidden)
qed

lemma located_source:
  assumes "fresh_error e"
  shows "fl_Source (located_failure mo phase resp streaming e) \<in> set failure_sources"
proof -
  have "failure_source code p responded st \<in> set failure_sources" for code p responded st
    by (simp add: failure_source_def failure_sources_def)
  moreover have "''http_error'' \<in> set failure_sources" "''stream_error'' \<in> set failure_sources" by (simp_all add: failure_sources_def)
  ultimately show ?thesis
    using assms by (auto simp: located_failure_def fresh_error_def empty_failure_def Let_def split: option.splits)
qed

lemma located_phase: "fl_Phase (located_failure mo phase resp streaming e) = attempt_phases ! phase"
  by (simp add: located_failure_def Let_def split: option.split)

lemma classified_frame:
  "fl_Source (classified_failure e f) = fl_Source f" "fl_Phase (classified_failure e f) = fl_Phase f"
  by (simp_all add: classified_failure_def Let_def)

lemma attempt_failure_safe:
  assumes "fresh_error e" and "phase \<le> 8" and left: "attempt_failure mo c secrets phase resp streaming e = e1"
  shows "\<exists>f. ce_Failure e1 = Some f \<and> failure_safe mo f \<and> fl_Source f \<in> set failure_sources \<and> fl_Phase f \<in> set failure_phases \<and>
    (cl_ForwardErrorMessages c = Some False \<longrightarrow> fl_ProviderMessage f = []) \<and>
    (\<forall>s\<in>set secrets. s \<noteq> [] \<longrightarrow> \<not> contains_str (ce_ProviderCode e1) s \<and> \<not> names_secret s f)"
proof -
  let ?f = "classified_failure e (located_failure mo phase resp streaming e)"
  obtain g where g: "failure_redact mo secrets (Some ?f) = Some g"
    by (simp add: failure_redact_def failure_normalize_def Let_def)
  let ?h = "if cl_ForwardErrorMessages c = Some False then g\<lparr>fl_ProviderMessage := []\<rparr> else g"
  note kept = redacted_failure [OF g]
  have source: "fl_Source g \<in> set failure_sources"
    using located_source [OF assms(1), of mo phase resp streaming] by (simp add: kept(2) classified_frame enum_of_def)
  have phase: "fl_Phase g \<in> set failure_phases"
    using attempt_phase_known [OF assms(2)] by (simp add: kept(3) classified_frame located_phase enum_of_def)
  have hidden: "\<not> names_secret s ?h" if "s \<in> set secrets" "s \<noteq> []" for s
    using kept(4) [OF that] by (simp add: names_secret_def)
  have code: "\<not> contains_str (ce_ProviderCode e1) s" if "s \<in> set secrets" "s \<noteq> []" for s
    using that unfolding left [symmetric] attempt_failure_def Let_def by (auto simp: list_ex_iff)
  have "ce_Failure e1 = Some ?h" unfolding left [symmetric] by (simp add: attempt_failure_def g)
  moreover have "failure_safe mo ?h" using kept(1) by simp
  ultimately show ?thesis using source phase hidden code by (intro exI [of _ ?h]) simp
qed

lemma attempt_failure_not_attempted [simp]:
  "ce_UpstreamNotAttempted (attempt_failure mo c secrets phase resp streaming e) = ce_UpstreamNotAttempted e"
  by (simp add: attempt_failure_def Let_def)

lemma final_error_cases:
  assumes "final_error ops c w secrets streaming r err = CallErr e"
    and known: "\<And>x. err = CallErr x \<Longrightarrow> fresh_error x \<and> (ce_UpstreamNotAttempted x \<longrightarrow> not_sent w)"
  obtains x where "fresh_error x" "ce_UpstreamNotAttempted x \<longrightarrow> not_sent w"
    "e = attempt_failure (go_messages ops) c secrets (rn_phase r) (rn_response r) streaming x"
proof (cases "idle_expired c w streaming")
  case True
  let ?x = "(call_error_of 504 ''upstream_timeout'')\<lparr>ce_Failure := failure_of (Some err)\<rparr>"
  from True assms(1) have "e = attempt_failure (go_messages ops) c secrets (rn_phase r) (rn_response r) streaming ?x"
    by (simp add: final_error_def)
  moreover have "fresh_error ?x"
    using known by (cases err) (auto simp: fresh_error_def failure_of_def call_error_of_def split: option.splits)
  moreover have "\<not> ce_UpstreamNotAttempted ?x" by (simp add: call_error_of_def)
  ultimately show thesis using that by blast
next
  case False
  with assms(1) obtain x where "err = CallErr x" "e = attempt_failure (go_messages ops) c secrets (rn_phase r) (rn_response r) streaming x"
    by (auto simp: final_error_def split: go_error.splits)
  with known that show thesis by blast
qed

lemma exchange_undelivered:
  "not_sent w \<Longrightarrow> rn_delivered (exchange ops c w cp model opts limits sink delivered k) = delivered"
  by (auto simp: not_sent_def exchange_def Let_def)

text \<open>Every error of an attempt is the completed form of an error that a branch made.\<close>

lemma attempt_error_origin:
  assumes run: "doAttempt ops c w cp model sink opts limits apiKey delivered k = (r, observation)"
    and failed: "rn_result r = Inl (CallErr e)"
  obtains x phase resp where "fresh_error x" "phase \<le> 8"
    "e = attempt_failure (go_messages ops) c (attempt_secrets c apiKey opts) phase resp (sink \<noteq> None) x"
    "ce_UpstreamNotAttempted e \<longrightarrow> not_sent w \<and> rn_delivered r = delivered"
proof -
  let ?secrets = "attempt_secrets c apiKey opts" and ?r = "exchange ops c w cp model opts limits sink delivered k"
  from run failed obtain err where err: "rn_result ?r = Inl err"
      and r: "r = ?r\<lparr>rn_result := Inl (final_error ops c w ?secrets (sink \<noteq> None) ?r err)\<rparr>"
    by (auto simp: doAttempt_def Let_def split: sum.splits)
  with failed have "final_error ops c w ?secrets (sink \<noteq> None) ?r err = CallErr e" by simp
  moreover have "fresh_error x \<and> (ce_UpstreamNotAttempted x \<longrightarrow> not_sent w)" if "err = CallErr x" for x
    using exchange_error [of ops c w cp model opts limits sink delivered k x] err that by simp
  ultimately obtain x where "fresh_error x" and claim: "ce_UpstreamNotAttempted x \<longrightarrow> not_sent w"
      and e: "e = attempt_failure (go_messages ops) c ?secrets (rn_phase ?r) (rn_response ?r) (sink \<noteq> None) x"
    by (rule final_error_cases)
  have "ce_UpstreamNotAttempted e \<longrightarrow> not_sent w \<and> rn_delivered r = delivered"
    using claim exchange_undelivered [of w ops c cp model opts limits sink delivered k] by (simp add: e r)
  with \<open>fresh_error x\<close> exchange_phase e show thesis by (rule that)
qed


section \<open>The headers of the request\<close>

lemma beta_feature_checked:
  assumes "options_validate opts protocol = None"
  shows "\<not> breaks_header (op_SessionID opts)" "\<not> breaks_header (op_AnthropicBeta opts)"
  using assms by (auto simp: options_validate_def breaks_header_def split: if_splits)

text \<open>A client cannot smuggle a header or a second request into the provider's connection: when the
  options of the call were accepted, no header of the upstream request contains a line break or a NUL, unless the configured key or API
  version does.\<close>

theorem request_headers_unbroken:
  assumes "options_validate opts protocol = None" and "\<not> breaks_header apiKey" and "\<not> breaks_header (cl_APIVersion c)"
  shows "list_all (\<lambda>h. \<not> breaks_header (fst h) \<and> \<not> breaks_header (snd h)) (upstream_headers c apiKey opts)"
  using beta_feature_checked [OF assms(1)] assms(2,3) by (auto simp: upstream_headers_def breaks_header_def)

section \<open>Sample attempts\<close>

definition sample_upstream :: upstream_client where
  "sample_upstream = \<lparr>cl_Protocol = ''openai'', cl_MaxOutputTokens = 0, cl_ModelOutputLimits = [],
     cl_Limits = \<lparr>lim_StreamBytes = 0, lim_EventBytes = 0, lim_UpstreamTimeoutSeconds = 0, lim_RequestBytes = 0, lim_ResponseBytes = 0\<rparr>,
     cl_BaseURL = ''https://api.example.com/v1/'', cl_APIKey = ''key-1'', cl_APIVersion = [], cl_Upstream = ''u'', cl_ProviderRef = ''p'',
     cl_BackendID = [], cl_ForwardErrorMessages = Some False, cl_RedactValues = [''gw-key''], cl_Prices = [], cl_ErrorCodeMappings = [],
     cl_CacheNamespace = []\<rparr>"

definition sample_call_options :: call_options where
  "sample_call_options = \<lparr>op_AnthropicBeta = [], op_SessionID = ''s1'', op_RequestScopedSession = False, op_ResponseModel = [],
     op_RequestStartedAt = 0, op_PriorQueueMS = 0, op_RoutingDecision = None\<rparr>"

definition sample_gateway_ops :: gateway_ops where
  "sample_gateway_ops = \<lparr>go_codec = \<lparr>jc_parse = (\<lambda>s. Some (JObj [(''error'', JObj [(''code'', JStr ''key-1''), (''message'', JStr ''bad key-1'')])])),
     jc_show = (\<lambda>_. []), jc_any = (\<lambda>j. j), jc_raw = (\<lambda>_. [])\<rparr>,
     go_text = \<lparr>tx_upper = map to_upper, tx_lower = map to_lower, tx_hostname = (\<lambda>_. None)\<rparr>, go_messages = plain_ops,
     go_http_time = (\<lambda>_. None)\<rparr>"

text \<open>The provider refuses the key and repeats it in its error.\<close>

definition sample_world :: attempt_world where
  "sample_world = \<lparr>aw_now = second, aw_request_ok = True, aw_done_before = False, aw_trace = [DNSStart, GotConn, WroteHeaders, GotFirstResponseByte],
     aw_answer = Inr (\<lparr>resp_StatusCode = 401, resp_Header = (\<lambda>_. [])\<rparr>, \<lparr>wb_data = ''x'', wb_read_error = False, wb_early_end = False\<rparr>),
     aw_done_after = False, aw_body_timed_out = False, aw_observed = [], aw_observed_cause = None, aw_parent_done = False, aw_cause = None\<rparr>"

abbreviation sample_run :: "nat attempt_run \<times> attempt_result option" where
  "sample_run \<equiv> doAttempt sample_gateway_ops sample_upstream sample_world ''openai'' ''m'' None sample_call_options
     (Effective (cl_Limits sample_upstream)) ''key-1'' False 0"

lemma sample_refusal: "\<exists>e. rn_result (fst sample_run) = Inl (CallErr e)"
  by (simp add: doAttempt_def exchange_def sample_world_def final_error_def idle_expired_def idle_watched_def Let_def)


theorem request_headers_unbroken_witness:
  "list_all (\<lambda>h. \<not> breaks_header (fst h) \<and> \<not> breaks_header (snd h)) (upstream_headers sample_upstream ''key-1'' sample_call_options)"
proof (rule request_headers_unbroken)
  show "options_validate sample_call_options ''openai'' = None" by code_simp
  show "\<not> breaks_header ''key-1''" by code_simp
  show "\<not> breaks_header (cl_APIVersion sample_upstream)" by code_simp
qed

end
