(* ===== verification/Request_Schema.thy ===== *)
theory Request_Schema
  imports Adapter_Content
begin

text \<open>
  \<^verbatim>\<open>internal/adapter/request.go\<close>: which fields of a client's request are known, and what is removed before it is
  decoded.

  The reflection over Go types is the datatype \<open>jtype\<close>: a struct with its JSON names in lower case, a slice, or
  anything that is not looked into. \<open>json.Marshal\<close> of a map lists its members by key; a map of raw messages of a valid
  document always marshals, so the error returns after it do not occur. A map is walked in the order of its list: the results
  that depend on it are sorted by the callers. \<open>findJSONField\<close> compares as \<open>strings.EqualFold\<close>, \<open>removeJSONFields\<close> and
  the known names with \<open>strings.ToLower\<close>.
\<close>

section \<open>Validation errors\<close>

record validation_error =
  ve_Code :: string
  ve_Param :: string

definition validationError :: "string \<Rightarrow> string \<Rightarrow> validation_error" where
  "validationError code param = \<lparr>ve_Code = code, ve_Param = param\<rparr>"

text \<open>The errors of a preparation: a validation error, or a plain one with a stable code.\<close>

datatype request_error = Invalid validation_error | Plain string

fun request_error_code :: "request_error \<Rightarrow> string" where
  "request_error_code (Invalid e) = ve_Code e"
| "request_error_code (Plain s) = s"

definition actionable_codes :: "string list" where
  "actionable_codes =
     [''model'', ''thinking'', ''stream_options'', ''context_management'', ''response_format'', ''output_config'', ''parallel_tool_calls'',
      ''messages'', ''tools'', ''tool_choice'', ''tool_calls'', ''tool_call_id'', ''reasoning_content'', ''max_tokens'',
      ''max_completion_tokens'', ''temperature'', ''top_p'', ''stop'', ''stop_sequences'', ''system'', ''invalid_session_id'',
      ''invalid_beta_header'', ''unsupported_request_feature'']"

fun ValidationParameter :: "request_error \<Rightarrow> string" where
  "ValidationParameter (Invalid e) = ve_Param e"
| "ValidationParameter (Plain s) = (if trim_space s \<in> set actionable_codes then trim_space s else [])"

section \<open>Types\<close>

datatype jtype = OpaqueT | StructT "(string \<times> jtype) list" | SliceT jtype

text \<open>A field with an opaque type.\<close>

definition leaves :: "string list \<Rightarrow> (string \<times> jtype) list" where
  "leaves names = map (\<lambda>n. (n, OpaqueT)) names"

definition cache_control_type :: jtype where
  "cache_control_type = StructT (leaves [''type'', ''ttl''])"

definition content_block_type :: jtype where
  "content_block_type = StructT
     ((''cache_control'', cache_control_type) #
      leaves [''type'', ''text'', ''id'', ''name'', ''input'', ''tool_use_id'', ''content'', ''is_error'', ''thinking'', ''signature'',
              ''data'', ''source'', ''citations'', ''transformations'', ''title'', ''context'', ''caller'', ''encrypted_content'',
              ''return_code'', ''stderr'', ''file_id''])"

definition function_type :: jtype where
  "function_type = StructT (leaves [''name'', ''description'', ''parameters'', ''strict''])"

definition tool_type :: jtype where
  "tool_type = StructT
     ([(''function'', function_type), (''cache_control'', cache_control_type)] @
      leaves [''type'', ''name'', ''description'', ''input_schema'', ''eager_input_streaming''])"

definition tool_call_type :: jtype where
  "tool_call_type = StructT ((''function'', StructT (leaves [''name'', ''arguments''])) # leaves [''id'', ''type''])"

definition message_type :: jtype where
  "message_type = StructT ((''tool_calls'', SliceT tool_call_type) # leaves [''role'', ''content'', ''tool_call_id'', ''reasoning_content''])"

definition response_format_type :: jtype where
  "response_format_type = StructT
     [(''type'', OpaqueT), (''json_schema'', StructT (leaves [''name'', ''description'', ''schema'', ''strict'']))]"

definition output_config_type :: jtype where
  "output_config_type = StructT [(''effort'', OpaqueT), (''format'', StructT (leaves [''type'', ''schema'']))]"

definition input_type :: jtype where
  "input_type = StructT
     ([(''stream_options'', StructT (leaves [''include_usage''])),
       (''metadata'', StructT (leaves [''user_id''])),
       (''output_config'', output_config_type),
       (''response_format'', response_format_type),
       (''tools'', SliceT tool_type),
       (''thinking'', StructT (leaves [''type'', ''budget_tokens'', ''display''])),
       (''messages'', SliceT message_type),
       (''stop_sequences'', SliceT OpaqueT)] @
      leaves [''context_management'', ''reasoning_effort'', ''user'', ''tool_choice'', ''parallel_tool_calls'', ''model'', ''stream'',
              ''max_tokens'', ''max_completion_tokens'', ''system'', ''temperature'', ''top_p'', ''stop''])"

definition openai_choice_type :: jtype where
  "openai_choice_type = StructT [(''type'', OpaqueT), (''function'', StructT (leaves [''name'']))]"

section \<open>Paths and members\<close>

definition joinJSONPath :: "string \<Rightarrow> string \<Rightarrow> string" where
  "joinJSONPath parent child = (if parent = [] then child else parent @ ''.'' @ child)"

definition index_path :: "string \<Rightarrow> nat \<Rightarrow> string" where
  "index_path path i = path @ ''['' @ show_int (int i) @ '']''"

definition findJSONField :: "(string \<times> json) list \<Rightarrow> string \<Rightarrow> (json \<times> string) option" where
  "findJSONField kvs field = map_option (\<lambda>kv. (snd kv, fst kv)) (find (\<lambda>kv. fold_key (fst kv) = field) kvs)"

definition removeJSONFields :: "text_ops \<Rightarrow> string list \<Rightarrow> (string \<times> json) list \<Rightarrow> string list \<times> (string \<times> json) list" where
  "removeJSONFields tx names kvs =
     (let gone = (\<lambda>kv. tx_lower tx (fst kv) \<in> set names)
      in (map (\<lambda>kv. tx_lower tx (fst kv)) (filter gone kvs), filter (\<lambda>kv. \<not> gone kv) kvs))"

text \<open>\<open>LenientJSON\<close> into a map of raw messages.\<close>

definition lenient_members :: "text_ops \<Rightarrow> json \<Rightarrow> (string \<times> json) list option" where
  "lenient_members tx j = (case j of JObj kvs \<Rightarrow> if unique_keys tx j then Some (last_wins kvs) else None | _ \<Rightarrow> None)"

lemma lenient_members_subset: "lenient_members tx j = Some kvs \<Longrightarrow> \<exists>all. j = JObj all \<and> set kvs \<subseteq> set all"
  using last_wins_subset by (fastforce simp: lenient_members_def split: json.splits if_splits)

lemma member_smaller: "(k :: string, v :: json) \<in> set kvs \<Longrightarrow> size v < Suc (size_list (size_prod (\<lambda>x. 0) size) kvs)"
  using member_size [of k v kvs] by simp

lemma lenient_member_smaller: "lenient_members tx j = Some kvs \<Longrightarrow> (k, v) \<in> set kvs \<Longrightarrow> size v < size j"
  using lenient_members_subset [of tx j kvs] by (auto dest!: subsetD dest: member_smaller)

lemma last_wins_smaller: "(k, v) \<in> set (last_wins kvs) \<Longrightarrow> size v < Suc (size_list (size_prod (\<lambda>x. 0) size) kvs)"
  using last_wins_subset [of kvs] by (auto dest: member_smaller)

lemma item_smaller: "i < length js \<Longrightarrow> size (js ! i) < Suc (size_list size js)"
  by (metis less_Suc_eq_le nth_mem order_refl size_list_estimation')

section \<open>Unknown fields\<close>

function collectUnknownFields :: "text_ops \<Rightarrow> json \<Rightarrow> jtype \<Rightarrow> string \<Rightarrow> string list" where
  "collectUnknownFields tx j (StructT fs) path =
     (case j of
        JObj kvs \<Rightarrow>
          concat (map (\<lambda>kv. let at_path = joinJSONPath path (fst kv) in
            (case map_of fs (tx_lower tx (fst kv)) of
               None \<Rightarrow> [at_path]
             | Some ty \<Rightarrow> collectUnknownFields tx (snd kv) ty at_path)) (last_wins kvs))
      | _ \<Rightarrow> [])"
| "collectUnknownFields tx j (SliceT ty) path =
     (case j of
        JArr js \<Rightarrow> concat (map (\<lambda>ij. collectUnknownFields tx (snd ij) ty (index_path path (fst ij))) (enumerate 0 js))
      | _ \<Rightarrow> [])"
| "collectUnknownFields tx j OpaqueT path = []"
  by pat_completeness auto
termination
  by (relation "measure (\<lambda>(tx, j, ty, path). size j)")
    (auto dest: last_wins_smaller simp: in_set_enumerate_eq item_smaller)

text \<open>The members of a struct after their own pruning; an unknown one leaves only its path.\<close>

definition kept_members :: "((string \<times> json) option \<times> string list) list \<Rightarrow> json \<times> string list" where
  "kept_members rs = (map_json (List.map_filter fst rs), concat (map snd rs))"

function pruneUnknownJSONFields :: "text_ops \<Rightarrow> json \<Rightarrow> jtype \<Rightarrow> string \<Rightarrow> json \<times> string list" where
  "pruneUnknownJSONFields tx j (StructT fs) path =
     (case lenient_members tx j of
        None \<Rightarrow> (j, [])
      | Some kvs \<Rightarrow>
          kept_members (map (\<lambda>kv. let at_path = joinJSONPath path (fst kv) in
            (case map_of fs (tx_lower tx (fst kv)) of
               None \<Rightarrow> (None, [at_path])
             | Some ty \<Rightarrow>
                 (let (c, paths) = pruneUnknownJSONFields tx (snd kv) ty at_path in (Some (fst kv, c), paths)))) kvs))"
| "pruneUnknownJSONFields tx j (SliceT ty) path =
     (case j of
        JArr js \<Rightarrow>
          (let rs = map (\<lambda>ij. pruneUnknownJSONFields tx (snd ij) ty (index_path path (fst ij))) (enumerate 0 js)
           in (JArr (map fst rs), concat (map snd rs)))
      | _ \<Rightarrow> (j, []))"
| "pruneUnknownJSONFields tx j OpaqueT path = (j, [])"
  by pat_completeness auto
termination
  by (relation "measure (\<lambda>(tx, j, ty, path). size j)")
    (auto dest: lenient_member_smaller simp: in_set_enumerate_eq item_smaller)

section \<open>Depth\<close>

text \<open>Pruning and removing never make a value deeper; the walk through nested blocks ends by it.\<close>

fun depth :: "json \<Rightarrow> nat" where
  "depth (JObj kvs) = Suc (foldr max (map (\<lambda>kv. depth (snd kv)) kvs) 0)"
| "depth (JArr js) = Suc (foldr max (map depth js) 0)"
| "depth _ = 0"

lemma foldr_max_le: "foldr max ns 0 \<le> (n::nat) \<longleftrightarrow> (\<forall>m\<in>set ns. m \<le> n)"
  by (induction ns) auto

lemma depth_obj: "depth (JObj kvs) \<le> Suc n \<longleftrightarrow> (\<forall>kv\<in>set kvs. depth (snd kv) \<le> n)"
  by (simp add: foldr_max_le)

lemma depth_arr: "depth (JArr js) \<le> Suc n \<longleftrightarrow> (\<forall>j\<in>set js. depth j \<le> n)"
  by (simp add: foldr_max_le)

lemma depth_member: "(k, v) \<in> set kvs \<Longrightarrow> depth v < depth (JObj kvs)"
  using depth_obj [of kvs "foldr max (map (\<lambda>kv. depth (snd kv)) kvs) 0"] by fastforce

lemma depth_item: "j \<in> set js \<Longrightarrow> depth j < depth (JArr js)"
  using depth_arr [of js "foldr max (map depth js) 0"] by (fastforce simp: less_Suc_eq_le)

lemma depth_map_json:
  assumes "\<And>k v. (k, v) \<in> set kvs \<Longrightarrow> depth v < depth j" and "0 < depth j"
  shows "depth (map_json kvs) \<le> depth j"
proof -
  from assms(2) obtain n where n: "depth j = Suc n" by (cases "depth j") auto
  have "depth v \<le> n" if "(k, v) \<in> set (last_wins kvs)" for k v
    using assms(1) [of k v] that last_wins_subset [of kvs] n by auto
  then show ?thesis by (auto simp: map_json_def n depth_obj simp del: depth.simps)
qed

lemma map_filter_member: "y \<in> set (List.map_filter f xs) \<Longrightarrow> \<exists>x\<in>set xs. f x = Some y"
  by (induction xs) (auto simp: List.map_filter_simps split: option.splits)

lemma lenient_member_depth: "lenient_members tx j = Some kvs \<Longrightarrow> (k, v) \<in> set kvs \<Longrightarrow> depth v < depth j"
  using lenient_members_subset [of tx j kvs] depth_member by (auto simp del: depth.simps)

lemma lenient_depth: "lenient_members tx j = Some kvs \<Longrightarrow> 0 < depth j"
  by (auto simp: lenient_members_def split: json.splits)

lemma prune_depth: "depth (fst (pruneUnknownJSONFields tx j ty path)) \<le> depth j"
proof (induction tx j ty path rule: pruneUnknownJSONFields.induct)
  case (1 tx j fs path)
  show ?case
  proof (cases "lenient_members tx j")
    case (Some kvs)
    note smaller = lenient_member_depth [OF Some]
    have "depth v < depth j" if
      "(k, v) \<in> set (List.map_filter fst (map (\<lambda>kv. let at_path = joinJSONPath path (fst kv) in
            (case map_of fs (tx_lower tx (fst kv)) of
               None \<Rightarrow> (None, [at_path])
             | Some ty \<Rightarrow>
                 (let (c, paths) = pruneUnknownJSONFields tx (snd kv) ty at_path in (Some (fst kv, c), paths)))) kvs))" for k v
    proof -
      from map_filter_member [OF that] obtain kv ty where kv: "kv \<in> set kvs" and ty: "map_of fs (tx_lower tx (fst kv)) = Some ty"
        and v: "v = fst (pruneUnknownJSONFields tx (snd kv) ty (joinJSONPath path (fst kv)))"
        by (fastforce simp: Let_def split: option.splits prod.splits)
      from "1.IH" [OF Some kv refl ty] v have "depth v \<le> depth (snd kv)" by simp
      also from kv smaller [of "fst kv" "snd kv"] have "\<dots> < depth j" by simp
      finally show ?thesis .
    qed
    from depth_map_json [OF this lenient_depth [OF Some]] Some show ?thesis by (simp add: kept_members_def)
  qed simp
next
  case (2 tx j ty path)
  show ?case
  proof (cases j)
    case (JArr js)
    have "depth (fst (pruneUnknownJSONFields tx x ty (index_path path i))) < depth j" if "(i, x) \<in> set (enumerate 0 js)" for i x
    proof -
      from that have "depth x < depth j" unfolding JArr by (auto simp: in_set_enumerate_eq simp del: depth.simps intro: depth_item)
      with "2.IH" [OF JArr that] show ?thesis by simp
    qed
    moreover obtain n where "depth j = Suc n" using JArr by simp
    ultimately show ?thesis using JArr
      by (auto simp: depth_arr less_Suc_eq_le Let_def simp del: depth.simps)
  qed simp_all
qed simp

section \<open>Content blocks\<close>

text \<open>One block without \<open>cache_control\<close> (in the OpenAI protocol) and without the fields no content block has.\<close>

definition drop_cache_control :: "text_ops \<Rightarrow> string \<Rightarrow> json \<Rightarrow> string \<Rightarrow> json \<times> string list" where
  "drop_cache_control tx protocol j path =
     (case lenient_members tx j of
        Some kvs \<Rightarrow>
          if protocol = ''openai''
          then (let (removed, rest) = removeJSONFields tx [''cache_control''] kvs
                in (map_json rest, map (\<lambda>f. path @ ''.'' @ f) removed))
          else (j, [])
      | None \<Rightarrow> (j, []))"

definition clean_block :: "text_ops \<Rightarrow> string \<Rightarrow> json \<Rightarrow> string \<Rightarrow> json \<times> string list" where
  "clean_block tx protocol j path =
     (let (filtered, fields) = drop_cache_control tx protocol j path;
          (cleaned, paths) = pruneUnknownJSONFields tx filtered content_block_type path
      in (cleaned, fields @ paths))"

definition string_member :: "string \<Rightarrow> (string \<times> json) list \<Rightarrow> string" where
  "string_member field kvs = (case findJSONField kvs field of Some (JStr s, _) \<Rightarrow> s | _ \<Rightarrow> [])"

definition nested_content :: "(string \<times> json) list \<Rightarrow> (json \<times> string) option" where
  "nested_content kvs = (if string_member ''type'' kvs = ''tool_result'' then findJSONField kvs ''content'' else None)"

lemma find_member: "findJSONField kvs field = Some (v, k) \<Longrightarrow> (k, v) \<in> set kvs"
  by (auto simp: findJSONField_def find_Some_iff)

lemma drop_depth: "depth (fst (drop_cache_control tx protocol j path)) \<le> depth j"
proof (cases "lenient_members tx j")
  case (Some kvs)
  have "depth (map_json (snd (removeJSONFields tx names kvs))) \<le> depth j" for names
    by (rule depth_map_json) (auto simp: removeJSONFields_def lenient_depth [OF Some] intro: lenient_member_depth [OF Some])
  with Some show ?thesis by (simp add: drop_cache_control_def split: prod.splits) (metis snd_conv)
qed (simp add: drop_cache_control_def)

lemma clean_depth: "depth (fst (clean_block tx protocol j path)) \<le> depth j"
proof -
  have "fst (clean_block tx protocol j path) =
      fst (pruneUnknownJSONFields tx (fst (drop_cache_control tx protocol j path)) content_block_type path)"
    by (simp add: clean_block_def case_prod_unfold Let_def)
  with drop_depth [of tx protocol j path] prune_depth [of tx "fst (drop_cache_control tx protocol j path)" content_block_type path]
  show ?thesis by simp
qed

lemma nested_depth:
  assumes "lenient_members tx (fst (clean_block tx protocol j path)) = Some kvs" and "nested_content kvs = Some (c, k)"
  shows "depth c < depth j"
proof -
  from assms(2) have "(k, c) \<in> set kvs" by (auto simp: nested_content_def dest: find_member split: if_splits)
  from lenient_member_depth [OF assms(1) this] clean_depth [of tx protocol j path] show ?thesis by simp
qed

function sanitizeContentBlocks :: "text_ops \<Rightarrow> string \<Rightarrow> json \<Rightarrow> string \<Rightarrow> json \<times> string list" where
  "sanitizeContentBlocks tx protocol j path =
     (case j of
        JArr js \<Rightarrow>
          (let rs = map (\<lambda>ij.
                 let block_path = index_path path (fst ij) in
                 (case lenient_members tx (fst (clean_block tx protocol (snd ij) block_path)) of
                    None \<Rightarrow> (snd ij, snd (clean_block tx protocol (snd ij) block_path))
                  | Some kvs \<Rightarrow>
                      (case nested_content kvs of
                         None \<Rightarrow> (map_json kvs, snd (clean_block tx protocol (snd ij) block_path))
                       | Some (content, key) \<Rightarrow>
                           (let (nested, fields) = sanitizeContentBlocks tx protocol content (block_path @ ''.content'')
                            in (map_json (map_put key nested kvs), snd (clean_block tx protocol (snd ij) block_path) @ fields)))))
               (enumerate 0 js)
           in (JArr (map fst rs), concat (map snd rs)))
      | _ \<Rightarrow> (j, []))"
  by pat_completeness auto
termination
proof (relation "measure (\<lambda>(tx, protocol, j, path). depth j)", goal_cases)
  case 1
  show ?case by simp
next
  case (2 tx protocol j path js ij block_path kvs ck content key)
  from 2(2) have "depth (snd ij) < depth (JArr js)" by (intro depth_item) (auto simp: in_set_enumerate_eq dest: nth_mem)
  with 2 nested_depth [of tx protocol "snd ij" block_path kvs content key] show ?case by (simp del: depth.simps)
qed

declare sanitizeContentBlocks.simps [simp del]

text \<open>The elements of an array with their index; \<open>f\<close> gives the new element and the paths of what it removed.\<close>

definition over_items :: "(nat \<Rightarrow> json \<Rightarrow> json \<times> string list) \<Rightarrow> json \<Rightarrow> json \<times> string list" where
  "over_items f j =
     (case j of
        JArr js \<Rightarrow> (let rs = map (\<lambda>ij. f (fst ij) (snd ij)) (enumerate 0 js) in (JArr (map fst rs), concat (map snd rs)))
      | _ \<Rightarrow> (j, []))"

text \<open>A member of an object found by name and replaced.\<close>

definition over_member ::
  "string \<Rightarrow> (json \<Rightarrow> json \<times> string list) \<Rightarrow> (string \<times> json) list \<Rightarrow> (string \<times> json) list \<times> string list"
where
  "over_member field f kvs =
     (case findJSONField kvs field of
        None \<Rightarrow> (kvs, [])
      | Some (v, key) \<Rightarrow> (let (w, paths) = f v in (map_put key w kvs, paths)))"

definition message_path :: "nat \<Rightarrow> string" where
  "message_path i = index_path ''messages'' i"

definition sanitize_message :: "text_ops \<Rightarrow> string \<Rightarrow> nat \<Rightarrow> json \<Rightarrow> json \<times> string list" where
  "sanitize_message tx protocol i item =
     (case lenient_members tx item of
        None \<Rightarrow> (item, [])
      | Some kvs \<Rightarrow>
          if findJSONField kvs ''content'' = None then (item, [])
          else
            (let (kvs1, paths) = over_member ''content''
                   (\<lambda>c. sanitizeContentBlocks tx protocol c (message_path i @ ''.content'')) kvs
             in (map_json kvs1, paths)))"

definition sanitizeRequestContent ::
  "text_ops \<Rightarrow> string \<Rightarrow> (string \<times> json) list \<Rightarrow> (string \<times> json) list \<times> string list"
where
  "sanitizeRequestContent tx protocol kvs =
     (let (kvs1, paths1) = (if protocol = ''anthropic''
                            then over_member ''system'' (\<lambda>c. sanitizeContentBlocks tx protocol c ''system'') kvs else (kvs, []));
          (kvs2, paths2) = over_member ''messages'' (over_items (sanitize_message tx protocol)) kvs1
      in (kvs2, paths1 @ paths2))"

section \<open>Fields of the other protocol\<close>

definition foreign_fields :: "string \<Rightarrow> string list" where
  "foreign_fields protocol =
     (if protocol = ''openai'' then [''system'', ''stop_sequences'', ''metadata'', ''output_config'', ''context_management'']
      else if protocol = ''anthropic''
      then [''user'', ''stream_options'', ''response_format'', ''reasoning_effort'', ''parallel_tool_calls'', ''max_completion_tokens'', ''stop'']
      else [])"

definition foreign_message_fields :: "string list" where
  "foreign_message_fields = [''tool_calls'', ''tool_call_id'', ''reasoning_content'']"

definition strip_message :: "text_ops \<Rightarrow> nat \<Rightarrow> json \<Rightarrow> json \<times> string list" where
  "strip_message tx i item =
     (case lenient_members tx item of
        None \<Rightarrow> (item, [])
      | Some kvs \<Rightarrow>
          (let (removed, rest) = removeJSONFields tx foreign_message_fields kvs
           in (map_json rest, map (\<lambda>f. message_path i @ ''.'' @ f) removed)))"

text \<open>\<open>None\<close>: the document is no object, or has a key twice.\<close>

definition discardForeignProtocolFields :: "text_ops \<Rightarrow> string \<Rightarrow> json option \<Rightarrow> (json \<times> string list) option" where
  "discardForeignProtocolFields tx protocol data =
     (case Option.bind data (lenient_members tx) of
        None \<Rightarrow> None
      | Some kvs \<Rightarrow>
          (let (removed, kvs1) = removeJSONFields tx (foreign_fields protocol) kvs;
               (kvs2, choice_paths) =
                 (if protocol = ''openai''
                  then over_member ''tool_choice'' (\<lambda>c. pruneUnknownJSONFields tx c openai_choice_type ''tool_choice'') kvs1
                  else (kvs1, []));
               (kvs3, content_paths) = (if protocol = ''openai'' then sanitizeRequestContent tx protocol kvs2 else (kvs2, []));
               (kvs4, message_paths) =
                 (if protocol = ''anthropic'' then over_member ''messages'' (over_items (strip_message tx)) kvs3 else (kvs3, []))
           in Some (map_json kvs4, sortedUniqueStrings (removed @ choice_paths @ content_paths @ message_paths))))"

text \<open>The fields of a provider-hosted tool are passed on by the Anthropic protocol and are not reported.\<close>

definition preserved_field :: "tool list \<Rightarrow> string \<Rightarrow> bool" where
  "preserved_field tools field \<longleftrightarrow>
     list_ex (\<lambda>it. tl_Type (snd it) \<noteq> [] \<and> tl_Type (snd it) \<noteq> ''custom'' \<and> has_prefix field (index_path ''tools'' (fst it) @ ''.''))
       (enumerate 0 tools)"

definition ignoredRequestFields :: "text_ops \<Rightarrow> string \<Rightarrow> json option \<Rightarrow> tool list \<Rightarrow> string list" where
  "ignoredRequestFields tx protocol data tools =
     (case data of
        None \<Rightarrow> []
      | Some j \<Rightarrow>
          (let fields = collectUnknownFields tx j input_type [];
               reported = (if protocol = ''anthropic'' then filter (\<lambda>f. \<not> preserved_field tools f) fields else fields);
               eager = map (\<lambda>it. index_path ''tools'' (fst it) @ ''.eager_input_streaming'')
                         (filter (\<lambda>it. tl_EagerInputStreaming (snd it) \<noteq> None) (enumerate 0 tools))
           in sortedUniqueStrings (reported @ eager)))"

section \<open>Foreign fields are gone\<close>

lemma last_wins_distinct: "map_wf kvs \<Longrightarrow> last_wins kvs = kvs"
  by (induction kvs) (auto simp: map_wf_def)

lemma lenient_wf:
  assumes "lenient_members tx j = Some kvs"
  shows "j = JObj kvs \<and> map_wf kvs"
proof -
  from assms obtain all where all: "j = JObj all" "distinct (map (\<lambda>kv. tx_lower tx (fst kv)) all)" "kvs = last_wins all"
    by (auto simp: lenient_members_def split: json.splits if_splits)
  from all(2) have "distinct (map (tx_lower tx) (map fst all))" by (simp add: comp_def)
  then have "map_wf all" unfolding map_wf_def by (simp only: distinct_map)
  with all show ?thesis by (simp add: last_wins_distinct)
qed

lemma map_json_lookup:
  assumes "map_wf kvs"
  shows "\<exists>out. map_json kvs = JObj out \<and> map_wf out \<and> set out = set kvs \<and> (\<forall>k. map_of out k = map_of kvs k)"
proof -
  let ?out = "sort_key fst kvs"
  have wf: "map_wf ?out" using assms by (simp add: map_wf_def distinct_map)
  have "map_of ?out k = map_of kvs k" for k
    by (rule option.expand, rule iffI)
      (use wf assms in \<open>auto simp: map_of_eq_None_iff map_wf_def map_of_eq_Some_iff\<close>)
  with wf assms show ?thesis by (simp add: map_json_def last_wins_distinct)
qed

lemma remove_fields_lookup:
  assumes "map_wf kvs" and "removeJSONFields tx names kvs = (removed, rest)"
  shows "map_wf rest \<and> set removed = tx_lower tx ` fst ` set kvs \<inter> set names \<and>
    (\<forall>kv\<in>set rest. tx_lower tx (fst kv) \<notin> set names) \<and> (\<forall>k. tx_lower tx k \<notin> set names \<longrightarrow> map_of rest k = map_of kvs k)"
proof -
  from assms(2) have rest: "rest = filter (\<lambda>kv. tx_lower tx (fst kv) \<notin> set names) kvs"
    and removed: "removed = map (\<lambda>kv. tx_lower tx (fst kv)) (filter (\<lambda>kv. tx_lower tx (fst kv) \<in> set names) kvs)"
    by (simp_all add: removeJSONFields_def Let_def)
  have "map_of rest k = map_of kvs k" if "tx_lower tx k \<notin> set names" for k
    using that unfolding rest by (induction kvs) auto
  with assms(1) show ?thesis
    by (auto simp: rest removed map_wf_def distinct_map_filter)
qed

lemma put_keys: "fst ` set (map_put k v m) = insert k (fst ` set m)"
  by (induction m) (auto simp: map_put_def)

lemma over_member_lookup:
  assumes "over_member field f kvs = (out, paths)"
  shows "(map_wf kvs \<longrightarrow> map_wf out) \<and> fst ` set out = fst ` set kvs \<and> (\<forall>k. fold_key k \<noteq> field \<longrightarrow> map_of out k = map_of kvs k)"
proof (cases "findJSONField kvs field")
  case (Some vk)
  obtain v key where vk: "vk = (v, key)" by (cases vk)
  obtain w ps where f: "f v = (w, ps)" by (cases "f v")
  from Some vk f assms have out: "out = map_put key w kvs" by (simp add: over_member_def)
  from Some vk have member: "(key, v) \<in> set kvs" by (simp add: find_member)
  from Some vk obtain kv where "find (\<lambda>kv. fold_key (fst kv) = field) kvs = Some kv" and "key = fst kv"
    by (auto simp: findJSONField_def)
  then have folded: "fold_key key = field" by (auto simp: find_Some_iff)
  have "fst ` set (map_put key w kvs) = insert key (fst ` set kvs)"
    by (rule put_keys)
  also have "\<dots> = fst ` set kvs" using member by force
  finally have keys: "fst ` set out = fst ` set kvs" unfolding out .
  have "map_of out k = map_of kvs k" if "fold_key k \<noteq> field" for k
  proof -
    from that folded have "k \<noteq> key" by blast
    then show ?thesis by (simp add: out lookup_put)
  qed
  with keys show ?thesis by (simp add: out)
qed (use assms in \<open>simp add: over_member_def\<close>)

lemma sanitize_request_lookup:
  assumes "sanitizeRequestContent tx ''openai'' kvs = (out, paths)"
  shows "(map_wf kvs \<longrightarrow> map_wf out) \<and> fst ` set out = fst ` set kvs \<and> (\<forall>k. fold_key k \<noteq> ''messages'' \<longrightarrow> map_of out k = map_of kvs k)"
  using assms over_member_lookup [of "''messages''" "over_items (sanitize_message tx ''openai'')" kvs]
  by (auto simp: sanitizeRequestContent_def split: prod.splits)


definition sample_lower :: text_ops where
  "sample_lower = \<lparr>tx_upper = map to_upper, tx_lower = map to_lower, tx_hostname = (\<lambda>s. None)\<rparr>"

definition sample_request :: json where
  "sample_request = JObj
     [(''model'', JStr ''m''), (''System'', JStr ''s''), (''messages'', JArr [JObj [(''role'', JStr ''user''), (''content'',
        JArr [JObj [(''type'', JStr ''text''), (''text'', JStr ''t''), (''cache_control'', JNull), (''x'', JNull)]])]])]"

lemma sample_discard:
  "discardForeignProtocolFields sample_lower ''openai'' (Some sample_request) =
     Some (JObj
       [(''messages'', JArr [JObj [(''content'', JArr [JObj [(''text'', JStr ''t''), (''type'', JStr ''text'')]]), (''role'', JStr ''user'')]]),
        (''model'', JStr ''m'')],
      [''messages[0].content[0].cache_control'', ''messages[0].content[0].x'', ''system''])"
  by code_simp


end
