(* ===== verification/Request_Input.thy ===== *)
theory Request_Input
  imports Request_Schema Stream_Translation
begin

text \<open>
  A client's request (\<open>Input\<close> and \<open>RequestWithWarnings\<close> of \<^verbatim>\<open>internal/adapter/protocol.go\<close>): its fields, how they are
  decoded and marshalled, and every check of both protocols in the order of the code.

  A struct is a record with a decoder and a list of members, each with its name and what \<open>json.Marshal\<close> writes for it (\<open>None\<close>:
  the member is omitted). \<open>number_ops\<close> is the library's conversion between number literals and floats;
  \<open>nu_errorField\<close> is the field that its type error names, \<open>nu_marshalError\<close> the text of the error for a raw message that is
  no JSON, and \<open>nu_wide\<close> says whether \<open>strconv.Quote\<close> writes the non-ASCII runes of a text in a way JSON can read.
\<close>

record number_ops =
  nu_parse :: "string \<Rightarrow> float64 option"
  nu_show :: "float64 \<Rightarrow> string"
  nu_errorField :: "json \<Rightarrow> string"
  nu_marshalError :: string
  nu_wide :: "string \<Rightarrow> bool"

fun dec_float :: "number_ops \<Rightarrow> float64 decoder" where
  "dec_float nu cur (JNum lit) = nu_parse nu lit"
| "dec_float nu cur JNull = Some cur"
| "dec_float nu cur _ = None"

section \<open>Marshalling structs\<close>

type_synonym 'b member_encoder = "string \<times> ('b \<Rightarrow> json option)"

definition struct_members :: "'b member_encoder list \<Rightarrow> 'b \<Rightarrow> (string \<times> json) list" where
  "struct_members ms b = List.map_filter (\<lambda>m. map_option (Pair (fst m)) (snd m b)) ms"

definition struct_json :: "'b member_encoder list \<Rightarrow> 'b \<Rightarrow> json" where
  "struct_json ms b = JObj (struct_members ms b)"

text \<open>\<open>omitempty\<close> of a string, a slice and a boolean; a pointer and a raw message are omitted when nil.\<close>

definition enc_text :: "string \<Rightarrow> json option" where
  "enc_text s = (if s = [] then None else Some (JStr s))"

definition enc_items :: "('a \<Rightarrow> json) \<Rightarrow> 'a list \<Rightarrow> json option" where
  "enc_items f xs = (if xs = [] then None else Some (JArr (map f xs)))"

definition enc_flag :: "bool \<Rightarrow> json option" where
  "enc_flag b = (if b then Some (JBool True) else None)"

definition raw_json :: "json option \<Rightarrow> json" where
  "raw_json raw = (case raw of None \<Rightarrow> JNull | Some j \<Rightarrow> j)"

section \<open>The structs\<close>

record thinking =
  th_Type :: string
  th_BudgetTokens :: "int option"
  th_Display :: string

definition zero_thinking :: thinking where
  "zero_thinking = \<lparr>th_Type = [], th_BudgetTokens = None, th_Display = []\<rparr>"

definition dec_thinking :: "thinking decoder" where
  "dec_thinking = dec_struct (dec_all
     [dec_into ''type'' dec_string th_Type (\<lambda>v b. b\<lparr>th_Type := v\<rparr>),
      dec_into ''budget_tokens'' (dec_ptr 0 dec_int) th_BudgetTokens (\<lambda>v b. b\<lparr>th_BudgetTokens := v\<rparr>),
      dec_into ''display'' dec_string th_Display (\<lambda>v b. b\<lparr>th_Display := v\<rparr>)])"

definition thinking_members :: "thinking member_encoder list" where
  "thinking_members =
     [(''type'', \<lambda>t. Some (JStr (th_Type t))), (''budget_tokens'', \<lambda>t. map_option json_int (th_BudgetTokens t)),
      (''display'', \<lambda>t. enc_text (th_Display t))]"

definition dec_stream_options :: "bool decoder" where
  "dec_stream_options = dec_struct (\<lambda>kvs b. dec_member ''include_usage'' dec_bool b kvs)"

definition stream_options_members :: "bool member_encoder list" where
  "stream_options_members = [(''include_usage'', \<lambda>b. Some (JBool b))]"

record output_format =
  of_Type :: string
  of_Schema :: "json option"

definition zero_format :: output_format where
  "zero_format = \<lparr>of_Type = [], of_Schema = None\<rparr>"

definition dec_output_format :: "output_format decoder" where
  "dec_output_format = dec_struct (dec_all
     [dec_into ''type'' dec_string of_Type (\<lambda>v b. b\<lparr>of_Type := v\<rparr>),
      dec_into ''schema'' dec_raw of_Schema (\<lambda>v b. b\<lparr>of_Schema := v\<rparr>)])"

definition output_format_members :: "output_format member_encoder list" where
  "output_format_members = [(''type'', \<lambda>f. Some (JStr (of_Type f))), (''schema'', of_Schema)]"

record output_config =
  oc_Effort :: string
  oc_Format :: "output_format option"

definition zero_output_config :: output_config where
  "zero_output_config = \<lparr>oc_Effort = [], oc_Format = None\<rparr>"

definition dec_output_config :: "output_config decoder" where
  "dec_output_config = dec_struct (dec_all
     [dec_into ''effort'' dec_string oc_Effort (\<lambda>v b. b\<lparr>oc_Effort := v\<rparr>),
      dec_into ''format'' (dec_ptr zero_format dec_output_format) oc_Format (\<lambda>v b. b\<lparr>oc_Format := v\<rparr>)])"

definition output_config_members :: "output_config member_encoder list" where
  "output_config_members =
     [(''effort'', \<lambda>c. enc_text (oc_Effort c)), (''format'', \<lambda>c. map_option (struct_json output_format_members) (oc_Format c))]"

record json_schema =
  js_Name :: string
  js_Description :: string
  js_Schema :: "json option"
  js_Strict :: "bool option"

definition zero_schema :: json_schema where
  "zero_schema = \<lparr>js_Name = [], js_Description = [], js_Schema = None, js_Strict = None\<rparr>"

definition dec_json_schema :: "json_schema decoder" where
  "dec_json_schema = dec_struct (dec_all
     [dec_into ''name'' dec_string js_Name (\<lambda>v b. b\<lparr>js_Name := v\<rparr>),
      dec_into ''description'' dec_string js_Description (\<lambda>v b. b\<lparr>js_Description := v\<rparr>),
      dec_into ''schema'' dec_raw js_Schema (\<lambda>v b. b\<lparr>js_Schema := v\<rparr>),
      dec_into ''strict'' (dec_ptr False dec_bool) js_Strict (\<lambda>v b. b\<lparr>js_Strict := v\<rparr>)])"

definition json_schema_members :: "json_schema member_encoder list" where
  "json_schema_members =
     [(''name'', \<lambda>s. Some (JStr (js_Name s))), (''description'', \<lambda>s. enc_text (js_Description s)),
      (''schema'', \<lambda>s. Some (raw_json (js_Schema s))), (''strict'', \<lambda>s. map_option JBool (js_Strict s))]"

record response_format =
  rf_Type :: string
  rf_JSONSchema :: "json_schema option"

definition zero_response_format :: response_format where
  "zero_response_format = \<lparr>rf_Type = [], rf_JSONSchema = None\<rparr>"

definition dec_response_format :: "response_format decoder" where
  "dec_response_format = dec_struct (dec_all
     [dec_into ''type'' dec_string rf_Type (\<lambda>v b. b\<lparr>rf_Type := v\<rparr>),
      dec_into ''json_schema'' (dec_ptr zero_schema dec_json_schema) rf_JSONSchema (\<lambda>v b. b\<lparr>rf_JSONSchema := v\<rparr>)])"

definition response_format_members :: "response_format member_encoder list" where
  "response_format_members =
     [(''type'', \<lambda>f. Some (JStr (rf_Type f))), (''json_schema'', \<lambda>f. map_option (struct_json json_schema_members) (rf_JSONSchema f))]"

text \<open>\<open>Metadata\<close> is its only field.\<close>

definition dec_metadata :: "string decoder" where
  "dec_metadata = dec_struct (\<lambda>kvs s. dec_member ''user_id'' dec_string s kvs)"

definition metadata_members :: "string member_encoder list" where
  "metadata_members = [(''user_id'', enc_text)]"

definition cache_control_members :: "cache_control member_encoder list" where
  "cache_control_members = [(''type'', \<lambda>c. Some (JStr (cc_Type c))), (''ttl'', \<lambda>c. enc_text (cc_TTL c))]"

definition function_members :: "tool_function member_encoder list" where
  "function_members =
     [(''name'', \<lambda>f. Some (JStr (tf_Name f))), (''description'', \<lambda>f. enc_text (tf_Description f)),
      (''parameters'', tf_Parameters), (''strict'', \<lambda>f. map_option JBool (tf_Strict f))]"

definition tool_members :: "tool member_encoder list" where
  "tool_members =
     [(''type'', \<lambda>t. enc_text (tl_Type t)), (''function'', \<lambda>t. map_option (struct_json function_members) (tl_Function t)),
      (''name'', \<lambda>t. enc_text (tl_Name t)), (''description'', \<lambda>t. enc_text (tl_Description t)), (''input_schema'', tl_InputSchema),
      (''cache_control'', \<lambda>t. map_option (struct_json cache_control_members) (tl_CacheControl t)),
      (''eager_input_streaming'', \<lambda>t. map_option JBool (tl_EagerInputStreaming t))]"

text \<open>\<open>Tool.MarshalJSON\<close>: a provider-hosted tool keeps the members no field has.\<close>

definition tool_json :: "tool \<Rightarrow> json" where
  "tool_json t =
     (if tl_Type t = [] \<or> tl_Type t = ''custom'' \<or> tl_Extensions t = [] then struct_json tool_members t
      else
        (let kvs = struct_members tool_members t
         in map_json (kvs @ filter (\<lambda>kv. fst kv \<notin> set (map fst kvs)) (tl_Extensions t))))"

definition call_members :: "tool_call member_encoder list" where
  "call_members =
     [(''id'', \<lambda>c. Some (JStr (tc_ID c))), (''type'', \<lambda>c. Some (JStr (tc_Type c))),
      (''function'', \<lambda>c. Some (JObj [(''name'', JStr (tc_Name c)), (''arguments'', JStr (tc_Arguments c))]))]"

record message =
  ms_Role :: string
  ms_Content :: "json option"
  ms_ToolCalls :: "tool_call list"
  ms_ToolCallID :: string
  ms_ReasoningContent :: "string option"

definition zero_input_message :: message where
  "zero_input_message = \<lparr>ms_Role = [], ms_Content = None, ms_ToolCalls = [], ms_ToolCallID = [], ms_ReasoningContent = None\<rparr>"

definition dec_input_message :: "message decoder" where
  "dec_input_message = dec_struct (dec_all
     [dec_into ''role'' dec_string ms_Role (\<lambda>v b. b\<lparr>ms_Role := v\<rparr>),
      dec_into ''content'' dec_raw ms_Content (\<lambda>v b. b\<lparr>ms_Content := v\<rparr>),
      dec_into ''tool_calls'' (dec_list zero_call dec_call) ms_ToolCalls (\<lambda>v b. b\<lparr>ms_ToolCalls := v\<rparr>),
      dec_into ''tool_call_id'' dec_string ms_ToolCallID (\<lambda>v b. b\<lparr>ms_ToolCallID := v\<rparr>),
      dec_into ''reasoning_content'' (dec_ptr [] dec_string) ms_ReasoningContent (\<lambda>v b. b\<lparr>ms_ReasoningContent := v\<rparr>)])"

definition message_members :: "message member_encoder list" where
  "message_members =
     [(''role'', \<lambda>m. Some (JStr (ms_Role m))), (''content'', \<lambda>m. Some (raw_json (ms_Content m))),
      (''tool_calls'', \<lambda>m. enc_items (struct_json call_members) (ms_ToolCalls m)),
      (''tool_call_id'', \<lambda>m. enc_text (ms_ToolCallID m)), (''reasoning_content'', \<lambda>m. map_option JStr (ms_ReasoningContent m))]"

section \<open>The request\<close>

definition float_json :: "number_ops \<Rightarrow> float64 \<Rightarrow> json" where
  "float_json nu f = JNum (nu_show nu f)"

record input =
  in_ContextManagement :: "json option"
  in_StreamOptions :: "bool option"
  in_Metadata :: "string option"
  in_OutputConfig :: "output_config option"
  in_ResponseFormat :: "response_format option"
  in_ReasoningEffort :: string
  in_User :: string
  in_Tools :: "tool list"
  in_ToolChoice :: "json option"
  in_ParallelToolCalls :: "bool option"
  in_Thinking :: "thinking option"
  in_Model :: string
  in_Messages :: "message list"
  in_Stream :: bool
  in_MaxTokens :: "int option"
  in_MaxCompletionTokens :: "int option"
  in_System :: "json option"
  in_Temperature :: "float64 option"
  in_TopP :: "float64 option"
  in_Stop :: "json option"
  in_StopSequences :: "string list"

definition zero_input :: input where
  "zero_input = \<lparr>in_ContextManagement = None, in_StreamOptions = None, in_Metadata = None, in_OutputConfig =
     None, in_ResponseFormat = None, in_ReasoningEffort = [], in_User = [], in_Tools = [], in_ToolChoice = None,
     in_ParallelToolCalls = None, in_Thinking = None, in_Model = [], in_Messages = [], in_Stream = False, in_MaxTokens =
     None, in_MaxCompletionTokens = None, in_System = None, in_Temperature = None, in_TopP = None, in_Stop = None,
     in_StopSequences = []\<rparr>"

definition dec_input :: "text_ops \<Rightarrow> number_ops \<Rightarrow> input decoder" where
  "dec_input tx nu = dec_struct (dec_all
     [dec_into ''context_management'' dec_raw in_ContextManagement (\<lambda>v b. b\<lparr>in_ContextManagement := v\<rparr>),
      dec_into ''stream_options'' (dec_ptr False dec_stream_options) in_StreamOptions (\<lambda>v b. b\<lparr>in_StreamOptions := v\<rparr>),
      dec_into ''metadata'' (dec_ptr [] dec_metadata) in_Metadata (\<lambda>v b. b\<lparr>in_Metadata := v\<rparr>),
      dec_into ''output_config'' (dec_ptr zero_output_config dec_output_config) in_OutputConfig (\<lambda>v b. b\<lparr>in_OutputConfig := v\<rparr>),
      dec_into ''response_format'' (dec_ptr zero_response_format dec_response_format) in_ResponseFormat (\<lambda>v b. b\<lparr>in_ResponseFormat := v\<rparr>),
      dec_into ''reasoning_effort'' dec_string in_ReasoningEffort (\<lambda>v b. b\<lparr>in_ReasoningEffort := v\<rparr>),
      dec_into ''user'' dec_string in_User (\<lambda>v b. b\<lparr>in_User := v\<rparr>),
      dec_into ''tools'' (dec_list zero_tool_def (dec_tool tx)) in_Tools (\<lambda>v b. b\<lparr>in_Tools := v\<rparr>),
      dec_into ''tool_choice'' dec_raw in_ToolChoice (\<lambda>v b. b\<lparr>in_ToolChoice := v\<rparr>),
      dec_into ''parallel_tool_calls'' (dec_ptr False dec_bool) in_ParallelToolCalls (\<lambda>v b. b\<lparr>in_ParallelToolCalls := v\<rparr>),
      dec_into ''thinking'' (dec_ptr zero_thinking dec_thinking) in_Thinking (\<lambda>v b. b\<lparr>in_Thinking := v\<rparr>),
      dec_into ''model'' dec_string in_Model (\<lambda>v b. b\<lparr>in_Model := v\<rparr>),
      dec_into ''messages'' (dec_list zero_input_message dec_input_message) in_Messages (\<lambda>v b. b\<lparr>in_Messages := v\<rparr>),
      dec_into ''stream'' dec_bool in_Stream (\<lambda>v b. b\<lparr>in_Stream := v\<rparr>),
      dec_into ''max_tokens'' (dec_ptr 0 dec_int) in_MaxTokens (\<lambda>v b. b\<lparr>in_MaxTokens := v\<rparr>),
      dec_into ''max_completion_tokens'' (dec_ptr 0 dec_int) in_MaxCompletionTokens (\<lambda>v b. b\<lparr>in_MaxCompletionTokens := v\<rparr>),
      dec_into ''system'' dec_raw in_System (\<lambda>v b. b\<lparr>in_System := v\<rparr>),
      dec_into ''temperature'' (dec_ptr (Fin 0) (dec_float nu)) in_Temperature (\<lambda>v b. b\<lparr>in_Temperature := v\<rparr>),
      dec_into ''top_p'' (dec_ptr (Fin 0) (dec_float nu)) in_TopP (\<lambda>v b. b\<lparr>in_TopP := v\<rparr>),
      dec_into ''stop'' dec_raw in_Stop (\<lambda>v b. b\<lparr>in_Stop := v\<rparr>),
      dec_into ''stop_sequences'' (dec_list [] dec_string) in_StopSequences (\<lambda>v b. b\<lparr>in_StopSequences := v\<rparr>)])"

definition input_members :: "number_ops \<Rightarrow> input member_encoder list" where
  "input_members nu =
     [(''context_management'', in_ContextManagement),
      (''stream_options'', \<lambda>i. map_option (struct_json stream_options_members) (in_StreamOptions i)),
      (''metadata'', \<lambda>i. map_option (struct_json metadata_members) (in_Metadata i)),
      (''output_config'', \<lambda>i. map_option (struct_json output_config_members) (in_OutputConfig i)),
      (''response_format'', \<lambda>i. map_option (struct_json response_format_members) (in_ResponseFormat i)),
      (''reasoning_effort'', \<lambda>i. enc_text (in_ReasoningEffort i)),
      (''user'', \<lambda>i. enc_text (in_User i)),
      (''tools'', \<lambda>i. enc_items tool_json (in_Tools i)),
      (''tool_choice'', in_ToolChoice),
      (''parallel_tool_calls'', \<lambda>i. map_option JBool (in_ParallelToolCalls i)),
      (''thinking'', \<lambda>i. map_option (struct_json thinking_members) (in_Thinking i)),
      (''model'', \<lambda>i. Some (JStr (in_Model i))),
      (''messages'', \<lambda>i. Some (if in_Messages i = [] then JNull else JArr (map (struct_json message_members) (in_Messages i)))),
      (''stream'', \<lambda>i. enc_flag (in_Stream i)),
      (''max_tokens'', \<lambda>i. map_option json_int (in_MaxTokens i)),
      (''max_completion_tokens'', \<lambda>i. map_option json_int (in_MaxCompletionTokens i)),
      (''system'', in_System),
      (''temperature'', \<lambda>i. map_option (float_json nu) (in_Temperature i)),
      (''top_p'', \<lambda>i. map_option (float_json nu) (in_TopP i)),
      (''stop'', in_Stop),
      (''stop_sequences'', \<lambda>i. enc_items JStr (in_StopSequences i))]"

definition input_json :: "number_ops \<Rightarrow> input \<Rightarrow> json" where
  "input_json nu i = struct_json (input_members nu) i"

section \<open>The checks\<close>

text \<open>A check gives the error it returns; the first one wins.\<close>

fun first_error :: "'e option list \<Rightarrow> 'e option" where
  "first_error [] = None"
| "first_error (None # cs) = first_error cs"
| "first_error (Some e # cs) = Some e"

definition reject :: "bool \<Rightarrow> string \<Rightarrow> string \<Rightarrow> validation_error option" where
  "reject b code param = (if b then Some (validationError code param) else None)"

definition bad_display :: "string \<Rightarrow> thinking \<Rightarrow> bool" where
  "bad_display protocol t \<longleftrightarrow>
     th_Display t \<noteq> [] \<and>
     (protocol \<noteq> ''anthropic'' \<or> th_Type t = ''disabled'' \<or> th_Display t \<noteq> ''summarized'' \<and> th_Display t \<noteq> ''omitted'')"

definition bad_budget :: "string \<Rightarrow> thinking \<Rightarrow> bool" where
  "bad_budget protocol t \<longleftrightarrow>
     (case th_BudgetTokens t of
        None \<Rightarrow> protocol = ''anthropic''
      | Some n \<Rightarrow> protocol = ''anthropic'' \<and> n < 1024 \<or> n < 1 \<or> 1000000 < n)"

definition thinking_error :: "string \<Rightarrow> thinking option \<Rightarrow> validation_error option" where
  "thinking_error protocol to =
     (case to of
        None \<Rightarrow> None
      | Some t \<Rightarrow>
          if bad_display protocol t then Some (validationError ''thinking'' ''thinking.display'')
          else if th_Type t = ''disabled'' \<or> th_Type t = ''adaptive'' then
            reject (th_BudgetTokens t \<noteq> None \<or> th_Type t = ''adaptive'' \<and> protocol \<noteq> ''anthropic'') ''thinking'' ''thinking.budget_tokens''
          else if th_Type t = ''enabled'' then reject (bad_budget protocol t) ''thinking'' ''thinking.budget_tokens''
          else Some (validationError ''thinking'' ''thinking.type''))"

definition format_error :: "response_format option \<Rightarrow> validation_error option" where
  "format_error fo =
     (case fo of
        None \<Rightarrow> None
      | Some f \<Rightarrow>
          if rf_Type f = ''json_schema'' then
            reject (case rf_JSONSchema f of None \<Rightarrow> True | Some s \<Rightarrow> js_Name s = [] \<or> \<not> is_object (js_Schema s))
              ''response_format'' ''response_format.json_schema''
          else reject (rf_Type f \<noteq> ''json_object'' \<and> rf_Type f \<noteq> ''text'' \<or> rf_JSONSchema f \<noteq> None)
                 ''response_format'' ''response_format.type'')"

definition output_error :: "output_config option \<Rightarrow> validation_error option" where
  "output_error co =
     (case co of
        None \<Rightarrow> None
      | Some c \<Rightarrow>
          if oc_Effort c \<notin> {[], ''low'', ''medium'', ''high'', ''max''} then Some (validationError ''output_config'' ''output_config.effort'')
          else reject (case oc_Format c of None \<Rightarrow> False | Some f \<Rightarrow> of_Type f \<noteq> ''json_schema'' \<or> \<not> is_object (of_Schema f))
                 ''output_config'' ''output_config.format'')"

definition allowed_role :: "string \<Rightarrow> string \<Rightarrow> bool" where
  "allowed_role protocol role \<longleftrightarrow>
     role \<in> {''user'', ''assistant'', ''system''} \<or> protocol = ''openai'' \<and> role \<in> {''system'', ''developer'', ''tool''}"

definition empty_assistant :: "string \<Rightarrow> message \<Rightarrow> bool" where
  "empty_assistant protocol m \<longleftrightarrow>
     protocol = ''openai'' \<and> ms_Role m = ''assistant'' \<and> ms_ToolCalls m \<noteq> [] \<and> (ms_Content m = None \<or> ms_Content m = Some JNull)"

definition content_error :: "text_ops \<Rightarrow> string \<Rightarrow> nat \<Rightarrow> message \<Rightarrow> validation_error option" where
  "content_error tx protocol i m =
     (if empty_assistant protocol m \<or> messageContent tx protocol (ms_Content m) then None
      else
        (let path = message_path i @ ''.content'';
             unsupported = unsupportedContentBlockPath protocol (ms_Content m) path
         in if unsupported \<noteq> path then Some (validationError ''unsupported_request_feature'' unsupported)
            else Some (validationError ''messages'' path)))"

definition message_error :: "text_ops \<Rightarrow> string \<Rightarrow> nat \<Rightarrow> message \<Rightarrow> validation_error option" where
  "message_error tx protocol i m = first_error
     [reject (\<not> allowed_role protocol (ms_Role m)) ''messages'' ''messages.role'',
      reject (protocol = ''anthropic'' \<and> (ms_ToolCalls m \<noteq> [] \<or> ms_ToolCallID m \<noteq> [] \<or> ms_ReasoningContent m \<noteq> None))
        ''messages'' ''messages'',
      reject (ms_ToolCalls m \<noteq> [] \<and> (ms_Role m \<noteq> ''assistant'' \<or> \<not> validCalls (ms_ToolCalls m))) ''tool_calls'' ''messages.tool_calls'',
      reject ((ms_Role m = ''tool'') \<noteq> (ms_ToolCallID m \<noteq> [])) ''tool_call_id'' ''messages.tool_call_id'',
      reject (ms_ReasoningContent m \<noteq> None \<and> ms_Role m \<noteq> ''assistant'') ''reasoning_content'' ''messages.reasoning_content'',
      content_error tx protocol i m]"

definition messages_error :: "text_ops \<Rightarrow> string \<Rightarrow> message list \<Rightarrow> validation_error option" where
  "messages_error tx protocol ms = first_error (map (\<lambda>im. message_error tx protocol (fst im) (snd im)) (enumerate 0 ms))"

definition tokens_error :: "string \<Rightarrow> int option \<Rightarrow> validation_error option" where
  "tokens_error name n = reject (case n of None \<Rightarrow> False | Some v \<Rightarrow> v < 1 \<or> 1000000 < v) name name"

definition outside :: "float64 option \<Rightarrow> rat \<Rightarrow> bool" where
  "outside x bound = (case x of None \<Rightarrow> False | Some v \<Rightarrow> f_lt v (Fin 0) \<or> f_lt (Fin bound) v)"

definition anthropic_error :: "text_ops \<Rightarrow> input \<Rightarrow> validation_error option" where
  "anthropic_error tx i =
     (case in_MaxTokens i of
        Some maxTokens \<Rightarrow>
          if in_MaxCompletionTokens i \<noteq> None then Some (validationError ''invalid_request'' ''max_completion_tokens'')
          else if in_Stop i \<noteq> None then Some (validationError ''invalid_request'' ''stop'')
          else first_error
            [reject (case in_Thinking i of
                       None \<Rightarrow> False
                     | Some t \<Rightarrow> th_Type t = ''enabled'' \<and> (case th_BudgetTokens t of None \<Rightarrow> False | Some n \<Rightarrow> maxTokens \<le> n))
               ''thinking'' ''thinking.budget_tokens'',
             reject (in_System i \<noteq> None \<and> \<not> messageContent tx ''anthropic'' (in_System i)) ''system'' ''system'',
             reject (case in_Temperature i of None \<Rightarrow> False | Some v \<Rightarrow> f_lt (Fin 1) v) ''temperature'' ''temperature'']
      | None \<Rightarrow>
          Some (validationError ''invalid_request''
            (if in_MaxCompletionTokens i \<noteq> None then ''max_completion_tokens'' else if in_Stop i \<noteq> None then ''stop'' else ''max_tokens'')))"

definition bad_stop :: "json \<Rightarrow> bool" where
  "bad_stop j \<longleftrightarrow>
     dec_string [] j = None \<and>
     (case dec_list [] dec_string [] j of None \<Rightarrow> True | Some ss \<Rightarrow> ss = [] \<or> 4 < length ss)"

definition openai_error :: "input \<Rightarrow> validation_error option" where
  "openai_error i =
     (if in_MaxTokens i \<noteq> None \<and> in_MaxCompletionTokens i \<noteq> None then Some (validationError ''invalid_request'' ''max_completion_tokens'')
      else reject (case in_Stop i of None \<Rightarrow> False | Some j \<Rightarrow> bad_stop j) ''stop'' ''stop'')"

definition input_error :: "text_ops \<Rightarrow> string \<Rightarrow> input \<Rightarrow> validation_error option" where
  "input_error tx protocol i = first_error
     [reject (trim_space (in_Model i) = []) ''model'' ''model'',
      thinking_error protocol (in_Thinking i),
      reject (in_StreamOptions i \<noteq> None \<and> \<not> in_Stream i) ''stream_options'' ''stream_options'',
      reject (in_ContextManagement i \<noteq> None \<and> \<not> is_object (in_ContextManagement i)) ''context_management'' ''context_management'',
      format_error (in_ResponseFormat i),
      output_error (in_OutputConfig i),
      reject (in_Messages i = []) ''messages'' ''messages'',
      reject (\<not> validTools protocol (in_Tools i)) ''tools'' ''tools'',
      reject (\<not> validChoice tx protocol (in_ToolChoice i)) ''tools'' ''tool_choice'',
      messages_error tx protocol (in_Messages i),
      tokens_error ''max_tokens'' (in_MaxTokens i),
      tokens_error ''max_completion_tokens'' (in_MaxCompletionTokens i),
      reject (outside (in_Temperature i) 2) ''temperature'' ''temperature'',
      reject (outside (in_TopP i) 1) ''top_p'' ''top_p'',
      if protocol = ''anthropic'' then anthropic_error tx i else None,
      if protocol = ''openai'' then openai_error i else None]"

section \<open>RequestWithWarnings\<close>

definition with_default_model :: "string \<Rightarrow> input \<Rightarrow> input" where
  "with_default_model defaultModel i = (if in_Model i = [] then i\<lparr>in_Model := defaultModel\<rparr> else i)"

text \<open>Streams of the OpenAI protocol report their usage; the hint of one client library is dropped.\<close>

definition normalized_input :: "string \<Rightarrow> input \<Rightarrow> input" where
  "normalized_input protocol i =
     i\<lparr>in_StreamOptions := (if in_Stream i \<and> protocol = ''openai'' \<and> in_StreamOptions i = None then Some True else in_StreamOptions i),
       in_Tools := map (\<lambda>t. t\<lparr>tl_EagerInputStreaming := None\<rparr>) (in_Tools i)\<rparr>"

definition RequestWithWarnings ::
  "json_codec \<Rightarrow> text_ops \<Rightarrow> number_ops \<Rightarrow> string \<Rightarrow> string \<Rightarrow> string
     \<Rightarrow> (validation_error + input \<times> string) \<times> string list"
where
  "RequestWithWarnings codec tx nu protocol data defaultModel =
     (case discardForeignProtocolFields tx protocol (jc_parse codec data) of
        None \<Rightarrow> (Inl (validationError ''invalid_request'' []), [])
      | Some (filtered, foreign) \<Rightarrow>
          (case lenient tx (dec_input tx nu) zero_input (Some filtered) of
             None \<Rightarrow> (Inl (validationError ''invalid_request'' (nu_errorField nu filtered)), [])
           | Some i0 \<Rightarrow>
               (let warnings = sortedUniqueStrings (ignoredRequestFields tx protocol (jc_parse codec data) (in_Tools i0) @ foreign);
                    i = with_default_model defaultModel i0
                in (case input_error tx protocol i of
                      Some e \<Rightarrow> Inl e
                    | None \<Rightarrow> Inr (normalized_input protocol i, in_Model i), warnings))))"

text \<open>What it returns is the text of the normalized request.\<close>

definition request_text :: "json_codec \<Rightarrow> number_ops \<Rightarrow> input \<Rightarrow> string" where
  "request_text codec nu i = jc_show codec (input_json nu i)"

end
