(* ===== verification/Request_Translation.thy ===== *)
theory Request_Translation
  imports Request_Input
begin

text \<open>
  Requests of one protocol for a provider of the other (\<^verbatim>\<open>internal/adapter/translate.go\<close>, lines 19 to 705).

  A raw message that the code builds itself may be no JSON: \<open>strconv.Quote\<close> writes Go syntax. \<open>quote\<close> is the value its text
  has for \<open>encoding/json\<close>, \<open>Unreadable\<close> when it has none, which makes the final \<open>json.Marshal\<close> fail.
\<close>

section \<open>Raw messages and quoting\<close>

datatype raw = Raw json | Unreadable

text \<open>The escapes that Go and JSON share: \<open>\a\<close>, \<open>\v\<close> and \<open>\x..\<close> are not among them.\<close>

definition quotable :: "char \<Rightarrow> bool" where
  "quotable c \<longleftrightarrow> (let n = (of_char c :: nat) in 32 \<le> n \<and> n \<noteq> 127 \<or> n \<in> {8, 9, 10, 12, 13})"

definition quote :: "number_ops \<Rightarrow> string \<Rightarrow> raw" where
  "quote nu s = (if list_all quotable s \<and> nu_wide nu s then Raw (JStr s) else Unreadable)"

definition raw_of :: "json option \<Rightarrow> raw" where
  "raw_of content = Raw (raw_json content)"

fun raw_value :: "raw \<Rightarrow> json option" where
  "raw_value (Raw j) = Some j"
| "raw_value Unreadable = None"

fun all_some :: "'a option list \<Rightarrow> 'a list option" where
  "all_some [] = Some []"
| "all_some (None # xs) = None"
| "all_some (Some x # xs) = map_option (Cons x) (all_some xs)"

definition text_of :: "json option \<Rightarrow> string option" where
  "text_of content = dec_opt dec_string [] content"

definition absent :: "json option \<Rightarrow> bool" where
  "absent content \<longleftrightarrow> content = None \<or> content = Some JNull"

section \<open>OpenAI requests for an Anthropic provider\<close>

record anthropic_request =
  ar_Model :: string
  ar_Messages :: "(string \<times> json) list"
  ar_Thinking :: "thinking option"
  ar_MaxTokens :: int
  ar_Stream :: bool
  ar_System :: "raw option"
  ar_Temperature :: "float64 option"
  ar_TopP :: "float64 option"
  ar_StopSequences :: "string list"
  ar_Tools :: "(string \<times> string \<times> json) list"
  ar_ToolChoice :: "json option"
  ar_Metadata :: "string option"
  ar_OutputFormat :: "output_format option"

definition defaultAnthropicMaxTokens :: int where
  "defaultAnthropicMaxTokens = 4096"

definition text_block :: "string \<Rightarrow> json" where
  "text_block t = JObj [(''text'', JStr t), (''type'', JStr ''text'')]"

definition tool_use_block :: "json_codec \<Rightarrow> tool_call \<Rightarrow> json option" where
  "tool_use_block codec c =
     (case jc_parse codec (tc_Arguments c) of
        Some (JObj kvs) \<Rightarrow>
          Some (JObj [(''id'', JStr (tc_ID c)), (''input'', jc_any codec (JObj kvs)), (''name'', JStr (tc_Name c)), (''type'', JStr ''tool_use'')])
      | _ \<Rightarrow> None)"

text \<open>\<open>LenientJSON\<close> into a slice of \<open>any\<close>.\<close>

definition lenient_items :: "text_ops \<Rightarrow> json option \<Rightarrow> json list option" where
  "lenient_items tx content =
     (case content of Some (JArr js) \<Rightarrow> if unique_keys tx (JArr js) then Some js else None | _ \<Rightarrow> None)"

definition leading_blocks :: "json_codec \<Rightarrow> text_ops \<Rightarrow> json option \<Rightarrow> string + json list" where
  "leading_blocks codec tx content =
     (if absent content then Inr []
      else
        (case text_of content of
           Some t \<Rightarrow> Inr [text_block t]
         | None \<Rightarrow>
             (case lenient_items tx content of
                None \<Rightarrow> Inl ''messages''
              | Some js \<Rightarrow> Inr (map (jc_any codec) js))))"

definition translateMessageContent :: "json_codec \<Rightarrow> text_ops \<Rightarrow> message \<Rightarrow> string + json" where
  "translateMessageContent codec tx m =
     (if ms_Role m = ''tool'' then
        (if ms_ToolCallID m = [] then Inl ''tool_call_id''
         else Inr (JArr [JObj [(''content'', raw_json (ms_Content m)), (''tool_use_id'', JStr (ms_ToolCallID m)), (''type'', JStr ''tool_result'')]]))
      else if ms_ToolCalls m = [] then Inr (raw_json (ms_Content m))
      else
        (case leading_blocks codec tx (ms_Content m) of
           Inl e \<Rightarrow> Inl e
         | Inr first \<Rightarrow>
             (case all_some (map (tool_use_block codec) (ms_ToolCalls m)) of
                None \<Rightarrow> Inl ''tool_calls''
              | Some uses \<Rightarrow> Inr (JArr (first @ uses)))))"

text \<open>The system prompt collected so far: its texts, its parts, and whether a message had blocks.\<close>

record system_prompt =
  sp_text :: "string list"
  sp_parts :: "json list"
  sp_blocks :: bool

definition no_system :: system_prompt where
  "no_system = \<lparr>sp_text = [], sp_parts = [], sp_blocks = False\<rparr>"

definition add_system :: "json_codec \<Rightarrow> text_ops \<Rightarrow> json option \<Rightarrow> system_prompt \<Rightarrow> system_prompt option" where
  "add_system codec tx content sp =
     (case text_of content of
        Some t \<Rightarrow> Some (sp\<lparr>sp_text := sp_text sp @ [t], sp_parts := sp_parts sp @ [text_block t]\<rparr>)
      | None \<Rightarrow>
          (case lenient_items tx content of
             None \<Rightarrow> None
           | Some [] \<Rightarrow> None
           | Some js \<Rightarrow> Some (sp\<lparr>sp_parts := sp_parts sp @ map (jc_any codec) js, sp_blocks := True\<rparr>)))"

definition system_role :: "string \<Rightarrow> bool" where
  "system_role role \<longleftrightarrow> role = ''system'' \<or> role = ''developer''"

fun translate_messages ::
  "json_codec \<Rightarrow> text_ops \<Rightarrow> message list \<Rightarrow> system_prompt \<Rightarrow> string + system_prompt \<times> (string \<times> json) list"
where
  "translate_messages codec tx [] sp = Inr (sp, [])"
| "translate_messages codec tx (m # ms) sp =
     (if system_role (ms_Role m) then
        (case add_system codec tx (ms_Content m) sp of
           None \<Rightarrow> Inl ''system''
         | Some sp1 \<Rightarrow> translate_messages codec tx ms sp1)
      else
        (case translateMessageContent codec tx m of
           Inl e \<Rightarrow> Inl e
         | Inr content \<Rightarrow>
             (case translate_messages codec tx ms sp of
                Inl e \<Rightarrow> Inl e
              | Inr (sp1, out) \<Rightarrow> Inr (sp1, (if ms_Role m = ''tool'' then ''user'' else ms_Role m, content) # out))))"

definition system_raw :: "number_ops \<Rightarrow> system_prompt \<Rightarrow> raw option" where
  "system_raw nu sp =
     (if sp_blocks sp then Some (Raw (JArr (sp_parts sp)))
      else if sp_text sp = [] then None
      else Some (quote nu (join_lines (sp_text sp))))"

definition translateMessages ::
  "json_codec \<Rightarrow> text_ops \<Rightarrow> number_ops \<Rightarrow> message list \<Rightarrow> string + raw option \<times> (string \<times> json) list"
where
  "translateMessages codec tx nu ms =
     (case translate_messages codec tx ms no_system of
        Inl e \<Rightarrow> Inl e
      | Inr (sp, out) \<Rightarrow> if out = [] then Inl ''messages'' else Inr (system_raw nu sp, out))"

definition stopSequences :: "json option \<Rightarrow> string list option" where
  "stopSequences stop =
     (if absent stop then Some []
      else (case text_of stop of Some s \<Rightarrow> Some [s] | None \<Rightarrow> dec_opt (dec_list [] dec_string) [] stop))"

definition dec_function_choice :: "(string \<times> string) decoder" where
  "dec_function_choice = dec_struct (dec_all
     [dec_into ''type'' dec_string fst (\<lambda>v p. (v, snd p)),
      dec_into ''function'' (dec_struct (\<lambda>kvs n. dec_member ''name'' dec_string n kvs)) snd (\<lambda>v p. (fst p, v))])"

definition translateToolChoice :: "text_ops \<Rightarrow> json option \<Rightarrow> (string \<times> json) list option" where
  "translateToolChoice tx choice =
     (case text_of choice of
        Some name \<Rightarrow>
          if name = ''auto'' \<or> name = ''none'' then Some [(''type'', JStr name)]
          else if name = ''required'' then Some [(''type'', JStr ''any'')]
          else None
      | None \<Rightarrow>
          (case lenient tx dec_function_choice ([], []) choice of
             None \<Rightarrow> None
           | Some (kind, name) \<Rightarrow>
               if kind \<noteq> ''function'' \<or> name = [] then None else Some [(''name'', JStr name), (''type'', JStr ''tool'')]))"

definition translateOpenAIToolChoice :: "text_ops \<Rightarrow> json option \<Rightarrow> bool option \<Rightarrow> json option" where
  "translateOpenAIToolChoice tx choice parallel =
     (case (if choice = None then Some [(''type'', JStr ''auto'')] else translateToolChoice tx choice) of
        None \<Rightarrow> None
      | Some kvs \<Rightarrow>
          (case parallel of
             None \<Rightarrow> Some (JObj kvs)
           | Some p \<Rightarrow> Some (map_json (set_member ''disable_parallel_tool_use'' (JBool (\<not> p)) kvs))))"

text \<open>Warnings: a system message after the conversation began, strict schemas.\<close>

fun late_system :: "bool \<Rightarrow> nat \<Rightarrow> message list \<Rightarrow> string list" where
  "late_system started i [] = []"
| "late_system started i (m # ms) =
     (if system_role (ms_Role m) then (if started then [message_path i @ ''.role''] else []) @ late_system started (Suc i) ms
      else late_system True (Suc i) ms)"

definition openAIRequestConversionLosses :: "input \<Rightarrow> string list" where
  "openAIRequestConversionLosses i =
     sortedUniqueStrings (late_system False 0 (in_Messages i) @
       map (\<lambda>it. index_path ''tools'' (fst it) @ ''.function.strict'')
         (filter (\<lambda>it. case tl_Function (snd it) of None \<Rightarrow> False | Some f \<Rightarrow> tf_Strict f \<noteq> None) (enumerate 0 (in_Tools i))))"

definition anthropic_tool_of :: "tool \<Rightarrow> (string \<times> string \<times> json) option" where
  "anthropic_tool_of t =
     (case tl_Function t of
        None \<Rightarrow> None
      | Some f \<Rightarrow> Some (tf_Name f, tf_Description f, case tf_Parameters f of None \<Rightarrow> JObj [] | Some s \<Rightarrow> s))"

definition format_of :: "response_format option \<Rightarrow> request_error + output_format option \<times> string list" where
  "format_of fo =
     (case fo of
        None \<Rightarrow> Inr (None, [])
      | Some f \<Rightarrow>
          if rf_Type f = ''text'' then Inr (None, [])
          else if rf_Type f = ''json_object'' then
            Inr (Some \<lparr>of_Type = ''json_schema'', of_Schema = Some (JObj [(''type'', JStr ''object'')])\<rparr>, [])
          else if rf_Type f = ''json_schema'' then
            (case rf_JSONSchema f of
               None \<Rightarrow> Inl (Invalid (validationError ''response_format'' ''response_format.json_schema''))
             | Some s \<Rightarrow>
                 Inr (Some \<lparr>of_Type = ''json_schema'', of_Schema = js_Schema s\<rparr>,
                   (if js_Name s \<noteq> [] then [''response_format.json_schema.name''] else []) @
                   (if js_Description s \<noteq> [] then [''response_format.json_schema.description''] else []) @
                   (if js_Strict s \<noteq> None then [''response_format.json_schema.strict''] else [])))
          else Inl (Invalid (validationError ''response_format'' ''response_format.type'')))"

definition max_output :: "int \<Rightarrow> input \<Rightarrow> int" where
  "max_output maxOutputTokens i =
     (case in_MaxCompletionTokens i of
        Some n \<Rightarrow> n
      | None \<Rightarrow>
          (case in_MaxTokens i of
             Some n \<Rightarrow> n
           | None \<Rightarrow> if 0 < maxOutputTokens then maxOutputTokens else defaultAnthropicMaxTokens))"

definition budget_fits :: "int \<Rightarrow> thinking option \<Rightarrow> bool" where
  "budget_fits maxTokens to \<longleftrightarrow>
     (case to of
        None \<Rightarrow> True
      | Some t \<Rightarrow> th_Type t = ''enabled'' \<longrightarrow> (case th_BudgetTokens t of None \<Rightarrow> False | Some n \<Rightarrow> 1024 \<le> n \<and> n < maxTokens))"

definition tool_choice_of :: "text_ops \<Rightarrow> input \<Rightarrow> json option option" where
  "tool_choice_of tx i =
     (if in_Tools i \<noteq> [] \<and> (in_ToolChoice i \<noteq> None \<or> in_ParallelToolCalls i \<noteq> None)
      then map_option Some (translateOpenAIToolChoice tx (in_ToolChoice i) (in_ParallelToolCalls i)) else Some None)"

definition openai_to_anthropic ::
  "json_codec \<Rightarrow> text_ops \<Rightarrow> number_ops \<Rightarrow> int \<Rightarrow> input \<Rightarrow> request_error + anthropic_request \<times> string list"
where
  "openai_to_anthropic codec tx nu maxOutputTokens i =
     (let maxTokens = max_output maxOutputTokens i in
      if \<not> budget_fits maxTokens (in_Thinking i) then Inl (Invalid (validationError ''thinking'' ''thinking.budget_tokens''))
      else
        (case translateMessages codec tx nu (in_Messages i) of
           Inl e \<Rightarrow> Inl (Plain e)
         | Inr (system, out) \<Rightarrow>
             (case stopSequences (in_Stop i) of
                None \<Rightarrow> Inl (Plain ''stop'')
              | Some stops \<Rightarrow>
                  (case all_some (map anthropic_tool_of (in_Tools i)) of
                     None \<Rightarrow> Inl (Plain ''tools'')
                   | Some tools \<Rightarrow>
                       (case tool_choice_of tx i of
                          None \<Rightarrow> Inl (Plain ''tools'')
                        | Some choice \<Rightarrow>
                            (case format_of (in_ResponseFormat i) of
                               Inl e \<Rightarrow> Inl e
                             | Inr (format, losses) \<Rightarrow>
                                 Inr (\<lparr>ar_Model = in_Model i, ar_Messages = out, ar_Thinking = in_Thinking i, ar_MaxTokens = maxTokens,
                                       ar_Stream = in_Stream i, ar_System = system, ar_Temperature = in_Temperature i, ar_TopP = in_TopP i,
                                       ar_StopSequences = stops, ar_Tools = tools, ar_ToolChoice = choice,
                                       ar_Metadata = (if in_User i \<noteq> [] then Some (in_User i) else None), ar_OutputFormat = format\<rparr>,
                                      losses)))))))"

text \<open>The request on the wire; \<open>None\<close>: a raw message is no JSON.\<close>

definition anthropic_tool_json :: "string \<times> string \<times> json \<Rightarrow> json" where
  "anthropic_tool_json t =
     JObj ((''name'', JStr (fst t)) # (if fst (snd t) = [] then [] else [(''description'', JStr (fst (snd t)))]) @
       [(''input_schema'', snd (snd t))])"

definition anthropic_members :: "number_ops \<Rightarrow> json option \<Rightarrow> anthropic_request member_encoder list" where
  "anthropic_members nu system =
     [(''model'', \<lambda>r. Some (JStr (ar_Model r))),
      (''messages'', \<lambda>r. Some (JArr (map (\<lambda>m. JObj [(''role'', JStr (fst m)), (''content'', snd m)]) (ar_Messages r)))),
      (''thinking'', \<lambda>r. map_option (struct_json thinking_members) (ar_Thinking r)),
      (''max_tokens'', \<lambda>r. Some (json_int (ar_MaxTokens r))),
      (''stream'', \<lambda>r. enc_flag (ar_Stream r)),
      (''system'', \<lambda>r. system),
      (''temperature'', \<lambda>r. map_option (float_json nu) (ar_Temperature r)),
      (''top_p'', \<lambda>r. map_option (float_json nu) (ar_TopP r)),
      (''stop_sequences'', \<lambda>r. enc_items JStr (ar_StopSequences r)),
      (''tools'', \<lambda>r. enc_items anthropic_tool_json (ar_Tools r)),
      (''tool_choice'', ar_ToolChoice),
      (''metadata'', \<lambda>r. map_option (struct_json metadata_members) (ar_Metadata r)),
      (''output_config'', \<lambda>r. map_option (\<lambda>f. JObj [(''format'', struct_json output_format_members f)]) (ar_OutputFormat r))]"

definition anthropic_request_json :: "number_ops \<Rightarrow> anthropic_request \<Rightarrow> json option" where
  "anthropic_request_json nu r =
     (case ar_System r of
        None \<Rightarrow> Some (struct_json (anthropic_members nu None) r)
      | Some s \<Rightarrow> map_option (\<lambda>j. struct_json (anthropic_members nu (Some j)) r) (raw_value s))"

text \<open>The validated request is marshalled and read again, strictly. The warnings of a refused request are not used.\<close>

definition reread :: "json_codec \<Rightarrow> text_ops \<Rightarrow> number_ops \<Rightarrow> input \<Rightarrow> input option" where
  "reread codec tx nu i =
     (case strict_parse codec tx (request_text codec nu i) of None \<Rightarrow> None | Some j \<Rightarrow> dec_input tx nu zero_input j)"

definition translateOpenAIRequestWithWarnings ::
  "json_codec \<Rightarrow> text_ops \<Rightarrow> number_ops \<Rightarrow> string \<Rightarrow> string \<Rightarrow> int \<Rightarrow> request_error + string \<times> string \<times> string list"
where
  "translateOpenAIRequestWithWarnings codec tx nu data defaultModel maxOutputTokens =
     (case RequestWithWarnings codec tx nu ''openai'' data defaultModel of
        (Inl e, _) \<Rightarrow> Inl (Invalid e)
      | (Inr (validated, model), warnings) \<Rightarrow>
          (case reread codec tx nu validated of
             None \<Rightarrow> Inl (Plain ''invalid_request'')
           | Some i \<Rightarrow>
               (case openai_to_anthropic codec tx nu maxOutputTokens i of
                  Inl e \<Rightarrow> Inl e
                | Inr (r, losses) \<Rightarrow>
                    (case anthropic_request_json nu r of
                       None \<Rightarrow> Inl (Plain (nu_marshalError nu))
                     | Some j \<Rightarrow>
                         Inr (jc_show codec j, model,
                           sortedUniqueStrings (warnings @ openAIRequestConversionLosses i @
                             (if in_ReasoningEffort i \<noteq> [] then [''reasoning_effort''] else []) @ losses))))))"

section \<open>Anthropic requests for an OpenAI provider\<close>

record openai_message =
  om_Role :: string
  om_Content :: "raw option"
  om_ToolCalls :: "tool_call list"
  om_ToolCallID :: string

definition plain_message :: "string \<Rightarrow> raw \<Rightarrow> openai_message" where
  "plain_message role content = \<lparr>om_Role = role, om_Content = Some content, om_ToolCalls = [], om_ToolCallID = []\<rparr>"

record openai_request =
  or_Model :: string
  or_Messages :: "openai_message list"
  or_ContextManagement :: "json option"
  or_Thinking :: "thinking option"
  or_MaxTokens :: "int option"
  or_Stream :: bool
  or_Temperature :: "float64 option"
  or_TopP :: "float64 option"
  or_Stop :: "string list"
  or_Tools :: "tool list"
  or_ToolChoice :: "json option"
  or_ParallelToolCalls :: "bool option"
  or_ResponseFormat :: "json option"
  or_User :: string

definition invalid_at :: "string \<Rightarrow> string \<Rightarrow> request_error" where
  "invalid_at code path = Invalid (validationError code path)"

definition dec_blocks :: "text_ops \<Rightarrow> json option \<Rightarrow> content_block list option" where
  "dec_blocks tx content = lenient tx (dec_list zero_block dec_block) [] content"

text \<open>The texts of blocks that are all text.\<close>

definition block_texts :: "content_block list \<Rightarrow> string list option" where
  "block_texts bs = all_some (map (\<lambda>b. if cb_Type b = ''text'' then cb_Text b else None) bs)"

definition plain_blocks :: "text_ops \<Rightarrow> json option \<Rightarrow> string list option" where
  "plain_blocks tx content =
     (case dec_blocks tx content of None \<Rightarrow> None | Some [] \<Rightarrow> None | Some bs \<Rightarrow> block_texts bs)"

definition anthropicSystemText :: "text_ops \<Rightarrow> json option \<Rightarrow> string option" where
  "anthropicSystemText tx system =
     (if absent system then Some []
      else (case text_of system of Some t \<Rightarrow> Some t | None \<Rightarrow> map_option join_lines (plain_blocks tx system)))"

definition anthropicToolResultText :: "text_ops \<Rightarrow> json option \<Rightarrow> string option" where
  "anthropicToolResultText tx content =
     (if absent content then Some []
      else (case text_of content of Some t \<Rightarrow> Some t | None \<Rightarrow> map_option concat (plain_blocks tx content)))"

definition block_path :: "nat \<Rightarrow> nat \<Rightarrow> string" where
  "block_path messageIndex i = index_path (message_path messageIndex @ ''.content'') i"

fun assistant_blocks ::
  "json_codec \<Rightarrow> nat \<Rightarrow> nat \<Rightarrow> content_block list \<Rightarrow> string \<Rightarrow> tool_call list \<Rightarrow> request_error + string \<times> tool_call list"
where
  "assistant_blocks codec mi i [] text_so_far calls = Inr (text_so_far, calls)"
| "assistant_blocks codec mi i (b # bs) text_so_far calls =
     (if cb_Type b = ''text'' then
        (case cb_Text b of
           None \<Rightarrow> Inl (invalid_at ''invalid_request'' (block_path mi i @ ''.text''))
         | Some t \<Rightarrow> assistant_blocks codec mi (Suc i) bs (text_so_far @ t) calls)
      else if cb_Type b = ''tool_use'' then
        (if cb_ID b = [] \<or> cb_Name b = [] \<or> \<not> is_object (cb_Input b) then Inl (invalid_at ''invalid_request'' (block_path mi i))
         else assistant_blocks codec mi (Suc i) bs text_so_far (calls @
           [\<lparr>tc_ID = cb_ID b, tc_Type = ''function'', tc_Name = cb_Name b, tc_Arguments = jc_raw codec (raw_json (cb_Input b))\<rparr>]))
      else Inl (invalid_at ''unsupported_request_feature'' (block_path mi i @ ''.type'')))"

definition translateAnthropicAssistantBlocks ::
  "json_codec \<Rightarrow> number_ops \<Rightarrow> nat \<Rightarrow> content_block list \<Rightarrow> request_error + openai_message"
where
  "translateAnthropicAssistantBlocks codec nu mi bs =
     (case assistant_blocks codec mi 0 bs [] [] of
        Inl e \<Rightarrow> Inl e
      | Inr (t, calls) \<Rightarrow>
          Inr \<lparr>om_Role = ''assistant'', om_Content = (if t = [] then None else Some (quote nu t)), om_ToolCalls = calls, om_ToolCallID = []\<rparr>)"

definition flush_text :: "number_ops \<Rightarrow> string option \<Rightarrow> openai_message list" where
  "flush_text nu pending = (case pending of None \<Rightarrow> [] | Some t \<Rightarrow> [plain_message ''user'' (quote nu t)])"

definition tool_result_message :: "text_ops \<Rightarrow> number_ops \<Rightarrow> nat \<Rightarrow> nat \<Rightarrow> content_block \<Rightarrow> request_error + openai_message" where
  "tool_result_message tx nu mi i b =
     (if cb_ToolUseID b = [] then Inl (invalid_at ''invalid_request'' (block_path mi i @ ''.tool_use_id''))
      else
        (case anthropicToolResultText tx (cb_Content b) of
           None \<Rightarrow> Inl (invalid_at ''unsupported_request_feature'' (block_path mi i @ ''.content''))
         | Some t \<Rightarrow>
             Inr ((plain_message ''tool'' (quote nu (if cb_IsError b = Some True then ''Tool error: '' @ t else t)))
               \<lparr>om_ToolCallID := cb_ToolUseID b\<rparr>)))"

text \<open>\<open>pending\<close> is the text not yet flushed, \<open>None\<close> when there was no text block.\<close>

fun user_blocks ::
  "text_ops \<Rightarrow> number_ops \<Rightarrow> nat \<Rightarrow> nat \<Rightarrow> content_block list \<Rightarrow> string option \<Rightarrow> request_error + openai_message list"
where
  "user_blocks tx nu mi i [] pending = Inr (flush_text nu pending)"
| "user_blocks tx nu mi i (b # bs) pending =
     (if cb_Type b = ''text'' then
        (case cb_Text b of
           None \<Rightarrow> Inl (invalid_at ''invalid_request'' (block_path mi i @ ''.text''))
         | Some t \<Rightarrow> user_blocks tx nu mi (Suc i) bs (Some ((case pending of None \<Rightarrow> [] | Some p \<Rightarrow> p) @ t)))
      else if cb_Type b = ''tool_result'' then
        (case tool_result_message tx nu mi i b of
           Inl e \<Rightarrow> Inl e
         | Inr m \<Rightarrow>
             (case user_blocks tx nu mi (Suc i) bs None of
                Inl e \<Rightarrow> Inl e
              | Inr out \<Rightarrow> Inr (flush_text nu pending @ m # out)))
      else Inl (invalid_at ''unsupported_request_feature'' (block_path mi i @ ''.type'')))"

definition translateAnthropicUserBlocks ::
  "text_ops \<Rightarrow> number_ops \<Rightarrow> nat \<Rightarrow> content_block list \<Rightarrow> request_error + openai_message list"
where
  "translateAnthropicUserBlocks tx nu mi bs =
     (case user_blocks tx nu mi 0 bs None of
        Inl e \<Rightarrow> Inl e
      | Inr out \<Rightarrow> if out = [] then Inl (invalid_at ''invalid_request'' (block_path mi (length bs - 1))) else Inr out)"

definition translate_anthropic_message ::
  "json_codec \<Rightarrow> text_ops \<Rightarrow> number_ops \<Rightarrow> nat \<Rightarrow> message \<Rightarrow> request_error + openai_message list"
where
  "translate_anthropic_message codec tx nu mi m =
     (if absent (ms_Content m) then Inl (invalid_at ''invalid_request'' (message_path mi @ ''.content''))
      else if text_of (ms_Content m) \<noteq> None then Inr [plain_message (ms_Role m) (raw_of (ms_Content m))]
      else
        (case dec_blocks tx (ms_Content m) of
           None \<Rightarrow> Inl (invalid_at ''invalid_request'' (message_path mi @ ''.content''))
         | Some [] \<Rightarrow> Inl (invalid_at ''invalid_request'' (message_path mi @ ''.content''))
         | Some bs \<Rightarrow>
             if ms_Role m = ''assistant'' then map_sum id (\<lambda>x. [x]) (translateAnthropicAssistantBlocks codec nu mi bs)
             else if ms_Role m = ''user'' then translateAnthropicUserBlocks tx nu mi bs
             else if ms_Role m = ''system'' then Inr [plain_message ''system'' (raw_of (ms_Content m))]
             else Inl (invalid_at ''invalid_request'' (message_path mi @ ''.role''))))"

fun translate_anthropic_messages ::
  "json_codec \<Rightarrow> text_ops \<Rightarrow> number_ops \<Rightarrow> nat \<Rightarrow> message list \<Rightarrow> request_error + openai_message list"
where
  "translate_anthropic_messages codec tx nu mi [] = Inr []"
| "translate_anthropic_messages codec tx nu mi (m # ms) =
     (case translate_anthropic_message codec tx nu mi m of
        Inl e \<Rightarrow> Inl e
      | Inr xs \<Rightarrow> map_sum id (\<lambda>ys. xs @ ys) (translate_anthropic_messages codec tx nu (Suc mi) ms))"

definition translateAnthropicMessages ::
  "json_codec \<Rightarrow> text_ops \<Rightarrow> number_ops \<Rightarrow> json option \<Rightarrow> message list \<Rightarrow> request_error + string \<times> openai_message list"
where
  "translateAnthropicMessages codec tx nu system ms =
     (case anthropicSystemText tx system of
        None \<Rightarrow> Inl (invalid_at ''invalid_request'' ''system'')
      | Some t \<Rightarrow> map_sum id (Pair t) (translate_anthropic_messages codec tx nu 0 ms))"

lemma block_content_size:
  assumes "dec_block zero_block j = Some b" and "cb_Content b = Some c"
  shows "size c < size j"
proof (cases j)
  case (JObj kvs)
  let ?cs = "field_values ''content'' kvs"
  from assms JObj have "dec_each dec_raw None ?cs = Some (Some c)"
    by (auto simp: dec_block_def dec_into_def dec_member_def bind_eq_Some_conv zero_block_def)
  then have "?cs \<noteq> []" and "c = last ?cs" by (auto simp: dec_each_raw split: if_splits)
  then have "c \<in> snd ` set kvs" using last_in_set [of ?cs] by (auto simp: field_values_def)
  with JObj show ?thesis by (auto dest: member_size)
qed (use assms in \<open>auto simp: dec_block_def zero_block_def\<close>)

lemma blocks_content_size:
  assumes "dec_blocks tx (Some j) = Some bs" and "b \<in> set bs" and "cb_Content b = Some c"
  shows "size c < size j"
proof -
  from assms(1) have "dec_list zero_block dec_block [] j = Some bs" by (simp add: dec_blocks_def lenient_def split: if_splits)
  then show ?thesis
  proof (cases j)
    case (JArr js)
    with \<open>dec_list zero_block dec_block [] j = Some bs\<close> assms(2) obtain x where "x \<in> set js" "dec_block zero_block x = Some b"
      by (auto dest: dec_elems_fresh)
    with block_content_size [OF _ assms(3), of x] size_list_estimation' [of x js "size x" size] JArr show ?thesis by fastforce
  qed (use assms(2) in auto)
qed

function appendBlockConversionLosses :: "text_ops \<Rightarrow> string \<Rightarrow> json option \<Rightarrow> string list" where
  "appendBlockConversionLosses tx prefix content =
     (case dec_blocks tx content of
        None \<Rightarrow> []
      | Some bs \<Rightarrow>
          concat (map (\<lambda>ib.
            (if cb_CacheControl (snd ib) \<noteq> None then [index_path prefix (fst ib) @ ''.cache_control''] else []) @
            (if cb_Type (snd ib) = ''tool_result'' \<and> cb_IsError (snd ib) = Some True then [index_path prefix (fst ib) @ ''.is_error''] else []) @
            (if cb_Type (snd ib) = ''tool_result''
             then appendBlockConversionLosses tx (index_path prefix (fst ib) @ ''.content'') (cb_Content (snd ib)) else []))
            (enumerate 0 bs)))"
  by pat_completeness auto
termination
proof (relation "measure (\<lambda>(tx, prefix, content). case content of None \<Rightarrow> 0 | Some j \<Rightarrow> Suc (size j))", goal_cases)
  case 1
  show ?case by simp
next
  case (2 tx prefix content bs ib)
  then obtain j where j: "content = Some j" by (cases content) (auto simp: dec_blocks_def lenient_def)
  from 2(2) have b: "snd ib \<in> set bs" by (auto simp: in_set_enumerate_eq dest: nth_mem)
  show ?case
  proof (cases "cb_Content (snd ib)")
    case (Some c)
    with blocks_content_size [OF _ b Some] 2(1) j show ?thesis by simp
  qed (simp add: j)
qed

declare appendBlockConversionLosses.simps [simp del]

definition anthropicConversionLosses :: "text_ops \<Rightarrow> input \<Rightarrow> string list" where
  "anthropicConversionLosses tx i =
     sortedUniqueStrings (
       (case in_OutputConfig i of None \<Rightarrow> [] | Some c \<Rightarrow> if oc_Effort c \<noteq> [] then [''output_config.effort''] else []) @
       map (\<lambda>it. index_path ''tools'' (fst it) @ ''.cache_control'') (filter (\<lambda>it. tl_CacheControl (snd it) \<noteq> None) (enumerate 0 (in_Tools i))) @
       appendBlockConversionLosses tx ''system'' (in_System i) @
       concat (map (\<lambda>im. appendBlockConversionLosses tx (message_path (fst im) @ ''.content'') (ms_Content (snd im)))
         (enumerate 0 (in_Messages i))))"

record native_choice =
  nc_Type :: string
  nc_Name :: string
  nc_DisableParallel :: "bool option"

definition dec_native_choice :: "native_choice decoder" where
  "dec_native_choice = dec_struct (dec_all
     [dec_into ''type'' dec_string nc_Type (\<lambda>v b. b\<lparr>nc_Type := v\<rparr>),
      dec_into ''name'' dec_string nc_Name (\<lambda>v b. b\<lparr>nc_Name := v\<rparr>),
      dec_into ''disable_parallel_tool_use'' (dec_ptr False dec_bool) nc_DisableParallel (\<lambda>v b. b\<lparr>nc_DisableParallel := v\<rparr>)])"

definition translateAnthropicToolChoice :: "text_ops \<Rightarrow> json option \<Rightarrow> (json \<times> bool option) option" where
  "translateAnthropicToolChoice tx choice =
     (case lenient tx dec_native_choice \<lparr>nc_Type = [], nc_Name = [], nc_DisableParallel = None\<rparr> choice of
        None \<Rightarrow> None
      | Some c \<Rightarrow>
          (let parallel = (if nc_DisableParallel c = Some True then Some False else None) in
           if nc_Type c = ''auto'' \<or> nc_Type c = ''none'' then Some (JStr (nc_Type c), parallel)
           else if nc_Type c = ''any'' then Some (JStr ''required'', parallel)
           else if nc_Type c = ''tool'' \<and> nc_Name c \<noteq> []
           then Some (JObj [(''function'', JObj [(''name'', JStr (nc_Name c))]), (''type'', JStr ''function'')], parallel)
           else None))"

definition openai_tool_of :: "tool \<Rightarrow> tool" where
  "openai_tool_of t = zero_tool_def\<lparr>tl_Type := ''function'',
     tl_Function := Some \<lparr>tf_Name = tl_Name t, tf_Description = tl_Description t,
       tf_Parameters = Some (case tl_InputSchema t of None \<Rightarrow> JObj [] | Some s \<Rightarrow> s), tf_Strict = None\<rparr>\<rparr>"

definition hosted_tool :: "tool \<Rightarrow> bool" where
  "hosted_tool t \<longleftrightarrow> tl_Type t \<noteq> [] \<and> tl_Type t \<noteq> ''custom''"

text \<open>The members of a map, by key.\<close>

definition response_format_json :: "output_config option \<Rightarrow> json option" where
  "response_format_json co =
     (case co of
        None \<Rightarrow> None
      | Some c \<Rightarrow>
          map_option (\<lambda>f. JObj [(''json_schema'', JObj [(''name'', JStr ''response''), (''schema'', raw_json (of_Schema f))]),
                              (''type'', JStr ''json_schema'')]) (oc_Format c))"

definition anthropic_to_openai ::
  "json_codec \<Rightarrow> text_ops \<Rightarrow> number_ops \<Rightarrow> input \<Rightarrow> request_error + openai_request"
where
  "anthropic_to_openai codec tx nu i =
     (if list_ex hosted_tool (in_Tools i) then Inl (invalid_at ''unsupported_request_feature'' ''tools'')
      else
        (case translateAnthropicMessages codec tx nu (in_System i) (in_Messages i) of
           Inl e \<Rightarrow> Inl e
         | Inr (system, ms) \<Rightarrow>
             if 4 < length (in_StopSequences i) then Inl (invalid_at ''stop_sequences'' ''stop_sequences'')
             else
               (case (if in_ToolChoice i = None then Some None else map_option Some (translateAnthropicToolChoice tx (in_ToolChoice i))) of
                  None \<Rightarrow> Inl (invalid_at ''tools'' ''tool_choice'')
                | Some choice \<Rightarrow>
                    Inr \<lparr>or_Model = in_Model i,
                         or_Messages = (if system = [] then ms else plain_message ''system'' (quote nu system) # ms),
                         or_ContextManagement = in_ContextManagement i, or_Thinking = in_Thinking i, or_MaxTokens = in_MaxTokens i,
                         or_Stream = in_Stream i, or_Temperature = in_Temperature i, or_TopP = in_TopP i, or_Stop = in_StopSequences i,
                         or_Tools = map openai_tool_of (in_Tools i),
                         or_ToolChoice = map_option fst choice, or_ParallelToolCalls = Option.bind choice snd,
                         or_ResponseFormat = response_format_json (in_OutputConfig i),
                         or_User = (case in_Metadata i of None \<Rightarrow> [] | Some u \<Rightarrow> u)\<rparr>)))"

definition openai_message_json :: "openai_message \<Rightarrow> json option" where
  "openai_message_json m =
     (case (case om_Content m of None \<Rightarrow> Some JNull | Some r \<Rightarrow> raw_value r) of
        None \<Rightarrow> None
      | Some content \<Rightarrow>
          Some (JObj ([(''role'', JStr (om_Role m)), (''content'', content)] @
            (if om_ToolCalls m = [] then [] else [(''tool_calls'', JArr (map (struct_json call_members) (om_ToolCalls m)))]) @
            (if om_ToolCallID m = [] then [] else [(''tool_call_id'', JStr (om_ToolCallID m))]))))"

definition openai_members :: "number_ops \<Rightarrow> json list \<Rightarrow> openai_request member_encoder list" where
  "openai_members nu ms =
     [(''model'', \<lambda>r. Some (JStr (or_Model r))),
      (''messages'', \<lambda>r. Some (if ms = [] then JNull else JArr ms)),
      (''context_management'', or_ContextManagement),
      (''thinking'', \<lambda>r. map_option (struct_json thinking_members) (or_Thinking r)),
      (''max_tokens'', \<lambda>r. map_option json_int (or_MaxTokens r)),
      (''stream'', \<lambda>r. enc_flag (or_Stream r)),
      (''temperature'', \<lambda>r. map_option (float_json nu) (or_Temperature r)),
      (''top_p'', \<lambda>r. map_option (float_json nu) (or_TopP r)),
      (''stop'', \<lambda>r. enc_items JStr (or_Stop r)),
      (''tools'', \<lambda>r. enc_items tool_json (or_Tools r)),
      (''tool_choice'', or_ToolChoice),
      (''parallel_tool_calls'', \<lambda>r. map_option JBool (or_ParallelToolCalls r)),
      (''response_format'', or_ResponseFormat),
      (''user'', \<lambda>r. enc_text (or_User r))]"

definition openai_request_json :: "number_ops \<Rightarrow> openai_request \<Rightarrow> json option" where
  "openai_request_json nu r =
     map_option (\<lambda>ms. struct_json (openai_members nu ms) r) (all_some (map openai_message_json (or_Messages r)))"

definition translateAnthropicRequestWithWarnings ::
  "json_codec \<Rightarrow> text_ops \<Rightarrow> number_ops \<Rightarrow> string \<Rightarrow> string \<Rightarrow> request_error + string \<times> string \<times> string list"
where
  "translateAnthropicRequestWithWarnings codec tx nu data defaultModel =
     (case RequestWithWarnings codec tx nu ''anthropic'' data defaultModel of
        (Inl e, _) \<Rightarrow> Inl (Invalid e)
      | (Inr (validated, model), warnings) \<Rightarrow>
          (case reread codec tx nu validated of
             None \<Rightarrow> Inl (Plain ''invalid_request'')
           | Some i \<Rightarrow>
               (case anthropic_to_openai codec tx nu i of
                  Inl e \<Rightarrow> Inl e
                | Inr r \<Rightarrow>
                    (case openai_request_json nu r of
                       None \<Rightarrow> Inl (Plain (nu_marshalError nu))
                     | Some j \<Rightarrow> Inr (jc_show codec j, model, sortedUniqueStrings (warnings @ anthropicConversionLosses tx i))))))"

section \<open>Preparation\<close>

definition modelFromBody :: "json_codec \<Rightarrow> string \<Rightarrow> string" where
  "modelFromBody codec data =
     (case dec_opt (dec_struct (\<lambda>kvs m. dec_member ''model'' dec_string m kvs)) [] (jc_parse codec data) of
        None \<Rightarrow> []
      | Some m \<Rightarrow> m)"

definition PrepareRequestWithWarnings ::
  "json_codec \<Rightarrow> text_ops \<Rightarrow> number_ops \<Rightarrow> string \<Rightarrow> string \<Rightarrow> string \<Rightarrow> string \<Rightarrow> int
     \<Rightarrow> request_error + string \<times> string \<times> string list"
where
  "PrepareRequestWithWarnings codec tx nu clientProtocol providerProtocol data defaultModel maxOutputTokens =
     (if clientProtocol = providerProtocol then Inr (data, firstNonEmpty (modelFromBody codec data) defaultModel, [])
      else if clientProtocol = ''openai'' \<and> providerProtocol = ''anthropic''
      then translateOpenAIRequestWithWarnings codec tx nu data defaultModel maxOutputTokens
      else if clientProtocol = ''anthropic'' \<and> providerProtocol = ''openai''
      then translateAnthropicRequestWithWarnings codec tx nu data defaultModel
      else Inl (Plain ''unsupported_protocol_translation''))"

section \<open>What an Anthropic provider gets\<close>

lemma first_error_none: "first_error cs = None \<longleftrightarrow> (\<forall>c\<in>set cs. c = None)"
  by (induction cs rule: first_error.induct) auto

lemma reject_none [simp]: "reject b code param = None \<longleftrightarrow> \<not> b"
  by (simp add: reject_def)

lemma all_some_map: "all_some (map f xs) = Some ys \<Longrightarrow> list_all2 (\<lambda>x y. f x = Some y) xs ys"
proof (induction xs arbitrary: ys)
  case (Cons x xs)
  then show ?case by (cases "f x") auto
qed simp

definition spoken :: "message list \<Rightarrow> message list" where
  "spoken ms = filter (\<lambda>m. \<not> system_role (ms_Role m)) ms"

text \<open>A message for the provider: its content, with the role a tool result has there.\<close>

definition delivered_as :: "json_codec \<Rightarrow> text_ops \<Rightarrow> message \<Rightarrow> string \<times> json \<Rightarrow> bool" where
  "delivered_as codec tx m rc \<longleftrightarrow>
     translateMessageContent codec tx m = Inr (snd rc) \<and> fst rc = (if ms_Role m = ''tool'' then ''user'' else ms_Role m)"

lemma translate_messages_spoken:
  "translate_messages codec tx ms sp = Inr (sp1, out) \<Longrightarrow> list_all2 (delivered_as codec tx) (spoken ms) out"
proof (induction ms arbitrary: sp out)
  case (Cons m ms)
  then show ?case
    by (cases "system_role (ms_Role m)")
      (auto simp: spoken_def delivered_as_def split: option.splits sum.splits)
qed (simp add: spoken_def)

lemma messages_allowed:
  assumes "messages_error tx protocol ms = None" and "m \<in> set ms"
  shows "allowed_role protocol (ms_Role m)"
proof -
  from assms(2) obtain i where "i < length ms" "ms ! i = m" by (auto simp: in_set_conv_nth)
  then have "(i, m) \<in> set (enumerate 0 ms)" by (simp add: in_set_enumerate_eq)
  with assms(1) have "message_error tx protocol i m = None"
    by (auto simp: messages_error_def first_error_none)
  then show ?thesis by (simp add: message_error_def first_error_none)
qed

lemma max_output_positive:
  assumes "tokens_error ''max_tokens'' (in_MaxTokens i) = None"
    and "tokens_error ''max_completion_tokens'' (in_MaxCompletionTokens i) = None"
  shows "1 \<le> max_output q i"
  using assms by (auto simp: max_output_def tokens_error_def defaultAnthropicMaxTokens_def split: option.splits)

lemma openai_tools_named:
  assumes "validTools ''openai'' ts" and "list_all2 (\<lambda>t a. anthropic_tool_of t = Some a) ts as"
  shows "list_all (\<lambda>a. trim_space (fst a) \<noteq> [] \<and> is_object (Some (snd (snd a)))) as"
  using assms(2,1)
  by (induction rule: list_all2_induct)
    (auto simp: validTools_def valid_openai_tool_def anthropic_tool_of_def is_object_def split: option.splits)

lemma stops_bounded:
  assumes "\<not> (case stop of None \<Rightarrow> False | Some j \<Rightarrow> bad_stop j)" and "stopSequences stop = Some ss"
  shows "length ss \<le> 4"
  using assms
  by (cases stop) (auto simp: stopSequences_def bad_stop_def absent_def text_of_def dec_opt_def split: if_splits option.splits)


section \<open>What an OpenAI provider gets\<close>

text \<open>The conversation in a request: what is said, which tools are called, which calls are answered. In an Anthropic message it
  is in the blocks; in an OpenAI message in the content, the calls and the id of the answered call.\<close>

definition block_says :: "content_block \<Rightarrow> string" where
  "block_says b = (if cb_Type b = ''text'' then (case cb_Text b of None \<Rightarrow> [] | Some t \<Rightarrow> t) else [])"

definition block_calls :: "json_codec \<Rightarrow> content_block \<Rightarrow> tool_call list" where
  "block_calls codec b =
     (if cb_Type b = ''tool_use''
      then [\<lparr>tc_ID = cb_ID b, tc_Type = ''function'', tc_Name = cb_Name b, tc_Arguments = jc_raw codec (raw_json (cb_Input b))\<rparr>] else [])"

definition block_answers :: "content_block \<Rightarrow> string list" where
  "block_answers b = (if cb_Type b = ''tool_result'' then [cb_ToolUseID b] else [])"

text \<open>The blocks of a message of a user or the assistant.\<close>

definition message_blocks :: "text_ops \<Rightarrow> message \<Rightarrow> content_block list" where
  "message_blocks tx m =
     (if text_of (ms_Content m) \<noteq> None \<or> ms_Role m = ''system'' then []
      else (case dec_blocks tx (ms_Content m) of None \<Rightarrow> [] | Some bs \<Rightarrow> bs))"

definition message_says :: "text_ops \<Rightarrow> message \<Rightarrow> string" where
  "message_says tx m =
     (case text_of (ms_Content m) of Some t \<Rightarrow> t | None \<Rightarrow> concat (map block_says (message_blocks tx m)))"

definition says :: "openai_message \<Rightarrow> string" where
  "says m = (if om_Role m = ''tool'' then [] else (case om_Content m of Some (Raw (JStr t)) \<Rightarrow> t | _ \<Rightarrow> []))"

definition answers :: "openai_message \<Rightarrow> string list" where
  "answers m = (if om_Role m = ''tool'' then [om_ToolCallID m] else [])"

definition readable :: "openai_message \<Rightarrow> bool" where
  "readable m \<longleftrightarrow> om_Content m \<noteq> Some Unreadable"

lemma quote_cases: "quote nu t = Raw (JStr t) \<or> quote nu t = Unreadable"
  by (simp add: quote_def)

lemma readable_json: "openai_message_json m \<noteq> None \<longleftrightarrow> readable m"
proof (cases "om_Content m")
  case (Some r)
  then show ?thesis by (cases r) (simp_all add: openai_message_json_def readable_def)
qed (simp add: openai_message_json_def readable_def)

lemma flush_keeps:
  assumes "list_all readable (flush_text nu pending)"
  shows "concat (map says (flush_text nu pending)) = (case pending of None \<Rightarrow> [] | Some t \<Rightarrow> t) \<and>
    concat (map om_ToolCalls (flush_text nu pending)) = [] \<and> concat (map answers (flush_text nu pending)) = []"
proof (cases pending)
  case (Some t)
  with assms quote_cases [of nu t] show ?thesis
    by (auto simp: flush_text_def plain_message_def readable_def says_def answers_def)
qed (simp add: flush_text_def)

lemma user_blocks_keep:
  "user_blocks tx nu mi k bs pending = Inr out \<Longrightarrow> list_all readable out \<Longrightarrow>
     concat (map says out) = (case pending of None \<Rightarrow> [] | Some t \<Rightarrow> t) @ concat (map block_says bs) \<and>
     concat (map om_ToolCalls out) = concat (map (block_calls codec) bs) \<and> concat (map answers out) = concat (map block_answers bs)"
proof (induction tx nu mi k bs pending arbitrary: out rule: user_blocks.induct)
  case (1 tx nu mi k pending)
  with flush_keeps show ?case by auto
next
  case (2 tx nu mi k b bs pending)
  consider "cb_Type b = ''text''" | "cb_Type b = ''tool_result''"
    using "2.prems"(1) by (auto split: if_splits)
  then show ?case
  proof cases
    case 1
    with "2.prems" obtain t where "cb_Text b = Some t" by (auto split: option.splits)
    with 1 "2.IH"(1) [of t out] "2.prems" show ?thesis
      by (simp add: block_says_def block_calls_def block_answers_def split: option.splits)
  next
    case 2
    with "2.prems"(1) obtain m rest where m: "tool_result_message tx nu mi k b = Inr m"
        and rest: "user_blocks tx nu mi (Suc k) bs None = Inr rest" and out: "out = flush_text nu pending @ m # rest"
      by (auto split: sum.splits)
    from m have fields: "om_Role m = ''tool''" "om_ToolCallID m = cb_ToolUseID b" "om_ToolCalls m = []"
      by (auto simp: tool_result_message_def plain_message_def split: if_splits option.splits)
    have one: "says m = []" "answers m = [cb_ToolUseID b]" by (simp_all add: says_def answers_def fields)
    have block: "block_says b = []" "block_calls codec b = []" "block_answers b = [cb_ToolUseID b]"
      by (simp_all add: block_says_def block_calls_def block_answers_def 2)
    from "2.prems"(2) have ok: "list_all readable (flush_text nu pending)" "list_all readable rest" by (simp_all add: out)
    from 2 have "cb_Type b \<noteq> ''text''" by simp
    from "2.IH"(2) [OF this 2 m rest ok(2)] flush_keeps [OF ok(1)] show ?thesis
      by (simp add: out one block fields)
  qed
qed

lemma assistant_blocks_keep:
  "assistant_blocks codec mi k bs t calls = Inr (t1, calls1) \<Longrightarrow>
     t1 = t @ concat (map block_says bs) \<and> calls1 = calls @ concat (map (block_calls codec) bs) \<and> concat (map block_answers bs) = []"
proof (induction codec mi k bs t calls rule: assistant_blocks.induct)
  case (2 codec mi k b bs t calls)
  then show ?case
    by (auto simp: block_says_def block_calls_def block_answers_def split: if_splits option.splits)
qed simp

lemma message_keeps:
  assumes "translate_anthropic_message codec tx nu mi m = Inr out" and ok: "list_all readable out"
    and role: "ms_Role m \<noteq> ''tool''"
  shows "concat (map says out) = message_says tx m \<and>
    concat (map om_ToolCalls out) = concat (map (block_calls codec) (message_blocks tx m)) \<and>
    concat (map answers out) = concat (map block_answers (message_blocks tx m))"
proof (cases "text_of (ms_Content m)")
  case (Some t)
  with assms(1) have out: "out = [plain_message (ms_Role m) (raw_of (ms_Content m))]" and "\<not> absent (ms_Content m)"
    by (auto simp: translate_anthropic_message_def split: if_splits)
  with Some have "ms_Content m = Some (JStr t)"
    by (cases "ms_Content m") (auto simp: text_of_def dec_opt_def absent_def elim: dec_string.elims)
  with Some role show ?thesis
    by (simp add: out message_says_def message_blocks_def says_def answers_def plain_message_def raw_of_def raw_json_def)
next
  case None
  with assms(1) obtain bs where bs: "dec_blocks tx (ms_Content m) = Some bs"
    by (auto simp: translate_anthropic_message_def split: if_splits option.splits list.splits)
  consider (a) "ms_Role m = ''assistant''" | (u) "ms_Role m = ''user''" | (s) "ms_Role m = ''system''"
    using assms(1) None bs by (auto simp: translate_anthropic_message_def split: if_splits list.splits)
  then show ?thesis
  proof cases
    case a
    with assms(1) None bs obtain t calls where run: "assistant_blocks codec mi 0 bs [] [] = Inr (t, calls)"
        and out: "out = [\<lparr>om_Role = ''assistant'', om_Content = (if t = [] then None else Some (quote nu t)), om_ToolCalls = calls, om_ToolCallID = []\<rparr>]"
      by (auto simp: translate_anthropic_message_def translateAnthropicAssistantBlocks_def split: if_splits list.splits sum.splits)
    have "concat (map says out) = t" "concat (map answers out) = []" "concat (map om_ToolCalls out) = calls"
      using ok quote_cases [of nu t] by (cases "t = []"; auto simp: out says_def answers_def readable_def)+
    with assistant_blocks_keep [OF run] a None bs show ?thesis
      by (simp add: message_says_def message_blocks_def del: concat_eq_Nil_conv)
  next
    case u
    with assms(1) None bs have run: "user_blocks tx nu mi 0 bs None = Inr out"
      by (auto simp: translate_anthropic_message_def translateAnthropicUserBlocks_def split: if_splits list.splits sum.splits)
    from user_blocks_keep [OF run ok, of codec] u None bs show ?thesis
      by (simp add: message_says_def message_blocks_def)
  next
    case s
    with assms(1) None bs have out: "out = [plain_message ''system'' (raw_of (ms_Content m))]"
      by (auto simp: translate_anthropic_message_def split: if_splits list.splits)
    from None have "\<nexists>t. ms_Content m = Some (JStr t)" by (auto simp: text_of_def dec_opt_def)
    with s None show ?thesis
      by (auto simp: out message_says_def message_blocks_def says_def answers_def plain_message_def raw_of_def raw_json_def split: json.splits option.splits)
  qed
qed

lemma map_sum_Inr: "map_sum id f x = Inr y \<longleftrightarrow> (\<exists>z. x = Inr z \<and> y = f z)"
  by (cases x) auto

lemma messages_keep:
  "translate_anthropic_messages codec tx nu mi ms = Inr out \<Longrightarrow> list_all readable out \<Longrightarrow> \<forall>m\<in>set ms. ms_Role m \<noteq> ''tool'' \<Longrightarrow>
     concat (map says out) = concat (map (message_says tx) ms) \<and>
     concat (map om_ToolCalls out) = concat (map (block_calls codec) (concat (map (message_blocks tx) ms))) \<and>
     concat (map answers out) = concat (map block_answers (concat (map (message_blocks tx) ms)))"
proof (induction ms arbitrary: mi out)
  case (Cons m ms)
  from Cons.prems(1) obtain xs ys where xs: "translate_anthropic_message codec tx nu mi m = Inr xs"
      and ys: "translate_anthropic_messages codec tx nu (Suc mi) ms = Inr ys" and out: "out = xs @ ys"
    by (auto simp: map_sum_Inr split: sum.splits)
  from Cons.prems(2,3) have "list_all readable xs" "list_all readable ys" "ms_Role m \<noteq> ''tool''" "\<forall>m\<in>set ms. ms_Role m \<noteq> ''tool''"
    by (simp_all add: out)
  with message_keeps [OF xs] Cons.IH [OF ys] show ?case by (simp add: out)
qed simp

lemma readable_all: "all_some (map openai_message_json ms) \<noteq> None \<longleftrightarrow> list_all readable ms"
proof (induction ms)
  case (Cons m ms)
  with readable_json [of m] show ?case by (cases "openai_message_json m") auto
qed simp


text \<open>A text with a byte whose Go escape is no JSON escape makes the whole request fail.\<close>

lemma delete_character_refused:
  assumes "CHR 0x7F \<in> set t" and "plain_message role (quote nu t) \<in> set (or_Messages r)"
  shows "openai_request_json nu r = None"
proof -
  have "\<not> quotable (CHR 0x7F)" by code_simp
  with assms(1) have "quote nu t = Unreadable" by (auto simp: quote_def list_all_iff)
  then have "\<not> readable (plain_message role (quote nu t))" by (simp add: readable_def plain_message_def)
  with assms(2) have "\<not> list_all readable (or_Messages r)" by (auto simp: list_all_iff)
  then have "all_some (map openai_message_json (or_Messages r)) = None" using readable_all by blast
  then show ?thesis by (simp add: openai_request_json_def)
qed

section \<open>Sample requests\<close>

definition sample_numbers :: number_ops where
  "sample_numbers = \<lparr>nu_parse = (\<lambda>s. None), nu_show = (\<lambda>f. []), nu_errorField = (\<lambda>j. []), nu_marshalError = ''json'', nu_wide = (\<lambda>s. True)\<rparr>"

definition sample_request_codec :: json_codec where
  "sample_request_codec = \<lparr>jc_parse = map_of [(''{}'', JObj [])], jc_show = (\<lambda>j. []), jc_any = (\<lambda>j. j), jc_raw = (\<lambda>j. ''{}'')\<rparr>"

definition sample_openai_input :: input where
  "sample_openai_input = zero_input\<lparr>in_Model := ''m'',
     in_Messages :=
       [zero_input_message\<lparr>ms_Role := ''system'', ms_Content := Some (JStr ''s'')\<rparr>,
        zero_input_message\<lparr>ms_Role := ''user'', ms_Content := Some (JStr ''u'')\<rparr>,
        zero_input_message\<lparr>ms_Role := ''assistant'',
          ms_ToolCalls := [\<lparr>tc_ID = ''c'', tc_Type = ''function'', tc_Name = ''f'', tc_Arguments = ''{}''\<rparr>]\<rparr>,
        zero_input_message\<lparr>ms_Role := ''tool'', ms_ToolCallID := ''c'', ms_Content := Some (JStr ''r'')\<rparr>]\<rparr>"

definition sample_converted :: anthropic_request where
  "sample_converted = \<lparr>ar_Model = ''m'',
     ar_Messages =
       [(''user'', JStr ''u''),
        (''assistant'', JArr [JObj [(''id'', JStr ''c''), (''input'', JObj []), (''name'', JStr ''f''), (''type'', JStr ''tool_use'')]]),
        (''user'', JArr [JObj [(''content'', JStr ''r''), (''tool_use_id'', JStr ''c''), (''type'', JStr ''tool_result'')]])],
     ar_Thinking = None, ar_MaxTokens = 100, ar_Stream = False, ar_System = Some (Raw (JStr ''s'')), ar_Temperature = None, ar_TopP = None,
     ar_StopSequences = [], ar_Tools = [], ar_ToolChoice = None, ar_Metadata = None, ar_OutputFormat = None\<rparr>"

lemma sample_openai_valid: "input_error sample_lower ''openai'' sample_openai_input = None"
  by code_simp

lemma sample_openai_converts:
  "openai_to_anthropic sample_request_codec sample_lower sample_numbers 100 sample_openai_input = Inr (sample_converted, [])"
  by code_simp


definition sample_native_input :: input where
  "sample_native_input = zero_input\<lparr>in_Model := ''m'', in_MaxTokens := Some 10, in_System := Some (JStr ''s''),
     in_Messages :=
       [zero_input_message\<lparr>ms_Role := ''user'', ms_Content := Some (JStr ''u'')\<rparr>,
        zero_input_message\<lparr>ms_Role := ''assistant'', ms_Content := Some (JArr [JObj [(''type'', JStr ''tool_use''), (''id'', JStr ''c''),
          (''name'', JStr ''f''), (''input'', JObj [])]])\<rparr>,
        zero_input_message\<lparr>ms_Role := ''user'', ms_Content := Some (JArr [JObj [(''type'', JStr ''tool_result''),
          (''tool_use_id'', JStr ''c''), (''content'', JStr ''r'')], JObj [(''type'', JStr ''text''), (''text'', JStr ''v'')]])\<rparr>]\<rparr>"

definition sample_native_converted :: openai_request where
  "sample_native_converted = \<lparr>or_Model = ''m'',
     or_Messages =
       [plain_message ''system'' (Raw (JStr ''s'')), plain_message ''user'' (Raw (JStr ''u'')),
        \<lparr>om_Role = ''assistant'', om_Content = None,
          om_ToolCalls = [\<lparr>tc_ID = ''c'', tc_Type = ''function'', tc_Name = ''f'', tc_Arguments = ''{}''\<rparr>], om_ToolCallID = []\<rparr>,
        (plain_message ''tool'' (Raw (JStr ''r'')))\<lparr>om_ToolCallID := ''c''\<rparr>, plain_message ''user'' (Raw (JStr ''v''))],
     or_ContextManagement = None, or_Thinking = None, or_MaxTokens = Some 10, or_Stream = False, or_Temperature = None, or_TopP = None,
     or_Stop = [], or_Tools = [], or_ToolChoice = None, or_ParallelToolCalls = None, or_ResponseFormat = None, or_User = []\<rparr>"

lemma sample_native_valid: "input_error sample_lower ''anthropic'' sample_native_input = None"
  by code_simp

lemma sample_native_converts:
  "anthropic_to_openai sample_request_codec sample_lower sample_numbers sample_native_input = Inr sample_native_converted"
  by code_simp


end
