(* ===== verification/Availability.thy ===== *)
theory Availability
  imports Provider_Errors Limiter
begin

text \<open>
  \<^verbatim>\<open>internal/gateway/availability.go\<close>: the health of providers and provider/model pairs.

  The state is the record of the Go struct with its clock, jitter and logger taken out: the
  operations take the current time and, where a delay is drawn, the jitter as arguments. The
  code tells entries and leases apart by their addresses; \<open>ae_id\<close> and \<open>al_id\<close> are those
  addresses, and \<open>as_fresh\<close> is above every address in use, so that an allocation takes it. An
  entry that is copied gets a new address, one that is updated in place keeps its own.
  Log output (\<open>logTransitions\<close>) is left out.
\<close>

section \<open>State\<close>

abbreviation availabilityLimit :: nat where "availabilityLimit \<equiv> 4096"
abbreviation availabilityTTL :: duration where "availabilityTTL \<equiv> day"
abbreviation availabilityMaxBackoff :: duration where "availabilityMaxBackoff \<equiv> 30 * minute"
abbreviation routeRecoveryCooldown :: duration where "routeRecoveryCooldown \<equiv> 30 * second"
abbreviation billingExhaustionCooldown :: duration where "billingExhaustionCooldown \<equiv> 5 * minute"

record avail_target =
  at_provider :: string
  at_model :: string
  at_generation :: u64

record avail_entry =
  ae_id :: nat
  ae_reason :: string
  ae_failures :: u16
  ae_lastSuccess :: time
  ae_lastFailure :: time
  ae_retryAt :: time
  ae_touched :: time
  ae_probing :: bool
  ae_owner :: "nat option"

record avail_lease =
  al_id :: nat
  al_epoch :: u64
  al_targets :: "avail_target list"
  al_entries :: "nat option list"

record avail_state =
  as_nextSweep :: time
  as_epoch :: u64
  as_generations :: "(string, u64) gomap"
  as_entries :: "(avail_target, avail_entry) gomap"
  as_fresh :: nat

abbreviation mk_target :: "string \<Rightarrow> string \<Rightarrow> u64 \<Rightarrow> avail_target" where
  "mk_target p m g \<equiv> \<lparr>at_provider = p, at_model = m, at_generation = g\<rparr>"

definition new_availability_state :: avail_state where
  "new_availability_state =
     \<lparr>as_nextSweep = 0, as_epoch = 0, as_generations = [], as_entries = [], as_fresh = 0\<rparr>"

definition entry_eligible :: "avail_entry option \<Rightarrow> time \<Rightarrow> bool" where
  "entry_eligible eo now =
     (case eo of
        None \<Rightarrow> True
      | Some e \<Rightarrow> ae_failures e = 0 \<or> \<not> ae_probing e \<and> \<not> now < ae_retryAt e)"

definition entry_state :: "avail_entry option \<Rightarrow> string" where
  "entry_state eo =
     (case eo of
        None \<Rightarrow> ''unknown''
      | Some e \<Rightarrow> if ae_probing e then ''probing'' else if 0 < ae_failures e then ''cooling'' else ''available'')"

text \<open>A missing provider has generation 0, the zero value of a map lookup.\<close>

definition generation_of :: "avail_state \<Rightarrow> string \<Rightarrow> u64" where
  "generation_of s p = (case map_of (as_generations s) p of None \<Rightarrow> 0 | Some g \<Rightarrow> g)"

definition with_current ::
  "avail_state option \<Rightarrow> u64 \<Rightarrow> string \<Rightarrow> u64 \<Rightarrow> ('x \<Rightarrow> 'x) \<Rightarrow> 'x \<Rightarrow> bool \<times> 'x"
where
  "with_current so epoch provider generation act x =
     (case so of
        None \<Rightarrow> (True, act x)
      | Some s \<Rightarrow>
          if as_epoch s \<noteq> epoch \<or> generation_of s provider \<noteq> generation then (False, x)
          else (True, act x))"

definition activate_state ::
  "u64 \<Rightarrow> (string, u64) gomap \<Rightarrow> (string \<Rightarrow> string \<Rightarrow> bool) option \<Rightarrow> avail_state \<Rightarrow> avail_state"
where
  "activate_state epoch generations valid s =
     s\<lparr>as_epoch := epoch, as_generations := generations,
       as_entries := map_vals (\<lambda>t e. e\<lparr>ae_id := as_fresh s + ae_id e\<rparr>)
         (map_keep (\<lambda>t e. \<not> (map_of generations (at_provider t) \<noteq> Some (at_generation t)
              \<or> at_model t \<noteq> [] \<and> (case valid of None \<Rightarrow> False | Some f \<Rightarrow> \<not> f (at_provider t) (at_model t))))
            (as_entries s)),
       as_fresh := 2 * as_fresh s\<rparr>"

definition safe_availability_model :: "string \<Rightarrow> bool" where
  "safe_availability_model m \<longleftrightarrow>
     \<not> (m = [] \<or> 128 < length m) \<and> list_all (\<lambda>c. is_alnum c \<or> c \<in> set ''._/-:@'') m"

definition prune :: "time \<Rightarrow> avail_state \<Rightarrow> avail_state" where
  "prune now s =
     (if now < as_nextSweep s then s
      else s\<lparr>as_nextSweep := now + minute,
             as_entries := map_keep
               (\<lambda>t e. \<not> (\<not> ae_probing e \<and> availabilityTTL \<le> time_sub now (ae_touched e))) (as_entries s)\<rparr>)"

text \<open>The loop of \<open>put\<close>: the entry touched longest ago among those without a claim, the first one
  met on a tie.\<close>

definition older :: "(avail_target \<times> avail_entry) option \<Rightarrow> avail_target \<times> avail_entry
     \<Rightarrow> (avail_target \<times> avail_entry) option" where
  "older best te =
     (if \<not> ae_probing (snd te) \<and>
         (case best of None \<Rightarrow> True | Some c \<Rightarrow> ae_touched (snd te) < ae_touched (snd c))
      then Some te else best)"

definition oldest_idle :: "(avail_target, avail_entry) gomap \<Rightarrow> (avail_target \<times> avail_entry) option" where
  "oldest_idle m = foldl older None m"

definition avail_put :: "avail_target \<Rightarrow> avail_entry \<Rightarrow> avail_state \<Rightarrow> bool \<times> avail_state" where
  "avail_put t e s =
     (if map_of (as_entries s) t = None \<and> availabilityLimit \<le> length (as_entries s) then
        (case oldest_idle (as_entries s) of
           None \<Rightarrow> (False, s)
         | Some (k, _) \<Rightarrow> (True, s\<lparr>as_entries := map_put t e (map_del k (as_entries s))\<rparr>))
      else (True, s\<lparr>as_entries := map_put t e (as_entries s)\<rparr>))"

definition available :: "u64 \<Rightarrow> string \<Rightarrow> string \<Rightarrow> u64 \<Rightarrow> time \<Rightarrow> avail_state \<Rightarrow> bool \<times> avail_state" where
  "available epoch provider model generation now s =
     (if epoch \<noteq> as_epoch s then (True, s)
      else
        (let s1 = prune now s
         in (entry_eligible (map_of (as_entries s1) (mk_target provider [] generation)) now \<and>
             entry_eligible (map_of (as_entries s1) (mk_target provider model generation)) now, s1)))"

section \<open>Admission\<close>

definition availability_error :: "avail_entry \<Rightarrow> avail_target \<Rightarrow> time \<Rightarrow> call_error" where
  "availability_error e t now =
     (let code0 = (if at_model t = [] then ''provider_'' @ ae_reason e @ ''_cooling_down''
                   else ''model_'' @ ae_reason e @ ''_cooling_down'');
          code1 = (if at_model t \<noteq> [] \<and> ae_reason e = ''model_not_found'' then ''model_not_found_cooling_down'' else code0);
          code = (if ae_probing e then ''recovery_in_progress'' else code1);
          delay = time_sub (ae_retryAt e) now
      in (call_error_of 429 code)\<lparr>ce_Cooldown := (if ae_probing e \<or> delay < 0 then 0 else delay),
           ce_UpstreamNotAttempted := True\<rparr>)"

definition is_availability_error :: "string \<Rightarrow> bool" where
  "is_availability_error code \<longleftrightarrow>
     code = ''provider_keys_cooling_down'' \<or> code = ''recovery_in_progress'' \<or>
     has_prefix code ''provider_'' \<and> has_suffix code ''_cooling_down'' \<or>
     has_prefix code ''model_'' \<and> has_suffix code ''_cooling_down''"

text \<open>The first loop of \<open>dispatch\<close>: a failed target that is neither this lease's own claim nor
  eligible refuses the request.\<close>

definition target_blocked :: "avail_state \<Rightarrow> time \<Rightarrow> avail_target \<times> nat option \<Rightarrow> bool" where
  "target_blocked s now tp =
     (case map_of (as_entries s) (fst tp) of
        None \<Rightarrow> False
      | Some e \<Rightarrow> 0 < ae_failures e \<and> \<not> (ae_probing e \<and> snd tp = Some (ae_id e)) \<and>
                  \<not> entry_eligible (Some e) now)"

definition first_blocked :: "avail_state \<Rightarrow> time \<Rightarrow> avail_lease \<Rightarrow> (avail_target \<times> avail_entry) option" where
  "first_blocked s now l =
     (case find (target_blocked s now) (zip (al_targets l) (al_entries l)) of
        None \<Rightarrow> None
      | Some (t, _) \<Rightarrow> map_option (Pair t) (map_of (as_entries s) t))"

text \<open>The second loop: the lease records what it saw and claims the failed targets.\<close>

definition claim_target :: "nat \<Rightarrow> avail_target \<Rightarrow> avail_state \<Rightarrow> avail_state" where
  "claim_target lid t s =
     (case map_of (as_entries s) t of
        None \<Rightarrow> s
      | Some e \<Rightarrow>
          if 0 < ae_failures e \<and> \<not> ae_probing e
          then s\<lparr>as_entries := map_put t (e\<lparr>ae_probing := True, ae_owner := Some lid\<rparr>) (as_entries s)\<rparr>
          else s)"

definition observe :: "avail_state \<Rightarrow> avail_target \<Rightarrow> nat option" where
  "observe s t = map_option ae_id (map_of (as_entries s) t)"

definition avail_dispatch ::
  "time \<Rightarrow> avail_lease \<Rightarrow> avail_state \<Rightarrow> call_error option \<times> avail_lease \<times> avail_state"
where
  "avail_dispatch now l s =
     (if al_epoch l \<noteq> as_epoch s then (None, l, s)
      else
        (let s1 = prune now s in
         case first_blocked s1 now l of
           Some (t, e) \<Rightarrow> (Some (availability_error e t now), l, s1)
         | None \<Rightarrow>
             (None, l\<lparr>al_entries := map (observe s1) (al_targets l)\<rparr>,
              fold (claim_target (al_id l)) (al_targets l) s1)))"

definition lease_targets :: "string \<Rightarrow> string \<Rightarrow> u64 \<Rightarrow> avail_target list" where
  "lease_targets provider model generation =
     mk_target provider [] generation #
       (if safe_availability_model model then [mk_target provider model generation] else [])"

definition avail_begin ::
  "u64 \<Rightarrow> string \<Rightarrow> string \<Rightarrow> u64 \<Rightarrow> time \<Rightarrow> avail_state \<Rightarrow> call_error option \<times> avail_lease \<times> avail_state"
where
  "avail_begin epoch provider model generation now s =
     (let ts = lease_targets provider model generation;
          l = \<lparr>al_id = as_fresh s, al_epoch = epoch, al_targets = ts, al_entries = replicate (length ts) None\<rparr>
      in avail_dispatch now l (s\<lparr>as_fresh := Suc (as_fresh s)\<rparr>))"

section \<open>Classification of a result\<close>

text \<open>The result \<open>(modelScope, reason, cooldown)\<close>; an empty reason is no failure evidence.\<close>

definition no_evidence :: "bool \<times> string \<times> duration" where
  "no_evidence = (False, [], 0)"

text \<open>What an unclassified attempted error says, from its normalized details.\<close>

definition unclassified_failure :: "call_error \<Rightarrow> failure \<Rightarrow> bool \<times> string \<times> duration" where
  "unclassified_failure e f =
     (if fl_Retryability f = ''terminal'' then no_evidence
      else if fl_Source f = ''stream_error'' then
        (if fl_Retryability f = ''unknown'' then (True, ''unclassified_stream_error'', routeRecoveryCooldown)
         else (True, ''upstream_stream_error'', ce_Cooldown e))
      else if fl_Retryability f \<noteq> ''retryable'' then no_evidence
      else if ce_Code e = ''upstream_timeout'' then
        (if fl_Phase f \<noteq> ''conversion'' \<and> fl_Source f \<noteq> ''downstream''
         then (True, ''upstream_timeout'', ce_Cooldown e) else no_evidence)
      else if ce_Code e \<in> {''upstream_stream_read_error'', ''incomplete_upstream_stream''} then
        (if fl_Source f = ''stream'' then (True, ''stream_interrupted'', ce_Cooldown e) else no_evidence)
      else if ce_Code e \<in> {''upstream_read_error'', ''upstream_transport_error''} then
        (True, ''transport_error'', ce_Cooldown e)
      else if ce_Code e = ''upstream_error'' then
        (if fl_Source f = ''http_error'' \<and> 500 \<le> fl_HTTPStatus f
         then (True, ''upstream_error'', ce_Cooldown e) else no_evidence)
      else no_evidence)"

definition availability_failure ::
  "message_ops \<Rightarrow> go_error option \<Rightarrow> ctx_error option \<Rightarrow> bool \<Rightarrow> bool \<times> string \<times> duration"
where
  "availability_failure ops err ctxErr handled =
     (if handled \<or> ctxErr \<noteq> None then no_evidence
      else (case as_call_error err of
        None \<Rightarrow> no_evidence
      | Some e \<Rightarrow>
          if ce_Code e = ''upstream_transport_error'' \<and> ce_UpstreamNotAttempted e \<and> ce_FailoverSafe e
            then (False, ''transport_error'', ce_Cooldown e)
          else if ce_UpstreamNotAttempted e then no_evidence
          else if ce_Category e = ProviderErrorRateLimited \<and> ce_AllKeysCooling e
            then (False, ''rate_limited'', ce_Cooldown e)
          else if ce_Category e = ProviderErrorModelNotFound then (True, ''model_not_found'', ce_Cooldown e)
          else if ce_Category e = ProviderErrorTemporarilyUnavailable
            then (True, ''temporarily_unavailable'', ce_Cooldown e)
          else if ce_Category e = ProviderErrorInsufficientBalance
            then (False, ''insufficient_balance'', ce_Cooldown e)
          else if ce_Category e \<in> {ProviderErrorQuotaExhausted, ProviderErrorAccessDenied, ProviderErrorFairUseThrottled}
            then (False, ce_Category e, ce_Cooldown e)
          else if ce_Category e \<noteq> [] then no_evidence
          else (case failure_normalize ops (ce_Failure e) of
                  None \<Rightarrow> no_evidence
                | Some f \<Rightarrow> unclassified_failure e f)))"

section \<open>Backoff\<close>

text \<open>The doubling loop, with the number of rounds it may still make.\<close>

fun double_until :: "nat \<Rightarrow> duration \<Rightarrow> duration" where
  "double_until 0 base = base"
| "double_until (Suc n) base = (if base < availabilityMaxBackoff then double_until n (base * 2) else base)"

definition bounded_recovery_backoff ::
  "string \<Rightarrow> u16 \<Rightarrow> duration \<Rightarrow> (duration \<Rightarrow> duration) \<Rightarrow> duration"
where
  "bounded_recovery_backoff reason failures upstream jitter =
     (if reason = ''rate_limited'' \<and> 10 < failures then day
      else
        (let base0 = (if provider_scoped_terminal reason then billingExhaustionCooldown else routeRecoveryCooldown);
             base1 = (if reason \<noteq> ''unclassified_stream_error'' then double_until (unat failures - 1) base0 else base0);
             base = (if availabilityMaxBackoff < base1 then availabilityMaxBackoff else base1);
             delay0 = base + jitter base;
             delay1 = (if delay0 < upstream then upstream else delay0)
         in if day < delay1 then day else delay1))"

section \<open>Completion\<close>

text \<open>A claim of an old view ends with its request: the entry is copied without the claim.\<close>

definition release_old_claim :: "nat \<Rightarrow> avail_target \<Rightarrow> avail_state \<Rightarrow> avail_state" where
  "release_old_claim lid t s =
     (case map_of (as_entries s) t of
        None \<Rightarrow> s
      | Some e \<Rightarrow>
          if ae_owner e = Some lid
          then s\<lparr>as_entries := map_put t (e\<lparr>ae_id := as_fresh s, ae_probing := False, ae_owner := None\<rparr>) (as_entries s),
                 as_fresh := Suc (as_fresh s)\<rparr>
          else s)"

text \<open>The copy that a result replaces the entry with; \<open>fail_class\<close> is the classification and
  \<open>fe\<close> the call error of the result.\<close>

definition next_entry ::
  "nat \<Rightarrow> time \<Rightarrow> (duration \<Rightarrow> duration) \<Rightarrow> bool \<Rightarrow> bool \<times> string \<times> duration \<Rightarrow> call_error option
     \<Rightarrow> avail_target \<Rightarrow> avail_entry option \<Rightarrow> avail_entry"
where
  "next_entry addr now jitter success fail_class fe t previous =
     (let (modelScope, reason, cooldown) = fail_class;
          base = (case previous of
                    None \<Rightarrow> \<lparr>ae_id = addr, ae_reason = [], ae_failures = 0, ae_lastSuccess = 0, ae_lastFailure = 0,
                             ae_retryAt = 0, ae_touched = now, ae_probing = False, ae_owner = None\<rparr>
                  | Some e \<Rightarrow> e\<lparr>ae_id := addr, ae_touched := now, ae_probing := False, ae_owner := None\<rparr>)
      in if success
         then base\<lparr>ae_lastSuccess := now, ae_reason := [], ae_failures := 0, ae_retryAt := 0\<rparr>
         else
           (let n1 = (if reason \<noteq> [] \<and> modelScope = (at_model t \<noteq> []) then base\<lparr>ae_reason := reason\<rparr> else base);
                n2 = (if ae_failures n1 < 16 then n1\<lparr>ae_failures := ae_failures n1 + 1\<rparr> else n1);
                n3 = n2\<lparr>ae_lastFailure := now\<rparr>
            in case fe of
                 Some e \<Rightarrow>
                   if reason = ''rate_limited'' \<and> ce_AllKeysCooling e then
                     n3\<lparr>ae_failures := (if ce_RateLimitFailures e = 0 then 1 else ce_RateLimitFailures e),
                        ae_retryAt := (if ce_CooldownUntil e = 0 then now + cooldown else ce_CooldownUntil e)\<rparr>
                   else n3\<lparr>ae_retryAt := now + bounded_recovery_backoff (ae_reason n3) (ae_failures n3) cooldown jitter\<rparr>
               | None \<Rightarrow>
                   n3\<lparr>ae_retryAt := now + bounded_recovery_backoff (ae_reason n3) (ae_failures n3) cooldown jitter\<rparr>))"

text \<open>Whether the result counts as a failure of the target: evidence for its scope, or an
  attempted probe that cannot confirm recovery.\<close>

definition target_failed ::
  "bool \<Rightarrow> bool \<Rightarrow> ctx_error option \<Rightarrow> call_error option \<Rightarrow> bool \<times> string \<times> duration
     \<Rightarrow> avail_target \<Rightarrow> avail_entry option \<Rightarrow> bool"
where
  "target_failed success handled ctxErr fe fail_class t previous =
     (let (modelScope, reason, _) = fail_class in
      (reason \<noteq> [] \<and> modelScope = (at_model t \<noteq> [])) \<or>
      (case previous of None \<Rightarrow> False | Some e \<Rightarrow> ae_probing e) \<and> \<not> success \<and> \<not> handled \<and> ctxErr = None \<and>
      (case fe of None \<Rightarrow> False | Some e \<Rightarrow> \<not> ce_UpstreamNotAttempted e))"

text \<open>One round of the completion loop: \<open>seen\<close> is the address the lease recorded.\<close>

definition complete_target ::
  "time \<Rightarrow> (avail_target \<Rightarrow> duration \<Rightarrow> duration) \<Rightarrow> bool \<Rightarrow> bool \<Rightarrow> ctx_error option \<Rightarrow> call_error option
     \<Rightarrow> bool \<times> string \<times> duration \<Rightarrow> avail_target \<times> nat option \<Rightarrow> avail_state \<Rightarrow> avail_state"
where
  "complete_target now jitter success handled ctxErr fe fail_class ts s =
     (let t = fst ts; previous = map_of (as_entries s) t in
      if map_option ae_id previous \<noteq> snd ts then s
      else
        (let fail = target_failed success handled ctxErr fe fail_class t previous in
         if \<not> success \<and> \<not> fail then
           (case previous of
              None \<Rightarrow> s
            | Some e \<Rightarrow>
                if ae_probing e
                then s\<lparr>as_entries := map_put t (e\<lparr>ae_probing := False, ae_owner := None\<rparr>) (as_entries s)\<rparr>
                else s)
         else
           snd (avail_put t (next_entry (as_fresh s) now (jitter t) success fail_class fe t previous)
                  (s\<lparr>as_fresh := Suc (as_fresh s)\<rparr>))))"

definition avail_complete ::
  "message_ops \<Rightarrow> (avail_target \<Rightarrow> duration \<Rightarrow> duration) \<Rightarrow> time \<Rightarrow> avail_lease \<Rightarrow> bool \<Rightarrow> go_error option
     \<Rightarrow> ctx_error option \<Rightarrow> avail_state \<Rightarrow> bool \<times> avail_state"
where
  "avail_complete ops jitter now l handled err ctxErr s =
     (if al_epoch l \<noteq> as_epoch s then (False, fold (release_old_claim (al_id l)) (al_targets l) s)
      else if \<not> list_all (\<lambda>t. map_of (as_generations s) (at_provider t) = Some (at_generation t)) (al_targets l)
        then (False, s)
      else
        (let success = (\<not> handled \<and> err = None \<and> ctxErr = None);
             fail_class = availability_failure ops err ctxErr handled
         in (success,
             fold (complete_target now jitter success handled ctxErr (as_call_error err) fail_class)
               (zip (al_targets l) (al_entries l)) (prune now s))))"

section \<open>Status\<close>

text \<open>\<open>retryDeadlineSeconds\<close> of \<^verbatim>\<open>retry_guidance.go\<close>: the whole seconds to a deadline,
  rounded up.\<close>

definition retryDeadlineSeconds :: "time \<Rightarrow> time \<Rightarrow> int" where
  "retryDeadlineSeconds until now =
     (if \<not> now < until then 0
      else if nanosecond_of now < nanosecond_of until then unix_seconds until - unix_seconds now + 1
      else unix_seconds until - unix_seconds now)"

lemma retryDeadlineSeconds_ceiling:
  assumes "now < until"
  shows "until \<le> now + retryDeadlineSeconds until now * second"
    and "now + retryDeadlineSeconds until now * second < until + second"
proof -
  define uq ur nq nr where "uq = until div second" and "ur = until mod second"
    and "nq = now div second" and "nr = now mod second"
  then have eqs: "until = second * uq + ur" "now = second * nq + nr"
    and bounds: "0 \<le> ur" "ur < second" "0 \<le> nr" "nr < second"
    by simp_all
  have "retryDeadlineSeconds until now = (if nr < ur then uq - nq + 1 else uq - nq)"
    using assms by (simp add: retryDeadlineSeconds_def unix_seconds_def nanosecond_of_def uq_def ur_def nq_def nr_def)
  with eqs bounds show "until \<le> now + retryDeadlineSeconds until now * second"
    and "now + retryDeadlineSeconds until now * second < until + second"
    by (simp_all add: algebra_simps)
qed

record availability_status =
  av_State :: string
  av_Reason :: string
  av_LastSuccess :: time
  av_LastFailure :: time
  av_RetryAt :: time
  av_ProbeDue :: bool
  av_ConsecutiveFailures :: u16
  av_Scope :: string
  av_RetryAfterSeconds :: "int option"

definition availabilityStatus :: "avail_entry option \<Rightarrow> time \<Rightarrow> availability_status" where
  "availabilityStatus eo now =
     (let st = \<lparr>av_State = entry_state eo, av_Reason = [], av_LastSuccess = 0, av_LastFailure = 0, av_RetryAt = 0,
                av_ProbeDue = False, av_ConsecutiveFailures = 0, av_Scope = [], av_RetryAfterSeconds = None\<rparr>
      in case eo of
           None \<Rightarrow> st
         | Some e \<Rightarrow>
             st\<lparr>av_Reason := ae_reason e, av_LastSuccess := ae_lastSuccess e, av_LastFailure := ae_lastFailure e,
                av_RetryAt := ae_retryAt e,
                av_ProbeDue := (0 < ae_failures e \<and> \<not> ae_probing e \<and> \<not> now < ae_retryAt e),
                av_ConsecutiveFailures := ae_failures e,
                av_RetryAfterSeconds :=
                  (if 0 < ae_failures e \<and> \<not> ae_probing e
                   then Some (if now < ae_retryAt e then retryDeadlineSeconds (ae_retryAt e) now else 0)
                   else None)\<rparr>)"

definition availabilityStatusEligible :: "availability_status \<Rightarrow> bool" where
  "availabilityStatusEligible st \<longleftrightarrow>
     av_State st \<noteq> ''unavailable'' \<and> av_State st \<noteq> ''probing'' \<and> (av_State st \<noteq> ''cooling'' \<or> av_ProbeDue st)"

section \<open>Requests in flight\<close>

text \<open>
  The state together with the leases of the requests in flight. A request belongs to a
  configuration view, which has an epoch and the generation of every provider; a later view has a
  larger epoch. One rule per critical section:
  \<^item> \<open>start\<close> and \<open>refuse\<close>: \<open>begin\<close> by a request of the current or an older view;
  \<^item> \<open>recheck\<close>: \<open>dispatch\<close> again, before the HTTP call;
  \<^item> \<open>finish\<close>: \<open>complete\<close>, after which the lease is gone;
  \<^item> \<open>reload\<close>: \<open>activate\<close> of a newer view;
  \<^item> \<open>query\<close>: \<open>available\<close>.
\<close>

record avail_sys =
  av_state :: avail_state
  av_flight :: "avail_lease list"

definition avail_init :: avail_sys where
  "avail_init = \<lparr>av_state = new_availability_state, av_flight = []\<rparr>"

definition in_view :: "avail_state \<Rightarrow> u64 \<Rightarrow> string \<Rightarrow> u64 \<Rightarrow> bool" where
  "in_view s epoch provider generation \<longleftrightarrow>
     epoch \<le> as_epoch s \<and> (epoch = as_epoch s \<longrightarrow> map_of (as_generations s) provider = Some generation)"

inductive avail_step :: "message_ops \<Rightarrow> avail_sys \<Rightarrow> avail_sys \<Rightarrow> bool" for ops where
  start: "avail_step ops \<lparr>av_state = s, av_flight = F\<rparr> \<lparr>av_state = s', av_flight = l # F\<rparr>"
    if "in_view s epoch provider generation"
      and "avail_begin epoch provider model generation now s = (None, l, s')"
| refuse: "avail_step ops \<lparr>av_state = s, av_flight = F\<rparr> \<lparr>av_state = s', av_flight = F\<rparr>"
    if "in_view s epoch provider generation"
      and "avail_begin epoch provider model generation now s = (Some e, l, s')"
| recheck: "avail_step ops \<lparr>av_state = s, av_flight = F @ l # G\<rparr> \<lparr>av_state = s', av_flight = F @ l' # G\<rparr>"
    if "avail_dispatch now l s = (e, l', s')"
| finish: "avail_step ops \<lparr>av_state = s, av_flight = F @ l # G\<rparr> \<lparr>av_state = s', av_flight = F @ G\<rparr>"
    if "avail_complete ops jitter now l handled err ctxErr s = (ok, s')"
| reload: "avail_step ops \<lparr>av_state = s, av_flight = F\<rparr> \<lparr>av_state = activate_state epoch generations valid s, av_flight = F\<rparr>"
    if "as_epoch s < epoch"
| query: "avail_step ops \<lparr>av_state = s, av_flight = F\<rparr> \<lparr>av_state = s', av_flight = F\<rparr>"
    if "available epoch provider model generation now s = (b, s')"

abbreviation entry_at :: "avail_state \<Rightarrow> avail_target \<Rightarrow> avail_entry option" where
  "entry_at s t \<equiv> map_of (as_entries s) t"

definition entry_inv :: "avail_state \<Rightarrow> bool" where
  "entry_inv s \<longleftrightarrow> map_wf (as_entries s) \<and> length (as_entries s) \<le> availabilityLimit \<and>
     (\<forall>t e. entry_at s t = Some e \<longrightarrow>
        ae_id e < as_fresh s \<and> (ae_probing e \<longleftrightarrow> ae_owner e \<noteq> None) \<and> (ae_probing e \<longrightarrow> ae_failures e \<noteq> 0))"

text \<open>What a lease of the current view has recorded: a failing entry it saw is its own claim, and
  every claim of its own is recorded.\<close>

definition claim_inv :: "avail_state \<Rightarrow> nat \<Rightarrow> (avail_target \<times> nat option) list \<Rightarrow> bool" where
  "claim_inv s i ps \<longleftrightarrow>
     (\<forall>t e. entry_at s t = Some e \<and> (t, Some (ae_id e)) \<in> set ps \<and> ae_failures e \<noteq> 0 \<longrightarrow> ae_owner e = Some i) \<and>
     (\<forall>t e. entry_at s t = Some e \<and> ae_owner e = Some i \<longrightarrow> (t, Some (ae_id e)) \<in> set ps) \<and>
     (\<forall>t a. (t, Some a) \<in> set ps \<longrightarrow> a < as_fresh s)"

definition lease_inv :: "avail_state \<Rightarrow> avail_lease \<Rightarrow> bool" where
  "lease_inv s l \<longleftrightarrow> al_id l < as_fresh s \<and> length (al_entries l) = length (al_targets l) \<and>
     distinct (al_targets l) \<and> al_epoch l \<le> as_epoch s \<and>
     (if al_epoch l = as_epoch s
      then (\<forall>t \<in> set (al_targets l). map_of (as_generations s) (at_provider t) = Some (at_generation t)) \<and>
           claim_inv s (al_id l) (zip (al_targets l) (al_entries l))
      else (\<forall>t e. entry_at s t = Some e \<and> ae_owner e = Some (al_id l) \<longrightarrow> t \<in> set (al_targets l)))"

definition avail_inv :: "avail_sys \<Rightarrow> bool" where
  "avail_inv y \<longleftrightarrow> entry_inv (av_state y) \<and> (\<forall>l \<in> set (av_flight y). lease_inv (av_state y) l) \<and>
     distinct (map al_id (av_flight y)) \<and>
     (\<forall>t e i. entry_at (av_state y) t = Some e \<and> ae_owner e = Some i \<longrightarrow> i \<in> al_id ` set (av_flight y))"

subsection \<open>Changes that respect the other requests\<close>

text \<open>
  \<open>settles i t s s'\<close>: besides dropping entries without a claim, the step from \<open>s\<close> to \<open>s'\<close> touches
  only the entry of \<open>t\<close>, which it leaves unclaimed, either at a new address or by taking back the
  claim of lease \<open>i\<close>.
\<close>

definition settles :: "nat \<Rightarrow> avail_target \<Rightarrow> avail_state \<Rightarrow> avail_state \<Rightarrow> bool" where
  "settles i t s s' \<longleftrightarrow> map_wf (as_entries s') \<and> length (as_entries s') \<le> availabilityLimit \<and>
     as_epoch s' = as_epoch s \<and> as_generations s' = as_generations s \<and> as_fresh s \<le> as_fresh s' \<and>
     (\<forall>u e. u \<noteq> t \<longrightarrow> entry_at s' u = Some e \<longrightarrow> entry_at s u = Some e) \<and>
     (\<forall>e. entry_at s' t = Some e \<longrightarrow> entry_at s t = Some e \<or>
        \<not> ae_probing e \<and> ae_owner e = None \<and> ae_id e < as_fresh s' \<and>
        (as_fresh s \<le> ae_id e \<or> (\<exists>e0. entry_at s t = Some e0 \<and> ae_id e0 = ae_id e \<and> ae_owner e0 = Some i)))"

lemma entry_invD:
  assumes "entry_inv s" "entry_at s t = Some e"
  shows "ae_id e < as_fresh s" "ae_probing e \<longleftrightarrow> ae_owner e \<noteq> None" "ae_probing e \<Longrightarrow> ae_failures e \<noteq> 0"
    "ae_owner e = Some i \<Longrightarrow> ae_failures e \<noteq> 0"
  using assms unfolding entry_inv_def by blast+

lemma settles_cases:
  assumes "settles i t s s'" "entry_at s' u = Some e"
  obtains (same) "entry_at s u = Some e"
    | (fresh) "u = t" "\<not> ae_probing e" "ae_owner e = None" "ae_id e < as_fresh s'" "as_fresh s \<le> ae_id e"
    | (own) e0 where "u = t" "\<not> ae_probing e" "ae_owner e = None" "ae_id e < as_fresh s'"
        "entry_at s t = Some e0" "ae_id e0 = ae_id e" "ae_owner e0 = Some i"
  using assms unfolding settles_def by (cases "u = t") metis+

lemma settles_frame:
  assumes "settles i t s s'"
  shows "map_wf (as_entries s')" "length (as_entries s') \<le> availabilityLimit" "as_epoch s' = as_epoch s"
    "as_generations s' = as_generations s" "as_fresh s \<le> as_fresh s'"
  using assms unfolding settles_def by blast+

lemma settles_entry_inv:
  assumes "settles i t s s'" "entry_inv s"
  shows "entry_inv s'"
  unfolding entry_inv_def
proof (intro conjI allI impI)
  fix u e assume e: "entry_at s' u = Some e"
  show "ae_id e < as_fresh s'"
    using assms(1) e
  proof (cases rule: settles_cases)
    case same
    with assms show ?thesis using entry_invD(1) settles_frame(5) by fastforce
  qed auto
  show "ae_probing e = (ae_owner e \<noteq> None)"
    using assms(1) e by (cases rule: settles_cases) (use assms(2) entry_invD(2) in auto)
  assume "ae_probing e"
  with assms(1) e show "ae_failures e \<noteq> 0"
    by (cases rule: settles_cases) (use assms(2) entry_invD(3) in auto)
qed (use settles_frame [OF assms(1)] in auto)

lemma settles_owner:
  assumes "settles i t s s'" "entry_at s' u = Some e" "ae_owner e = Some j"
  shows "entry_at s u = Some e"
  using assms(1,2) by (cases rule: settles_cases) (use assms(3) in auto)

lemma settles_claim_inv:
  assumes "settles i t s s'" "entry_inv s" "claim_inv s j ps" "j \<noteq> i \<or> t \<notin> fst ` set ps"
  shows "claim_inv s' j ps"
  unfolding claim_inv_def
proof (intro conjI allI impI; (elim conjE)?)
  fix u e assume e: "entry_at s' u = Some e" and p: "(u, Some (ae_id e)) \<in> set ps" and f: "ae_failures e \<noteq> 0"
  have a: "ae_id e < as_fresh s" using p assms(3) unfolding claim_inv_def by blast
  show "ae_owner e = Some j"
    using assms(1) e
  proof (cases rule: settles_cases)
    case same
    with p f assms(3) show ?thesis unfolding claim_inv_def by blast
  next
    case fresh
    with a show ?thesis by simp
  next
    case (own e0)
    then have "ae_failures e0 \<noteq> 0" using assms(2) entry_invD(4) by blast
    with own p assms(3) have "ae_owner e0 = Some j" unfolding claim_inv_def by metis
    moreover have "t \<in> fst ` set ps" using own(1) p by force
    ultimately show ?thesis using own assms(4) by simp
  qed
next
  fix u e assume "entry_at s' u = Some e" "ae_owner e = Some j"
  with settles_owner [OF assms(1)] have "entry_at s u = Some e" by blast
  with \<open>ae_owner e = Some j\<close> assms(3) show "(u, Some (ae_id e)) \<in> set ps" unfolding claim_inv_def by blast
next
  fix u a assume "(u, Some a) \<in> set ps"
  with assms(3) settles_frame(5) [OF assms(1)] show "a < as_fresh s'" unfolding claim_inv_def by fastforce
qed

lemma settles_lease_inv:
  assumes "settles i t s s'" "entry_inv s" "lease_inv s l" "al_id l \<noteq> i"
  shows "lease_inv s' l"
proof (cases "al_epoch l = as_epoch s")
  case True
  with assms settles_claim_inv [OF assms(1,2)] settles_frame [OF assms(1)] show ?thesis
    unfolding lease_inv_def by auto
next
  case False
  with assms settles_owner [OF assms(1)] settles_frame [OF assms(1)] show ?thesis
    unfolding lease_inv_def by (auto; blast)
qed

subsection \<open>The operations are such changes\<close>

lemma prune_frame [simp]:
  "as_epoch (prune now s) = as_epoch s" "as_generations (prune now s) = as_generations s"
  "as_fresh (prune now s) = as_fresh s"
  by (simp_all add: prune_def)

lemma prune_settles:
  assumes "entry_inv s"
  shows "settles i t s (prune now s)"
proof -
  have "map_wf (as_entries s)" and "length (as_entries s) \<le> availabilityLimit"
    using assms unfolding entry_inv_def by blast+
  then show ?thesis
    unfolding settles_def prune_def
    by (auto simp: lookup_keep split: option.splits if_splits intro: order_trans [OF length_keep_le])
qed

lemma foldl_older:
  "foldl older best m = Some te \<Longrightarrow> best = Some te \<or> te \<in> set m \<and> \<not> ae_probing (snd te)"
  by (induction m arbitrary: best) (force simp: older_def split: if_splits)+

lemma oldest_idle_mem: "oldest_idle m = Some te \<Longrightarrow> te \<in> set m \<and> \<not> ae_probing (snd te)"
  using foldl_older [of None m te] by (simp add: oldest_idle_def)

lemma put_length:
  assumes "length (as_entries s) \<le> availabilityLimit"
  shows "length (as_entries (snd (avail_put t e s))) \<le> availabilityLimit"
proof -
  have "length (map_put t e (map_del k (as_entries s))) \<le> length (as_entries s)"
    if "oldest_idle (as_entries s) = Some (k, x)" for k x
  proof -
    have "k \<in> fst ` set (as_entries s)" using oldest_idle_mem [OF that] by force
    then show ?thesis using length_del_less [of k "as_entries s"] by (simp add: length_put)
  qed
  with assms show ?thesis
    by (fastforce simp: avail_put_def length_put in_keys_iff split: option.splits)
qed

lemma put_settles:
  assumes "entry_inv s" "ae_id e = as_fresh s" "\<not> ae_probing e" "ae_owner e = None"
  shows "settles i t s (snd (avail_put t e (s\<lparr>as_fresh := Suc (as_fresh s)\<rparr>)))"
proof -
  let ?s = "s\<lparr>as_fresh := Suc (as_fresh s)\<rparr>"
  have wf: "map_wf (as_entries s)" and len: "length (as_entries s) \<le> availabilityLimit"
    using assms(1) unfolding entry_inv_def by blast+
  have len': "length (as_entries (snd (avail_put t e ?s))) \<le> availabilityLimit"
    using len by (intro put_length) simp
  have frame: "map_wf (as_entries (snd (avail_put t e ?s)))" "as_epoch (snd (avail_put t e ?s)) = as_epoch s"
    "as_generations (snd (avail_put t e ?s)) = as_generations s" "as_fresh (snd (avail_put t e ?s)) = Suc (as_fresh s)"
    using wf by (auto simp: avail_put_def split: option.splits)
  have other: "u \<noteq> t \<Longrightarrow> entry_at (snd (avail_put t e ?s)) u = Some x \<Longrightarrow> entry_at s u = Some x" for u x
    by (auto simp: avail_put_def lookup_put lookup_del split: option.splits if_splits)
  have at: "entry_at (snd (avail_put t e ?s)) t = Some x \<Longrightarrow> entry_at s t = Some x \<or> x = e" for x
    by (auto simp: avail_put_def lookup_put lookup_del split: option.splits if_splits)
  show ?thesis
    unfolding settles_def frame(2-4)
    using frame(1) len' other at assms(2-4) by (intro conjI allI impI) auto
qed

lemma next_entry_fresh [simp]:
  "ae_id (next_entry a now j ok fc fe t p) = a" "\<not> ae_probing (next_entry a now j ok fc fe t p)"
  "ae_owner (next_entry a now j ok fc fe t p) = None"
  by (simp_all add: next_entry_def Let_def split: prod.splits option.splits)

lemma take_back_settles:
  assumes "entry_inv s" "entry_at s t = Some e" "ae_owner e = Some i"
  shows "settles i t s (s\<lparr>as_entries := map_put t (e\<lparr>ae_probing := False, ae_owner := None\<rparr>) (as_entries s)\<rparr>)"
  using assms entry_invD(1) [OF assms(1,2)]
  unfolding settles_def entry_inv_def by (auto simp: lookup_put length_put in_keys_iff)

lemma settles_refl: "entry_inv s \<Longrightarrow> settles i t s s"
  unfolding settles_def entry_inv_def by auto

lemma complete_target_settles:
  assumes "entry_inv s" "claim_inv s i ((t, a) # ps)"
  shows "settles i t s (complete_target now j ok hn cx fe fc (t, a) s)"
proof (cases "map_option ae_id (entry_at s t) = a \<and> \<not> ok \<and> \<not> target_failed ok hn cx fe fc t (entry_at s t)")
  case case1: True
  show ?thesis
  proof (cases "entry_at s t")
    case None
    with case1 assms show ?thesis by (auto simp: complete_target_def settles_refl)
  next
    case (Some e)
    show ?thesis
    proof (cases "ae_probing e")
      case True
      with assms(1) Some have "ae_failures e \<noteq> 0" by (rule entry_invD(3))
      with case1 Some assms(2) have "ae_owner e = Some i" unfolding claim_inv_def by auto
      with case1 Some True take_back_settles [OF assms(1) Some] show ?thesis
        by (auto simp: complete_target_def)
    next
      case False
      with case1 Some assms(1) show ?thesis by (auto simp: complete_target_def settles_refl)
    qed
  qed
next
  case False
  then show ?thesis
    using settles_refl [OF assms(1)] put_settles [OF assms(1)]
    by (auto simp: complete_target_def Let_def)
qed

lemma release_old_claim_settles:
  assumes "entry_inv s"
  shows "settles i t s (release_old_claim i t s)"
proof (cases "entry_at s t")
  case None
  with assms show ?thesis by (simp add: release_old_claim_def settles_refl)
next
  case (Some e)
  with assms show ?thesis
    unfolding release_old_claim_def
    by (auto simp: settles_refl) (auto simp: settles_def entry_inv_def lookup_put length_put in_keys_iff)
qed

text \<open>What the rest of the system expects while lease \<open>i\<close> finishes.\<close>

definition others_inv :: "avail_state \<Rightarrow> nat \<Rightarrow> avail_lease list \<Rightarrow> bool" where
  "others_inv s i F \<longleftrightarrow> entry_inv s \<and> (\<forall>l \<in> set F. lease_inv s l \<and> al_id l \<noteq> i) \<and>
     (\<forall>t e j. entry_at s t = Some e \<and> ae_owner e = Some j \<longrightarrow> j = i \<or> j \<in> al_id ` set F)"

lemma settles_others:
  assumes "settles i t s s'" "others_inv s i F"
  shows "others_inv s' i F"
  using assms settles_entry_inv [OF assms(1)] settles_lease_inv [OF assms(1)] settles_owner [OF assms(1)]
  unfolding others_inv_def by (intro conjI ballI allI impI; (elim conjE)?) blast+

text \<open>Once its last claim is gone, lease \<open>i\<close> can be forgotten.\<close>

lemma others_avail_inv:
  assumes "others_inv s i F" "\<And>t e. entry_at s t = Some e \<Longrightarrow> ae_owner e \<noteq> Some i" "distinct (map al_id F)"
  shows "avail_inv \<lparr>av_state = s, av_flight = F\<rparr>"
  using assms unfolding others_inv_def avail_inv_def by fastforce

lemma avail_inv_others:
  assumes "avail_inv \<lparr>av_state = s, av_flight = F @ l # G\<rparr>"
  shows "others_inv s (al_id l) (F @ G)" "lease_inv s l" "entry_inv s" "distinct (map al_id (F @ G))"
  using assms unfolding avail_inv_def others_inv_def by (auto; metis imageI)+

lemma claim_inv_tail:
  assumes "claim_inv s i ((t, a) # ps)" "settles i t s s'" "entry_inv s" "t \<notin> fst ` set ps"
    and gone: "\<And>e. entry_at s' t = Some e \<Longrightarrow> ae_owner e \<noteq> Some i"
  shows "claim_inv s' i ps"
  unfolding claim_inv_def
proof (intro conjI allI impI; (elim conjE)?)
  fix u e assume e: "entry_at s' u = Some e" and p: "(u, Some (ae_id e)) \<in> set ps" and "ae_failures e \<noteq> 0"
  moreover from p assms(4) have ne: "u \<noteq> t" by force
  have "entry_at s u = Some e"
    using assms(2) e ne by (cases rule: settles_cases) auto
  ultimately show "ae_owner e = Some i" using assms(1) unfolding claim_inv_def by auto
next
  fix u e assume e: "entry_at s' u = Some e" "ae_owner e = Some i"
  then have "entry_at s u = Some e" "u \<noteq> t" using settles_owner [OF assms(2)] gone by blast+
  with e assms(1) show "(u, Some (ae_id e)) \<in> set ps" unfolding claim_inv_def by auto
next
  fix u a' assume "(u, Some a') \<in> set ps"
  with assms(1) settles_frame(5) [OF assms(2)] show "a' < as_fresh s'" unfolding claim_inv_def by fastforce
qed

lemma put_present:
  "entry_at s t \<noteq> None \<Longrightarrow> entry_at (snd (avail_put t e (s\<lparr>as_fresh := n\<rparr>))) t = Some e"
  by (auto simp: avail_put_def lookup_put)

lemma complete_target_gone:
  assumes "entry_inv s" "claim_inv s i ((t, a) # ps)" "t \<notin> fst ` set ps"
    "entry_at (complete_target now j ok hn cx fe fc (t, a) s) t = Some e"
  shows "ae_owner e \<noteq> Some i"
proof (cases "map_option ae_id (entry_at s t) = a")
  case False
  with assms(4) have "entry_at s t = Some e" by (simp add: complete_target_def)
  with False assms(2,3) show ?thesis unfolding claim_inv_def by force
next
  case True
  show ?thesis
  proof
    assume o: "ae_owner e = Some i"
    from o assms(4) settles_owner [OF complete_target_settles [OF assms(1,2)]]
    have e: "entry_at s t = Some e" by blast
    with o entry_invD(2) [OF assms(1)] have "ae_probing e" by simp
    with True e have "ae_owner (the (entry_at (complete_target now j ok hn cx fe fc (t, a) s) t)) = None"
      by (auto simp: complete_target_def Let_def put_present lookup_put)
    with assms(4) o show False by simp
  qed
qed

lemma complete_fold:
  assumes "others_inv s i F" "claim_inv s i ps" "distinct (map fst ps)"
  shows "others_inv (fold (complete_target now j ok hn cx fe fc) ps s) i F \<and>
    (\<forall>t e. entry_at (fold (complete_target now j ok hn cx fe fc) ps s) t = Some e \<longrightarrow> ae_owner e \<noteq> Some i)"
  using assms
proof (induction ps arbitrary: s)
  case Nil
  then show ?case by (auto simp: claim_inv_def)
next
  case (Cons p ps)
  obtain t a where p: "p = (t, a)" by (cases p)
  let ?s = "complete_target now j ok hn cx fe fc p s"
  from Cons.prems have e: "entry_inv s" and c: "claim_inv s i ((t, a) # ps)" and d: "t \<notin> fst ` set ps"
    by (auto simp: others_inv_def p)
  have st: "settles i t s ?s" unfolding p by (rule complete_target_settles [OF e c])
  have "claim_inv ?s i ps"
    using claim_inv_tail [OF c st e d] complete_target_gone [OF e c d] unfolding p by blast
  moreover have "others_inv ?s i F" using st Cons.prems(1) by (rule settles_others)
  ultimately show ?case using Cons.IH Cons.prems(3) by simp
qed

lemma release_fold:
  assumes "others_inv s i F" "\<And>t e. entry_at s t = Some e \<Longrightarrow> ae_owner e = Some i \<Longrightarrow> t \<in> set ts"
  shows "others_inv (fold (release_old_claim i) ts s) i F \<and>
    (\<forall>t e. entry_at (fold (release_old_claim i) ts s) t = Some e \<longrightarrow> ae_owner e \<noteq> Some i)"
  using assms
proof (induction ts arbitrary: s)
  case Nil
  then show ?case by auto
next
  case (Cons t ts)
  let ?s = "release_old_claim i t s"
  have st: "settles i t s ?s" using Cons.prems(1) by (intro release_old_claim_settles) (simp add: others_inv_def)
  have others: "others_inv ?s i F" using st Cons.prems(1) by (rule settles_others)
  have mem: "u \<in> set ts" if e: "entry_at ?s u = Some e" and o: "ae_owner e = Some i" for u e
  proof -
    from settles_owner [OF st e o] have "entry_at s u = Some e" .
    with Cons.prems(2) o have "u \<in> set (t # ts)" by blast
    moreover have "u \<noteq> t"
      using e o by (auto simp: release_old_claim_def lookup_put split: option.splits if_splits)
    ultimately show ?thesis by simp
  qed
  from Cons.IH [OF others mem] show ?case by simp
qed

lemma complete_avail_inv:
  assumes "avail_inv \<lparr>av_state = s, av_flight = F @ l # G\<rparr>"
    and "avail_complete ops jitter now l handled err ctxErr s = (ok, s')"
  shows "avail_inv \<lparr>av_state = s', av_flight = F @ G\<rparr>"
proof -
  note o = avail_inv_others [OF assms(1)]
  show ?thesis
  proof (cases "al_epoch l = as_epoch s")
    case False
    with o(2) have "\<And>t e. entry_at s t = Some e \<Longrightarrow> ae_owner e = Some (al_id l) \<Longrightarrow> t \<in> set (al_targets l)"
      unfolding lease_inv_def by auto
    from release_fold [OF o(1) this] assms(2) False show ?thesis
      by (intro others_avail_inv [OF _ _ o(4), of _ "al_id l"]) (auto simp: avail_complete_def)
  next
    case True
    with o(2) have gens: "list_all (\<lambda>t. map_of (as_generations s) (at_provider t) = Some (at_generation t)) (al_targets l)"
      and c: "claim_inv s (al_id l) (zip (al_targets l) (al_entries l))"
      and d: "distinct (map fst (zip (al_targets l) (al_entries l)))"
      unfolding lease_inv_def by (auto simp: list_all_iff)
    have "settles (Suc (al_id l)) undefined s (prune now s)"
      and st: "settles (al_id l) undefined s (prune now s)"
      using prune_settles [OF o(3)] by blast+
    then have "claim_inv (prune now s) (al_id l) (zip (al_targets l) (al_entries l))"
      and "others_inv (prune now s) (al_id l) (F @ G)"
      using settles_claim_inv [OF _ o(3) c] settles_others [OF st o(1)] by auto
    note fold = complete_fold [OF this(2,1) d]
    have "s' = snd (avail_complete ops jitter now l handled err ctxErr s)" using assms(2) by simp
    also have "\<dots> = fold (complete_target now jitter (\<not> handled \<and> err = None \<and> ctxErr = None) handled ctxErr
        (as_call_error err) (availability_failure ops err ctxErr handled)) (zip (al_targets l) (al_entries l)) (prune now s)"
      using True gens by (simp add: avail_complete_def Let_def)
    finally have "s' = fold (complete_target now jitter (\<not> handled \<and> err = None \<and> ctxErr = None) handled ctxErr
        (as_call_error err) (availability_failure ops err ctxErr handled)) (zip (al_targets l) (al_entries l)) (prune now s)" .
    with fold show ?thesis
      by (intro others_avail_inv [OF _ _ o(4), of _ "al_id l"]) blast+
  qed
qed

definition claimed :: "nat \<Rightarrow> avail_entry \<Rightarrow> avail_entry" where
  "claimed i e = (if 0 < ae_failures e \<and> \<not> ae_probing e then e\<lparr>ae_probing := True, ae_owner := Some i\<rparr> else e)"

lemma claimed_fields [simp]:
  "ae_id (claimed i e) = ae_id e" "ae_failures (claimed i e) = ae_failures e" "claimed i (claimed i e) = claimed i e"
  by (simp_all add: claimed_def)

lemma claimed_owner:
  "ae_owner (claimed i e) = Some j \<Longrightarrow> j \<noteq> i \<Longrightarrow> claimed i e = e"
  by (auto simp: claimed_def split: if_splits)

lemma claim_fold_frame [simp]:
  "as_epoch (fold (claim_target i) ts s) = as_epoch s"
  "as_generations (fold (claim_target i) ts s) = as_generations s"
  "as_fresh (fold (claim_target i) ts s) = as_fresh s"
  "length (as_entries (fold (claim_target i) ts s)) = length (as_entries s)"
  "map_wf (as_entries s) \<Longrightarrow> map_wf (as_entries (fold (claim_target i) ts s))"
  by (induction ts arbitrary: s)
    (auto simp: claim_target_def length_put in_keys_iff split: option.splits)

lemma claim_fold_lookup:
  "entry_at (fold (claim_target i) ts s) t = (if t \<in> set ts then map_option (claimed i) (entry_at s t) else entry_at s t)"
proof (induction ts arbitrary: s)
  case Nil
  show ?case by simp
next
  case (Cons u ts)
  have "entry_at (claim_target i u s) t = (if t = u then map_option (claimed i) (entry_at s t) else entry_at s t)"
    by (auto simp: claim_target_def claimed_def lookup_put split: option.splits)
  with Cons.IH [of "claim_target i u s"] show ?case by (auto simp: option.map_comp comp_def)
qed

lemma first_blocked_None:
  assumes "first_blocked s now l = None" "(t, a) \<in> set (zip (al_targets l) (al_entries l))"
    "entry_at s t = Some e" "ae_failures e \<noteq> 0"
  shows "\<not> ae_probing e \<or> a = Some (ae_id e)"
proof -
  have none: "find (target_blocked s now) (zip (al_targets l) (al_entries l)) = None"
  proof (rule ccontr)
    assume "\<not> ?thesis"
    then obtain u b where f: "find (target_blocked s now) (zip (al_targets l) (al_entries l)) = Some (u, b)"
      by auto
    then have "target_blocked s now (u, b)" by (auto simp: find_Some_iff)
    then show False using f assms(1) by (auto simp: first_blocked_def target_blocked_def split: option.splits)
  qed
  then have "\<not> target_blocked s now (t, a)" using assms(2) by (force simp: find_None_iff)
  with assms(3,4) show ?thesis
    by (auto simp: target_blocked_def entry_eligible_def word_gt_0 split: if_splits)
qed

lemma zip_observe: "(t, Some a) \<in> set (zip ts (map (observe s) ts)) \<longleftrightarrow> t \<in> set ts \<and> observe s t = Some a"
  by (induction ts) auto

lemma claim_entry_inv: "entry_inv s \<Longrightarrow> entry_inv (fold (claim_target i) ts s)"
  unfolding entry_inv_def claim_fold_frame(3,4)
proof (elim conjE; intro conjI allI impI)
  fix t e
  assume inv: "\<forall>t e. entry_at s t = Some e \<longrightarrow> ae_id e < as_fresh s \<and> (ae_probing e \<longleftrightarrow> ae_owner e \<noteq> None) \<and>
      (ae_probing e \<longrightarrow> ae_failures e \<noteq> 0)"
    and e: "entry_at (fold (claim_target i) ts s) t = Some e"
  from e obtain e0 where e0: "entry_at s t = Some e0" "e = e0 \<or> e = claimed i e0"
    by (auto simp: claim_fold_lookup split: if_splits)
  with inv show "ae_id e < as_fresh s" by auto
  from inv [rule_format, OF e0(1)] e0(2) show "ae_probing e = (ae_owner e \<noteq> None)"
    by (auto simp: claimed_def split: if_splits)
  assume "ae_probing e"
  with inv [rule_format, OF e0(1)] e0(2) show "ae_failures e \<noteq> 0"
    by (auto simp: claimed_def split: if_splits)
qed auto

lemma claim_unowned:
  assumes "entry_inv s" "entry_at (fold (claim_target i) ts s) t = Some e"
  obtains (same) "entry_at s t = Some e"
    | (new) e0 where "entry_at s t = Some e0" "t \<in> set ts" "ae_owner e0 = None" "e = claimed i e0" "ae_owner e = Some i"
proof (cases "entry_at s t = Some e")
  case False
  with assms(2) obtain e0 where e0: "entry_at s t = Some e0" "t \<in> set ts" "e = claimed i e0" "e \<noteq> e0"
    by (auto simp: claim_fold_lookup split: if_splits)
  then have "ae_owner e = Some i" "\<not> ae_probing e0"
    by (auto simp: claimed_def split: if_splits)
  with e0 entry_invD(2) [OF assms(1) e0(1)] show ?thesis by (intro new) auto
qed (rule same)

lemma claim_other_lease:
  assumes "entry_inv s" "lease_inv s l" "al_id l \<noteq> i"
  shows "lease_inv (fold (claim_target i) ts s) l"
proof (cases "al_epoch l = as_epoch s")
  case True
  with assms(2) have c: "claim_inv s (al_id l) (zip (al_targets l) (al_entries l))"
    by (simp add: lease_inv_def)
  have "claim_inv (fold (claim_target i) ts s) (al_id l) (zip (al_targets l) (al_entries l))"
    unfolding claim_inv_def
  proof (intro conjI allI impI; (elim conjE)?)
    fix t e assume e: "entry_at (fold (claim_target i) ts s) t = Some e"
      "(t, Some (ae_id e)) \<in> set (zip (al_targets l) (al_entries l))" "ae_failures e \<noteq> 0"
    from assms(1) e(1) show "ae_owner e = Some (al_id l)"
    proof (cases rule: claim_unowned)
      case same
      with e c show ?thesis unfolding claim_inv_def by blast
    next
      case (new e0)
      with e c have "ae_owner e0 = Some (al_id l)" unfolding claim_inv_def by (metis claimed_fields(1,2))
      with new show ?thesis by simp
    qed
  next
    fix t e assume e: "entry_at (fold (claim_target i) ts s) t = Some e" "ae_owner e = Some (al_id l)"
    from assms(1) e(1) show "(t, Some (ae_id e)) \<in> set (zip (al_targets l) (al_entries l))"
      by (cases rule: claim_unowned) (use e(2) c assms(3) in \<open>auto simp: claim_inv_def\<close>)
  qed (use c in \<open>auto simp: claim_inv_def\<close>)
  with True assms show ?thesis unfolding lease_inv_def by simp
next
  case False
  have "t \<in> set (al_targets l)" if e: "entry_at (fold (claim_target i) ts s) t = Some e" "ae_owner e = Some (al_id l)" for t e
    using assms(1) e(1) by (cases rule: claim_unowned) (use e(2) assms False in \<open>auto simp: lease_inv_def\<close>)
  with False assms show ?thesis unfolding lease_inv_def by auto
qed

lemma claim_own_lease:
  assumes "entry_inv s" "lease_inv s l" "al_epoch l = as_epoch s" "first_blocked s now l = None"
  shows "lease_inv (fold (claim_target (al_id l)) (al_targets l) s) (l\<lparr>al_entries := map (observe s) (al_targets l)\<rparr>)"
proof -
  let ?s = "fold (claim_target (al_id l)) (al_targets l) s"
  let ?ps = "zip (al_targets l) (map (observe s) (al_targets l))"
  have c: "claim_inv s (al_id l) (zip (al_targets l) (al_entries l))"
    and len: "length (al_entries l) = length (al_targets l)"
    using assms(2,3) by (auto simp: lease_inv_def)
  have seen: "observe s t = Some (ae_id e)" if "entry_at ?s t = Some e" for t e
    using that by (auto simp: claim_fold_lookup observe_def split: if_splits)
  have "claim_inv ?s (al_id l) ?ps"
    unfolding claim_inv_def
  proof (intro conjI allI impI; (elim conjE)?)
    fix t e assume e: "entry_at ?s t = Some e" "(t, Some (ae_id e)) \<in> set ?ps" "ae_failures e \<noteq> 0"
    then have t: "t \<in> set (al_targets l)" by (simp add: zip_observe)
    with e(1) obtain e0 where e0: "entry_at s t = Some e0" "e = claimed (al_id l) e0"
      by (auto simp: claim_fold_lookup)
    from t len obtain a where a: "(t, a) \<in> set (zip (al_targets l) (al_entries l))"
      by (metis in_set_impl_in_set_zip1)
    have "\<not> ae_probing e0 \<or> a = Some (ae_id e0)"
      using first_blocked_None [OF assms(4) a e0(1)] e(3) e0(2) by simp
    then show "ae_owner e = Some (al_id l)"
    proof
      assume "\<not> ae_probing e0"
      with e0(2) e(3) show ?thesis by (auto simp: claimed_def word_gt_0 split: if_splits)
    next
      assume "a = Some (ae_id e0)"
      with a e0 e(3) c have o: "ae_owner e0 = Some (al_id l)" unfolding claim_inv_def by auto
      then have "ae_probing e0" using entry_invD(2) [OF assms(1) e0(1)] by simp
      with o e0(2) show ?thesis by (simp add: claimed_def)
    qed
  next
    fix t e assume e: "entry_at ?s t = Some e" "ae_owner e = Some (al_id l)"
    have "t \<in> set (al_targets l)"
    proof (rule ccontr)
      assume t: "t \<notin> set (al_targets l)"
      with e(1) have "entry_at s t = Some e" by (simp add: claim_fold_lookup)
      with e(2) c have "(t, Some (ae_id e)) \<in> set (zip (al_targets l) (al_entries l))"
        unfolding claim_inv_def by blast
      with t show False by (auto dest: set_zip_leftD)
    qed
    with seen [OF e(1)] show "(t, Some (ae_id e)) \<in> set ?ps" by (simp add: zip_observe)
  next
    fix t a assume "(t, Some a) \<in> set ?ps"
    then show "a < as_fresh ?s"
      using entry_invD(1) [OF assms(1)] by (auto simp: zip_observe observe_def)
  qed
  with assms(2,3) show ?thesis by (simp add: lease_inv_def)
qed

lemma prune_avail_inv:
  assumes "avail_inv \<lparr>av_state = s, av_flight = F\<rparr>"
  shows "avail_inv \<lparr>av_state = prune now s, av_flight = F\<rparr>"
proof -
  from assms have e: "entry_inv s" by (simp add: avail_inv_def)
  have st: "settles i undefined s (prune now s)" for i by (rule prune_settles [OF e])
  have "lease_inv (prune now s) l" if "lease_inv s l" for l
    by (rule settles_lease_inv [OF st [of "Suc (al_id l)"] e that]) simp
  with assms settles_entry_inv [OF st e] show ?thesis
    using settles_owner [OF st] unfolding avail_inv_def by simp blast
qed

lemma dispatch_avail_inv:
  assumes "avail_inv \<lparr>av_state = s, av_flight = F @ l # G\<rparr>" "avail_dispatch now l s = (e, l', s')"
  shows "avail_inv \<lparr>av_state = s', av_flight = F @ l' # G\<rparr>"
proof (cases "al_epoch l = as_epoch s")
  case False
  with assms show ?thesis by (simp add: avail_dispatch_def)
next
  case True
  let ?p = "prune now s"
  have inv: "avail_inv \<lparr>av_state = ?p, av_flight = F @ l # G\<rparr>" using assms(1) by (rule prune_avail_inv)
  show ?thesis
  proof (cases "first_blocked ?p now l")
    case (Some b)
    with True assms(2) inv show ?thesis by (auto simp: avail_dispatch_def split: prod.splits)
  next
    case None
    let ?s = "fold (claim_target (al_id l)) (al_targets l) ?p"
    let ?l = "l\<lparr>al_entries := map (observe ?p) (al_targets l)\<rparr>"
    from None True assms(2) have eqs: "l' = ?l" "s' = ?s" by (auto simp: avail_dispatch_def Let_def)
    note o = avail_inv_others [OF inv]
    have own: "lease_inv ?s ?l" using claim_own_lease [OF o(3,2) _ None] True by simp
    have rest: "lease_inv ?s k" if "k \<in> set (F @ G)" for k
      using claim_other_lease [OF o(3)] o(1) that by (auto simp: others_inv_def)
    have owners: "j = al_id l \<or> j \<in> al_id ` set (F @ G)" if "entry_at ?s t = Some x" "ae_owner x = Some j" for t x j
      using o(3) that(1) by (cases rule: claim_unowned) (use that(2) o(1) in \<open>auto simp: others_inv_def\<close>)
    have "distinct (map al_id (F @ ?l # G))" using inv by (auto simp: avail_inv_def)
    with own rest owners claim_entry_inv [OF o(3)] show ?thesis
      unfolding eqs avail_inv_def by auto
  qed
qed

lemma lease_targets_distinct [simp]: "distinct (lease_targets p m g)"
  by (auto simp: lease_targets_def safe_availability_model_def)

lemma lease_targets_view: "t \<in> set (lease_targets p m g) \<Longrightarrow> at_provider t = p \<and> at_generation t = g"
  by (auto simp: lease_targets_def split: if_splits)

text \<open>A new lease is in flight, with no claims and nothing recorded.\<close>

lemma fresh_lease_inv:
  assumes "avail_inv \<lparr>av_state = s, av_flight = F\<rparr>" "in_view s epoch p g"
  shows "avail_inv \<lparr>av_state = s\<lparr>as_fresh := Suc (as_fresh s)\<rparr>,
     av_flight = \<lparr>al_id = as_fresh s, al_epoch = epoch, al_targets = lease_targets p m g,
       al_entries = replicate (length (lease_targets p m g)) None\<rparr> # F\<rparr>"
proof -
  have ids: "al_id l < as_fresh s" if "l \<in> set F" for l
    using assms(1) that by (auto simp: avail_inv_def lease_inv_def)
  have owners: "ae_owner e \<noteq> Some (as_fresh s)" if "entry_at s t = Some e" for t e
    using assms(1) that ids unfolding avail_inv_def by fastforce
  have none: "(t, Some a) \<notin> set (zip ts (replicate n None))" for t :: avail_target and a :: nat and ts n
    by (auto dest: set_zip_rightD)
  from assms(1) have e: "entry_inv s" by (simp add: avail_inv_def)
  then have st: "settles i undefined s (s\<lparr>as_fresh := Suc (as_fresh s)\<rparr>)" for i
    by (auto simp: settles_def entry_inv_def)
  have "lease_inv (s\<lparr>as_fresh := Suc (as_fresh s)\<rparr>) l" if "l \<in> set F" for l
    using assms(1) that by (intro settles_lease_inv [OF st [of "Suc (al_id l)"] e]) (auto simp: avail_inv_def)
  moreover have "entry_inv (s\<lparr>as_fresh := Suc (as_fresh s)\<rparr>)" by (rule settles_entry_inv [OF st e])
  moreover have "lease_inv (s\<lparr>as_fresh := Suc (as_fresh s)\<rparr>) \<lparr>al_id = as_fresh s, al_epoch = epoch,
      al_targets = lease_targets p m g, al_entries = replicate (length (lease_targets p m g)) None\<rparr>"
    using owners none assms(2) lease_targets_view [of _ p m g]
    unfolding lease_inv_def claim_inv_def in_view_def by auto
  moreover have "as_fresh s \<notin> al_id ` set F" using ids by force
  ultimately show ?thesis
    using assms(1) unfolding avail_inv_def by simp
qed

lemma refused_begin_state:
  assumes "avail_begin epoch p m g now s = (Some e, l, s')"
  shows "s' = prune now (s\<lparr>as_fresh := Suc (as_fresh s)\<rparr>)"
  using assms by (auto simp: avail_begin_def avail_dispatch_def Let_def split: option.splits prod.splits if_splits)

lemma activate_avail_inv:
  assumes "avail_inv \<lparr>av_state = s, av_flight = F\<rparr>" "as_epoch s < epoch"
  shows "avail_inv \<lparr>av_state = activate_state epoch generations valid s, av_flight = F\<rparr>"
proof -
  let ?s = "activate_state epoch generations valid s"
  from assms(1) have e: "entry_inv s" by (simp add: avail_inv_def)
  then have wf: "map_wf (as_entries s)" by (simp add: entry_inv_def)
  have look: "\<exists>e0. entry_at s t = Some e0 \<and> x = e0\<lparr>ae_id := as_fresh s + ae_id e0\<rparr>" if "entry_at ?s t = Some x" for t x
    using that by (auto simp: activate_state_def lookup_vals lookup_keep [OF wf] split: option.splits if_splits)
  have "entry_inv ?s"
    unfolding entry_inv_def
  proof (intro conjI allI impI)
    show "map_wf (as_entries ?s)" using wf by (simp add: activate_state_def)
    show "length (as_entries ?s) \<le> availabilityLimit"
      using e by (auto simp: activate_state_def entry_inv_def intro: order_trans [OF length_keep_le])
    fix t x assume "entry_at ?s t = Some x"
    from look [OF this] obtain e0 where e0: "entry_at s t = Some e0" "x = e0\<lparr>ae_id := as_fresh s + ae_id e0\<rparr>" by blast
    note i = entry_invD [OF e e0(1)]
    show "ae_id x < as_fresh ?s" using i(1) e0(2) by (simp add: activate_state_def)
    show "ae_probing x = (ae_owner x \<noteq> None)" using i(2) e0(2) by simp
    show "ae_failures x \<noteq> 0" if "ae_probing x" using i(3) e0(2) that by simp
  qed
  moreover have "lease_inv ?s l" if "l \<in> set F" for l
  proof -
    from assms(1) that have l: "lease_inv s l" by (simp add: avail_inv_def)
    have "t \<in> set (al_targets l)" if "entry_at ?s t = Some x" "ae_owner x = Some (al_id l)" for t x
    proof -
      from look [OF that(1)] that(2) obtain e0 where "entry_at s t = Some e0" "ae_owner e0 = Some (al_id l)" by auto
      with l show ?thesis unfolding lease_inv_def claim_inv_def
        by (cases "al_epoch l = as_epoch s") (simp_all, metis set_zip_leftD)
    qed
    with l assms(2) show ?thesis by (auto simp: lease_inv_def activate_state_def)
  qed
  moreover have "i \<in> al_id ` set F" if "entry_at ?s t = Some x" "ae_owner x = Some i" for t x i
    using look [OF that(1)] that(2) assms(1) by (auto simp: avail_inv_def)
  ultimately show ?thesis using assms(1) unfolding avail_inv_def by simp blast
qed

lemma avail_step_inv: "avail_step ops y z \<Longrightarrow> avail_inv y \<Longrightarrow> avail_inv z"
proof (induction rule: avail_step.induct)
  case (start s epoch p g m now l s' F)
  from dispatch_avail_inv [of _ "[]", simplified, OF fresh_lease_inv [OF start.prems start.hyps(1)]] start.hyps(2)
  show ?case unfolding avail_begin_def Let_def by fast
next
  case (refuse s epoch p g m now e l s' F)
  from prune_avail_inv [OF fresh_lease_inv [OF refuse.prems refuse.hyps(1), of m], of now]
  have inv: "avail_inv \<lparr>av_state = s', av_flight = \<lparr>al_id = as_fresh s, al_epoch = epoch, al_targets = lease_targets p m g,
      al_entries = replicate (length (lease_targets p m g)) None\<rparr> # F\<rparr>"
    unfolding refused_begin_state [OF refuse.hyps(2)] .
  have "i \<in> al_id ` set F" if "entry_at s' t = Some x" "ae_owner x = Some i" for t x i
  proof -
    have "entry_inv (s\<lparr>as_fresh := Suc (as_fresh s)\<rparr>)"
      using fresh_lease_inv [OF refuse.prems refuse.hyps(1)] by (simp add: avail_inv_def)
    from settles_owner [OF prune_settles [OF this], of now] that
    have "entry_at s t = Some x" unfolding refused_begin_state [OF refuse.hyps(2)] by simp
    with that(2) refuse.prems show ?thesis by (auto simp: avail_inv_def)
  qed
  with inv show ?case by (auto simp: avail_inv_def)
next
  case (recheck now l s e l' s' F G)
  show ?case by (rule dispatch_avail_inv [OF recheck.prems recheck.hyps])
next
  case (finish jitter now l handled err ctxErr s ok s' F G)
  show ?case by (rule complete_avail_inv [OF finish.prems finish.hyps])
next
  case (reload s epoch F generations valid)
  show ?case by (rule activate_avail_inv [OF reload.prems reload.hyps])
next
  case (query epoch p m g now s b s' F)
  then have "s' = s \<or> s' = prune now s" by (auto simp: available_def Let_def split: if_splits)
  with query.prems prune_avail_inv [of s F now] show ?case by auto
qed

interpretation avail_safety: safe_system "\<lambda>y. y = avail_init" "avail_step ops" avail_inv
proof
  show "avail_inv y" if "y = avail_init" for y
    using that by (simp add: avail_init_def new_availability_state_def avail_inv_def entry_inv_def)
qed (rule avail_step_inv)

section \<open>Example run\<close>

text \<open>One provider \<open>p\<close>; a request for model \<open>m\<close> fails, and a later one probes it.\<close>

definition sample_started :: avail_state where
  "sample_started = activate_state 1 [(''p'', 1)] None new_availability_state"

definition sample_error :: go_error where
  "sample_error = CallErr ((call_error_of 404 ''provider_model_not_found'')\<lparr>ce_Category := ProviderErrorModelNotFound\<rparr>)"

definition sample_first :: "call_error option \<times> avail_lease \<times> avail_state" where
  "sample_first = avail_begin 1 ''p'' ''m'' 1 second sample_started"

definition sample_cooling :: avail_state where
  "sample_cooling = snd (avail_complete plain_ops (\<lambda>_ _. 0) (2 * second) (fst (snd sample_first)) False
     (Some sample_error) None (snd (snd sample_first)))"

definition sample_probe :: "call_error option \<times> avail_lease \<times> avail_state" where
  "sample_probe = avail_begin 1 ''p'' ''m'' 1 hour sample_cooling"

lemma sample_first_eq: "sample_first = (None, \<lparr>al_id = 0, al_epoch = 1, al_targets = [mk_target ''p'' [] 1, mk_target ''p'' ''m'' 1],
   al_entries = [None, None]\<rparr>, \<lparr>as_nextSweep = 61 * second, as_epoch = 1, as_generations = [(''p'', 1)], as_entries = [], as_fresh = 1\<rparr>)"
  by code_simp

definition sample_entry :: avail_entry where
  "sample_entry = \<lparr>ae_id = 1, ae_reason = ''model_not_found'', ae_failures = 1, ae_lastSuccess = 0, ae_lastFailure = 2 * second,
     ae_retryAt = 32 * second, ae_touched = 2 * second, ae_probing = True, ae_owner = Some 2\<rparr>"

lemma sample_probe_eq: "sample_probe = (None, \<lparr>al_id = 2, al_epoch = 1, al_targets = [mk_target ''p'' [] 1, mk_target ''p'' ''m'' 1],
   al_entries = [None, Some 1]\<rparr>, \<lparr>as_nextSweep = 3660 * second, as_epoch = 1, as_generations = [(''p'', 1)],
   as_entries = [(mk_target ''p'' ''m'' 1, sample_entry)], as_fresh = 3\<rparr>)"
  by code_simp

lemma sample_cooling_entry: "entry_at sample_cooling (mk_target ''p'' ''m'' 1) = Some (sample_entry\<lparr>ae_probing := False, ae_owner := None\<rparr>)"
  by code_simp

definition sample_probing :: avail_sys where
  "sample_probing = \<lparr>av_state = snd (snd sample_probe), av_flight = [fst (snd sample_probe)]\<rparr>"

definition sample_idle :: avail_sys where
  "sample_idle = \<lparr>av_state = sample_cooling, av_flight = []\<rparr>"

lemma sample_idle_run: "(avail_step plain_ops)\<^sup>*\<^sup>* avail_init sample_idle"
proof -
  have s1: "avail_step plain_ops avail_init \<lparr>av_state = sample_started, av_flight = []\<rparr>"
    unfolding avail_init_def sample_started_def by (rule avail_step.reload) (simp add: new_availability_state_def)
  have s2: "avail_step plain_ops \<lparr>av_state = sample_started, av_flight = []\<rparr>
      \<lparr>av_state = snd (snd sample_first), av_flight = [fst (snd sample_first)]\<rparr>"
  proof (rule avail_step.start)
    show "in_view sample_started 1 ''p'' 1" by code_simp
    show "avail_begin 1 ''p'' ''m'' 1 second sample_started = (None, fst (snd sample_first), snd (snd sample_first))"
      using sample_first_eq unfolding sample_first_def by simp
  qed
  have s3: "avail_step plain_ops \<lparr>av_state = snd (snd sample_first), av_flight = [] @ fst (snd sample_first) # []\<rparr>
      \<lparr>av_state = sample_cooling, av_flight = [] @ []\<rparr>"
    by (rule avail_step.finish) (simp add: sample_cooling_def prod_eq_iff)
  from s1 s2 s3 show ?thesis
    by (simp add: sample_idle_def)
qed

lemma sample_probing_run: "(avail_step plain_ops)\<^sup>*\<^sup>* avail_init sample_probing"
proof -
  have "avail_step plain_ops sample_idle sample_probing"
    unfolding sample_idle_def sample_probing_def
  proof (rule avail_step.start)
    show "in_view sample_cooling 1 ''p'' 1" by code_simp
    show "avail_begin 1 ''p'' ''m'' 1 hour sample_cooling = (None, fst (snd sample_probe), snd (snd sample_probe))"
      using sample_probe_eq unfolding sample_probe_def by simp
  qed
  with sample_idle_run show ?thesis by (rule rtranclp.rtrancl_into_rtrancl)
qed

section \<open>Properties\<close>

lemma first_blocked_Some:
  assumes "length (al_entries l) = length (al_targets l)" "t \<in> set (al_targets l)" "set (al_entries l) \<subseteq> {None}"
    "entry_at s t = Some e" "ae_failures e \<noteq> 0" "\<not> entry_eligible (Some e) now"
  obtains u x where "first_blocked s now l = Some (u, x)"
proof (cases "first_blocked s now l")
  case None
  from assms(1,2) obtain a where a: "(t, a) \<in> set (zip (al_targets l) (al_entries l))"
    by (metis in_set_impl_in_set_zip1)
  with assms(3) have "a = None" by (auto dest: set_zip_rightD)
  with assms(4-6) have b: "target_blocked s now (t, a)" by (simp add: target_blocked_def word_gt_0)
  then obtain u c where f: "find (target_blocked s now) (zip (al_targets l) (al_entries l)) = Some (u, c)"
    using a by (metis find_None_iff not_None_eq surj_pair)
  then have "target_blocked s now (u, c)" by (auto simp: find_Some_iff)
  with f None show ?thesis by (auto simp: first_blocked_def target_blocked_def split: option.splits)
qed (use that in force)

lemma prune_keeps_claims:
  "map_wf (as_entries s) \<Longrightarrow> entry_at s t = Some e \<Longrightarrow> ae_probing e \<Longrightarrow> entry_at (prune now s) t = Some e"
  by (simp add: prune_def lookup_keep)

lemma availability_error_fields [simp]:
  "ce_Status (availability_error e t now) = 429" "ce_UpstreamNotAttempted (availability_error e t now)"
  by (simp_all add: availability_error_def call_error_of_def Let_def)



text \<open>No claim outlives its request: when no request is in flight, no target is being probed, so
  that every target can be used again as soon as its retry time has passed.\<close>

theorem availability_claims_released:
  assumes "(avail_step ops)\<^sup>*\<^sup>* avail_init y" and "av_flight y = []"
    and "entry_at (av_state y) t = Some e" and "ae_retryAt e \<le> now"
  shows "\<not> ae_probing e \<and> entry_eligible (entry_at (av_state y) t) now"
proof -
  have inv: "avail_inv y" using avail_safety.run_inv [OF refl assms(1)] .
  then have "ae_owner e = None"
    using assms(2,3) unfolding avail_inv_def by (cases "ae_owner e") force+
  then have "\<not> ae_probing e" using inv entry_invD(2) [OF _ assms(3)] by (simp add: avail_inv_def)
  with assms(3,4) show ?thesis by (simp add: entry_eligible_def)
qed

theorem availability_claims_released_witness:
  "entry_eligible (entry_at sample_cooling (mk_target ''p'' ''m'' 1)) (32 * second)"
  using availability_claims_released [OF sample_idle_run, of "mk_target ''p'' ''m'' 1" _ "32 * second"]
  by (simp add: sample_idle_def sample_cooling_entry sample_entry_def)

text \<open>The health table never holds more than 4096 entries, whatever requests come.\<close>

theorem availability_table_bounded:
  assumes "(avail_step ops)\<^sup>*\<^sup>* avail_init y"
  shows "length (as_entries (av_state y)) \<le> 4096"
  using avail_safety.run_inv [OF refl assms] unfolding avail_inv_def entry_inv_def by blast

theorem availability_table_bounded_witness: "length (as_entries sample_cooling) \<le> 4096"
  using availability_table_bounded [OF sample_idle_run] by (simp add: sample_idle_def)

text \<open>The part of an entry that says how healthy its target is.\<close>

definition health :: "avail_entry \<Rightarrow> string \<times> u16 \<times> time \<times> time \<times> time \<times> time" where
  "health e = (ae_reason e, ae_failures e, ae_lastSuccess e, ae_lastFailure e, ae_retryAt e, ae_touched e)"

lemma fold_keeps_health:
  assumes "\<And>x s t. map_option health (entry_at (f x s) t) = map_option health (entry_at s t)"
  shows "map_option health (entry_at (fold f xs s) t) = map_option health (entry_at s t)"
  by (induction xs arbitrary: s) (simp_all add: assms)

lemma release_keeps_health: "map_option health (entry_at (release_old_claim i u s) t) = map_option health (entry_at s t)"
  by (simp add: release_old_claim_def lookup_put health_def split: option.splits)

lemma neutral_target_keeps_health:
  assumes "hn \<or> cx \<noteq> None"
  shows "map_option health (entry_at (complete_target now j False hn cx fe no_evidence p s) t) = map_option health (entry_at s t)"
proof -
  have "\<not> target_failed False hn cx fe no_evidence (fst p) q" for q
    using assms by (auto simp: target_failed_def no_evidence_def)
  then show ?thesis
    by (auto simp: complete_target_def Let_def lookup_put health_def split: option.splits)
qed

text \<open>A request of an older view, one the gateway answered itself and one the client abandoned end
  without success and change the health of no target: at most they give back their claims. (The
  sweep of idle entries at the end of a current request is \<open>prune\<close>.)\<close>

theorem neutral_completion_keeps_health:
  assumes "al_epoch l \<noteq> as_epoch s \<or> handled \<or> ctxErr \<noteq> None"
    and "avail_complete ops jitter now l handled err ctxErr s = (ok, s')"
  shows "\<not> ok \<and> (map_option health (entry_at s' t) = map_option health (entry_at s t) \<or>
    map_option health (entry_at s' t) = map_option health (entry_at (prune now s) t))"
proof (cases "al_epoch l = as_epoch s \<and>
    list_all (\<lambda>t. map_of (as_generations s) (at_provider t) = Some (at_generation t)) (al_targets l)")
  case False
  with assms(2) fold_keeps_health [where f = "release_old_claim (al_id l)", OF release_keeps_health] show ?thesis
    by (auto simp: avail_complete_def split: if_splits)
next
  case True
  with assms(1) have neutral: "handled \<or> ctxErr \<noteq> None" by simp
  then have "availability_failure ops err ctxErr handled = no_evidence" "(\<not> handled \<and> err = None \<and> ctxErr = None) = False"
    by (auto simp: availability_failure_def)
  then have "(ok, s') = (False, fold (complete_target now jitter False handled ctxErr (as_call_error err) no_evidence)
      (zip (al_targets l) (al_entries l)) (prune now s))"
    using assms(2) True unfolding avail_complete_def by (simp only: Let_def if_True if_False not_True_eq_False simp_thms)
  with fold_keeps_health [where f = "complete_target now jitter False handled ctxErr (as_call_error err) no_evidence",
      OF neutral_target_keeps_health [OF neutral]]
  show ?thesis by simp
qed

definition sample_abandoned :: "bool \<times> avail_state" where
  "sample_abandoned = avail_complete plain_ops (\<lambda>_ _. 0) hour (fst (snd sample_probe)) False None (Some Canceled)
     (snd (snd sample_probe))"

theorem neutral_completion_keeps_health_witness:
  "\<not> fst sample_abandoned \<and>
   map_option health (entry_at (snd sample_abandoned) (mk_target ''p'' ''m'' 1)) = Some (health sample_entry)"
proof -
  have "avail_complete plain_ops (\<lambda>_ _. 0) hour (fst (snd sample_probe)) False None (Some Canceled)
      (snd (snd sample_probe)) = (fst sample_abandoned, snd sample_abandoned)"
    by (simp add: sample_abandoned_def)
  from neutral_completion_keeps_health [OF _ this, of "mk_target ''p'' ''m'' 1"] show ?thesis
    by (simp add: sample_probe_eq prune_def)
qed

subsection \<open>Backoff\<close>

lemma double_until_spec:
  assumes "0 < base" "base \<le> availabilityMaxBackoff"
  shows "min availabilityMaxBackoff (double_until n base) = min availabilityMaxBackoff (base * 2 ^ n)"
  using assms
proof (induction n arbitrary: base)
  case (Suc n)
  have grow: "base \<le> base * 2 ^ k" for k :: nat
    using Suc.prems(1) by (simp add: mult_le_cancel_left1)
  show ?case
  proof (cases "base * 2 \<le> availabilityMaxBackoff")
    case True
    with Suc.prems Suc.IH [of "base * 2"] show ?thesis by (simp add: mult.assoc)
  next
    case False
    have big: "availabilityMaxBackoff \<le> double_until n (base * 2)" "availabilityMaxBackoff \<le> base * 2 * 2 ^ n"
    proof -
      have "b \<le> double_until n b" if "0 < b" for b :: int and n
        using that by (induction n arbitrary: b) (auto, smt (verit))
      with False Suc.prems show "availabilityMaxBackoff \<le> double_until n (base * 2)" by (smt (verit))
      have "base * 2 * 1 \<le> base * 2 * 2 ^ n" using Suc.prems(1) by (intro mult_left_mono) auto
      with False show "availabilityMaxBackoff \<le> base * 2 * 2 ^ n" by linarith
    qed
    then show ?thesis using Suc.prems by (simp add: mult.assoc min_absorb1)
  qed
qed simp

text \<open>The delay as a closed formula: start at 30 seconds (5 minutes for a billing reason), double with
  every failure up to 30 minutes, add the jitter, respect a longer wait the provider asked for,
  and never wait more than a day.\<close>

definition backoff_spec :: "string \<Rightarrow> nat \<Rightarrow> duration \<Rightarrow> (duration \<Rightarrow> duration) \<Rightarrow> duration" where
  "backoff_spec reason failures upstream jitter =
     (if reason = ''rate_limited'' \<and> 10 < failures then day
      else
        (let start = (if provider_scoped_terminal reason then 5 * minute else 30 * second);
             doublings = (if reason = ''unclassified_stream_error'' then 0 else failures - 1);
             base = min (30 * minute) (start * 2 ^ doublings)
         in min day (max upstream (base + jitter base))))"

lemma backoff_closed_form:
  "bounded_recovery_backoff reason failures upstream jitter = backoff_spec reason (unat failures) upstream jitter"
proof -
  have ten: "10 < failures \<longleftrightarrow> 10 < unat failures" by (simp add: word_less_nat_alt)
  define start :: duration where "start = (if provider_scoped_terminal reason then 5 * minute else 30 * second)"
  have start: "0 < start" "start \<le> availabilityMaxBackoff" by (auto simp: start_def)
  define dbl where "dbl = (if reason \<noteq> ''unclassified_stream_error'' then double_until (unat failures - 1) start else start)"
  define base where "base = min availabilityMaxBackoff (start * 2 ^ (if reason = ''unclassified_stream_error'' then 0 else unat failures - 1))"
  have clip: "(if availabilityMaxBackoff < dbl then availabilityMaxBackoff else dbl) = base"
  proof -
    have "min availabilityMaxBackoff dbl = base"
      using double_until_spec [OF start] start(2) by (simp add: dbl_def base_def)
    then show ?thesis by (simp add: min_def split: if_splits)
  qed
  have "bounded_recovery_backoff reason failures upstream jitter =
      (if reason = ''rate_limited'' \<and> 10 < unat failures then day else min day (max upstream (base + jitter base)))"
    unfolding bounded_recovery_backoff_def ten Let_def start_def [symmetric] dbl_def [symmetric] clip
    by (simp add: min_def max_def)
  then show ?thesis
    unfolding backoff_spec_def Let_def start_def [symmetric] base_def [symmetric] .
qed

text \<open>C18. The backoff of the code, a loop on 16-bit counters with early exits, computes the closed
  formula for every reason, failure count, upstream delay and jitter.\<close>

theorem backoff_refines_spec:
  "bounded_recovery_backoff reason failures upstream jitter = backoff_spec reason (unat failures) upstream jitter"
  by (rule backoff_closed_form)

text \<open>With the jitter the code draws (at most a fifth of the base delay) a failed target waits at
  least 30 seconds and at most a day, and at least as long as the provider asked for within that day.
  Unless the provider asked for more or rate limits persist, it waits at most 36 minutes.\<close>

theorem backoff_bounds:
  assumes "\<And>b. 0 \<le> b \<Longrightarrow> 0 \<le> jitter b \<and> jitter b \<le> b div 5"
  shows "30 * second \<le> bounded_recovery_backoff reason failures upstream jitter \<and>
    bounded_recovery_backoff reason failures upstream jitter \<le> day \<and>
    min upstream day \<le> bounded_recovery_backoff reason failures upstream jitter \<and>
    (upstream \<le> 30 * second \<and> \<not> (reason = ''rate_limited'' \<and> 10 < failures) \<longrightarrow>
      bounded_recovery_backoff reason failures upstream jitter \<le> 36 * minute)"
proof -
  define start :: duration where "start = (if provider_scoped_terminal reason then 5 * minute else 30 * second)"
  define n where "n = (if reason = ''unclassified_stream_error'' then 0 else unat failures - 1)"
  define base where "base = min (30 * minute) (start * 2 ^ n)"
  have "start * 1 \<le> start * 2 ^ n" by (intro mult_left_mono) (auto simp: start_def)
  moreover have "30 * second \<le> start" by (simp add: start_def)
  ultimately have "30 * second \<le> start * 2 ^ n" by linarith
  then have b: "30 * second \<le> base" "base \<le> 30 * minute" by (simp_all add: base_def)
  then have j: "0 \<le> jitter base" "jitter base \<le> 6 * minute" using assms [of base] by auto
  have "bounded_recovery_backoff reason failures upstream jitter =
      (if reason = ''rate_limited'' \<and> 10 < failures then day else min day (max upstream (base + jitter base)))"
    unfolding backoff_closed_form backoff_spec_def Let_def base_def start_def n_def
    by (simp add: word_less_nat_alt)
  then show ?thesis using b j by (simp add: min_def max_def)
qed

theorem backoff_bounds_witness:
  "bounded_recovery_backoff ''upstream_timeout'' 9 0 (\<lambda>b. b div 5) = 36 * minute \<and>
   bounded_recovery_backoff ''upstream_timeout'' 9 0 (\<lambda>b. b div 5) \<le> day"
proof -
  have "bounded_recovery_backoff ''upstream_timeout'' 9 0 (\<lambda>b. b div 5) = 36 * minute" by code_simp
  with backoff_bounds [of "\<lambda>b. b div 5" "''upstream_timeout''" 9 0] show ?thesis by simp
qed

subsection \<open>Evidence\<close>

definition provider_scope_reasons :: "string list" where
  "provider_scope_reasons =
     [''transport_error'', ''rate_limited'', ProviderErrorInsufficientBalance, ProviderErrorQuotaExhausted,
      ProviderErrorAccessDenied, ProviderErrorFairUseThrottled]"

lemma unclassified_model_scope: "unclassified_failure e f = (False, reason, cooldown) \<Longrightarrow> reason = []"
  by (auto simp: unclassified_failure_def no_evidence_def split: if_splits)



subsection \<open>Recovery\<close>

lemma complete_target_other:
  "t \<noteq> fst p \<Longrightarrow> entry_at (complete_target now j ok hn cx fe fc p s) t = Some e \<Longrightarrow> entry_at s t = Some e"
  by (auto simp: complete_target_def Let_def avail_put_def lookup_put lookup_del split: option.splits if_splits)

lemma complete_rest:
  "t \<notin> fst ` set ps \<Longrightarrow> entry_at (fold (complete_target now j ok hn cx fe fc) ps s) t = Some e \<Longrightarrow> entry_at s t = Some e"
  by (induction ps arbitrary: s) (auto dest: complete_target_other)

lemma next_entry_success [simp]: "ae_failures (next_entry a now j True fc fe t p) = 0"
  by (simp add: next_entry_def Let_def split: prod.splits)

lemma complete_target_success:
  assumes "entry_at s t = None \<or> map_option ae_id (entry_at s t) = a"
    "entry_at (complete_target now j True hn cx fe fc (t, a) s) t = Some e"
  shows "ae_failures e = 0"
  using assms
  by (auto simp: complete_target_def Let_def put_present avail_put_def lookup_put lookup_del split: option.splits if_splits)

lemma complete_success_fold:
  assumes "distinct (map fst ps)" "(t, a) \<in> set ps" "entry_at s t = None \<or> map_option ae_id (entry_at s t) = a"
    "entry_at (fold (complete_target now j True hn cx fe fc) ps s) t = Some e"
  shows "ae_failures e = 0"
  using assms
proof (induction ps arbitrary: s)
  case (Cons p ps)
  let ?s = "complete_target now j True hn cx fe fc p s"
  show ?case
  proof (cases "fst p = t")
    case True
    with Cons.prems(1) have out: "t \<notin> fst ` set ps" by auto
    with Cons.prems(2) have p: "p = (t, a)" by force
    from Cons.prems(4) have "entry_at (fold (complete_target now j True hn cx fe fc) ps ?s) t = Some e" by simp
    with out have "entry_at ?s t = Some e" by (rule complete_rest)
    then show ?thesis unfolding p by (rule complete_target_success [OF Cons.prems(3)])
  next
    case False
    with Cons.prems(2) have mem: "(t, a) \<in> set ps" by auto
    from False have ne: "t \<noteq> fst p" by simp
    have "entry_at ?s t = None \<or> map_option ae_id (entry_at ?s t) = a"
    proof (cases "entry_at ?s t")
      case (Some x)
      with Cons.prems(3) complete_target_other [OF ne Some] show ?thesis by simp
    qed simp
    from Cons.IH [OF _ mem this] Cons.prems(1,4) show ?thesis by simp
  qed
qed simp

text \<open>A success ends a recovery: when a request of the current view succeeds, every target it used
  whose entry nobody replaced in the meantime can be used again at once, at any later time.\<close>

theorem success_restores_target:
  assumes "(avail_step ops)\<^sup>*\<^sup>* avail_init y" and "l \<in> set (av_flight y)" and "al_epoch l = as_epoch (av_state y)"
    and "(t, a) \<in> set (zip (al_targets l) (al_entries l))"
    and "map_option ae_id (entry_at (av_state y) t) = a"
    and "avail_complete ops jitter now l False None None (av_state y) = (ok, s')"
  shows "ok \<and> entry_eligible (entry_at s' t) later"
proof -
  have inv: "avail_inv y" using avail_safety.run_inv [OF refl assms(1)] .
  with assms(2,3) have gens: "list_all (\<lambda>t. map_of (as_generations (av_state y)) (at_provider t) = Some (at_generation t)) (al_targets l)"
    and d: "distinct (map fst (zip (al_targets l) (al_entries l)))" and wf: "map_wf (as_entries (av_state y))"
    by (auto simp: avail_inv_def lease_inv_def list_all_iff entry_inv_def)
  have eq: "ok \<and> s' = fold (complete_target now jitter True False None (as_call_error None) (availability_failure ops None None False))
      (zip (al_targets l) (al_entries l)) (prune now (av_state y))"
    using assms(3,6) gens by (auto simp: avail_complete_def Let_def)
  have "entry_at (prune now (av_state y)) t = None \<or> map_option ae_id (entry_at (prune now (av_state y)) t) = a"
    using assms(5) wf by (auto simp: prune_def lookup_keep split: option.splits)
  from complete_success_fold [OF d assms(4) this] eq show ?thesis
    by (cases "entry_at s' t") (auto simp: entry_eligible_def)
qed

theorem success_restores_target_witness:
  "entry_eligible (entry_at (snd (avail_complete plain_ops (\<lambda>_ _. 0) hour (fst (snd sample_probe)) False None None
     (snd (snd sample_probe)))) (mk_target ''p'' ''m'' 1)) hour"
  using success_restores_target [OF sample_probing_run _ _ _ _ prod.collapse [symmetric],
      of "fst (snd sample_probe)" "mk_target ''p'' ''m'' 1" "Some 1" "\<lambda>_ _. 0" hour hour]
  by (simp add: sample_probing_def sample_probe_eq sample_entry_def)

end
