(* ===== verification/Budget.thy ===== *)
theory Budget
  imports Pricing Availability
begin

text \<open>
  Spending limits: the tables \<open>budget_charges\<close>, \<open>budget_resets\<close> and \<open>request_audit\<close> of the ledger
  (\<^verbatim>\<open>internal/ledger/budget.go\<close>, \<^verbatim>\<open>audit.go\<close>, \<^verbatim>\<open>gateway.go\<close>) and the part of
  \<open>callRouteCandidate\<close> that reserves and settles a request's budget
  (\<^verbatim>\<open>internal/gateway/provider_dispatch.go\<close>).

  A table is the list of its rows. The statements are the ones of the source; the database is the
  argument \<open>sql_env\<close>: its \<open>SUM\<close> over a non-empty column, and which statements fail, by name. A failed
  transaction leaves the tables as they were. Primary keys are enforced by the insertions. The
  flag \<open>AuditUnavailable\<close> belongs to the open ledger and not to the file.
\<close>

section \<open>Policies\<close>

record budget_policy =
  bp_Currency :: string
  bp_FiveHourLimit :: float64
  bp_WeeklyLimit :: float64
  bp_AlertThreshold :: float64
  bp_Mode :: string

text \<open>\<open>p == (BudgetPolicy{})\<close>\<close>

definition policy_is_zero :: "budget_policy \<Rightarrow> bool" where
  "policy_is_zero p \<longleftrightarrow>
     bp_Currency p = [] \<and> f_eq (bp_FiveHourLimit p) (Fin 0) \<and> f_eq (bp_WeeklyLimit p) (Fin 0) \<and>
     f_eq (bp_AlertThreshold p) (Fin 0) \<and> bp_Mode p = []"

definition policy_validate :: "text_ops \<Rightarrow> budget_policy \<Rightarrow> bool" where
  "policy_validate tx p \<longleftrightarrow>
     policy_is_zero p \<or>
     \<not> (length (bp_Currency p) \<noteq> 3 \<or> tx_upper tx (bp_Currency p) \<noteq> bp_Currency p) \<and>
     \<not> (f_lt (bp_FiveHourLimit p) (Fin 0) \<or> f_lt (bp_WeeklyLimit p) (Fin 0) \<or>
        f_eq (bp_FiveHourLimit p) (Fin 0) \<and> f_eq (bp_WeeklyLimit p) (Fin 0) \<or>
        is_nan (bp_FiveHourLimit p) \<or> is_nan (bp_WeeklyLimit p) \<or> is_inf (bp_FiveHourLimit p) \<or> is_inf (bp_WeeklyLimit p)) \<and>
     \<not> (f_le (bp_AlertThreshold p) (Fin 0) \<or> f_lt (Fin 1) (bp_AlertThreshold p) \<or>
        bp_Mode p \<noteq> ''alert'' \<and> bp_Mode p \<noteq> ''soft'' \<and> bp_Mode p \<noteq> ''hard'')"

definition ratio :: "float64 \<Rightarrow> float64 \<Rightarrow> float64" where
  "ratio value limit =
     (case limit of
        Fin b \<Rightarrow> if b \<le> 0 then Fin 0 else f_div_pos value b
      | NegInf \<Rightarrow> Fin 0
      | PosInf \<Rightarrow> (case value of Fin _ \<Rightarrow> Fin 0 | _ \<Rightarrow> NaN)
      | NaN \<Rightarrow> NaN)"

section \<open>The ledger\<close>

datatype charge_state = Pending | Settled | UnknownUsage

record budget_charge =
  bc_request_id :: string
  bc_audit_id :: string
  bc_charged_at_ms :: int
  bc_provider_scope :: string
  bc_currency :: string
  bc_charged_amount :: float64
  bc_state :: charge_state

record audit =
  au_ID :: string
  au_TimestampMS :: int
  au_Protocol :: string
  au_Upstream :: string
  au_ProviderRef :: string
  au_KeyLabel :: string
  au_BackendID :: string
  au_Model :: string
  au_Status :: string
  au_ErrorCode :: string
  au_RoutingDecision :: "routing_decision option"
  au_Failure :: "failure option"
  au_InputTokens :: "int option"
  au_OutputTokens :: "int option"
  au_CacheReadTokens :: "int option"
  au_CacheWriteTokens :: "int option"
  au_EstimatedCost :: "float64 option"
  au_CostSource :: string
  au_Currency :: string
  au_PriceSnapshot :: string
  au_LatencyMS :: int
  au_QueueMS :: int
  au_Events :: "string list"

record ledger =
  lg_charges :: "budget_charge list"
  lg_resets :: "(string \<times> string, int) gomap"
  lg_audit :: "(string, audit) gomap"
  lg_auditUnavailable :: bool

record sql_env =
  se_sum :: "float64 list \<Rightarrow> float64"
  se_fails :: "string \<Rightarrow> bool"

datatype budget_error =
  InvalidPolicy | BudgetUsageUnknown | BudgetHardLimit | BudgetConfirmationRequired | InvalidReservation
  | ReservationNotPending | InvalidCost | InvalidReset | BudgetAuditMissing | DatabaseError

section \<open>Admission\<close>

text \<open>The reset of a window moves its start.\<close>

definition window_start :: "ledger \<Rightarrow> string \<Rightarrow> string \<Rightarrow> int \<Rightarrow> int" where
  "window_start l provider window start =
     (case map_of (lg_resets l) (provider, window) of
        None \<Rightarrow> start
      | Some r \<Rightarrow> if start \<le> r then r + 1 else start)"

definition five_hour_start :: "ledger \<Rightarrow> string \<Rightarrow> time \<Rightarrow> int" where
  "five_hour_start l provider now = window_start l provider ''5h'' (unix_milli (now - 5 * hour))"

definition weekly_start :: "ledger \<Rightarrow> string \<Rightarrow> time \<Rightarrow> int" where
  "weekly_start l provider now = window_start l provider ''7d'' (unix_milli (now - 7 * day))"

text \<open>\<open>(provider_scope=? OR provider_scope='') AND currency=?\<close> and the time window.\<close>

definition in_scope :: "string \<Rightarrow> string \<Rightarrow> budget_charge \<Rightarrow> bool" where
  "in_scope provider currency c \<longleftrightarrow>
     (bc_provider_scope c = provider \<or> bc_provider_scope c = []) \<and> bc_currency c = currency"

definition in_window :: "int \<Rightarrow> int \<Rightarrow> budget_charge \<Rightarrow> bool" where
  "in_window start stop c \<longleftrightarrow> start \<le> bc_charged_at_ms c \<and> bc_charged_at_ms c \<le> stop"

definition spent :: "sql_env \<Rightarrow> ledger \<Rightarrow> string \<Rightarrow> string \<Rightarrow> int \<Rightarrow> int \<Rightarrow> float64" where
  "spent env l provider currency start stop =
     (let amounts = map bc_charged_amount (filter (\<lambda>c. in_scope provider currency c \<and> in_window start stop c) (lg_charges l))
      in if amounts = [] then Fin 0 else se_sum env amounts)"

definition unknown_windows :: "budget_policy \<Rightarrow> int \<Rightarrow> int \<Rightarrow> int \<Rightarrow> budget_charge \<Rightarrow> bool" where
  "unknown_windows p fiveHourStart weeklyStart nowMS c \<longleftrightarrow>
     f_lt (Fin 0) (bp_FiveHourLimit p) \<and> in_window fiveHourStart nowMS c \<or>
     f_lt (Fin 0) (bp_WeeklyLimit p) \<and> in_window weeklyStart nowMS c"

definition unknown_charges :: "ledger \<Rightarrow> string \<Rightarrow> budget_policy \<Rightarrow> int \<Rightarrow> int \<Rightarrow> int \<Rightarrow> nat" where
  "unknown_charges l provider p fiveHourStart weeklyStart nowMS =
     length (filter (\<lambda>c. in_scope provider (bp_Currency p) c \<and> bc_state c = UnknownUsage \<and>
                         unknown_windows p fiveHourStart weeklyStart nowMS c) (lg_charges l))"

definition over_limit :: "budget_policy \<Rightarrow> float64 \<Rightarrow> float64 \<Rightarrow> bool" where
  "over_limit p fiveHour weekly \<longleftrightarrow>
     f_lt (Fin 0) (bp_FiveHourLimit p) \<and> f_le (bp_FiveHourLimit p) fiveHour \<or>
     f_lt (Fin 0) (bp_WeeklyLimit p) \<and> f_le (bp_WeeklyLimit p) weekly"

definition over_threshold :: "budget_policy \<Rightarrow> float64 \<Rightarrow> float64 \<Rightarrow> bool" where
  "over_threshold p fiveHour weekly \<longleftrightarrow>
     f_le (bp_AlertThreshold p) (ratio fiveHour (bp_FiveHourLimit p)) \<or>
     f_le (bp_AlertThreshold p) (ratio weekly (bp_WeeklyLimit p))"

text \<open>The row that \<open>CheckBudget\<close> persists for a request in flight.\<close>

definition reservation :: "string \<Rightarrow> string \<Rightarrow> string \<Rightarrow> time \<Rightarrow> budget_charge" where
  "reservation requestID provider currency now =
     \<lparr>bc_request_id = requestID, bc_audit_id = [], bc_charged_at_ms = unix_milli now, bc_provider_scope = provider,
      bc_currency = currency, bc_charged_amount = Fin 0, bc_state = Pending\<rparr>"

definition insert_charge :: "budget_charge \<Rightarrow> ledger \<Rightarrow> ledger option" where
  "insert_charge c l =
     (if bc_request_id c \<in> set (map bc_request_id (lg_charges l)) then None
      else Some (l\<lparr>lg_charges := lg_charges l @ [c]\<rparr>))"

definition CheckBudget ::
  "sql_env \<Rightarrow> text_ops \<Rightarrow> string \<Rightarrow> string \<Rightarrow> budget_policy \<Rightarrow> bool \<Rightarrow> time \<Rightarrow> ledger
     \<Rightarrow> (budget_error + bool) \<times> ledger"
where
  "CheckBudget env tx requestID provider p confirmed now l =
     (if requestID = [] \<or> trim_space provider = [] \<or> \<not> policy_validate tx p then (Inl InvalidPolicy, l)
      else if se_fails env ''begin'' \<or> se_fails env ''reset 5h'' \<or> se_fails env ''reset 7d'' then (Inl DatabaseError, l)
      else
        (let nowMS = unix_milli now;
             fiveHourStart = five_hour_start l provider now;
             weeklyStart = weekly_start l provider now
         in if (f_lt (Fin 0) (bp_FiveHourLimit p) \<or> f_lt (Fin 0) (bp_WeeklyLimit p)) \<and> se_fails env ''unknown'' then (Inl DatabaseError, l)
            else if 0 < unknown_charges l provider p fiveHourStart weeklyStart nowMS then (Inl BudgetUsageUnknown, l)
            else if se_fails env ''sum 5h'' \<or> se_fails env ''sum 7d'' then (Inl DatabaseError, l)
            else
              (let fiveHour = spent env l provider (bp_Currency p) fiveHourStart nowMS;
                   weekly = spent env l provider (bp_Currency p) weeklyStart nowMS;
                   over = over_limit p fiveHour weekly;
                   warning = over_threshold p fiveHour weekly
               in if bp_Mode p = ''hard'' \<and> over then (Inl BudgetHardLimit, l)
                  else if bp_Mode p = ''soft'' \<and> (over \<or> warning) \<and> \<not> confirmed then (Inl BudgetConfirmationRequired, l)
                  else if se_fails env ''insert'' \<or> se_fails env ''commit'' then (Inl DatabaseError, l)
                  else
                    (case insert_charge (reservation requestID provider (bp_Currency p) now) l of
                       None \<Rightarrow> (Inl DatabaseError, l)
                     | Some l1 \<Rightarrow> (Inr warning, l1)))))"

section \<open>Settlement\<close>

definition ReleaseBudgetReservation :: "sql_env \<Rightarrow> string \<Rightarrow> ledger \<Rightarrow> budget_error option \<times> ledger" where
  "ReleaseBudgetReservation env requestID l =
     (if trim_space requestID = [] then (Some InvalidReservation, l)
      else if se_fails env ''delete'' then (Some DatabaseError, l)
      else
        (let gone = (\<lambda>c. bc_request_id c = requestID \<and> bc_state c = Pending);
             l1 = l\<lparr>lg_charges := filter (\<lambda>c. \<not> gone c) (lg_charges l)\<rparr>
         in if se_fails env ''affected'' then (Some DatabaseError, l1)
            else if length (filter gone (lg_charges l)) \<noteq> 1 then (Some ReservationNotPending, l1)
            else (None, l1)))"

definition recordBudgetCharge ::
  "sql_env \<Rightarrow> string \<Rightarrow> string \<Rightarrow> string \<Rightarrow> string \<Rightarrow> time \<Rightarrow> float64 \<Rightarrow> charge_state \<Rightarrow> bool \<Rightarrow> ledger
     \<Rightarrow> budget_error option \<times> ledger"
where
  "recordBudgetCharge env requestID auditID provider currency chargedAt amount st auditMissing l =
     (let row = \<lparr>bc_request_id = requestID, bc_audit_id = auditID, bc_charged_at_ms = unix_milli chargedAt,
                 bc_provider_scope = provider, bc_currency = currency, bc_charged_amount = amount, bc_state = st\<rparr>;
          hit = (\<lambda>c. bc_request_id c = requestID)
      in if se_fails env ''begin'' \<or> se_fails env ''update'' \<or> se_fails env ''affected'' then (Some DatabaseError, l)
         else if \<not> list_ex hit (lg_charges l) \<and> se_fails env ''insert'' then (Some DatabaseError, l)
         else if se_fails env ''commit'' then (Some DatabaseError, l)
         else
           (if auditMissing then Some BudgetAuditMissing else None,
            l\<lparr>lg_charges := (if list_ex hit (lg_charges l) then map (\<lambda>c. if hit c then row else c) (lg_charges l)
                            else lg_charges l @ [row])\<rparr>))"

definition RecordBudgetCharge ::
  "sql_env \<Rightarrow> string \<Rightarrow> string \<Rightarrow> string \<Rightarrow> string \<Rightarrow> time \<Rightarrow> ledger \<Rightarrow> budget_error option \<times> ledger"
where
  "RecordBudgetCharge env requestID auditID provider currency chargedAt l =
     (if se_fails env ''audit'' then (Some DatabaseError, l)
      else
        (let row = map_of (lg_audit l) auditID;
             cost = (case row of None \<Rightarrow> None | Some a \<Rightarrow> au_EstimatedCost a);
             (st, amount) = (case cost of None \<Rightarrow> (UnknownUsage, Fin 0) | Some c \<Rightarrow> (Settled, c))
         in recordBudgetCharge env requestID auditID provider currency chargedAt amount st (row = None) l))"

definition RecordBudgetChargeWithCost ::
  "sql_env \<Rightarrow> string \<Rightarrow> string \<Rightarrow> string \<Rightarrow> string \<Rightarrow> time \<Rightarrow> float64 \<Rightarrow> ledger \<Rightarrow> budget_error option \<times> ledger"
where
  "RecordBudgetChargeWithCost env requestID auditID provider currency chargedAt cost l =
     (if f_lt cost (Fin 0) \<or> is_nan cost \<or> is_inf cost then (Some InvalidCost, l)
      else recordBudgetCharge env requestID auditID provider currency chargedAt cost Settled False l)"

definition ResetProviderBudget :: "sql_env \<Rightarrow> string \<Rightarrow> string \<Rightarrow> time \<Rightarrow> ledger \<Rightarrow> budget_error option \<times> ledger" where
  "ResetProviderBudget env provider window resetAt l =
     (if trim_space provider = [] \<or> window \<noteq> ''5h'' \<and> window \<noteq> ''7d'' then (Some InvalidReset, l)
      else if se_fails env ''upsert'' then (Some DatabaseError, l)
      else (None, l\<lparr>lg_resets := map_put (provider, window) (unix_milli resetAt) (lg_resets l)\<rparr>))"

section \<open>Audit rows and opening\<close>

datatype audit_error = InvalidAuditIdentity | InvalidAuditStatus | InvalidAuditUsage | InvalidAuditCost | AuditStorage

definition audit_check :: "audit \<Rightarrow> audit_error option" where
  "audit_check a =
     (if au_ID a = [] \<or> au_TimestampMS a \<le> 0 \<or> au_Protocol a \<noteq> ''openai'' \<and> au_Protocol a \<noteq> ''anthropic'' \<or>
         au_Upstream a = [] \<or> au_Model a = [] then Some InvalidAuditIdentity
      else if au_Status a \<noteq> ''ok'' \<and> au_Status a \<noteq> ''error'' \<and> au_Status a \<noteq> ''canceled'' then Some InvalidAuditStatus
      else if list_ex (\<lambda>n. case n of None \<Rightarrow> False | Some v \<Rightarrow> v < 0)
                [au_InputTokens a, au_OutputTokens a, au_CacheReadTokens a, au_CacheWriteTokens a] then Some InvalidAuditUsage
      else if (case au_EstimatedCost a of
                 None \<Rightarrow> False
               | Some c \<Rightarrow> f_lt c (Fin 0) \<or> is_nan c \<or> is_inf c \<or> au_Currency a = []) then Some InvalidAuditCost
      else None)"

definition AppendAudit :: "sql_env \<Rightarrow> message_ops \<Rightarrow> audit \<Rightarrow> ledger \<Rightarrow> audit_error option \<times> ledger" where
  "AppendAudit env ops a l =
     (case audit_check a of
        Some e \<Rightarrow> (Some e, l\<lparr>lg_auditUnavailable := True\<rparr>)
      | None \<Rightarrow>
          (let a1 = a\<lparr>au_Failure := failure_normalize ops (au_Failure a), au_RoutingDecision := decision_normalize (au_RoutingDecision a),
                      au_KeyLabel := KeyLabel (au_KeyLabel a), au_BackendID := KeyLabel (au_BackendID a)\<rparr>
           in if list_ex (se_fails env) [''marshal'', ''begin'', ''insert'', ''commit''] \<or> map_of (lg_audit l) (au_ID a) \<noteq> None \<or>
                 au_Events a \<noteq> [] \<and> se_fails env ''insert event''
              then (Some AuditStorage, l\<lparr>lg_auditUnavailable := True\<rparr>)
              else (None, l\<lparr>lg_audit := map_put (au_ID a) a1 (lg_audit l)\<rparr>)))"

datatype open_error = CannotResolve | CannotClaim | AlreadyOwned | CannotOpen | CannotRecover

text \<open>\<open>OpenForGateway\<close>: \<open>owned\<close> says whether another process holds the lock file, \<open>fails\<close> which
  other steps fail. The argument is what the file holds.\<close>

definition OpenForGateway :: "(string \<Rightarrow> bool) \<Rightarrow> bool \<Rightarrow> ledger \<Rightarrow> open_error + ledger" where
  "OpenForGateway fails owned l =
     (if fails ''resolve'' then Inl CannotResolve
      else if fails ''lock file'' then Inl CannotClaim
      else if owned then Inl AlreadyOwned
      else if fails ''open'' then Inl CannotOpen
      else if fails ''recover'' then Inl CannotRecover
      else Inr (l\<lparr>lg_charges := map (\<lambda>c. if bc_state c = Pending then c\<lparr>bc_state := UnknownUsage\<rparr> else c) (lg_charges l),
                 lg_auditUnavailable := False\<rparr>))"

section \<open>Reserving and settling a request\<close>

definition budgetBlockKey :: "string \<Rightarrow> string \<Rightarrow> string" where
  "budgetBlockKey provider currency = provider @ [CHR 0x00] @ currency"

definition blockBudget :: "string \<Rightarrow> string \<Rightarrow> (string, unit) gomap \<Rightarrow> (string, unit) gomap" where
  "blockBudget provider currency blocked = map_put (budgetBlockKey provider currency) () blocked"

definition isBudgetBlocked :: "string \<Rightarrow> string \<Rightarrow> (string, unit) gomap \<Rightarrow> bool" where
  "isBudgetBlocked provider currency blocked \<longleftrightarrow> map_of blocked (budgetBlockKey provider currency) \<noteq> None"

text \<open>What the reservation reads of the provider's configuration, and of the request.\<close>

record budget_provider =
  bv_name :: string
  bv_Budget :: "budget_policy option"
  bv_Prices :: "(string, price) gomap"
  bv_BaseURL :: string

record budget_request =
  bq_upstreamModel :: string
  bq_nonce :: "string option"
  bq_confirmed :: bool
  bq_shuttingDown :: bool

datatype reservation_result = Refused int string | Reserved string bool

definition zero_policy :: budget_policy where
  "zero_policy = \<lparr>bp_Currency = [], bp_FiveHourLimit = Fin 0, bp_WeeklyLimit = Fin 0, bp_AlertThreshold = Fin 0, bp_Mode = []\<rparr>"

definition provider_budget :: "budget_provider \<Rightarrow> budget_policy" where
  "provider_budget v = (case bv_Budget v of None \<Rightarrow> zero_policy | Some b \<Rightarrow> b)"

definition provider_price :: "text_ops \<Rightarrow> budget_provider \<Rightarrow> string \<Rightarrow> price option" where
  "provider_price tx v model =
     (case map_of (bv_Prices v) model of Some p \<Rightarrow> Some p | None \<Rightarrow> BuiltInPrice tx (bv_BaseURL v) model)"

text \<open>The codes the client sees; other failures are \<open>budget_reservation_failed\<close>.\<close>

definition budget_reject_code :: "budget_error \<Rightarrow> string" where
  "budget_reject_code e =
     (case e of
        BudgetHardLimit \<Rightarrow> ''budget_hard_limit''
      | BudgetConfirmationRequired \<Rightarrow> ''budget_confirmation_required''
      | BudgetUsageUnknown \<Rightarrow> ''budget_usage_unknown''
      | _ \<Rightarrow> ''budget_reservation_failed'')"

definition reserve_budget ::
  "sql_env \<Rightarrow> text_ops \<Rightarrow> budget_provider \<Rightarrow> budget_request \<Rightarrow> time \<Rightarrow> (string, unit) gomap \<Rightarrow> ledger
     \<Rightarrow> reservation_result \<times> ledger"
where
  "reserve_budget env tx v q now blocked l =
     (let budget = provider_budget v in
      if policy_is_zero budget then (Reserved [] False, l)
      else
        (case provider_price tx v (bq_upstreamModel q) of
           None \<Rightarrow> (Refused 503 ''budget_pricing_unconfigured'', l)
         | Some price \<Rightarrow>
             if pr_Currency price \<noteq> bp_Currency budget then (Refused 503 ''budget_pricing_unconfigured'', l)
             else if isBudgetBlocked (bv_name v) (bp_Currency budget) blocked then (Refused 429 ''budget_usage_unknown'', l)
             else
               (case bq_nonce q of
                  None \<Rightarrow> (Refused 500 ''request_id_failed'', l)
                | Some requestID \<Rightarrow>
                    (case CheckBudget env tx requestID (bv_name v) budget (bq_confirmed q) now l of
                       (Inl e, l1) \<Rightarrow>
                         (if bq_shuttingDown q then Refused 503 ''server_shutting_down'' else Refused 429 (budget_reject_code e), l1)
                     | (Inr warning, l1) \<Rightarrow> (Reserved requestID warning, l1)))))"

text \<open>The charge a failed call is known to have caused.\<close>

definition settle_charge ::
  "sql_env \<Rightarrow> string \<Rightarrow> go_error option \<Rightarrow> string \<Rightarrow> string \<Rightarrow> string \<Rightarrow> time \<Rightarrow> ledger \<Rightarrow> budget_error option \<times> ledger"
where
  "settle_charge env reservationID callErr auditID provider currency now l =
     (case as_call_error callErr of
        None \<Rightarrow> RecordBudgetCharge env reservationID auditID provider currency now l
      | Some e \<Rightarrow>
          if ce_UpstreamNotAttempted e then ReleaseBudgetReservation env reservationID l
          else
            (case ce_BudgetCost e of
               Some cost \<Rightarrow> RecordBudgetChargeWithCost env reservationID auditID provider currency now cost l
             | None \<Rightarrow> RecordBudgetCharge env reservationID auditID provider currency now l))"

definition settle_budget ::
  "sql_env \<Rightarrow> string \<Rightarrow> go_error option \<Rightarrow> string \<Rightarrow> string \<Rightarrow> string \<Rightarrow> time \<Rightarrow> (string, unit) gomap \<Rightarrow> ledger
     \<Rightarrow> (string, unit) gomap \<times> ledger"
where
  "settle_budget env reservationID callErr auditID provider currency now blocked l =
     (if reservationID = [] then (blocked, l)
      else
        (let (settleErr, l1) = settle_charge env reservationID callErr auditID provider currency now l
         in (if settleErr = None then blocked else blockBudget provider currency blocked, l1)))"

section \<open>The gateway over time\<close>

text \<open>
  Requests of one gateway process with a budget, in flight between reservation and settlement. A
  crash loses the process; the next one opens the same file. The database, the configuration and
  the clock are free at every step.
\<close>

record budget_flight =
  bf_id :: string
  bf_provider :: string
  bf_currency :: string

record budget_sys =
  bs_ledger :: ledger
  bs_blocked :: "(string, unit) gomap"
  bs_flights :: "budget_flight list"

definition flight_of :: "budget_provider \<Rightarrow> string \<Rightarrow> budget_flight" where
  "flight_of v rid = \<lparr>bf_id = rid, bf_provider = bv_name v, bf_currency = bp_Currency (provider_budget v)\<rparr>"

definition settled_sys ::
  "sql_env \<Rightarrow> budget_flight \<Rightarrow> go_error option \<Rightarrow> string \<Rightarrow> time \<Rightarrow> budget_sys \<Rightarrow> budget_sys"
where
  "settled_sys env f callErr auditID now s =
     (let (blocked, l) = settle_budget env (bf_id f) callErr auditID (bf_provider f) (bf_currency f) now (bs_blocked s) (bs_ledger s)
      in \<lparr>bs_ledger = l, bs_blocked = blocked, bs_flights = remove1 f (bs_flights s)\<rparr>)"

definition restarted_sys :: "ledger \<Rightarrow> budget_sys" where
  "restarted_sys l = \<lparr>bs_ledger = l, bs_blocked = [], bs_flights = []\<rparr>"

inductive budget_step :: "budget_sys \<Rightarrow> budget_sys \<Rightarrow> bool" where
  reserve: "reserve_budget env tx v q now (bs_blocked s) (bs_ledger s) = (Reserved rid w, l) \<Longrightarrow> rid \<noteq> [] \<Longrightarrow>
     budget_step s (s\<lparr>bs_ledger := l, bs_flights := bs_flights s @ [flight_of v rid]\<rparr>)"
| settle: "f \<in> set (bs_flights s) \<Longrightarrow> budget_step s (settled_sys env f callErr auditID now s)"
| append_audit: "budget_step s (s\<lparr>bs_ledger := snd (AppendAudit env ops a (bs_ledger s))\<rparr>)"
| reset: "budget_step s (s\<lparr>bs_ledger := snd (ResetProviderBudget env provider window now (bs_ledger s))\<rparr>)"
| restart: "OpenForGateway fails owned (bs_ledger s) = Inr l \<Longrightarrow> budget_step s (restarted_sys l)"

definition row_of :: "budget_flight \<Rightarrow> budget_charge \<Rightarrow> bool" where
  "row_of f c \<longleftrightarrow> bc_request_id c = bf_id f \<and> bc_provider_scope c = bf_provider f \<and> bc_currency c = bf_currency f"

definition budget_inv :: "budget_sys \<Rightarrow> bool" where
  "budget_inv s \<longleftrightarrow>
     distinct (map bc_request_id (lg_charges (bs_ledger s))) \<and>
     distinct (map bf_id (bs_flights s)) \<and>
     (\<forall>f \<in> set (bs_flights s). bf_id f \<noteq> [] \<and> (\<exists>c \<in> set (lg_charges (bs_ledger s)). row_of f c \<and> bc_state c = Pending))"

section \<open>What the operations do to the table\<close>

text \<open>An operation on one request: the rows of the others stay, and identifiers stay unique.\<close>

definition touches_only :: "string \<Rightarrow> ledger \<Rightarrow> ledger \<Rightarrow> bool" where
  "touches_only rid l l' \<longleftrightarrow>
     (\<forall>c. bc_request_id c \<noteq> rid \<longrightarrow> (c \<in> set (lg_charges l') \<longleftrightarrow> c \<in> set (lg_charges l))) \<and>
     (distinct (map bc_request_id (lg_charges l)) \<longrightarrow> distinct (map bc_request_id (lg_charges l'))) \<and>
     lg_resets l' = lg_resets l \<and> lg_audit l' = lg_audit l"

lemma touches_only_refl [simp]: "touches_only rid l l"
  by (simp add: touches_only_def)

lemma release_touches:
  assumes "ReleaseBudgetReservation env rid l = (e, l1)"
  shows "touches_only rid l l1"
proof -
  have "l1 = l \<or> l1 = l\<lparr>lg_charges := filter (\<lambda>c. \<not> (bc_request_id c = rid \<and> bc_state c = Pending)) (lg_charges l)\<rparr>"
    using assms by (auto simp: ReleaseBudgetReservation_def Let_def split: if_splits)
  then show ?thesis by (auto simp: touches_only_def distinct_map_filter)
qed

lemma record_charge_cases:
  assumes "recordBudgetCharge env rid aid provider currency now amount st missing l = (e, l1)"
  defines "row \<equiv> \<lparr>bc_request_id = rid, bc_audit_id = aid, bc_charged_at_ms = unix_milli now, bc_provider_scope = provider,
      bc_currency = currency, bc_charged_amount = amount, bc_state = st\<rparr>"
  shows "e = Some DatabaseError \<and> l1 = l \<or>
     row \<in> set (lg_charges l1) \<and>
     l1 = l\<lparr>lg_charges := (if list_ex (\<lambda>c. bc_request_id c = rid) (lg_charges l)
       then map (\<lambda>c. if bc_request_id c = rid then row else c) (lg_charges l) else lg_charges l @ [row])\<rparr>"
  using assms by (auto simp: recordBudgetCharge_def Let_def list_ex_iff split: if_splits)

lemma record_charge_touches:
  assumes "recordBudgetCharge env rid aid provider currency now amount st missing l = (e, l1)"
  shows "touches_only rid l l1"
proof -
  have ids: "map bc_request_id (map (\<lambda>c. if bc_request_id c = rid then row else c) cs) = map bc_request_id cs"
    if "bc_request_id row = rid" for row :: budget_charge and cs using that by auto
  show ?thesis
    using record_charge_cases [OF assms]
    by (elim disjE conjE) (auto simp: touches_only_def ids list_ex_iff simp del: map_map split: if_splits)
qed

lemma settle_charge_touches:
  assumes "settle_charge env rid err aid provider currency now l = (e, l1)"
  shows "touches_only rid l l1"
  using assms
  by (auto simp: settle_charge_def RecordBudgetCharge_def RecordBudgetChargeWithCost_def Let_def
      dest: release_touches record_charge_touches split: option.splits if_splits prod.splits)

lemma reserve_row:
  assumes "reserve_budget env tx v q now blocked l = (Reserved rid w, l1)" "rid \<noteq> []"
  shows "rid \<notin> set (map bc_request_id (lg_charges l))"
    and "l1 = l\<lparr>lg_charges := lg_charges l @ [reservation rid (bv_name v) (bp_Currency (provider_budget v)) now]\<rparr>"
  using assms
  by (auto simp: reserve_budget_def CheckBudget_def insert_charge_def reservation_def Let_def split: if_splits option.splits)

lemma append_audit_charges [simp]:
  "lg_charges (snd (AppendAudit env ops a l)) = lg_charges l" "lg_resets (snd (AppendAudit env ops a l)) = lg_resets l"
  by (auto simp: AppendAudit_def Let_def split: option.splits)

lemma reset_charges [simp]:
  "lg_charges (snd (ResetProviderBudget env provider window now l)) = lg_charges l"
  by (auto simp: ResetProviderBudget_def)

definition recovered :: "budget_charge \<Rightarrow> budget_charge" where
  "recovered c = (if bc_state c = Pending then c\<lparr>bc_state := UnknownUsage\<rparr> else c)"

lemma recovered_fields [simp]:
  "bc_request_id (recovered c) = bc_request_id c" "bc_provider_scope (recovered c) = bc_provider_scope c"
  "bc_currency (recovered c) = bc_currency c" "bc_charged_at_ms (recovered c) = bc_charged_at_ms c"
  "bc_state (recovered c) \<noteq> Pending"
  by (auto simp: recovered_def)

lemma open_charges:
  "OpenForGateway fails owned l = Inr l1 \<Longrightarrow> lg_charges l1 = map recovered (lg_charges l)"
  by (auto simp: OpenForGateway_def recovered_def split: if_splits)

lemma settled_sys_fields:
  assumes "settle_charge env (bf_id f) err aid (bf_provider f) (bf_currency f) now (bs_ledger s) = (e, l)" "bf_id f \<noteq> []"
  shows "settled_sys env f err aid now s =
     \<lparr>bs_ledger = l, bs_blocked = (if e = None then bs_blocked s else blockBudget (bf_provider f) (bf_currency f) (bs_blocked s)),
      bs_flights = remove1 f (bs_flights s)\<rparr>"
  using assms by (simp add: settled_sys_def settle_budget_def)

section \<open>The invariant\<close>

lemma budget_invD:
  assumes "budget_inv s"
  shows "distinct (map bc_request_id (lg_charges (bs_ledger s)))" "distinct (map bf_id (bs_flights s))"
    and "f \<in> set (bs_flights s) \<Longrightarrow> bf_id f \<noteq> []"
    and "f \<in> set (bs_flights s) \<Longrightarrow> \<exists>c \<in> set (lg_charges (bs_ledger s)). row_of f c \<and> bc_state c = Pending"
  using assms by (auto simp: budget_inv_def)

lemma charge_flight_ids_inj:
  "budget_inv s \<Longrightarrow> f \<in> set (bs_flights s) \<Longrightarrow> g \<in> set (bs_flights s) \<Longrightarrow> bf_id f = bf_id g \<Longrightarrow> f = g"
  by (auto simp: budget_inv_def distinct_map inj_on_def)

lemma settle_inv:
  assumes inv: "budget_inv s" and f: "f \<in> set (bs_flights s)"
  shows "budget_inv (settled_sys env f err aid now s)"
proof -
  obtain e l where sc: "settle_charge env (bf_id f) err aid (bf_provider f) (bf_currency f) now (bs_ledger s) = (e, l)"
    by fastforce
  note fields = settled_sys_fields [OF sc budget_invD(3) [OF inv f]]
  note tch = settle_charge_touches [OF sc]
  have dist: "distinct (bs_flights s)" using budget_invD(2) [OF inv] by (simp add: distinct_map)
  have rest: "g \<in> set (bs_flights s) \<and> bf_id g \<noteq> bf_id f" if "g \<in> set (remove1 f (bs_flights s))" for g
    using that f inv charge_flight_ids_inj dist by auto
  have rows: "\<exists>c \<in> set (lg_charges l). row_of g c \<and> bc_state c = Pending" if "g \<in> set (remove1 f (bs_flights s))" for g
  proof -
    from rest [OF that] budget_invD(4) [OF inv, of g] obtain c where
      "c \<in> set (lg_charges (bs_ledger s))" "row_of g c" "bc_state c = Pending" "bc_request_id c \<noteq> bf_id f"
      by (auto simp: row_of_def)
    with tch show ?thesis by (auto simp: touches_only_def)
  qed
  have ids: "distinct (map bf_id (remove1 f (bs_flights s)))"
    using budget_invD(2) [OF inv] dist by (auto simp: distinct_map inj_on_def)
  have "distinct (map bc_request_id (lg_charges l))"
    using tch budget_invD(1) [OF inv] unfolding touches_only_def by blast
  moreover have "bf_id g \<noteq> []" if "g \<in> set (remove1 f (bs_flights s))" for g
    using rest [OF that] budget_invD(3) [OF inv] by blast
  ultimately show ?thesis
    unfolding budget_inv_def fields using ids rows by simp
qed

lemma reserve_inv:
  assumes inv: "budget_inv s" and r: "reserve_budget env tx v q now (bs_blocked s) (bs_ledger s) = (Reserved rid w, l)" "rid \<noteq> []"
  shows "budget_inv (s\<lparr>bs_ledger := l, bs_flights := bs_flights s @ [flight_of v rid]\<rparr>)"
proof -
  note row = reserve_row [OF r]
  have "rid \<notin> bf_id ` set (bs_flights s)"
  proof
    assume "rid \<in> bf_id ` set (bs_flights s)"
    then obtain f where "f \<in> set (bs_flights s)" "bf_id f = rid" by blast
    with budget_invD(4) [OF inv, of f] obtain c where "c \<in> set (lg_charges (bs_ledger s))" "bc_request_id c = rid"
      by (auto simp: row_of_def)
    with row(1) show False by (metis image_eqI set_map)
  qed
  with inv row r(2) show ?thesis
    by (auto simp: budget_inv_def reservation_def flight_of_def row_of_def)
qed

lemma budget_step_inv: "budget_step s t \<Longrightarrow> budget_inv s \<Longrightarrow> budget_inv t"
proof (induction rule: budget_step.induct)
  case (reserve env tx v q now s rid w l)
  from reserve.prems reserve.hyps show ?case by (rule reserve_inv)
next
  case (settle f s env err aid now)
  from settle.prems settle.hyps show ?case by (rule settle_inv)
next
  case (append_audit s env ops a)
  then show ?case by (simp add: budget_inv_def)
next
  case (reset s env provider window now)
  then show ?case by (simp add: budget_inv_def)
next
  case (restart fails owned s l)
  then show ?case by (simp add: budget_inv_def restarted_sys_def open_charges comp_def)
qed

definition budget_start :: "budget_sys \<Rightarrow> bool" where
  "budget_start s \<longleftrightarrow> bs_flights s = [] \<and> distinct (map bc_request_id (lg_charges (bs_ledger s)))"

interpretation budget_safety: safe_system budget_start budget_step budget_inv
proof unfold_locales
  show "budget_inv s" if "budget_start s" for s using that by (simp add: budget_start_def budget_inv_def)
qed (rule budget_step_inv)

section \<open>No spending is forgotten\<close>

text \<open>A row whose request is over: settled, or unresolved and keeping its provider refused.\<close>

definition unresolved :: "budget_sys \<Rightarrow> budget_charge \<Rightarrow> bool" where
  "unresolved s c \<longleftrightarrow>
     bc_state c = UnknownUsage \<or>
     bc_state c = Pending \<and> isBudgetBlocked (bc_provider_scope c) (bc_currency c) (bs_blocked s)"

definition closed_row :: "budget_sys \<Rightarrow> budget_charge \<Rightarrow> bool" where
  "closed_row s c \<longleftrightarrow>
     c \<in> set (lg_charges (bs_ledger s)) \<and> bc_request_id c \<notin> bf_id ` set (bs_flights s) \<and> (bc_state c = Settled \<or> unresolved s c)"

lemma isBudgetBlocked_put: "isBudgetBlocked p c b \<Longrightarrow> isBudgetBlocked p c (blockBudget p' c' b)"
  by (auto simp: isBudgetBlocked_def blockBudget_def go_map)

lemma isBudgetBlocked_block [simp]: "isBudgetBlocked p c (blockBudget p c b)"
  by (simp add: isBudgetBlocked_def blockBudget_def go_map)

lemma unresolved_mono:
  "unresolved s c \<Longrightarrow> (\<And>p k. isBudgetBlocked p k (bs_blocked s) \<Longrightarrow> isBudgetBlocked p k (bs_blocked t)) \<Longrightarrow> unresolved t c"
  by (auto simp: unresolved_def)

text \<open>Every step keeps the row, or a restart turns a pending one into one of unknown usage.\<close>

lemma closed_row_step:
  assumes "budget_step s t" "budget_inv s" "closed_row s c"
  shows "closed_row t c \<or> bc_state c = Pending \<and> closed_row t (recovered c)"
  using assms
proof (cases rule: budget_step.cases)
  case (reserve env tx v q now rid w l)
  have "rid \<noteq> bc_request_id c" using reserve_row(1) [OF reserve(2,3)] assms(3) by (auto simp: closed_row_def)
  with assms(3) reserve reserve_row(2) [OF reserve(2,3)] show ?thesis
    by (auto simp: closed_row_def unresolved_def flight_of_def)
next
  case (settle f env err aid now)
  obtain e l where sc: "settle_charge env (bf_id f) err aid (bf_provider f) (bf_currency f) now (bs_ledger s) = (e, l)"
    by fastforce
  have ne: "bf_id f \<noteq> []" using budget_invD(3) [OF assms(2) settle(2)] .
  have "bc_request_id c \<noteq> bf_id f" using assms(3) settle(2) by (auto simp: closed_row_def)
  with settle_charge_touches [OF sc] assms(3) have "c \<in> set (lg_charges l)" by (auto simp: closed_row_def touches_only_def)
  moreover have "bc_request_id c \<notin> bf_id ` set (remove1 f (bs_flights s))"
    using assms(3) set_remove1_subset [of f "bs_flights s"] unfolding closed_row_def by blast
  ultimately show ?thesis using assms(3)
    unfolding settle settled_sys_fields [OF sc ne] closed_row_def
    by (auto intro: isBudgetBlocked_put simp: unresolved_def)
next
  case (append_audit env ops a)
  then show ?thesis using assms(3) by (simp add: closed_row_def unresolved_def)
next
  case (reset env provider window now)
  then show ?thesis using assms(3) by (simp add: closed_row_def unresolved_def)
next
  case (restart fails owned l)
  have "recovered c \<in> set (lg_charges l)" using assms(3) open_charges [OF restart(2)] by (simp add: closed_row_def)
  then show ?thesis using assms(3) restart
    by (auto simp: restarted_sys_def closed_row_def unresolved_def recovered_def split: if_splits)
qed

lemma closed_row_steps:
  assumes "budget_step\<^sup>*\<^sup>* t u" "budget_inv t" "closed_row t c"
  shows "closed_row u c \<or> bc_state c = Pending \<and> closed_row u (recovered c)"
  using assms(1)
proof (induction rule: rtranclp_induct)
  case base
  then show ?case using assms(3) by blast
next
  case (step u v)
  have "budget_inv u" using step.hyps(1) assms(2) by (rule budget_safety.steps_inv)
  with step closed_row_step have "closed_row v d \<or> bc_state d = Pending \<and> closed_row v (recovered d)" if "closed_row u d" for d
    using that by blast
  with step.IH show ?case using recovered_fields(5) by blast
qed

text \<open>The cost of an attempted request, when it is known at settlement.\<close>

definition known_cost :: "ledger \<Rightarrow> go_error option \<Rightarrow> string \<Rightarrow> float64 option" where
  "known_cost l err aid =
     (let audited = (case map_of (lg_audit l) aid of None \<Rightarrow> None | Some a \<Rightarrow> au_EstimatedCost a)
      in case as_call_error err of
           None \<Rightarrow> audited
         | Some e \<Rightarrow> (case ce_BudgetCost e of Some c \<Rightarrow> Some c | None \<Rightarrow> audited))"

definition was_attempted :: "go_error option \<Rightarrow> bool" where
  "was_attempted err \<longleftrightarrow> (case as_call_error err of None \<Rightarrow> True | Some e \<Rightarrow> \<not> ce_UpstreamNotAttempted e)"

lemma record_charge_outcome:
  assumes "recordBudgetCharge env (bf_id f) aid (bf_provider f) (bf_currency f) now amount st missing l = (e, l1)"
    "c \<in> set (lg_charges l)" "row_of f c" "bc_state c = Pending"
  shows "\<exists>r \<in> set (lg_charges l1). row_of f r \<and>
     (bc_state r = st \<and> bc_charged_amount r = amount \<or> bc_state r = Pending \<and> e \<noteq> None)"
  using record_charge_cases [OF assms(1)]
proof (elim disjE conjE)
  assume "e = Some DatabaseError" "l1 = l"
  with assms(2-4) show ?thesis by blast
qed (erule rev_bexI, simp add: row_of_def)

lemma settle_outcome:
  assumes "settle_charge env (bf_id f) err aid (bf_provider f) (bf_currency f) now l = (e, l1)" "was_attempted err"
    "c \<in> set (lg_charges l)" "row_of f c" "bc_state c = Pending"
  shows "\<exists>r \<in> set (lg_charges l1). row_of f r \<and>
     (bc_state r = Settled \<and> known_cost l err aid = Some (bc_charged_amount r) \<or> bc_state r = UnknownUsage \<or>
      bc_state r = Pending \<and> e \<noteq> None)"
proof -
  note out = record_charge_outcome [OF _ assms(3-5)]
  consider (cost) cost x where "as_call_error err = Some x" "ce_BudgetCost x = Some cost"
    "RecordBudgetChargeWithCost env (bf_id f) aid (bf_provider f) (bf_currency f) now cost l = (e, l1)"
  | (audit) "as_call_error err = None \<or> (\<exists>x. as_call_error err = Some x \<and> ce_BudgetCost x = None)"
    "RecordBudgetCharge env (bf_id f) aid (bf_provider f) (bf_currency f) now l = (e, l1)"
    using assms(1,2) by (auto simp: settle_charge_def was_attempted_def split: option.splits)
  then show ?thesis
  proof cases
    case cost
    show ?thesis
    proof (cases "f_lt cost (Fin 0) \<or> is_nan cost \<or> is_inf cost")
      case True
      with cost(3) assms(3-5) show ?thesis by (auto simp: RecordBudgetChargeWithCost_def)
    next
      case False
      with cost(3) have "recordBudgetCharge env (bf_id f) aid (bf_provider f) (bf_currency f) now cost Settled False l = (e, l1)"
        by (simp add: RecordBudgetChargeWithCost_def)
      from out [OF this] cost(1,2) show ?thesis by (auto simp: known_cost_def)
    qed
  next
    case audit
    show ?thesis
    proof (cases "se_fails env ''audit''")
      case True
      with audit(2) assms(3-5) show ?thesis by (auto simp: RecordBudgetCharge_def)
    next
      case False
      define known where "known = (case map_of (lg_audit l) aid of None \<Rightarrow> None | Some a \<Rightarrow> au_EstimatedCost a)"
      have "known_cost l err aid = known" using audit(1) by (auto simp: known_cost_def known_def Let_def)
      moreover have "recordBudgetCharge env (bf_id f) aid (bf_provider f) (bf_currency f) now
          (case known of None \<Rightarrow> Fin 0 | Some c \<Rightarrow> c) (case known of None \<Rightarrow> UnknownUsage | Some c \<Rightarrow> Settled)
          (map_of (lg_audit l) aid = None) l = (e, l1)"
        using audit(2) False by (auto simp: RecordBudgetCharge_def Let_def known_def split: option.splits)
      ultimately show ?thesis using out by (cases known) fastforce+
    qed
  qed
qed

text \<open>An unresolved row keeps the provider refused as long as a window of the policy covers it.\<close>

definition covers :: "ledger \<Rightarrow> budget_policy \<Rightarrow> string \<Rightarrow> time \<Rightarrow> budget_charge \<Rightarrow> bool" where
  "covers l p provider now c \<longleftrightarrow>
     unknown_windows p (five_hour_start l provider now) (weekly_start l provider now) (unix_milli now) c"

lemma CheckBudget_unknown:
  assumes "c \<in> set (lg_charges l)" "in_scope provider (bp_Currency p) c" "bc_state c = UnknownUsage" "covers l p provider now c"
  shows "\<exists>e. CheckBudget env tx rid provider p confirmed now l = (Inl e, l)"
proof -
  have "0 < unknown_charges l provider p (five_hour_start l provider now) (weekly_start l provider now) (unix_milli now)"
    using assms by (auto simp: unknown_charges_def covers_def filter_empty_conv)
  then show ?thesis by (auto simp: CheckBudget_def Let_def)
qed

lemma unresolved_refused:
  assumes "c \<in> set (lg_charges (bs_ledger s))" "unresolved s c" "bc_provider_scope c = bv_name v"
    "bc_currency c = bp_Currency (provider_budget v)" "\<not> policy_is_zero (provider_budget v)"
    "covers (bs_ledger s) (provider_budget v) (bv_name v) now c"
  shows "\<exists>status code. reserve_budget env tx v q now (bs_blocked s) (bs_ledger s) = (Refused status code, bs_ledger s)"
proof (cases "isBudgetBlocked (bv_name v) (bp_Currency (provider_budget v)) (bs_blocked s)")
  case True
  with assms(5) show ?thesis by (auto simp: reserve_budget_def Let_def split: option.splits)
next
  case False
  with assms have "bc_state c = UnknownUsage" "in_scope (bv_name v) (bp_Currency (provider_budget v)) c"
    by (auto simp: unresolved_def in_scope_def)
  note refused = CheckBudget_unknown [OF assms(1) this(2,1) assms(6), of env tx _ "bq_confirmed q"]
  show ?thesis
  proof (cases "bq_nonce q")
    case None
    with False assms(5) show ?thesis by (auto simp: reserve_budget_def Let_def split: option.splits)
  next
    case (Some rid)
    obtain e where "CheckBudget env tx rid (bv_name v) (provider_budget v) (bq_confirmed q) now (bs_ledger s) = (Inl e, bs_ledger s)"
      using refused [of rid] by blast
    with Some False assms(5) show ?thesis by (auto simp: reserve_budget_def Let_def split: option.splits)
  qed
qed

text \<open>A request leaves the gateway attempted, or its process ends while it is in flight.\<close>

inductive left_attempted :: "budget_flight \<Rightarrow> go_error option \<Rightarrow> string \<Rightarrow> budget_sys \<Rightarrow> budget_sys \<Rightarrow> bool" where
  settled: "was_attempted err \<Longrightarrow> left_attempted f err aid s (settled_sys env f err aid now s)"
| restarted: "OpenForGateway fails owned (bs_ledger s) = Inr l \<Longrightarrow> left_attempted f err aid s (restarted_sys l)"

lemma left_attempted_step: "left_attempted f err aid s t \<Longrightarrow> f \<in> set (bs_flights s) \<Longrightarrow> budget_step s t"
  by (induction rule: left_attempted.induct) (auto intro: budget_step.intros)

lemma left_attempted_row:
  assumes "left_attempted f err aid s t" "budget_inv s" "f \<in> set (bs_flights s)"
  shows "\<exists>r. closed_row t r \<and> row_of f r \<and>
     (bc_state r = Settled \<longrightarrow> known_cost (bs_ledger s) err aid = Some (bc_charged_amount r))"
proof -
  from budget_invD(4) [OF assms(2,3)] obtain c where c: "c \<in> set (lg_charges (bs_ledger s))" "row_of f c" "bc_state c = Pending"
    by blast
  from assms(1) show ?thesis
  proof cases
    case (settled env now)
    obtain e l where sc: "settle_charge env (bf_id f) err aid (bf_provider f) (bf_currency f) now (bs_ledger s) = (e, l)"
      by fastforce
    note fields = settled_sys_fields [OF sc budget_invD(3) [OF assms(2,3)]]
    have dist: "distinct (bs_flights s)" using budget_invD(2) [OF assms(2)] by (simp add: distinct_map)
    have out: "bf_id f \<notin> bf_id ` set (remove1 f (bs_flights s))"
      using charge_flight_ids_inj [OF assms(2) assms(3)] dist by auto
    from settle_outcome [OF sc settled(2) c] obtain r where r: "r \<in> set (lg_charges l)" "row_of f r"
      "bc_state r = Settled \<and> known_cost (bs_ledger s) err aid = Some (bc_charged_amount r) \<or> bc_state r = UnknownUsage \<or>
       bc_state r = Pending \<and> e \<noteq> None" by blast
    with out have "closed_row t r"
      unfolding settled fields closed_row_def unresolved_def by (auto simp: row_of_def simp del: set_remove1_eq)
    with r show ?thesis by auto
  next
    case (restarted fails owned l)
    have "closed_row t (recovered c)"
      using c open_charges [OF restarted(2)] by (auto simp: restarted closed_row_def restarted_sys_def unresolved_def recovered_def)
    moreover have "row_of f (recovered c)" "bc_state (recovered c) = UnknownUsage"
      using c by (simp_all add: row_of_def recovered_def)
    ultimately show ?thesis by force
  qed
qed

text \<open>C2. No spending is forgotten. In every run of the gateway, take a request in flight that either is
  settled after it may have reached the provider, or is cut off by a crash of the process and the
  restart that follows; then whatever happens afterwards, further crashes included, the ledger holds a row
  for it under its provider and currency that is either settled at the cost that was known, or
  makes every further reservation for that provider and currency fail while a window of the
  policy covers it, in every database and at every time.\<close>

theorem spending_is_never_forgotten:
  assumes "budget_start s0" "budget_step\<^sup>*\<^sup>* s0 s" "f \<in> set (bs_flights s)" "left_attempted f err aid s t" "budget_step\<^sup>*\<^sup>* t u"
  shows "\<exists>r \<in> set (lg_charges (bs_ledger u)). row_of f r \<and>
    (bc_state r = Settled \<and> known_cost (bs_ledger s) err aid = Some (bc_charged_amount r) \<or>
     (\<forall>env tx v q now. bv_name v = bf_provider f \<and> bp_Currency (provider_budget v) = bf_currency f \<and>
        \<not> policy_is_zero (provider_budget v) \<and> covers (bs_ledger u) (provider_budget v) (bf_provider f) now r \<longrightarrow>
        (\<exists>status code. reserve_budget env tx v q now (bs_blocked u) (bs_ledger u) = (Refused status code, bs_ledger u))))"
proof -
  have inv: "budget_inv s" using assms(1,2) by (rule budget_safety.run_inv)
  from budget_step_inv [OF left_attempted_step [OF assms(4,3)] inv] have "budget_inv t" .
  moreover from left_attempted_row [OF assms(4) inv assms(3)] obtain r where r: "closed_row t r" "row_of f r"
    "bc_state r = Settled \<longrightarrow> known_cost (bs_ledger s) err aid = Some (bc_charged_amount r)" by blast
  ultimately have "closed_row u r \<or> bc_state r = Pending \<and> closed_row u (recovered r)"
    using closed_row_steps [OF assms(5)] by blast
  then obtain r' where r': "closed_row u r'" "row_of f r'"
    "bc_state r' = Settled \<longrightarrow> known_cost (bs_ledger s) err aid = Some (bc_charged_amount r')"
    using r by (fastforce simp: recovered_def row_of_def)
  then have "r' \<in> set (lg_charges (bs_ledger u))" "bc_state r' = Settled \<or> unresolved u r'" by (simp_all add: closed_row_def)
  moreover have "\<exists>status code. reserve_budget env tx v q now (bs_blocked u) (bs_ledger u) = (Refused status code, bs_ledger u)"
    if "unresolved u r'" "bv_name v = bf_provider f" "bp_Currency (provider_budget v) = bf_currency f"
      "\<not> policy_is_zero (provider_budget v)" "covers (bs_ledger u) (provider_budget v) (bf_provider f) now r'" for env tx v q now
    by (rule unresolved_refused [OF calculation(1) that(1)]) (use that r'(2) in \<open>simp_all add: row_of_def\<close>)
  ultimately show ?thesis using r'(2,3) by blast
qed

definition sample_env :: sql_env where
  "sample_env = \<lparr>se_sum = foldl f_add (Fin 0), se_fails = (\<lambda>_. False)\<rparr>"

definition sample_policy :: budget_policy where
  "sample_policy = \<lparr>bp_Currency = ''USD'', bp_FiveHourLimit = Fin 10, bp_WeeklyLimit = Fin 0, bp_AlertThreshold = Fin 1, bp_Mode = ''hard''\<rparr>"

definition sample_provider :: budget_provider where
  "sample_provider = \<lparr>bv_name = ''p'', bv_Budget = Some sample_policy, bv_Prices = [(''m'', sample_price)], bv_BaseURL = []\<rparr>"

definition sample_budget_request :: budget_request where
  "sample_budget_request = \<lparr>bq_upstreamModel = ''m'', bq_nonce = Some ''r1'', bq_confirmed = False, bq_shuttingDown = False\<rparr>"

definition sample_now :: time where
  "sample_now = 63000000000 * second"

definition sample_idle :: budget_sys where
  "sample_idle = \<lparr>bs_ledger = \<lparr>lg_charges = [], lg_resets = [], lg_audit = [], lg_auditUnavailable = False\<rparr>, bs_blocked = [], bs_flights = []\<rparr>"

definition sample_in_flight :: budget_sys where
  "sample_in_flight = sample_idle\<lparr>
     bs_ledger := (bs_ledger sample_idle)\<lparr>lg_charges := [reservation ''r1'' ''p'' ''USD'' sample_now]\<rparr>,
     bs_flights := [\<lparr>bf_id = ''r1'', bf_provider = ''p'', bf_currency = ''USD''\<rparr>]\<rparr>"

definition sample_over :: budget_sys where
  "sample_over = settled_sys sample_env \<lparr>bf_id = ''r1'', bf_provider = ''p'', bf_currency = ''USD''\<rparr> None ''a1'' sample_now sample_in_flight"

lemma sample_reserved:
  "reserve_budget sample_env sample_text_ops sample_provider sample_budget_request sample_now (bs_blocked sample_idle) (bs_ledger sample_idle) =
     (Reserved ''r1'' False, bs_ledger sample_in_flight)"
  by code_simp

lemma sample_reserve_run: "budget_step\<^sup>*\<^sup>* sample_idle sample_in_flight"
proof -
  have "flight_of sample_provider ''r1'' = \<lparr>bf_id = ''r1'', bf_provider = ''p'', bf_currency = ''USD''\<rparr>"
    by code_simp
  with budget_step.reserve [OF sample_reserved] have "budget_step sample_idle sample_in_flight"
    by (simp add: sample_in_flight_def sample_idle_def)
  then show ?thesis by blast
qed

theorem spending_is_never_forgotten_witness:
  "budget_start sample_idle \<and> budget_step\<^sup>*\<^sup>* sample_idle sample_in_flight \<and> bs_flights sample_in_flight \<noteq> [] \<and>
   (\<exists>r \<in> set (lg_charges (bs_ledger sample_over)). row_of (hd (bs_flights sample_in_flight)) r \<and>
      (\<exists>status code. reserve_budget sample_env sample_text_ops sample_provider (sample_budget_request\<lparr>bq_nonce := Some ''r2''\<rparr>)
         (sample_now + hour) (bs_blocked sample_over) (bs_ledger sample_over) = (Refused status code, bs_ledger sample_over)))"
proof -
  let ?f = "\<lparr>bf_id = ''r1'', bf_provider = ''p'', bf_currency = ''USD''\<rparr>"
  have start: "budget_start sample_idle" by (simp add: budget_start_def sample_idle_def)
  have f: "?f \<in> set (bs_flights sample_in_flight)" "hd (bs_flights sample_in_flight) = ?f" "bs_flights sample_in_flight \<noteq> []"
    by (simp_all add: sample_in_flight_def)
  have left: "left_attempted ?f None ''a1'' sample_in_flight sample_over"
    unfolding sample_over_def by (rule left_attempted.settled) (simp add: was_attempted_def)
  from spending_is_never_forgotten [OF start sample_reserve_run f(1) left rtranclp.rtrancl_refl]
  obtain r where r: "r \<in> set (lg_charges (bs_ledger sample_over))" "row_of ?f r"
    and closed: "bc_state r = Settled \<and> known_cost (bs_ledger sample_in_flight) None ''a1'' = Some (bc_charged_amount r) \<or>
     (\<forall>env tx v q now. bv_name v = bf_provider ?f \<and> bp_Currency (provider_budget v) = bf_currency ?f \<and>
        \<not> policy_is_zero (provider_budget v) \<and> covers (bs_ledger sample_over) (provider_budget v) (bf_provider ?f) now r \<longrightarrow>
        (\<exists>status code. reserve_budget env tx v q now (bs_blocked sample_over) (bs_ledger sample_over) = (Refused status code, bs_ledger sample_over)))"
    by blast
  have "known_cost (bs_ledger sample_in_flight) None ''a1'' = None" by code_simp
  with closed have refused: "\<And>env tx v q now. bv_name v = ''p'' \<Longrightarrow> bp_Currency (provider_budget v) = ''USD'' \<Longrightarrow>
      \<not> policy_is_zero (provider_budget v) \<Longrightarrow> covers (bs_ledger sample_over) (provider_budget v) ''p'' now r \<Longrightarrow>
      \<exists>status code. reserve_budget env tx v q now (bs_blocked sample_over) (bs_ledger sample_over) = (Refused status code, bs_ledger sample_over)"
    by auto
  have "list_all (covers (bs_ledger sample_over) (provider_budget sample_provider) ''p'' (sample_now + hour)) (lg_charges (bs_ledger sample_over))"
    by code_simp
  with r(1) have "covers (bs_ledger sample_over) (provider_budget sample_provider) ''p'' (sample_now + hour) r"
    by (simp add: list_all_iff)
  moreover have "bv_name sample_provider = ''p''" "bp_Currency (provider_budget sample_provider) = ''USD''"
    "\<not> policy_is_zero (provider_budget sample_provider)" by code_simp+
  ultimately show ?thesis using start sample_reserve_run f r refused by auto
qed

section \<open>Admission respects the limits\<close>

lemma over_limit_warns:
  assumes "policy_validate tx p" "\<not> policy_is_zero p" "over_limit p fiveHour weekly" "\<not> is_nan (bp_AlertThreshold p)"
  shows "over_threshold p fiveHour weekly"
proof -
  have thr: "f_le (bp_AlertThreshold p) (Fin 1)"
    using assms(1,2,4) f_not_le by (auto simp: policy_validate_def is_nan_def)
  have one: "f_le (bp_AlertThreshold p) (ratio spent_amount limit)"
    if "f_lt (Fin 0) limit" "f_le limit spent_amount" "\<not> is_inf limit" for limit spent_amount
  proof (cases limit)
    case (Fin b)
    with that have "f_le (Fin 1) (ratio spent_amount limit)" by (simp add: ratio_def f_div_pos_ge_one)
    with thr show ?thesis by (rule f_le_trans)
  qed (use that in \<open>simp_all add: is_inf_def\<close>)
  have "\<not> is_inf (bp_FiveHourLimit p)" "\<not> is_inf (bp_WeeklyLimit p)" using assms(1,2) by (simp_all add: policy_validate_def)
  with assms(3) one show ?thesis by (auto simp: over_limit_def over_threshold_def)
qed

text \<open>C29. What an admission guarantees: no request of the windows has unknown usage; in mode hard both
  limits are unreached; in mode soft without confirmation even the alert threshold is; in every
  mode a spent limit sets the warning. The only change is the pending row of the request.\<close>

theorem budget_admission_sound:
  assumes "CheckBudget env tx rid provider p confirmed now l = (Inr warning, l')" "\<not> policy_is_zero p"
  shows "let fiveHour = spent env l provider (bp_Currency p) (five_hour_start l provider now) (unix_milli now);
             weekly = spent env l provider (bp_Currency p) (weekly_start l provider now) (unix_milli now)
    in (\<forall>c \<in> set (lg_charges l). in_scope provider (bp_Currency p) c \<and> covers l p provider now c \<longrightarrow> bc_state c \<noteq> UnknownUsage) \<and>
       (bp_Mode p = ''hard'' \<longrightarrow> \<not> over_limit p fiveHour weekly) \<and>
       (bp_Mode p = ''soft'' \<and> \<not> confirmed \<longrightarrow> \<not> over_limit p fiveHour weekly \<and> \<not> over_threshold p fiveHour weekly) \<and>
       (over_limit p fiveHour weekly \<and> \<not> is_nan (bp_AlertThreshold p) \<longrightarrow> warning) \<and>
       lg_charges l' = lg_charges l @ [reservation rid provider (bp_Currency p) now]"
proof -
  define fiveHour weekly where "fiveHour = spent env l provider (bp_Currency p) (five_hour_start l provider now) (unix_milli now)"
    and "weekly = spent env l provider (bp_Currency p) (weekly_start l provider now) (unix_milli now)"
  note defs = fiveHour_def [symmetric] weekly_def [symmetric]
  have valid: "policy_validate tx p" and warning: "warning = over_threshold p fiveHour weekly"
    and modes: "\<not> (bp_Mode p = ''hard'' \<and> over_limit p fiveHour weekly)"
      "\<not> (bp_Mode p = ''soft'' \<and> (over_limit p fiveHour weekly \<or> over_threshold p fiveHour weekly) \<and> \<not> confirmed)"
    and row: "lg_charges l' = lg_charges l @ [reservation rid provider (bp_Currency p) now]"
    using assms(1) unfolding CheckBudget_def Let_def defs insert_charge_def by (auto split: if_splits)
  have "bc_state c \<noteq> UnknownUsage" if "c \<in> set (lg_charges l)" "in_scope provider (bp_Currency p) c" "covers l p provider now c" for c
    using CheckBudget_unknown [OF that(1,2) _ that(3)] assms(1) by (metis Inl_Inr_False Pair_inject)
  with modes row warning over_limit_warns [OF valid assms(2)] show ?thesis
    unfolding Let_def defs by blast
qed

theorem budget_admission_sound_witness:
  "\<exists>l'. CheckBudget sample_env sample_text_ops ''r1'' ''p'' sample_policy False sample_now (bs_ledger sample_idle) = (Inr False, l') \<and>
     \<not> policy_is_zero sample_policy \<and> \<not> over_limit sample_policy (Fin 0) (Fin 0) \<and>
     lg_charges l' = [reservation ''r1'' ''p'' ''USD'' sample_now]"
proof -
  have check: "CheckBudget sample_env sample_text_ops ''r1'' ''p'' sample_policy False sample_now (bs_ledger sample_idle) =
      (Inr False, bs_ledger sample_in_flight)" by code_simp
  have pos: "\<not> policy_is_zero sample_policy" by code_simp
  have "spent sample_env (bs_ledger sample_idle) ''p'' (bp_Currency sample_policy) a b = Fin 0" for a b
    by (simp add: spent_def sample_idle_def)
  with budget_admission_sound [OF check pos] check pos show ?thesis
    by (auto simp: Let_def sample_policy_def sample_idle_def)
qed

end
