(* ===== verification/Provider_Call.thy ===== *)
theory Provider_Call
  imports Upstream_Attempt Request_Translation Budget Prompt_Cache
begin

text \<open>
  A call to a provider (\<open>callWithKeyCandidates\<close> of \<^verbatim>\<open>internal/adapter/client.go\<close>): prepare the request, wait for the gate,
  choose one ready key, make one attempt, estimate what it cost and write the terminal audit record.

  The owner of the keys is the state \<open>'o\<close> behind the callbacks; a callback that the code leaves nil is the identity,
  except \<open>Ready\<close>, whose absence the code asks for. The prompt cache is the one every client of the gateway has. Logging is left out, and so
  is the panic of an aborted response, which the code passes on.
\<close>

section \<open>Inputs\<close>

record call_deps =
  cd_ops :: gateway_ops
  cd_numbers :: number_ops
  cd_sql :: sql_env

record 'o key_callbacks =
  cb_YieldUnavailable :: bool
  cb_Ready :: "(nat \<Rightarrow> 'o \<Rightarrow> (bool \<times> duration) \<times> 'o) option"
  cb_KeyLabel :: "nat \<Rightarrow> string"
  cb_Dispatch :: "string \<Rightarrow> 'o \<Rightarrow> 'o"
  cb_AttemptStart :: "nat \<Rightarrow> 'o \<Rightarrow> 'o"
  cb_AttemptFinish :: "nat \<Rightarrow> attempt_result \<Rightarrow> 'o \<Rightarrow> 'o"
  cb_Failed :: "nat \<Rightarrow> call_error \<Rightarrow> 'o \<Rightarrow> call_error \<times> 'o"
  cb_Completed :: "nat \<Rightarrow> go_error option \<Rightarrow> 'o \<Rightarrow> 'o"
  cb_PrepareFailure :: "call_error \<Rightarrow> 'o \<Rightarrow> call_error \<times> 'o"

text \<open>What the call meets: the clock, the random identifier, the gate, other requests at the ledger while it waits and while it
  runs, the attempt (or a panic in it, after so much was delivered and read), and its contexts.\<close>

record call_world =
  cw_started :: time
  cw_nonce :: "string option"
  cw_admission :: admission
  cw_gate_failed :: bool
  cw_done_after_gate :: bool
  cw_ledger_waiting :: "ledger \<Rightarrow> ledger"
  cw_ledger_running :: "ledger \<Rightarrow> ledger"
  cw_attempt :: attempt_world
  cw_panic :: "(bool \<times> string) option"
  cw_deadline :: bool
  cw_ctx :: "ctx_error option"
  cw_shutdown :: bool
  cw_finished :: time

record call_request =
  cq_protocol :: string
  cq_body :: string
  cq_model :: string
  cq_price :: "price option"
  cq_upstream_body :: string
  cq_options :: call_options
  cq_streaming :: bool

text \<open>What the call changes: its audit record, the ledger, the prompt cache, the owner of the keys, the client's sink, and the
  local variables that its deferred functions read.\<close>

record ('k, 'o) call_state =
  cs_audit :: audit
  cs_ledger :: ledger
  cs_cache :: prompt_cache
  cs_owner :: 'o
  cs_sink :: 'k
  cs_id :: string
  cs_attempted :: bool
  cs_selected :: nat
  cs_delivered :: bool
  cs_observed :: string
  cs_yielded :: bool

section \<open>Choosing a key\<close>

datatype pick = Pick nat string | AllCooling duration | NoKey

text \<open>The keys after one that is not ready, up to the first ready one; keys that are not ready are blanked.\<close>

fun later_ready ::
  "(nat \<Rightarrow> 'o \<Rightarrow> (bool \<times> duration) \<times> 'o) \<Rightarrow> nat \<Rightarrow> string list \<Rightarrow> duration \<Rightarrow> 'o \<Rightarrow> bool \<times> string list \<times> duration \<times> 'o"
where
  "later_ready ready i [] earliest ob = (False, [], earliest, ob)"
| "later_ready ready i (k # ks) earliest ob =
     (if k = [] then
        (case later_ready ready (Suc i) ks earliest ob of (found, ks1, e, ob1) \<Rightarrow> (found, k # ks1, e, ob1))
      else
        (case ready i ob of ((ok, delay), ob1) \<Rightarrow>
           if ok then (True, k # ks, earliest, ob1)
           else
             (case later_ready ready (Suc i) ks (if 0 < delay \<and> (earliest = 0 \<or> delay < earliest) then delay else earliest) ob1 of
                (found, ks1, e, ob2) \<Rightarrow> (found, [] # ks1, e, ob2))))"

lemma later_ready_length: "later_ready ready i ks e ob = (found, ks1, e1, ob1) \<Longrightarrow> length ks1 = length ks"
  by (induction ready i ks e ob arbitrary: found ks1 e1 ob1 rule: later_ready.induct) (auto split: if_splits prod.splits)

function pick_key :: "(nat \<Rightarrow> 'o \<Rightarrow> (bool \<times> duration) \<times> 'o) option \<Rightarrow> nat \<Rightarrow> string list \<Rightarrow> 'o \<Rightarrow> pick \<times> 'o" where
  "pick_key ready i [] ob = (NoKey, ob)"
| "pick_key None i (k # ks) ob = (Pick i k, ob)"
| "pick_key (Some ready) i (k # ks) ob =
     (if k = [] then pick_key (Some ready) (Suc i) ks ob
      else
        (case ready i ob of ((ok, delay), ob1) \<Rightarrow>
           if ok then (Pick i k, ob1)
           else
             (case later_ready ready (Suc i) ks delay ob1 of (found, ks1, earliest, ob2) \<Rightarrow>
                if found then pick_key (Some ready) (Suc i) ks1 ob2 else (AllCooling earliest, ob2))))"
  by pat_completeness auto
termination
  by (relation "measure (\<lambda>(ready, i, ks, ob). length ks)") (auto dest!: later_ready_length [OF sym])

section \<open>The first ready key\<close>

text \<open>What the loop over the keys is meant to do while the answers of the pool stay the same: use the first ready key, or
  report the shortest wait.\<close>

definition nonblank :: "nat \<Rightarrow> string list \<Rightarrow> (nat \<times> string) list" where
  "nonblank i keys = filter (\<lambda>p. snd p \<noteq> []) (enumerate i keys)"

definition ready_keys :: "(nat \<Rightarrow> bool \<times> duration) \<Rightarrow> nat \<Rightarrow> string list \<Rightarrow> (nat \<times> string) list" where
  "ready_keys f i keys = filter (\<lambda>p. fst (f (fst p))) (nonblank i keys)"

definition shortest_wait :: "duration list \<Rightarrow> duration" where
  "shortest_wait ds = (if list_all (\<lambda>d. d = 0) ds then 0 else Min (set (filter (\<lambda>d. 0 < d) ds)))"

definition sooner :: "duration \<Rightarrow> duration \<Rightarrow> duration" where
  "sooner earliest delay = (if 0 < delay \<and> (earliest = 0 \<or> delay < earliest) then delay else earliest)"

lemma ready_keys_simps [simp]:
  "nonblank i [] = []" "nonblank i (k # ks) = (if k = [] then [] else [(i, k)]) @ nonblank (Suc i) ks"
  "ready_keys f i [] = []"
  "ready_keys f i (k # ks) = (if k \<noteq> [] \<and> fst (f i) then [(i, k)] else []) @ ready_keys f (Suc i) ks"
  by (simp_all add: nonblank_def ready_keys_def)

lemma shortest_cons:
  assumes "0 \<le> d" and "list_all (\<lambda>d. 0 \<le> d) ds"
  shows "foldl sooner d ds = shortest_wait (d # ds)"
  using assms
proof (induction ds arbitrary: d)
  case Nil
  then show ?case by (simp add: shortest_wait_def)
next
  case (Cons x ds)
  have "0 \<le> sooner d x" "list_all (\<lambda>d. 0 \<le> d) ds" using Cons.prems by (simp_all add: sooner_def)
  with Cons.IH [of "sooner d x"] have "foldl sooner d (x # ds) = shortest_wait (sooner d x # ds)" by simp
  moreover have "shortest_wait (sooner d x # ds) = shortest_wait (d # x # ds)"
  proof (cases "\<exists>y\<in>set ds. 0 < y")
    case True
    then have ne: "set (filter (\<lambda>d. 0 < d) ds) \<noteq> {}" by auto
    then show ?thesis using Cons.prems True
      by (auto simp: shortest_wait_def sooner_def min_def list_all_iff)
  next
    case False
    with Cons.prems have "filter (\<lambda>d. 0 < d) ds = []" "list_all (\<lambda>d. d = 0) ds"
      by (auto simp: filter_empty_conv list_all_iff not_less intro: antisym)
    then show ?thesis using Cons.prems by (auto simp: shortest_wait_def sooner_def min_def)
  qed
  ultimately show ?case by simp
qed

lemma later_ready_spec:
  assumes steady: "\<And>i ob. ready i ob = (f i, ob)"
  shows "\<exists>ks1. later_ready ready i ks e ob =
      (ready_keys f i ks \<noteq> [], ks1,
       if ready_keys f i ks \<noteq> [] then fst (snd (snd (later_ready ready i ks e ob)))
       else foldl sooner e (map (\<lambda>p. snd (f (fst p))) (nonblank i ks)), ob) \<and>
    ready_keys f i ks1 = ready_keys f i ks"
proof (induction ks arbitrary: i e)
  case (Cons k ks)
  show ?case
  proof (cases "k \<noteq> [] \<and> fst (f i)")
    case True
    then show ?thesis by (cases "f i") (simp add: steady)
  next
    case False
    let ?e = "if k = [] then e else sooner e (snd (f i))"
    from Cons.IH [of "Suc i" ?e] obtain ks1 where rest: "later_ready ready (Suc i) ks ?e ob =
        (ready_keys f (Suc i) ks \<noteq> [], ks1,
         if ready_keys f (Suc i) ks \<noteq> [] then fst (snd (snd (later_ready ready (Suc i) ks ?e ob)))
         else foldl sooner ?e (map (\<lambda>p. snd (f (fst p))) (nonblank (Suc i) ks)), ob)"
      "ready_keys f (Suc i) ks1 = ready_keys f (Suc i) ks" by blast
    from False have step: "later_ready ready i (k # ks) e ob =
        (case later_ready ready (Suc i) ks ?e ob of (found, ks1, e1, ob1) \<Rightarrow> (found, [] # ks1, e1, ob1))"
      by (cases "f i") (auto simp: steady sooner_def split: prod.split)
    have same: "ready_keys f i (k # ks) = ready_keys f (Suc i) ks" using False by simp
    show ?thesis
      using rest(2) False
      by (subst (1 2) step, subst (1 2) rest(1)) (intro exI [of _ "[] # ks1"], simp)
  qed
qed simp

text \<open>While the answers of the key pool do not change, the call uses the first ready key of the rotation and skips blank entries; when no
  key is ready it reports the shortest positive wait among them all (zero if none is known), and the pool is asked without side effect.\<close>

theorem first_ready_key:
  assumes steady: "\<And>i ob. ready i ob = (f i, ob)" and delays: "\<And>i. 0 \<le> snd (f i)"
  shows "pick_key (Some ready) i keys ob =
    (case ready_keys f i keys of
       p # ps \<Rightarrow> Pick (fst p) (snd p)
     | [] \<Rightarrow>
         if nonblank i keys = [] then NoKey else AllCooling (shortest_wait (map (\<lambda>p. snd (f (fst p))) (nonblank i keys))), ob)"
proof (induction "length keys" arbitrary: i keys)
  case (Suc n)
  then obtain k ks where keys: "keys = k # ks" by (cases keys) auto
  with Suc.hyps(2) have n: "n = length ks" by simp
  show ?case
  proof (cases "k = [] \<or> fst (f i)")
    case True
    with Suc.hyps(1) [OF n, of "Suc i"] show ?thesis
      by (cases "f i"; cases "ready_keys f (Suc i) ks") (auto simp: keys steady)
  next
    case waiting: False
    let ?d = "snd (f i)" and ?rest = "map (\<lambda>p. snd (f (fst p))) (nonblank (Suc i) ks)"
    from later_ready_spec [where ready = ready and f = f and i = "Suc i" and ks = ks and e = ?d and ob = ob, OF steady] obtain ks1 where later:
        "later_ready ready (Suc i) ks ?d ob = (ready_keys f (Suc i) ks \<noteq> [], ks1,
           if ready_keys f (Suc i) ks \<noteq> [] then fst (snd (snd (later_ready ready (Suc i) ks ?d ob))) else foldl sooner ?d ?rest, ob)"
        "ready_keys f (Suc i) ks1 = ready_keys f (Suc i) ks" by blast
    from later_ready_length [OF later(1)] n have length: "n = length ks1" by simp
    have step: "pick_key (Some ready) i keys ob =
        (case later_ready ready (Suc i) ks ?d ob of (found, ks1, earliest, ob2) \<Rightarrow>
           if found then pick_key (Some ready) (Suc i) ks1 ob2 else (AllCooling earliest, ob2))"
      using waiting by (cases "f i") (simp add: keys steady)
    show ?thesis
    proof (cases "ready_keys f (Suc i) ks")
      case Nil
      have "foldl sooner ?d ?rest = shortest_wait (?d # ?rest)" by (rule shortest_cons) (use delays in \<open>auto simp: list_all_iff\<close>)
      with Nil waiting show ?thesis unfolding step by (subst later(1)) (simp add: keys)
    next
      case (Cons p ps)
      with Suc.hyps(1) [OF length, of "Suc i"] later(2) waiting show ?thesis unfolding step by (subst later(1)) (simp add: keys)
    qed
  qed
qed simp

theorem first_ready_key_witness:
  "pick_key (Some (\<lambda>i ob. ((i = 2, 5), ob))) 0 [''a'', [], ''c''] (0::nat) = (Pick 2 ''c'', 0) \<and>
   pick_key (Some (\<lambda>i ob. ((False, 9 - int i), ob))) 0 [''a'', [], ''c''] (0::nat) = (AllCooling 7, 0)"
proof
  show "pick_key (Some (\<lambda>i ob. ((i = 2, 5), ob))) 0 [''a'', [], ''c''] (0::nat) = (Pick 2 ''c'', 0)"
    by (subst first_ready_key [where f = "\<lambda>i. (i = 2, 5)"]) simp_all
  show "pick_key (Some (\<lambda>i ob. ((False, 9 - int i), ob))) 0 [''a'', [], ''c''] (0::nat) = (AllCooling 7, 0)"
    by code_simp
qed

section \<open>Accounting\<close>

definition cacheSession :: "upstream_client \<Rightarrow> string \<Rightarrow> string \<Rightarrow> string" where
  "cacheSession c clientProtocol session =
     (if session = [] \<or> cl_CacheNamespace c = [] then session
      else cl_CacheNamespace c @ CHR 0x00 # clientProtocol @ CHR 0x00 # session)"

definition call_price :: "text_ops \<Rightarrow> upstream_client \<Rightarrow> string \<Rightarrow> price option" where
  "call_price tx c model =
     (case map_of (cl_Prices c) model of Some p \<Rightarrow> Some p | None \<Rightarrow> BuiltInPrice tx (cl_BaseURL c) model)"

definition price_json :: "number_ops \<Rightarrow> price \<Rightarrow> json" where
  "price_json nu p =
     (let rate = (\<lambda>r. case r of None \<Rightarrow> JNull | Some v \<Rightarrow> float_json nu v) in
      JObj [(''currency'', JStr (pr_Currency p)), (''source'', JStr (pr_Source p)), (''version'', JStr (pr_Version p)),
            (''input_cache_hit_per_million'', rate (pr_InputCacheHit p)), (''input_cache_miss_per_million'', rate (pr_InputCacheMiss p)),
            (''output_per_million'', rate (pr_Output p))])"

definition price_text :: "call_deps \<Rightarrow> price \<Rightarrow> string" where
  "price_text deps p = jc_show (go_codec (cd_ops deps)) (price_json (cd_numbers deps) p)"

text \<open>\<open>localEstimate\<close>; \<open>LocalEstimate\<close> always answers (\<open>prompt_cache_bounded\<close>).\<close>

definition local_estimate ::
  "call_deps \<Rightarrow> upstream_client \<Rightarrow> call_request \<Rightarrow> time \<Rightarrow> string \<Rightarrow> ('k, 'o) call_state \<Rightarrow> ('k, 'o) call_state"
where
  "local_estimate deps c q now response st =
     (case cq_price q of
        None \<Rightarrow> st
      | Some price \<Rightarrow>
          if au_EstimatedCost (cs_audit st) \<noteq> None then st
          else
            (let session = (if op_RequestScopedSession (cq_options q) then []
                   else cacheSession c (cq_protocol q) (op_SessionID (cq_options q)))
             in case LocalEstimate (go_codec (cd_ops deps)) (go_text (cd_ops deps)) (cl_Protocol c) (cq_model q) session (cq_body q)
                       response price now (cs_cache st) of
                  None \<Rightarrow> st
                | Some ((None, usage, source), cache) \<Rightarrow> st\<lparr>cs_cache := cache\<rparr>
                | Some ((Some cost, usage, source), cache) \<Rightarrow>
                    st\<lparr>cs_cache := cache,
                      cs_audit := (cs_audit st)\<lparr>au_InputTokens := tu_Input usage, au_OutputTokens := tu_Output usage,
                        au_CacheReadTokens := tu_CacheRead usage, au_Currency := pr_Currency price,
                        au_PriceSnapshot := price_text deps price, au_EstimatedCost := Some cost, au_CostSource := source\<rparr>\<rparr>))"

definition remember_prompt ::
  "call_deps \<Rightarrow> upstream_client \<Rightarrow> call_request \<Rightarrow> time \<Rightarrow> ('k, 'o) call_state \<Rightarrow> ('k, 'o) call_state"
where
  "remember_prompt deps c q now st =
     (if op_RequestScopedSession (cq_options q) then st
      else
        (case Remember (go_codec (cd_ops deps)) (cl_Protocol c) (cq_model q) (cacheSession c (cq_protocol q) (op_SessionID (cq_options q)))
                (cq_body q) now (cs_cache st) of
           None \<Rightarrow> st
         | Some cache \<Rightarrow> st\<lparr>cs_cache := cache\<rparr>))"

text \<open>A successful attempt.\<close>

definition account_success ::
  "call_deps \<Rightarrow> upstream_client \<Rightarrow> call_request \<Rightarrow> time \<Rightarrow> string \<Rightarrow> token_usage \<Rightarrow> ('k, 'o) call_state \<Rightarrow> ('k, 'o) call_state"
where
  "account_success deps c q now data usage st =
     (let a = (cs_audit st)\<lparr>au_InputTokens := tu_Input usage, au_OutputTokens := tu_Output usage,
            au_CacheReadTokens := tu_CacheRead usage, au_CacheWriteTokens := tu_CacheWrite usage\<rparr>;
          a1 = (case cq_price q of
                  None \<Rightarrow> a
                | Some price \<Rightarrow> a\<lparr>au_Currency := pr_Currency price, au_PriceSnapshot := price_text deps price,
                                 au_EstimatedCost := Estimate price usage\<rparr>);
          st1 = st\<lparr>cs_audit := a1\<rparr>;
          st2 = (if au_EstimatedCost a1 = None then local_estimate deps c q now (if cq_streaming q then cs_observed st else data) st1 else st1);
          st3 = remember_prompt deps c q now st2
      in st3\<lparr>cs_audit := (cs_audit st3)\<lparr>au_Status := ''ok''\<rparr>\<rparr>)"

section \<open>The attempt\<close>

definition labelled :: "audit \<Rightarrow> call_error \<Rightarrow> call_error" where
  "labelled a e =
     e\<lparr>ce_Failure := map_option (\<lambda>f. f\<lparr>fl_KeyLabel := au_KeyLabel a, fl_BackendID := au_BackendID a\<rparr>) (ce_Failure e)\<rparr>"

definition add_event :: "string \<Rightarrow> ('k, 'o) call_state \<Rightarrow> ('k, 'o) call_state" where
  "add_event ev st = st\<lparr>cs_audit := (cs_audit st)\<lparr>au_Events := au_Events (cs_audit st) @ [ev]\<rparr>\<rparr>"

definition note_failure :: "'o key_callbacks \<Rightarrow> nat \<Rightarrow> call_error \<Rightarrow> ('k, 'o) call_state \<Rightarrow> call_error \<times> ('k, 'o) call_state" where
  "note_failure cb i e st =
     (let st1 = (if ce_Category e = ProviderErrorRateLimited then add_event ''rate_limit'' st else st);
          (e1, ob) = cb_Failed cb i (labelled (cs_audit st) e) (cs_owner st1)
      in (e1, st1\<lparr>cs_owner := ob\<rparr>))"

definition observed_attempt :: "'o key_callbacks \<Rightarrow> nat \<Rightarrow> attempt_result option \<Rightarrow> 'o \<Rightarrow> 'o" where
  "observed_attempt cb i observation ob =
     (case observation of None \<Rightarrow> ob | Some res \<Rightarrow> cb_AttemptFinish cb i res (cb_AttemptStart cb i ob))"

definition start_attempt :: "upstream_client \<Rightarrow> 'o key_callbacks \<Rightarrow> nat \<Rightarrow> ('k, 'o) call_state \<Rightarrow> ('k, 'o) call_state" where
  "start_attempt c cb i st =
     st\<lparr>cs_attempted := True, cs_selected := i,
       cs_audit := (cs_audit st)\<lparr>au_BackendID := KeyLabel (cl_BackendID c), au_KeyLabel := KeyLabel (cb_KeyLabel cb i)\<rparr>,
       cs_owner := cb_Dispatch cb (cs_id st) (cs_owner st)\<rparr>"

text \<open>\<open>None\<close>: the attempt panicked. Its observer ran, with no error.\<close>

definition run_attempt ::
  "call_deps \<Rightarrow> upstream_client \<Rightarrow> 'o key_callbacks \<Rightarrow> call_world \<Rightarrow> call_request \<Rightarrow> (string \<Rightarrow> 'k \<Rightarrow> bool \<times> 'k) option \<Rightarrow> nat \<Rightarrow> string
     \<Rightarrow> ('k, 'o) call_state \<Rightarrow> (go_error + string \<times> token_usage) option \<times> ('k, 'o) call_state"
where
  "run_attempt deps c cb w q sink i key st =
     (let st1 = start_attempt c cb i st in
      case cw_panic w of
        Some (delivered, read) \<Rightarrow>
          (None, st1\<lparr>cs_delivered := delivered, cs_observed := read,
             cs_owner := observed_attempt cb i (Some (httpAttemptResult None None False)) (cs_owner st1)\<rparr>)
      | None \<Rightarrow>
          (let (r, observation) = doAttempt (cd_ops deps) c (cw_attempt w) (cq_protocol q) (cq_model q) sink (cq_options q)
                 (Effective (cl_Limits c)) key (cs_delivered st1) (cs_sink st1);
               st2 = st1\<lparr>cs_delivered := rn_delivered r, cs_observed := rn_observed r, cs_sink := rn_sink r,
                 cs_owner := observed_attempt cb i observation (cs_owner st1)\<rparr>
           in case rn_result r of
                Inl (CallErr e) \<Rightarrow> (case note_failure cb i e st2 of (e1, st3) \<Rightarrow> (Some (Inl (CallErr e1)), st3))
              | other \<Rightarrow> (Some other, st2)))"

section \<open>The body of the call\<close>

definition local_error :: "int \<Rightarrow> string \<Rightarrow> call_error" where
  "local_error status code = (call_error_of status code)\<lparr>ce_UpstreamNotAttempted := True\<rparr>"

text \<open>The result of the body before the deferred functions: \<open>None\<close> is a panic.\<close>

definition finish_body ::
  "call_deps \<Rightarrow> upstream_client \<Rightarrow> call_world \<Rightarrow> call_request \<Rightarrow> (go_error + string \<times> token_usage) option \<times> ('k, 'o) call_state
     \<Rightarrow> (go_error + string) option \<times> ('k, 'o) call_state"
where
  "finish_body deps c w q rst =
     (case rst of
        (None, st) \<Rightarrow> (None, st)
      | (Some (Inl err), st) \<Rightarrow>
          (Some (Inl err), if cs_observed st \<noteq> [] then local_estimate deps c q (cw_finished w) (cs_observed st) st else st)
      | (Some (Inr (data, usage)), st) \<Rightarrow> (Some (Inr data), account_success deps c q (cw_finished w) data usage st))"

text \<open>\<open>Milliseconds\<close> truncates toward zero.\<close>

definition duration_ms :: "duration \<Rightarrow> int" where
  "duration_ms d = (if d < 0 then - (- d div millisecond) else d div millisecond)"

definition queued_ms :: "call_options \<Rightarrow> call_world \<Rightarrow> int" where
  "queued_ms opts w = op_PriorQueueMS opts + duration_ms (queue_wait (cw_admission w))"

definition note_queue :: "call_options \<Rightarrow> call_world \<Rightarrow> ('k, 'o) call_state \<Rightarrow> ('k, 'o) call_state" where
  "note_queue opts w st =
     (let st1 = st\<lparr>cs_audit := (cs_audit st)\<lparr>au_QueueMS := queued_ms opts w\<rparr>\<rparr>
      in if queued (cw_admission w) \<or> 0 < op_PriorQueueMS opts then add_event ''queue_wait'' st1 else st1)"

definition cooling_error :: "call_world \<Rightarrow> call_options \<Rightarrow> time \<Rightarrow> duration \<Rightarrow> call_error" where
  "cooling_error w opts started earliest =
     (local_error 429 ''provider_keys_cooling_down'')
       \<lparr>ce_Cooldown := earliest, ce_RequestStartedAt := started, ce_QueueMS := queued_ms opts w\<rparr>"

definition yield_call :: "('k, 'o) call_state \<Rightarrow> ('k, 'o) call_state" where
  "yield_call st = st\<lparr>cs_yielded := True, cs_id := []\<rparr>"

definition dispatch_key ::
  "call_deps \<Rightarrow> upstream_client \<Rightarrow> 'o key_callbacks \<Rightarrow> call_world \<Rightarrow> call_request \<Rightarrow> time \<Rightarrow> (string \<Rightarrow> 'k \<Rightarrow> bool \<times> 'k) option
     \<Rightarrow> string list \<Rightarrow> ('k, 'o) call_state \<Rightarrow> (go_error + string) option \<times> ('k, 'o) call_state"
where
  "dispatch_key deps c cb w q started sink keys st =
     (case pick_key (cb_Ready cb) 0 keys (cs_owner st) of
        (Pick i key, ob) \<Rightarrow>
          (let st1 = st\<lparr>cs_owner := ob\<rparr> in
           if lg_auditUnavailable (cs_ledger st1) then (Some (Inl (CallErr (local_error 503 ''audit_unavailable''))), yield_call st1)
           else finish_body deps c w q (run_attempt deps c cb w q sink i key st1))
      | (AllCooling earliest, ob) \<Rightarrow>
          (let st1 = st\<lparr>cs_owner := ob\<rparr>; e = cooling_error w (cq_options q) started earliest
           in (Some (Inl (CallErr e)), if cb_YieldUnavailable cb then yield_call st1 else st1))
      | (NoKey, ob) \<Rightarrow> finish_body deps c w q (Some (Inr ([], no_usage)), st\<lparr>cs_owner := ob\<rparr>))"

text \<open>The total timeout, a deferred function of what runs behind the gate.\<close>

definition timed_out_failure :: "message_ops \<Rightarrow> go_error \<Rightarrow> failure option" where
  "timed_out_failure mo err =
     map_option (\<lambda>f. (normalize_failure mo f)\<lparr>fl_Category := ''timeout'', fl_Retryability := ''retryable''\<rparr>) (failure_of (Some err))"

definition total_timeout :: "call_deps \<Rightarrow> upstream_client \<Rightarrow> call_world \<Rightarrow> bool \<Rightarrow> (go_error + string) option \<Rightarrow> (go_error + string) option" where
  "total_timeout deps c w streaming res =
     (case res of
        Some (Inl err) \<Rightarrow>
          if cw_deadline w \<and> 0 < UpstreamTimeout (cl_Limits c) streaming
          then Some (Inl (CallErr ((call_error_of 504 ''upstream_timeout'')
                 \<lparr>ce_Failure := timed_out_failure (go_messages (cd_ops deps)) err\<rparr>)))
          else res
      | _ \<Rightarrow> res)"

definition gated_call ::
  "call_deps \<Rightarrow> upstream_client \<Rightarrow> 'o key_callbacks \<Rightarrow> call_world \<Rightarrow> call_request \<Rightarrow> time \<Rightarrow> (string \<Rightarrow> 'k \<Rightarrow> bool \<times> 'k) option
     \<Rightarrow> string list \<Rightarrow> ('k, 'o) call_state \<Rightarrow> (go_error + string) option \<times> ('k, 'o) call_state"
where
  "gated_call deps c cb w q started sink keys st =
     (let st1 = note_queue (cq_options q) w (st\<lparr>cs_ledger := cw_ledger_waiting w (cs_ledger st)\<rparr>);
          canceled = (Some (Inl (CallErr (call_error_of 408 ''request_canceled''))), st1)
      in if cw_gate_failed w \<or> cw_done_after_gate w then canceled
         else
           (case dispatch_key deps c cb w q started sink keys st1 of (res, st2) \<Rightarrow> (total_timeout deps c w (cq_streaming q) res, st2)))"

section \<open>The deferred functions\<close>

fun error_part :: "(go_error + string) option \<Rightarrow> go_error option" where
  "error_part (Some (Inl err)) = Some err"
| "error_part _ = None"

definition report_completed :: "'o key_callbacks \<Rightarrow> (go_error + string) option \<Rightarrow> ('k, 'o) call_state \<Rightarrow> ('k, 'o) call_state" where
  "report_completed cb res st =
     (if cs_attempted st then st\<lparr>cs_owner := cb_Completed cb (cs_selected st) (error_part res) (cs_owner st)\<rparr> else st)"

text \<open>A recovered panic is an internal error.\<close>

definition recovered_result :: "(go_error + string) option \<Rightarrow> go_error + string" where
  "recovered_result res = (case res of None \<Rightarrow> Inl (CallErr (call_error_of 500 ''internal_error'')) | Some r \<Rightarrow> r)"

definition canceled_failure :: "message_ops \<Rightarrow> go_error \<Rightarrow> failure option" where
  "canceled_failure mo err =
     map_option (\<lambda>f. (normalize_failure mo f)\<lparr>fl_Source := ''canceled'', fl_Category := ''canceled'', fl_Retryability := ''terminal''\<rparr>)
       (failure_of (Some err))"

text \<open>The error and the audit record of a failed call.\<close>

definition audited_error :: "message_ops \<Rightarrow> call_world \<Rightarrow> go_error \<Rightarrow> audit \<Rightarrow> go_error \<times> audit" where
  "audited_error mo w err a =
     (let code = (case err of CallErr e \<Rightarrow> ce_Code e | OtherErr msg \<Rightarrow> ''upstream_error'') in
      if cw_ctx w = None then (err, a\<lparr>au_ErrorCode := code\<rparr>)
      else if cw_shutdown w
      then (CallErr ((call_error_of 503 ''server_shutting_down'')\<lparr>ce_Failure := canceled_failure mo err\<rparr>),
            a\<lparr>au_Status := ''canceled'', au_ErrorCode := ''server_shutting_down''\<rparr>)
      else (CallErr ((call_error_of 408 ''request_canceled'')\<lparr>ce_Failure := canceled_failure mo err\<rparr>),
            a\<lparr>au_Status := ''canceled'', au_ErrorCode := ''request_canceled''\<rparr>))"

definition prepare_failure ::
  "message_ops \<Rightarrow> 'o key_callbacks \<Rightarrow> go_error \<Rightarrow> ('k, 'o) call_state \<Rightarrow> go_error \<times> ('k, 'o) call_state"
where
  "prepare_failure mo cb err st =
     (case err of
        OtherErr msg \<Rightarrow> (err, st)
      | CallErr e \<Rightarrow>
          (let (e1, ob) = cb_PrepareFailure cb e (cs_owner st)
           in (CallErr e1, st\<lparr>cs_owner := ob, cs_audit := (cs_audit st)\<lparr>au_Failure := failure_normalize mo (ce_Failure e1)\<rparr>\<rparr>)))"

definition settle_error ::
  "message_ops \<Rightarrow> 'o key_callbacks \<Rightarrow> call_world \<Rightarrow> go_error + string \<Rightarrow> ('k, 'o) call_state \<Rightarrow> (go_error + string) \<times> ('k, 'o) call_state"
where
  "settle_error mo cb w res st =
     (case res of
        Inr data \<Rightarrow> (Inr data, st)
      | Inl err \<Rightarrow>
          (let (err1, a) = audited_error mo w err (cs_audit st); (err2, st1) = prepare_failure mo cb err1 (st\<lparr>cs_audit := a\<rparr>)
           in (Inl err2, st1)))"

definition audit_failed_error :: "message_ops \<Rightarrow> audit \<Rightarrow> call_error" where
  "audit_failed_error mo a =
     (call_error_of 500 ''audit_failed_do_not_retry_blindly'')
       \<lparr>ce_Failure := failure_normalize mo (au_Failure a), ce_BudgetCost := au_EstimatedCost a\<rparr>"

definition write_audit ::
  "call_deps \<Rightarrow> 'o key_callbacks \<Rightarrow> (go_error + string) \<times> ('k, 'o) call_state \<Rightarrow> (go_error + string) \<times> ('k, 'o) call_state"
where
  "write_audit deps cb rst =
     (let mo = go_messages (cd_ops deps); (res, st) = rst in
      case AppendAudit (cd_sql deps) mo (cs_audit st) (cs_ledger st) of
        (None, l) \<Rightarrow> (res, st\<lparr>cs_ledger := l\<rparr>)
      | (Some x, l) \<Rightarrow>
          (let e = audit_failed_error mo (cs_audit st);
               st1 = st\<lparr>cs_ledger := l, cs_audit := (cs_audit st)\<lparr>au_Status := ''error'', au_ErrorCode := ce_Code e\<rparr>\<rparr>;
               (err, st2) = prepare_failure mo cb (CallErr e) st1
           in (Inl err, st2)))"

definition mark_unattempted :: "bool \<Rightarrow> go_error + string \<Rightarrow> go_error + string" where
  "mark_unattempted attempted res =
     (case res of Inl (CallErr e) \<Rightarrow> if attempted then res else Inl (CallErr (e\<lparr>ce_UpstreamNotAttempted := True\<rparr>)) | _ \<Rightarrow> res)"

definition settle_call ::
  "call_deps \<Rightarrow> upstream_client \<Rightarrow> 'o key_callbacks \<Rightarrow> call_world \<Rightarrow> call_request \<Rightarrow> time \<Rightarrow> (go_error + string) option
     \<Rightarrow> ('k, 'o) call_state \<Rightarrow> (go_error + string) \<times> ('k, 'o) call_state"
where
  "settle_call deps c cb w q started res st =
     (if cs_yielded st then (recovered_result res, st)
      else
        (let st1 = (if cs_attempted st then local_estimate deps c q (cw_finished w) (cs_observed st) st else st);
             st2 = st1\<lparr>cs_audit := (cs_audit st1)\<lparr>au_LatencyMS := duration_ms (time_sub (cw_finished w) started)\<rparr>,
                      cs_ledger := cw_ledger_running w (cs_ledger st1)\<rparr>;
             (res1, st3) = settle_error (go_messages (cd_ops deps)) cb w (recovered_result res) st2;
             (res2, st4) = write_audit deps cb (res1, st3)
         in (mark_unattempted (cs_attempted st4) res2, st4)))"

section \<open>callWithKeyCandidates\<close>

definition new_audit :: "upstream_client \<Rightarrow> string \<Rightarrow> time \<Rightarrow> string \<Rightarrow> call_options \<Rightarrow> audit" where
  "new_audit c nonce started model opts =
     \<lparr>au_ID = nonce, au_TimestampMS = unix_milli started, au_Protocol = cl_Protocol c, au_Upstream = cl_Upstream c,
      au_ProviderRef = cl_ProviderRef c, au_KeyLabel = [], au_BackendID = [], au_Model = model, au_Status = ''error'', au_ErrorCode = [],
      au_RoutingDecision = decision_normalize (op_RoutingDecision opts), au_Failure = None, au_InputTokens = None, au_OutputTokens = None,
      au_CacheReadTokens = None, au_CacheWriteTokens = None, au_EstimatedCost = None, au_CostSource = [], au_Currency = [],
      au_PriceSnapshot = [], au_LatencyMS = 0, au_QueueMS = 0, au_Events = []\<rparr>"

definition new_call_state :: "audit \<Rightarrow> ledger \<Rightarrow> prompt_cache \<Rightarrow> 'o \<Rightarrow> 'k \<Rightarrow> ('k, 'o) call_state" where
  "new_call_state a l cache ob k =
     \<lparr>cs_audit = a, cs_ledger = l, cs_cache = cache, cs_owner = ob, cs_sink = k, cs_id = au_ID a, cs_attempted = False, cs_selected = 0,
      cs_delivered = False, cs_observed = [], cs_yielded = False\<rparr>"

definition call_started :: "call_options \<Rightarrow> call_world \<Rightarrow> time" where
  "call_started opts w = (if op_RequestStartedAt opts = 0 then cw_started w else op_RequestStartedAt opts)"

text \<open>An early error has changed nothing; it comes with the identifier the call has by then.\<close>

definition prepared_call ::
  "call_deps \<Rightarrow> upstream_client \<Rightarrow> call_world \<Rightarrow> string \<Rightarrow> string \<Rightarrow> string \<Rightarrow> bool \<Rightarrow> call_options \<Rightarrow> ledger
     \<Rightarrow> call_error \<times> string + call_request \<times> audit"
where
  "prepared_call deps c w clientProtocol body model streaming opts l =
     (let codec = go_codec (cd_ops deps); tx = go_text (cd_ops deps) in
      case options_validate opts clientProtocol of
        Some (code, param) \<Rightarrow> Inl ((local_error 400 code)\<lparr>ce_Param := param\<rparr>, [])
      | None \<Rightarrow>
          if lg_auditUnavailable l then Inl (local_error 503 ''audit_unavailable'', [])
          else
            (case cw_nonce w of
               None \<Rightarrow> Inl (local_error 500 ''request_id_failed'', [])
             | Some nonce \<Rightarrow>
                 (case PrepareRequestWithWarnings codec tx (cd_numbers deps) clientProtocol (cl_Protocol c) body model (OutputTokenDefault c model) of
                    Inl e \<Rightarrow> Inl ((local_error 400 (request_error_code e))\<lparr>ce_Param := ValidationParameter e\<rparr>, nonce)
                  | Inr (upstream_body, prepared, warnings) \<Rightarrow>
                      (let used = (if prepared \<noteq> [] then prepared else model)
                       in Inr (\<lparr>cq_protocol = clientProtocol, cq_body = body, cq_model = used, cq_price = call_price tx c used,
                                cq_upstream_body = upstream_body, cq_options = opts, cq_streaming = streaming\<rparr>,
                               new_audit c nonce (call_started opts w) used opts)))))"

definition callWithKeyCandidates ::
  "call_deps \<Rightarrow> upstream_client \<Rightarrow> 'o key_callbacks \<Rightarrow> call_world \<Rightarrow> string \<Rightarrow> string \<Rightarrow> string \<Rightarrow> (string \<Rightarrow> 'k \<Rightarrow> bool \<times> 'k) option
     \<Rightarrow> call_options \<Rightarrow> string list \<Rightarrow> ledger \<Rightarrow> prompt_cache \<Rightarrow> 'o \<Rightarrow> 'k \<Rightarrow> (go_error + string) \<times> ('k, 'o) call_state"
where
  "callWithKeyCandidates deps c cb w clientProtocol body model sink opts keys0 l cache ob k =
     (case prepared_call deps c w clientProtocol body model (sink \<noteq> None) opts l of
        Inl (e, nonce) \<Rightarrow>
          (Inl (CallErr e), new_call_state (new_audit c nonce (call_started opts w) model opts) l cache ob k)
      | Inr (q, a) \<Rightarrow>
          (let started = call_started opts w; keys = (if keys0 = [] then [cl_APIKey c] else keys0);
               (res, st) = gated_call deps c cb w q started sink keys (new_call_state a l cache ob k);
               st1 = report_completed cb res st
           in settle_call deps c cb w q started res st1))"

definition terminalHTTPStatus :: "string \<Rightarrow> bool \<Rightarrow> go_error option \<Rightarrow> int" where
  "terminalHTTPStatus clientProtocol delivered err =
     (if err = None \<or> delivered then 200
      else
        (case as_call_error err of
           None \<Rightarrow> 500
         | Some e \<Rightarrow>
             (let status = (if ce_Category e \<noteq> [] \<and> (ce_Status e < 400 \<or> 599 < ce_Status e)
                then fst (ClientError (ce_Category e) clientProtocol) else ce_Status e)
              in if status < 100 \<or> 599 < status then 500 else status)))"

definition requestEndpoint :: "string \<Rightarrow> string" where
  "requestEndpoint clientProtocol = (if clientProtocol = ''anthropic'' then ''messages'' else ''chat_completions'')"

section \<open>Frames\<close>

lemma error_part_Some [simp]: "error_part (Some res) = error_of res"
  by (cases res) simp_all

lemma local_estimate_frame [simp]:
  "cs_ledger (local_estimate deps c q now response st) = cs_ledger st"
  "cs_attempted (local_estimate deps c q now response st) = cs_attempted st"
  "cs_yielded (local_estimate deps c q now response st) = cs_yielded st"
  "cs_owner (local_estimate deps c q now response st) = cs_owner st"
  "cs_id (local_estimate deps c q now response st) = cs_id st"
  "au_ID (cs_audit (local_estimate deps c q now response st)) = au_ID (cs_audit st)"
  "au_Status (cs_audit (local_estimate deps c q now response st)) = au_Status (cs_audit st)"
  by (simp_all add: local_estimate_def Let_def split: option.split prod.split)

lemma remember_prompt_frame [simp]:
  "cs_audit (remember_prompt deps c q now st) = cs_audit st"
  "cs_ledger (remember_prompt deps c q now st) = cs_ledger st"
  "cs_attempted (remember_prompt deps c q now st) = cs_attempted st"
  "cs_yielded (remember_prompt deps c q now st) = cs_yielded st"
  by (simp_all add: remember_prompt_def split: option.split)

text \<open>What no step of a call changes: the identifier of the record, and other requests' ledger before the record is written.\<close>

definition same_call :: "('k, 'o) call_state \<Rightarrow> ('k, 'o) call_state \<Rightarrow> bool" where
  "same_call st st1 \<longleftrightarrow>
     cs_ledger st1 = cs_ledger st \<and> cs_yielded st1 = cs_yielded st \<and> au_ID (cs_audit st1) = au_ID (cs_audit st)"

lemma same_call_trans: "same_call s t \<Longrightarrow> same_call t u \<Longrightarrow> same_call s u"
  by (simp add: same_call_def)

lemma account_success_frame [simp]:
  "cs_ledger (account_success deps c q now data usage st) = cs_ledger st"
  "cs_yielded (account_success deps c q now data usage st) = cs_yielded st"
  "au_ID (cs_audit (account_success deps c q now data usage st)) = au_ID (cs_audit st)"
  "cs_attempted (account_success deps c q now data usage st) = cs_attempted st"
  "au_Status (cs_audit (account_success deps c q now data usage st)) = ''ok''"
  by (simp_all add: account_success_def Let_def split: option.split)

lemma note_failure_frame:
  assumes "note_failure cb i e st = (e1, st1)"
  shows "same_call st st1" "cs_attempted st1 = cs_attempted st"
    "\<exists>a ob. e1 = fst (cb_Failed cb i (labelled a e) ob)"
  using assms by (auto simp: note_failure_def add_event_def same_call_def Let_def split: prod.splits if_splits)
    (metis fst_conv)+

section \<open>What a call promises\<close>

text \<open>An error claims that nothing was attempted only when that is so.\<close>

definition honest :: "call_world \<Rightarrow> go_error option \<Rightarrow> ('k, 'o) call_state \<Rightarrow> bool" where
  "honest w err st \<longleftrightarrow>
     (\<forall>e. err = Some (CallErr e) \<longrightarrow> ce_UpstreamNotAttempted e \<longrightarrow> cs_attempted st \<longrightarrow> not_sent (cw_attempt w))"

lemma honest_None [simp]: "honest w None st" "honest w (Some (OtherErr msg)) st"
  by (simp_all add: honest_def)

text \<open>The state in which the deferred functions find the call.\<close>

definition body_ok :: "call_world \<Rightarrow> string \<Rightarrow> ledger \<Rightarrow> (go_error + string) option \<Rightarrow> ('k, 'o) call_state \<Rightarrow> bool" where
  "body_ok w nonce l res st \<longleftrightarrow>
     au_ID (cs_audit st) = nonce \<and> cs_ledger st = l \<and>
     (cs_attempted st \<longrightarrow> \<not> cs_yielded st \<and> \<not> lg_auditUnavailable l) \<and>
     honest w (error_part res) st \<and>
     (cs_yielded st \<longrightarrow> (\<exists>err. res = Some (Inl err))) \<and>
     (\<forall>data. res = Some (Inr data) \<longrightarrow> au_Status (cs_audit st) = ''ok'')"

text \<open>The record is in the ledger, or the ledger refuses every further call and the caller gets the known cost.\<close>

definition recorded :: "string \<Rightarrow> ('k, 'o) call_state \<Rightarrow> bool" where
  "recorded nonce st \<longleftrightarrow>
     (\<exists>row. map_of (lg_audit (cs_ledger st)) nonce = Some row \<and> au_Status row = au_Status (cs_audit st) \<and>
        au_EstimatedCost row = au_EstimatedCost (cs_audit st))"

definition refused_record :: "go_error + string \<Rightarrow> ('k, 'o) call_state \<Rightarrow> bool" where
  "refused_record res st \<longleftrightarrow>
     lg_auditUnavailable (cs_ledger st) \<and>
     (\<exists>e. res = Inl (CallErr e) \<and> ce_Code e = ''audit_failed_do_not_retry_blindly'' \<and> ce_BudgetCost e = au_EstimatedCost (cs_audit st))"

text \<open>A panic in the attempt answers the client with an internal error, but the owner is told of a completion without error: the deferred
  report runs before the deferred recovery.\<close>

lemma panic_completes_as_success:
  assumes "cw_panic w = Some p"
  shows "case finish_body deps c w q (run_attempt deps c cb w q sink i key st) of (res, st1) \<Rightarrow>
    recovered_result res = Inl (CallErr (call_error_of 500 ''internal_error'')) \<and>
    (\<exists>ob. cs_owner (report_completed cb res st1) = cb_Completed cb i None ob)"
  using assms
  by (cases p) (auto simp: run_attempt_def finish_body_def recovered_result_def report_completed_def start_attempt_def Let_def)

text \<open>What the call needs of its owner: a callback cannot turn an error into one that claims nothing was attempted, and the
  response guidance leaves the code and the cost of an error alone.\<close>

locale key_owner =
  fixes cb :: "'o key_callbacks"
  assumes failed_truth: "ce_UpstreamNotAttempted (fst (cb_Failed cb i e ob)) \<Longrightarrow> ce_UpstreamNotAttempted e"
    and prepare_truth: "ce_UpstreamNotAttempted (fst (cb_PrepareFailure cb e ob)) \<longleftrightarrow> ce_UpstreamNotAttempted e"
    and prepare_code: "ce_Code (fst (cb_PrepareFailure cb e ob)) = ce_Code e"
    and prepare_cost: "ce_BudgetCost (fst (cb_PrepareFailure cb e ob)) = ce_BudgetCost e"
begin

lemma run_attempt_spec:
  assumes "run_attempt deps c cb w q sink i key st = (rst, st1)"
  shows "same_call st st1 \<and> cs_attempted st1 \<and> (\<forall>err. rst = Some (Inl err) \<longrightarrow> honest w (Some err) st1)"
proof (cases "cw_panic w")
  case (Some p)
  with assms show ?thesis
    by (auto simp: run_attempt_def start_attempt_def same_call_def Let_def split: prod.splits)
next
  case None
  let ?st1 = "start_attempt c cb i st"
  obtain r observation where run: "doAttempt (cd_ops deps) c (cw_attempt w) (cq_protocol q) (cq_model q) sink (cq_options q)
      (Effective (cl_Limits c)) key (cs_delivered ?st1) (cs_sink ?st1) = (r, observation)"
    by fastforce
  let ?st2 = "?st1\<lparr>cs_delivered := rn_delivered r, cs_observed := rn_observed r, cs_sink := rn_sink r,
    cs_owner := observed_attempt cb i observation (cs_owner ?st1)\<rparr>"
  have same: "same_call st ?st2" and attempted: "cs_attempted ?st2" by (simp_all add: same_call_def start_attempt_def)
  show ?thesis
  proof (cases "\<exists>e. rn_result r = Inl (CallErr e)")
    case True
    then obtain e where e: "rn_result r = Inl (CallErr e)" ..
    obtain e1 st3 where noted: "note_failure cb i e ?st2 = (e1, st3)" by fastforce
    with None run e assms have out: "rst = Some (Inl (CallErr e1))" "st1 = st3" by (simp_all add: run_attempt_def Let_def)
    from note_failure_frame(3) [OF noted] obtain a ob where e1: "e1 = fst (cb_Failed cb i (labelled a e) ob)" by blast
    have "ce_UpstreamNotAttempted e1 \<longrightarrow> not_sent (cw_attempt w)"
    proof
      assume "ce_UpstreamNotAttempted e1"
      with failed_truth e1 have "ce_UpstreamNotAttempted (labelled a e)" by simp
      then have "ce_UpstreamNotAttempted e" by (simp add: labelled_def)
      with attempt_error_origin [OF run e] show "not_sent (cw_attempt w)" by metis
    qed
    with out same attempted note_failure_frame(1,2) [OF noted] show ?thesis
      by (auto simp: honest_def intro: same_call_trans)
  next
    case False
    with None run assms have "rst = Some (rn_result r)" "st1 = ?st2"
      by (auto simp: run_attempt_def Let_def split: sum.splits go_error.splits)
    with False same attempted show ?thesis by (auto simp: honest_def)
  qed
qed

lemma finish_body_spec:
  assumes "finish_body deps c w q (rst, st) = (res, st1)"
  shows "same_call st st1 \<and> cs_attempted st1 = cs_attempted st \<and>
    (\<forall>err. res = Some (Inl err) \<longleftrightarrow> rst = Some (Inl err)) \<and>
    (\<forall>data. res = Some (Inr data) \<longrightarrow> au_Status (cs_audit st1) = ''ok'')"
  using assms
  by (auto simp: finish_body_def same_call_def split: option.splits sum.splits prod.splits if_splits)

lemma dispatch_key_spec:
  assumes run: "dispatch_key deps c cb w q started sink keys st = (res, st1)" and fresh: "\<not> cs_attempted st" "\<not> cs_yielded st"
  shows "body_ok w (au_ID (cs_audit st)) (cs_ledger st) res st1"
proof -
  obtain p ob where picked: "pick_key (cb_Ready cb) 0 keys (cs_owner st) = (p, ob)" by fastforce
  show ?thesis
  proof (cases p)
    case (Pick i key)
    let ?st = "st\<lparr>cs_owner := ob\<rparr>"
    show ?thesis
    proof (cases "lg_auditUnavailable (cs_ledger st)")
      case True
      with run picked Pick fresh show ?thesis
        by (auto simp: dispatch_key_def yield_call_def body_ok_def honest_def Let_def)
    next
      case False
      obtain rst st2 where attempt: "run_attempt deps c cb w q sink i key ?st = (rst, st2)" by fastforce
      with run picked Pick False have "finish_body deps c w q (rst, st2) = (res, st1)" by (simp add: dispatch_key_def Let_def)
      from finish_body_spec [OF this] run_attempt_spec [OF attempt] False fresh show ?thesis
        by (auto simp: body_ok_def same_call_def honest_def elim!: error_part.elims)
    qed
  next
    case (AllCooling earliest)
    with run picked fresh show ?thesis
      by (auto simp: dispatch_key_def yield_call_def body_ok_def honest_def Let_def split: if_splits)
  next
    case NoKey
    with run picked have "finish_body deps c w q (Some (Inr ([], no_usage)), st\<lparr>cs_owner := ob\<rparr>) = (res, st1)"
      by (simp add: dispatch_key_def)
    then show ?thesis using fresh by (auto simp: finish_body_def body_ok_def same_call_def)
  qed
qed

lemma total_timeout_spec:
  assumes "body_ok w nonce l res st"
  shows "body_ok w nonce l (total_timeout deps c w streaming res) st"
proof (cases "\<exists>err. res = Some (Inl err)")
  case True
  with assms show ?thesis by (auto simp: total_timeout_def body_ok_def honest_def call_error_of_def split: if_splits)
next
  case False
  then have "total_timeout deps c w streaming res = res" by (auto simp: total_timeout_def split: option.split sum.split)
  with assms show ?thesis by simp
qed

lemma gated_call_spec:
  assumes run: "gated_call deps c cb w q started sink keys (new_call_state a l cache ob k) = (res, st)"
  shows "body_ok w (au_ID a) (cw_ledger_waiting w l) res st"
proof -
  let ?st = "note_queue (cq_options q) w ((new_call_state a l cache ob k)\<lparr>cs_ledger := cw_ledger_waiting w l\<rparr>)"
  have st: "au_ID (cs_audit ?st) = au_ID a" "cs_ledger ?st = cw_ledger_waiting w l" "\<not> cs_attempted ?st" "\<not> cs_yielded ?st"
    by (simp_all add: note_queue_def add_event_def new_call_state_def Let_def)
  show ?thesis
  proof (cases "cw_gate_failed w \<or> cw_done_after_gate w")
    case True
    with run have "res = Some (Inl (CallErr (call_error_of 408 ''request_canceled'')))" "st = ?st"
      by (auto simp: gated_call_def new_call_state_def Let_def)
    with st show ?thesis by (simp add: body_ok_def honest_def call_error_of_def)
  next
    case False
    obtain res1 where "dispatch_key deps c cb w q started sink keys ?st = (res1, st)"
        and res: "res = total_timeout deps c w (cq_streaming q) res1"
      using run False by (auto simp: gated_call_def new_call_state_def Let_def split: prod.splits)
    from dispatch_key_spec [OF this(1)] st have "body_ok w (au_ID a) (cw_ledger_waiting w l) res1 st" by simp
    then show ?thesis unfolding res by (rule total_timeout_spec)
  qed
qed

lemma report_completed_spec: "body_ok w nonce l res st \<Longrightarrow> body_ok w nonce l res (report_completed cb res st)"
  by (simp add: report_completed_def body_ok_def honest_def)

text \<open>The deferred functions.\<close>

lemma prepare_failure_spec:
  assumes "prepare_failure mo cb err st = (err1, st1)"
  shows "cs_ledger st1 = cs_ledger st" "cs_attempted st1 = cs_attempted st" "au_ID (cs_audit st1) = au_ID (cs_audit st)"
    "au_EstimatedCost (cs_audit st1) = au_EstimatedCost (cs_audit st)" "honest w (Some err) st \<Longrightarrow> honest w (Some err1) st1"
    "err = CallErr e \<Longrightarrow> \<exists>e1. err1 = CallErr e1 \<and> ce_Code e1 = ce_Code e \<and> ce_BudgetCost e1 = ce_BudgetCost e \<and>
       ce_UpstreamNotAttempted e1 = ce_UpstreamNotAttempted e"
  using assms prepare_truth prepare_code prepare_cost
  by (auto simp: prepare_failure_def honest_def Let_def split: go_error.splits prod.splits) (metis fst_conv)+

lemma audited_error_honest:
  "audited_error mo w err a = (err1, a1) \<Longrightarrow> honest w (Some err) st \<Longrightarrow> honest w (Some err1) st1 \<or> cs_attempted st1 \<noteq> cs_attempted st"
  by (auto simp: audited_error_def honest_def call_error_of_def Let_def split: if_splits)

lemma settle_error_spec:
  assumes run: "settle_error mo cb w res st = (res1, st1)" and honest: "honest w (error_of res) st"
  shows "cs_ledger st1 = cs_ledger st \<and> cs_attempted st1 = cs_attempted st \<and> au_ID (cs_audit st1) = au_ID (cs_audit st) \<and>
    honest w (error_of res1) st1 \<and> (\<forall>data. res1 = Inr data \<longrightarrow> res = Inr data \<and> st1 = st)"
proof (cases res)
  case (Inr data)
  with assms show ?thesis by (simp add: settle_error_def)
next
  case (Inl err)
  obtain err1 a where audited: "audited_error mo w err (cs_audit st) = (err1, a)" by fastforce
  let ?st = "st\<lparr>cs_audit := a\<rparr>"
  obtain err2 st2 where prepared: "prepare_failure mo cb err1 ?st = (err2, st2)" by fastforce
  from run Inl audited prepared have out: "res1 = Inl err2" "st1 = st2" by (simp_all add: settle_error_def)
  have a: "au_ID a = au_ID (cs_audit st)" using audited by (auto simp: audited_error_def Let_def split: if_splits)
  from audited_error_honest [OF audited, of st ?st] honest Inl have "honest w (Some err1) ?st" by simp
  with prepare_failure_spec(5) [OF prepared] prepare_failure_spec(1-3) [OF prepared] a show ?thesis by (simp add: out)
qed

lemma append_audit_cases:
  assumes "AppendAudit env mo a l = (x, l1)"
  shows "(case x of
      None \<Rightarrow> \<exists>row. map_of (lg_audit l1) (au_ID a) = Some row \<and> au_Status row = au_Status a \<and> au_EstimatedCost row = au_EstimatedCost a
    | Some e \<Rightarrow> lg_auditUnavailable l1)"
  using assms by (auto simp: AppendAudit_def Let_def lookup_put split: option.splits if_splits)

lemma write_audit_spec:
  assumes run: "write_audit deps cb (res, st) = (res1, st1)" and honest: "honest w (error_of res) st"
  shows "cs_attempted st1 = cs_attempted st \<and> honest w (error_of res1) st1 \<and>
    (res1 = res \<and> cs_audit st1 = cs_audit st \<and> recorded (au_ID (cs_audit st)) st1 \<or> refused_record res1 st1)"
proof -
  let ?mo = "go_messages (cd_ops deps)"
  obtain x l where append: "AppendAudit (cd_sql deps) ?mo (cs_audit st) (cs_ledger st) = (x, l)" by fastforce
  note row = append_audit_cases [OF append]
  show ?thesis
  proof (cases x)
    case None
    with run append have "res1 = res" "st1 = st\<lparr>cs_ledger := l\<rparr>" by (simp_all add: write_audit_def)
    with None row honest show ?thesis by (simp add: recorded_def honest_def)
  next
    case (Some y)
    let ?e = "audit_failed_error ?mo (cs_audit st)"
    let ?st = "st\<lparr>cs_ledger := l, cs_audit := (cs_audit st)\<lparr>au_Status := ''error'', au_ErrorCode := ce_Code ?e\<rparr>\<rparr>"
    obtain err st2 where prepared: "prepare_failure ?mo cb (CallErr ?e) ?st = (err, st2)" by fastforce
    from run append Some prepared have out: "res1 = Inl err" "st1 = st2" by (simp_all add: write_audit_def Let_def)
    note spec = prepare_failure_spec [OF prepared]
    from spec(6) [OF refl] obtain e1 where e1: "err = CallErr e1" "ce_Code e1 = ce_Code ?e" "ce_BudgetCost e1 = ce_BudgetCost ?e"
        "ce_UpstreamNotAttempted e1 = ce_UpstreamNotAttempted ?e" by blast
    have "refused_record res1 st1"
      using row Some spec(1,4) e1 by (simp add: out refused_record_def audit_failed_error_def call_error_of_def)
    moreover have "honest w (error_of res1) st1"
      using e1 by (simp add: out honest_def audit_failed_error_def call_error_of_def)
    ultimately show ?thesis using spec(2) by (simp add: out)
  qed
qed

lemma settle_call_spec:
  assumes body: "body_ok w nonce l res st" and run: "settle_call deps c cb w q started res st = (res1, st1)"
  shows "cs_attempted st1 = cs_attempted st \<and>
    (\<forall>e. res1 = Inl (CallErr e) \<longrightarrow> ce_UpstreamNotAttempted e \<longrightarrow> cs_attempted st1 \<longrightarrow> not_sent (cw_attempt w)) \<and>
    (cs_attempted st1 \<longrightarrow> recorded nonce st1 \<or> refused_record res1 st1) \<and>
    (\<forall>data. res1 = Inr data \<longrightarrow> recorded nonce st1 \<and> au_Status (cs_audit st1) = ''ok'')"
proof (cases "cs_yielded st")
  case True
  with run have "res1 = recovered_result res" "st1 = st" by (simp_all add: settle_call_def)
  with True body show ?thesis
    by (auto simp: body_ok_def recovered_result_def honest_def split: option.splits)
next
  case False
  let ?a = "if cs_attempted st then local_estimate deps c q (cw_finished w) (cs_observed st) st else st"
  let ?b = "?a\<lparr>cs_audit := (cs_audit ?a)\<lparr>au_LatencyMS := duration_ms (time_sub (cw_finished w) started)\<rparr>,
    cs_ledger := cw_ledger_running w (cs_ledger ?a)\<rparr>"
  let ?mo = "go_messages (cd_ops deps)"
  obtain r1 s1 where settled: "settle_error ?mo cb w (recovered_result res) ?b = (r1, s1)" by fastforce
  obtain r2 s2 where written: "write_audit deps cb (r1, s1) = (r2, s2)" by fastforce
  from run False settled written have "(res1, st1) = (mark_unattempted (cs_attempted s2) r2, s2)"
    unfolding settle_call_def by (auto simp: Let_def)
  then have out: "res1 = mark_unattempted (cs_attempted s2) r2" "st1 = s2" by simp_all
  have b: "cs_attempted ?b = cs_attempted st" "au_ID (cs_audit ?b) = nonce" "au_Status (cs_audit ?b) = au_Status (cs_audit st)"
    using body by (simp_all add: body_ok_def)
  have "honest w (error_of (recovered_result res)) ?b"
    using body b(1) by (auto simp: body_ok_def recovered_result_def honest_def call_error_of_def split: option.splits)
  note s1 = settle_error_spec [OF settled this]
  then have "honest w (error_of r1) s1" by blast
  note s2 = write_audit_spec [OF written this]
  have same: "cs_attempted st1 = cs_attempted st" using s1 s2 b by (simp add: out)
  have r2: "refused_record r2 s2 \<Longrightarrow> refused_record (mark_unattempted (cs_attempted s2) r2) s2"
    by (auto simp: refused_record_def mark_unattempted_def)
  have paid: "recorded nonce st1 \<or> refused_record res1 st1" using s1 s2 b r2 by (auto simp: out)
  have truth: "not_sent (cw_attempt w)"
    if "res1 = Inl (CallErr e)" "ce_UpstreamNotAttempted e" "cs_attempted st1" for e
    using that s2 by (auto simp: out mark_unattempted_def honest_def split: sum.splits go_error.splits if_splits)
  have success: "recorded nonce st1 \<and> au_Status (cs_audit st1) = ''ok''" if "res1 = Inr data" for data
  proof -
    from that have "r2 = Inr data" by (auto simp: out mark_unattempted_def split: sum.splits go_error.splits if_splits)
    with s2 have r1: "r1 = Inr data" and kept: "cs_audit st1 = cs_audit s1" "recorded (au_ID (cs_audit s1)) st1"
      by (auto simp: out refused_record_def)
    with s1 have "recovered_result res = Inr data" "s1 = ?b" by blast+
    moreover from this(1) have "res = Some (Inr data)" by (simp add: recovered_result_def split: option.splits)
    ultimately show ?thesis using body b kept by (simp add: body_ok_def)
  qed
  from same truth paid success show ?thesis by blast
qed

text \<open>The call as a whole.\<close>

lemma call_accounted:
  assumes run: "callWithKeyCandidates deps c cb w clientProtocol body model sink opts keys l cache ob k = (res, st)"
  shows "(cs_attempted st \<longrightarrow> \<not> lg_auditUnavailable l \<and> \<not> lg_auditUnavailable (cw_ledger_waiting w l) \<and>
      options_validate opts clientProtocol = None \<and>
      (\<exists>nonce. cw_nonce w = Some nonce \<and> (recorded nonce st \<or> refused_record res st))) \<and>
    (\<forall>data. res = Inr data \<longrightarrow> (\<exists>nonce. cw_nonce w = Some nonce \<and> recorded nonce st \<and> au_Status (cs_audit st) = ''ok'')) \<and>
    (\<forall>e. res = Inl (CallErr e) \<longrightarrow> ce_UpstreamNotAttempted e \<longrightarrow> cs_attempted st \<longrightarrow> not_sent (cw_attempt w))"
proof (cases "prepared_call deps c w clientProtocol body model (sink \<noteq> None) opts l")
  case (Inl p)
  with run have "res = Inl (CallErr (fst p))" "\<not> cs_attempted st"
    by (auto simp: callWithKeyCandidates_def new_call_state_def split: prod.splits)
  then show ?thesis by simp
next
  case (Inr p)
  obtain q a where p: "p = (q, a)" by fastforce
  from Inr have ready: "\<not> lg_auditUnavailable l" "options_validate opts clientProtocol = None" "cw_nonce w = Some (au_ID a)"
    by (auto simp: prepared_call_def p new_audit_def Let_def split: option.splits prod.splits if_splits sum.splits)
  let ?keys = "if keys = [] then [cl_APIKey c] else keys"
  obtain r1 s1 where gated: "gated_call deps c cb w q (call_started opts w) sink ?keys (new_call_state a l cache ob k) = (r1, s1)"
    by fastforce
  from run Inr p gated have settled: "settle_call deps c cb w q (call_started opts w) r1 (report_completed cb r1 s1) = (res, st)"
    by (simp add: callWithKeyCandidates_def Let_def)
  note body = report_completed_spec [OF gated_call_spec [OF gated]]
  from settle_call_spec [OF body settled] body ready show ?thesis by (simp add: body_ok_def)
qed

text \<open>A call leaves the charges of the ledger to the others.\<close>

lemma appended_charges: "AppendAudit env mo a l = (x, l1) \<Longrightarrow> lg_charges l1 = lg_charges l"
  using append_audit_charges(1) [of env mo a l] by simp

lemma settle_call_charges:
  assumes body: "body_ok w nonce l res st" and run: "settle_call deps c cb w q started res st = (res1, st1)" and attempted: "cs_attempted st"
  shows "lg_charges (cs_ledger st1) = lg_charges (cw_ledger_running w l)"
proof -
  let ?mo = "go_messages (cd_ops deps)"
  let ?a = "local_estimate deps c q (cw_finished w) (cs_observed st) st"
  let ?b = "?a\<lparr>cs_audit := (cs_audit ?a)\<lparr>au_LatencyMS := duration_ms (time_sub (cw_finished w) started)\<rparr>,
    cs_ledger := cw_ledger_running w (cs_ledger ?a)\<rparr>"
  obtain r1 s1 where settled: "settle_error ?mo cb w (recovered_result res) ?b = (r1, s1)" by fastforce
  obtain r2 s2 where written: "write_audit deps cb (r1, s1) = (r2, s2)" by fastforce
  from body attempted have "\<not> cs_yielded st" by (simp add: body_ok_def)
  with run attempted settled written have out: "st1 = s2" unfolding settle_call_def by (auto simp: Let_def)
  have "honest w (error_of (recovered_result res)) ?b"
    using body by (auto simp: body_ok_def recovered_result_def honest_def call_error_of_def split: option.splits)
  from settle_error_spec [OF settled this] body have "cs_ledger s1 = cw_ledger_running w l" by (simp add: body_ok_def)
  moreover have "lg_charges (cs_ledger s2) = lg_charges (cs_ledger s1)"
    using written
    by (auto simp: write_audit_def Let_def dest!: prepare_failure_spec(1) dest: appended_charges split: prod.splits option.splits)
  ultimately show ?thesis by (simp add: out)
qed

lemma call_charges:
  assumes run: "callWithKeyCandidates deps c cb w clientProtocol body model sink opts keys l cache ob k = (res, st)"
    and attempted: "cs_attempted st"
  shows "lg_charges (cs_ledger st) = lg_charges (cw_ledger_running w (cw_ledger_waiting w l))"
proof (cases "prepared_call deps c w clientProtocol body model (sink \<noteq> None) opts l")
  case (Inl p)
  with run have "\<not> cs_attempted st" by (auto simp: callWithKeyCandidates_def new_call_state_def split: prod.splits)
  with attempted show ?thesis by simp
next
  case (Inr p)
  obtain q a where p: "p = (q, a)" by fastforce
  let ?keys = "if keys = [] then [cl_APIKey c] else keys"
  obtain r1 s1 where gated: "gated_call deps c cb w q (call_started opts w) sink ?keys (new_call_state a l cache ob k) = (r1, s1)"
    by fastforce
  from run Inr p gated have settled: "settle_call deps c cb w q (call_started opts w) r1 (report_completed cb r1 s1) = (res, st)"
    by (simp add: callWithKeyCandidates_def Let_def)
  note body = report_completed_spec [OF gated_call_spec [OF gated]]
  from settle_call_spec [OF body settled] attempted have "cs_attempted (report_completed cb r1 s1)" by blast
  from settle_call_charges [OF body settled this] show ?thesis .
qed

text \<open>A call that gets past its checks and the gate and finds a ready key makes its attempt.\<close>

lemma call_attempts:
  assumes run: "callWithKeyCandidates deps c cb w clientProtocol body model sink opts keys l cache ob k = (res, st)"
    and prepared: "prepared_call deps c w clientProtocol body model (sink \<noteq> None) opts l = Inr (q, a)"
    and gate: "\<not> cw_gate_failed w" "\<not> cw_done_after_gate w" "\<not> lg_auditUnavailable (cw_ledger_waiting w l)"
    and picked: "pick_key (cb_Ready cb) 0 (if keys = [] then [cl_APIKey c] else keys) ob = (Pick i key, ob1)"
  shows "cs_attempted st"
proof -
  let ?keys = "if keys = [] then [cl_APIKey c] else keys" and ?started = "call_started opts w"
  let ?st = "note_queue (cq_options q) w ((new_call_state a l cache ob k)\<lparr>cs_ledger := cw_ledger_waiting w l\<rparr>)"
  have st: "cs_owner ?st = ob" "cs_ledger ?st = cw_ledger_waiting w l"
    by (simp_all add: note_queue_def add_event_def new_call_state_def Let_def)
  obtain rst st2 where attempt: "run_attempt deps c cb w q sink i key (?st\<lparr>cs_owner := ob1\<rparr>) = (rst, st2)" by fastforce
  obtain res1 st3 where finished: "finish_body deps c w q (rst, st2) = (res1, st3)" by fastforce
  have gated: "gated_call deps c cb w q ?started sink ?keys (new_call_state a l cache ob k) =
      (total_timeout deps c w (cq_streaming q) res1, st3)"
    using gate picked attempt finished st
    by (simp add: gated_call_def dispatch_key_def new_call_state_def Let_def)
  from run prepared gated have settled: "settle_call deps c cb w q ?started (total_timeout deps c w (cq_streaming q) res1)
      (report_completed cb (total_timeout deps c w (cq_streaming q) res1) st3) = (res, st)"
    by (simp add: callWithKeyCandidates_def Let_def)
  have "cs_attempted st3" using run_attempt_spec [OF attempt] finish_body_spec [OF finished] by simp
  with settle_call_spec [OF report_completed_spec [OF gated_call_spec [OF gated]] settled] show ?thesis
    by (simp add: report_completed_def)
qed

end

end
