(* ===== verification/Provider_Sessions.thy ===== *)
theory Provider_Sessions
  imports Limiter
begin

text \<open>
  \<^verbatim>\<open>internal/gateway/provider_sessions.go\<close>: the active sessions of each provider and the leases one client request holds on them.

  The limiters are the map \<open>'s\<close> of the handler, the leases the map of the request; a nil lease is an absent entry. A clock reading is
  \<open>now\<close> throughout one operation. The HTTP side of \<open>sessionStatus\<close> is left out.
\<close>

type_synonym provider_sessions = "(string, session_limiter) gomap"

record session_admission =
  sa_id :: string
  sa_providers :: "(string, session_lease) gomap"

definition sessionCapacityEnabled :: "(string, int) gomap \<Rightarrow> string list \<Rightarrow> bool" where
  "sessionCapacityEnabled limits routes =
     list_ex (\<lambda>ref. 0 < (case map_of limits ref of None \<Rightarrow> 0 | Some n \<Rightarrow> n)) routes"

text \<open>Retired providers are dropped once nobody is in them; asking for the statistics of a limiter expires its idle entries.\<close>

definition prune_retired :: "string list \<Rightarrow> time \<Rightarrow> provider_sessions \<Rightarrow> provider_sessions" where
  "prune_retired configured now sessions =
     map_keep (\<lambda>name l. \<not> (name \<notin> set configured \<and> length (sl_sessions l) = 0)) (map_vals (\<lambda>name l. expire_locked now l) sessions)"

definition acquireProvider ::
  "string list \<Rightarrow> int \<Rightarrow> ctx_error option \<Rightarrow> time \<Rightarrow> string \<Rightarrow> int \<Rightarrow> session_admission \<Rightarrow> provider_sessions
     \<Rightarrow> limiter_error option \<times> session_admission \<times> provider_sessions"
where
  "acquireProvider configured idleSeconds ctxErr now ref limit a sessions =
     (if map_of (sa_providers a) ref \<noteq> None then (None, a, sessions)
      else
        (let pruned = prune_retired configured now sessions;
             own = (case map_of pruned ref of None \<Rightarrow> new_session_limiter 0 (idleSeconds * second) | Some l \<Rightarrow> Inr l)
         in case own of
              Inl e \<Rightarrow> (Some e, a, pruned)
            | Inr l \<Rightarrow>
                (case acquire_with_limit (Some l) ctxErr (sa_id a) limit now of
                   (outcome, l1) \<Rightarrow>
                     (let s = map_put ref (case l1 of None \<Rightarrow> l | Some l2 \<Rightarrow> l2) pruned in
                      case outcome of
                        Inl e \<Rightarrow> (if limit = 0 \<and> ctxErr \<noteq> None then None else Some e, a, s)
                      | Inr lease \<Rightarrow> (None, a\<lparr>sa_providers := map_put ref lease (sa_providers a)\<rparr>, s)))))"

text \<open>A lease on a limiter that is gone changes nothing that is left.\<close>

definition release_lease :: "bool \<Rightarrow> string \<times> session_lease \<Rightarrow> provider_sessions \<Rightarrow> provider_sessions" where
  "release_lease retain rl sessions =
     (case map_of sessions (fst rl) of
        None \<Rightarrow> sessions
      | Some l \<Rightarrow> map_put (fst rl) (snd (lease_release retain (snd rl) l)) sessions)"

definition releaseProvider :: "string \<Rightarrow> session_admission \<Rightarrow> provider_sessions \<Rightarrow> session_admission \<times> provider_sessions" where
  "releaseProvider ref a sessions =
     (case map_of (sa_providers a) ref of
        None \<Rightarrow> (a, sessions)
      | Some lease \<Rightarrow> (a\<lparr>sa_providers := map_del ref (sa_providers a)\<rparr>, release_lease False (ref, lease) sessions))"

definition touchOutput :: "time \<Rightarrow> session_admission \<Rightarrow> provider_sessions \<Rightarrow> provider_sessions" where
  "touchOutput now a sessions =
     fold (\<lambda>(ref, lease) s. case map_of s ref of None \<Rightarrow> s | Some l \<Rightarrow> map_put ref (lease_touch False lease now l) s) (sa_providers a) sessions"

definition admission_release :: "bool \<Rightarrow> session_admission \<Rightarrow> provider_sessions \<Rightarrow> provider_sessions" where
  "admission_release retain a sessions = fold (release_lease retain) (sa_providers a) sessions"

definition closeProviderSessions :: "provider_sessions \<Rightarrow> provider_sessions" where
  "closeProviderSessions sessions = []"

record session_capacity_status =
  sc_Limit :: int
  sc_Current :: nat
  sc_Rejected :: u64

definition sessionStatus :: "(string, int) gomap \<Rightarrow> time \<Rightarrow> provider_sessions \<Rightarrow> (string, session_capacity_status) gomap" where
  "sessionStatus limits now sessions =
     map (\<lambda>(ref, limit). (ref,
       (case map_of sessions ref of
          None \<Rightarrow> \<lparr>sc_Limit = limit, sc_Current = 0, sc_Rejected = 0\<rparr>
        | Some l \<Rightarrow>
            (case limiter_stats (Some l) now of ((_, current, rejected), _) \<Rightarrow>
               \<lparr>sc_Limit = limit, sc_Current = current, sc_Rejected = rejected\<rparr>)))) limits"

section \<open>Capacity\<close>

text \<open>The active sessions of a provider, and whether one of them is that of the request.\<close>

definition active_sessions :: "string \<Rightarrow> provider_sessions \<Rightarrow> (string, session_entry) gomap" where
  "active_sessions ref sessions = (case map_of sessions ref of None \<Rightarrow> [] | Some l \<Rightarrow> sl_sessions l)"

lemma prune_lookup:
  assumes "map_wf sessions"
  shows "active_sessions r (prune_retired configured now sessions) =
    (case map_of sessions r of None \<Rightarrow> [] | Some l \<Rightarrow> sl_sessions (expire_locked now l))"
  using assms by (auto simp: active_sessions_def prune_retired_def go_map split: option.split)

lemma active_put: "active_sessions r (map_put ref l s) = (if r = ref then sl_sessions l else active_sessions r s)"
  by (simp add: active_sessions_def go_map)

lemma expire_again [simp]: "expire_locked now (expire_locked now l) = expire_locked now l"
  by (simp add: expire_locked_def map_keep_def case_prod_unfold cong: filter_cong)

definition provider_limiter :: "int \<Rightarrow> string \<Rightarrow> provider_sessions \<Rightarrow> limiter_error + session_limiter" where
  "provider_limiter idleSeconds ref pruned =
     (case map_of pruned ref of None \<Rightarrow> new_session_limiter 0 (idleSeconds * second) | Some l \<Rightarrow> Inr l)"

lemma provider_limiter_expired:
  assumes "map_wf s" "provider_limiter idle ref (prune_retired configured now s) = Inr l"
  shows "sl_sessions (expire_locked now l) = active_sessions ref (prune_retired configured now s)"
proof (cases "map_of (prune_retired configured now s) ref")
  case None
  with assms(2) have "sl_sessions l = []" by (auto simp: provider_limiter_def new_session_limiter_def split: if_splits)
  with None show ?thesis by (simp add: active_sessions_def expire_locked_def map_keep_def)
next
  case (Some l0)
  with assms have "l = l0" "\<exists>l1. l0 = expire_locked now l1"
    by (auto simp: provider_limiter_def prune_retired_def go_map split: option.splits if_splits)
  with Some show ?thesis by (auto simp: active_sessions_def)
qed

lemma acquired_sessions:
  assumes "acquire_with_limit (Some l) ctxErr sid limit now = (x, l1)" "0 < limit"
  shows "\<exists>l2. l1 = Some l2 \<and>
    (case x of
       Inr lease \<Rightarrow> map_of (sl_sessions (expire_locked now l)) (trim_space sid) \<noteq> None \<or> int (length (sl_sessions l2)) \<le> limit
     | Inl e \<Rightarrow> l2 = l \<or> sl_sessions l2 = sl_sessions (expire_locked now l))"
  using assms by (auto simp: acquire_with_limit_def Let_def length_put split: option.splits if_splits)

text \<open>C36. A provider with a session limit never gets a further session beyond it: when a request is admitted to a provider, either its
  session was active there or the provider has at most its limit of sessions afterwards. A request that is turned away takes nothing,
  and in either case the sessions of every other provider are what they were, without the idle ones.\<close>

theorem provider_capacity:
  assumes acquired: "acquireProvider configured idle ctxErr now ref limit a s = (err, a1, s1)" and wf: "map_wf s"
    and fresh: "map_of (sa_providers a) ref = None" and limited: "0 < limit"
  shows "(\<forall>r. r \<noteq> ref \<longrightarrow> active_sessions r s1 = active_sessions r (prune_retired configured now s)) \<and>
    (if err = None
     then map_of (active_sessions ref (prune_retired configured now s)) (trim_space (sa_id a)) \<noteq> None \<or>
          int (length (active_sessions ref s1)) \<le> limit
     else a1 = a \<and> active_sessions ref s1 = active_sessions ref (prune_retired configured now s))"
proof -
  let ?pruned = "prune_retired configured now s"
  show ?thesis
  proof (cases "provider_limiter idle ref ?pruned")
    case (Inl e)
    with acquired fresh show ?thesis by (auto simp: acquireProvider_def provider_limiter_def Let_def)
  next
    case (Inr l)
    obtain x l1 where run: "acquire_with_limit (Some l) ctxErr (sa_id a) limit now = (x, l1)" by fastforce
    note expired = provider_limiter_expired [OF wf Inr]
    from acquired_sessions [OF run limited] obtain l2 where l2: "l1 = Some l2" "case x of
         Inr lease \<Rightarrow> map_of (active_sessions ref ?pruned) (trim_space (sa_id a)) \<noteq> None \<or> int (length (sl_sessions l2)) \<le> limit
       | Inl e \<Rightarrow> l2 = l \<or> sl_sessions l2 = active_sessions ref ?pruned" unfolding expired by blast
    have out: "(err, a1, s1) = (case x of
        Inl e \<Rightarrow> (Some e, a, map_put ref l2 ?pruned)
      | Inr lease \<Rightarrow> (None, a\<lparr>sa_providers := map_put ref lease (sa_providers a)\<rparr>, map_put ref l2 ?pruned))"
      using acquired fresh limited Inr run l2(1)
      by (cases x) (simp_all add: acquireProvider_def provider_limiter_def Let_def)
    have same: "sl_sessions l = active_sessions ref ?pruned"
    proof (cases "map_of ?pruned ref")
      case None
      with Inr show ?thesis by (auto simp: provider_limiter_def new_session_limiter_def active_sessions_def split: if_splits)
    next
      case (Some l0)
      with Inr show ?thesis by (simp add: provider_limiter_def active_sessions_def)
    qed
    show ?thesis using out l2(2) same by (cases x) (auto simp: active_put)
  qed
qed

definition sample_admission :: session_admission where
  "sample_admission = \<lparr>sa_id = ''c'', sa_providers = []\<rparr>"

definition sample_full :: provider_sessions where
  "sample_full = [(''p'', \<lparr>sl_max = 0, sl_idleTTL = minute, sl_sessions = [(''b'', \<lparr>se_requests = 1, se_lastInput = 9, se_lastOutput = 0,
     se_retain = False\<rparr>)], sl_rejected = 0\<rparr>)]"

lemma sample_turned_away:
  "fst (acquireProvider [''p''] 60 None 10 ''p'' 1 sample_admission sample_full) = Some ErrActiveSessionLimit"
  by code_simp

theorem provider_capacity_witness:
  "fst (snd (acquireProvider [''p''] 60 None 10 ''p'' 1 sample_admission sample_full)) = sample_admission \<and>
   active_sessions ''p'' (snd (snd (acquireProvider [''p''] 60 None 10 ''p'' 1 sample_admission sample_full))) =
     active_sessions ''p'' (prune_retired [''p''] 10 sample_full)"
proof (cases "acquireProvider [''p''] 60 None 10 ''p'' 1 sample_admission sample_full")
  case (fields err a1 s1)
  with sample_turned_away have "err = Some ErrActiveSessionLimit" by simp
  with provider_capacity [OF fields] fields show ?thesis by (simp add: sample_admission_def sample_full_def map_wf_def)
qed

end
