(* ===== verification/Route_Recovery.thy ===== *)
theory Route_Recovery
  imports Availability
begin

text \<open>
  The failure records of \<^verbatim>\<open>internal/gateway/route_recovery.go\<close> and the rule of
  \<^verbatim>\<open>auto_chain.go\<close> for the errors that advance a chain, with the contract of a table of such
  records: the auto chain and the shared-model affinity both keep one, and both let a single request
  test a failed route.

  A record is its address \<open>rf_id\<close>: the code compares pointers to tell a record from one that has
  replaced it.
\<close>

section \<open>Failure records\<close>

record route_failure =
  rf_id :: nat
  rf_retryAt :: time
  rf_probing :: bool

definition rf_eligible :: "route_failure option \<Rightarrow> time \<Rightarrow> bool" where
  "rf_eligible f now = (case f of None \<Rightarrow> True | Some r \<Rightarrow> \<not> rf_probing r \<and> \<not> now < rf_retryAt r)"

definition recoveryCooldown :: "call_error option \<Rightarrow> duration" where
  "recoveryCooldown callErr =
     (case callErr of
        None \<Rightarrow> routeRecoveryCooldown
      | Some e \<Rightarrow>
          (let delay = (if provider_scoped_terminal (ce_Category e) then billingExhaustionCooldown else routeRecoveryCooldown)
           in if delay < ce_Cooldown e then ce_Cooldown e else delay))"

text \<open>\<open>completeRecovery\<close> returns the record as it leaves it, and whether the route has recovered.\<close>

definition completeRecovery ::
  "route_failure \<Rightarrow> time \<Rightarrow> bool \<Rightarrow> go_error option \<Rightarrow> ctx_error option \<Rightarrow> bool \<times> route_failure"
where
  "completeRecovery probe now handled callErr ctxErr =
     (let p = probe\<lparr>rf_probing := False\<rparr> in
      if handled \<or> ctxErr \<noteq> None then (False, p)
      else if callErr = None then (True, p)
      else
        (case as_call_error callErr of
           None \<Rightarrow> (False, p\<lparr>rf_retryAt := now + recoveryCooldown None\<rparr>)
         | Some e \<Rightarrow> (False, if \<not> ce_UpstreamNotAttempted e then p\<lparr>rf_retryAt := now + recoveryCooldown (Some e)\<rparr> else p)))"

definition autoChainFailureAdvances :: "call_error option \<Rightarrow> ctx_error option \<Rightarrow> bool \<Rightarrow> bool" where
  "autoChainFailureAdvances callErr ctxErr delivered =
     (case callErr of
        None \<Rightarrow> False
      | Some e \<Rightarrow>
          if \<not> ce_FailoverSafe e \<or> ctxErr \<noteq> None then False
          else if ce_Code e = ''upstream_transport_error'' \<and> ce_UpstreamNotAttempted e then \<not> delivered
          else ce_Category e \<in> {ProviderErrorModelNotFound, ProviderErrorInsufficientBalance, ProviderErrorQuotaExhausted,
                 ProviderErrorTemporarilyUnavailable})"

lemma complete_keeps_id [simp]: "rf_id (snd (completeRecovery r now h e c)) = rf_id r"
  by (simp add: completeRecovery_def Let_def split: option.splits)

lemma complete_not_probing [simp]: "\<not> rf_probing (snd (completeRecovery r now h e c))"
  by (simp add: completeRecovery_def Let_def split: option.splits)

lemma complete_recovered_iff: "fst (completeRecovery r now h e c) \<longleftrightarrow> \<not> h \<and> c = None \<and> e = None"
  by (auto simp: completeRecovery_def Let_def split: option.splits)

lemma recoveryCooldown_min: "30 * second \<le> recoveryCooldown e"
  by (auto simp: recoveryCooldown_def Let_def split: option.splits)

section \<open>Requests that test a route\<close>

text \<open>
  A run of requests over a table: each may take a probe, gives it back when it finishes, and other
  operations go on in between. The second component lists the probes held, with their routes.
\<close>

inductive probe_step ::
  "('k \<Rightarrow> time \<Rightarrow> 's \<Rightarrow> (nat option \<times> bool) \<times> 's) \<Rightarrow> ('k \<Rightarrow> nat \<Rightarrow> 's \<Rightarrow> 's \<Rightarrow> bool) \<Rightarrow> ('s \<Rightarrow> 's \<Rightarrow> bool)
     \<Rightarrow> 's \<times> ('k \<times> nat) list \<Rightarrow> 's \<times> ('k \<times> nat) list \<Rightarrow> bool"
  for start fin other where
  take: "start k now s = ((Some a, True), s') \<Longrightarrow> probe_step start fin other (s, H) (s', (k, a) # H)"
| pass: "start k now s = ((None, b), s') \<Longrightarrow> probe_step start fin other (s, H) (s', H)"
| give: "fin k a s s' \<Longrightarrow> probe_step start fin other (s, H @ (k, a) # J) (s', H @ J)"
| else: "other s s' \<Longrightarrow> probe_step start fin other (s, H) (s', H)"

text \<open>
  The contract of a table: \<open>failed\<close> reads the record of a route, \<open>start\<close> is the begin of a recovery,
  \<open>fin\<close> its end for the record it was given, \<open>other\<close> every other operation, \<open>fresh\<close> is above the
  addresses in use.
\<close>

locale probe_table =
  fixes failed :: "'s \<Rightarrow> 'k \<Rightarrow> route_failure option"
    and fresh :: "'s \<Rightarrow> nat"
    and start :: "'k \<Rightarrow> time \<Rightarrow> 's \<Rightarrow> (nat option \<times> bool) \<times> 's"
    and fin :: "'k \<Rightarrow> nat \<Rightarrow> 's \<Rightarrow> 's \<Rightarrow> bool"
    and other :: "'s \<Rightarrow> 's \<Rightarrow> bool"
  assumes start_none: "failed s k = None \<Longrightarrow> start k now s = ((None, True), s)"
    and start_refused: "failed s k = Some r \<Longrightarrow> \<not> rf_eligible (Some r) now \<Longrightarrow> start k now s = ((None, False), s)"
    and start_taken: "failed s k = Some r \<Longrightarrow> rf_eligible (Some r) now \<Longrightarrow>
      \<exists>s'. start k now s = ((Some (rf_id r), True), s') \<and> failed s' = (failed s)(k := Some (r\<lparr>rf_probing := True\<rparr>)) \<and> fresh s' = fresh s"
    and fin_other: "fin k a s s' \<Longrightarrow> map_option rf_id (failed s k) \<noteq> Some a \<Longrightarrow> s' = s"
    and fin_own: "fin k a s s' \<Longrightarrow> failed s k = Some r \<Longrightarrow> rf_id r = a \<Longrightarrow>
      fresh s' = fresh s \<and> (\<exists>n. failed s' = (failed s)(k := n) \<and> (case n of None \<Rightarrow> True | Some r' \<Rightarrow> rf_id r' = a \<and> \<not> rf_probing r'))"
    and other_keeps: "other s s' \<Longrightarrow> failed s' k = Some r \<Longrightarrow>
      failed s k = Some r \<or> \<not> rf_probing r \<and> fresh s \<le> rf_id r \<and> rf_id r < fresh s'"
    and other_fresh: "other s s' \<Longrightarrow> fresh s \<le> fresh s'"
begin

definition table_inv :: "'s \<times> ('k \<times> nat) list \<Rightarrow> bool" where
  "table_inv y \<longleftrightarrow>
     (\<forall>k r. failed (fst y) k = Some r \<longrightarrow> rf_id r < fresh (fst y) \<and> (rf_probing r \<longleftrightarrow> (k, rf_id r) \<in> set (snd y))) \<and>
     (\<forall>ka \<in> set (snd y). snd ka < fresh (fst y)) \<and> distinct (snd y)"

lemma table_invD:
  assumes "table_inv (s, H)" "failed s k = Some r"
  shows "rf_id r < fresh s" "rf_probing r \<longleftrightarrow> (k, rf_id r) \<in> set H"
  using assms by (auto simp: table_inv_def)

lemma take_inv:
  assumes "start k now s = ((Some a, True), s')" "table_inv (s, H)"
  shows "table_inv (s', (k, a) # H)"
proof (cases "failed s k")
  case None
  with assms(1) start_none [OF None, of now] show ?thesis by simp
next
  case (Some r)
  show ?thesis
  proof (cases "rf_eligible (Some r) now")
    case True
    from start_taken [OF Some True] assms(1) have a: "a = rf_id r" and f: "failed s' = (failed s)(k := Some (r\<lparr>rf_probing := True\<rparr>))"
      and fr: "fresh s' = fresh s" by auto
    have "(k, a) \<notin> set H" using True table_invD(2) [OF assms(2) Some] by (simp add: a rf_eligible_def)
    moreover have "a < fresh s" using table_invD(1) [OF assms(2) Some] a by simp
    ultimately show ?thesis using assms(2) Some unfolding table_inv_def by (auto simp: f fr a)
  next
    case False
    with start_refused [OF Some False] assms(1) show ?thesis by simp
  qed
qed

lemma pass_inv:
  assumes "start k now s = ((None, b), s')"
  shows "s' = s"
proof (cases "failed s k")
  case None
  with assms start_none [OF None, of now] show ?thesis by simp
next
  case (Some r)
  with assms start_taken [OF Some, of now] start_refused [OF Some, of now] show ?thesis by fastforce
qed

lemma give_inv:
  assumes "fin k a s s'" "table_inv (s, H @ (k, a) # J)"
  shows "table_inv (s', H @ J)"
proof (cases "map_option rf_id (failed s k) = Some a")
  case False
  with fin_other [OF assms(1)] have "s' = s" by simp
  with False assms(2) show ?thesis by (auto simp: table_inv_def)
next
  case True
  then obtain r where r: "failed s k = Some r" "rf_id r = a" by auto
  from fin_own [OF assms(1) r] obtain n where f: "failed s' = (failed s)(k := n)" "fresh s' = fresh s"
    and n: "case n of None \<Rightarrow> True | Some r' \<Rightarrow> rf_id r' = a \<and> \<not> rf_probing r'" by blast
  have na: "(k, a) \<notin> set (H @ J)" using assms(2) by (auto simp: table_inv_def)
  have "rf_id r' < fresh s \<and> (rf_probing r' \<longleftrightarrow> (j, rf_id r') \<in> set (H @ J))" if "failed s' j = Some r'" for j r'
  proof (cases "j = k")
    case True
    with that f n na table_invD(1) [OF assms(2) r(1)] r(2) show ?thesis by auto
  next
    case False
    with that f have "failed s j = Some r'" by simp
    from table_invD [OF assms(2) this] False show ?thesis by auto
  qed
  then show ?thesis using assms(2) f(2) by (auto simp: table_inv_def)
qed

lemma other_inv:
  assumes "other s s'" "table_inv (s, H)"
  shows "table_inv (s', H)"
proof -
  have "rf_id r < fresh s' \<and> (rf_probing r \<longleftrightarrow> (k, rf_id r) \<in> set H)" if "failed s' k = Some r" for k r
    using other_keeps [OF assms(1) that]
  proof
    assume "failed s k = Some r"
    from table_invD [OF assms(2) this] other_fresh [OF assms(1)] show ?thesis by simp
  next
    assume new: "\<not> rf_probing r \<and> fresh s \<le> rf_id r \<and> rf_id r < fresh s'"
    then have "(k, rf_id r) \<notin> set H" using assms(2) by (auto simp: table_inv_def)
    with new show ?thesis by simp
  qed
  then show ?thesis using assms(2) other_fresh [OF assms(1)] by (auto simp: table_inv_def)
qed

lemma probe_step_inv: "probe_step start fin other y z \<Longrightarrow> table_inv y \<Longrightarrow> table_inv z"
  by (induction rule: probe_step.induct) (auto intro: take_inv give_inv other_inv dest: pass_inv)

end

sublocale probe_table \<subseteq> probes: safe_system "\<lambda>y. failed (fst y) = (\<lambda>_. None) \<and> snd y = []" "probe_step start fin other" table_inv
proof
  show "table_inv y" if "failed (fst y) = (\<lambda>_. None) \<and> snd y = []" for y
    using that by (simp add: table_inv_def)
qed (rule probe_step_inv)

context probe_table
begin

text \<open>What the clients of a table rely on: a record is tested by one request at a time, which is in
  flight as long as the record says so, and no one else may start meanwhile.\<close>

lemma single_probe:
  assumes "failed s0 = (\<lambda>_. None)" "(probe_step start fin other)\<^sup>*\<^sup>* (s0, []) (s, H)" "failed s k = Some r"
  shows "distinct H" "rf_probing r \<longleftrightarrow> (k, rf_id r) \<in> set H" "(k, rf_id r) \<in> set H \<Longrightarrow> start k now s = ((None, False), s)"
    "(k, rf_id r) \<notin> set H \<Longrightarrow> rf_retryAt r \<le> now \<Longrightarrow> fst (start k now s) = (Some (rf_id r), True)"
proof -
  have inv: "table_inv (s, H)" using probes.run_inv [OF _ assms(2)] assms(1) by simp
  then show "distinct H" by (simp add: table_inv_def)
  show p: "rf_probing r \<longleftrightarrow> (k, rf_id r) \<in> set H" by (rule table_invD(2) [OF inv assms(3)])
  show "start k now s = ((None, False), s)" if "(k, rf_id r) \<in> set H"
    using start_refused [OF assms(3)] p that by (simp add: rf_eligible_def)
  show "fst (start k now s) = (Some (rf_id r), True)" if "(k, rf_id r) \<notin> set H" "rf_retryAt r \<le> now"
    using start_taken [OF assms(3), of now] p that by (auto simp: rf_eligible_def)
qed

end

end
