(* ===== verification/Auto_Chain.thy ===== *)
theory Auto_Chain
  imports Route_Recovery
begin

text \<open>
  \<^verbatim>\<open>internal/gateway/auto_chain.go\<close> and \<open>restoreProvider\<close> of \<^verbatim>\<open>route_recovery.go\<close>: the ordered chain
  of provider/model pairs behind the model name \<open>auto\<close>, with the sessions bound to its entries and
  the failure records of its entries.

  Indices are natural numbers: the code only ever stores indices of the chain. A session is a key
  of the map under its SHA-256 digest in hexadecimal; the digest function is the argument \<open>hash\<close>,
  about which nothing is assumed. The clock is the argument \<open>now\<close>.
\<close>

section \<open>State\<close>

abbreviation defaultAutoChainSessionTTL :: duration where "defaultAutoChainSessionTTL \<equiv> day"
abbreviation autoChainPruneInterval :: duration where "autoChainPruneInterval \<equiv> minute"

record auto_chain_entry =
  ace_Provider :: string
  ace_Model :: string

record auto_chain_selection =
  sel_provider :: string
  sel_model :: string
  sel_index :: nat

record auto_chain_binding =
  acb_index :: nat
  acb_lastTouch :: time

record auto_chain =
  ac_entries :: "auto_chain_entry list"
  ac_next :: nat
  ac_ttl :: duration
  ac_lastPrune :: time
  ac_sessions :: "(string, auto_chain_binding) gomap"
  ac_failed :: "(nat, route_failure) gomap"
  ac_fresh :: nat

definition newAutoChainState :: "auto_chain_entry list \<Rightarrow> duration \<Rightarrow> auto_chain" where
  "newAutoChainState entries idleTTL =
     \<lparr>ac_entries = entries, ac_next = 0,
      ac_ttl = (if idleTTL < defaultAutoChainSessionTTL then defaultAutoChainSessionTTL else idleTTL),
      ac_lastPrune = 0, ac_sessions = [], ac_failed = [], ac_fresh = 0\<rparr>"

definition chain_selection :: "auto_chain \<Rightarrow> nat \<Rightarrow> auto_chain_selection" where
  "chain_selection s index =
     \<lparr>sel_provider = ace_Provider (ac_entries s ! index), sel_model = ace_Model (ac_entries s ! index), sel_index = index\<rparr>"

section \<open>Selection\<close>

definition chain_valid :: "auto_chain \<Rightarrow> time \<Rightarrow> (auto_chain_entry \<Rightarrow> bool) option \<Rightarrow> nat \<Rightarrow> bool" where
  "chain_valid s now usable index \<longleftrightarrow>
     index < length (ac_entries s) \<and> rf_eligible (map_of (ac_failed s) index) now \<and>
     (case usable of None \<Rightarrow> True | Some f \<Rightarrow> f (ac_entries s ! index))"

text \<open>\<open>for index < n && !valid(index) { index++ }\<close>\<close>

function skip_invalid :: "(nat \<Rightarrow> bool) \<Rightarrow> nat \<Rightarrow> nat \<Rightarrow> nat" where
  "skip_invalid valid n index = (if index < n \<and> \<not> valid index then skip_invalid valid n (index + 1) else index)"
  by pat_completeness auto
termination
  by (relation "measure (\<lambda>(valid, n, index). n - index)") auto

declare skip_invalid.simps [simp del]

definition chain_prune :: "time \<Rightarrow> auto_chain \<Rightarrow> auto_chain" where
  "chain_prune now s =
     (if ac_lastPrune s = 0 \<or> autoChainPruneInterval \<le> time_sub now (ac_lastPrune s)
      then s\<lparr>ac_sessions := map_keep (\<lambda>_ b. \<not> ac_ttl s \<le> time_sub now (acb_lastTouch b)) (ac_sessions s), ac_lastPrune := now\<rparr>
      else s)"

text \<open>The choice for a request without a usable binding: an earlier entry that failed and is
  eligible again, else the first valid entry from \<open>next\<close> on.\<close>

definition chain_choice :: "auto_chain \<Rightarrow> time \<Rightarrow> (auto_chain_entry \<Rightarrow> bool) option \<Rightarrow> nat option" where
  "chain_choice s now usable =
     (let n = length (ac_entries s); valid = chain_valid s now usable;
          index0 = (case find (\<lambda>j. map_of (ac_failed s) j \<noteq> None \<and> valid j) [0..<min (ac_next s) n] of
                      Some earlier \<Rightarrow> earlier | None \<Rightarrow> ac_next s);
          index = skip_invalid valid n index0
      in if n \<le> index then None else Some index)"

definition selectForSessionAvailable ::
  "(string \<Rightarrow> string) \<Rightarrow> string \<Rightarrow> bool \<Rightarrow> (auto_chain_entry \<Rightarrow> bool) option \<Rightarrow> time \<Rightarrow> auto_chain
     \<Rightarrow> auto_chain_selection option \<times> auto_chain"
where
  "selectForSessionAvailable hash sessionID sticky usable now s =
     (if sessionID = [] \<or> ac_entries s = [] then (None, s)
      else
        (let s1 = (if sticky then chain_prune now s else s);
             key = hash sessionID;
             bound = (if sticky then
                        (case map_of (ac_sessions s1) key of
                           None \<Rightarrow> None
                         | Some b \<Rightarrow> if time_sub now (acb_lastTouch b) < ac_ttl s1 \<and> chain_valid s1 now usable (acb_index b) then Some b else None)
                      else None)
         in case bound of
              Some b \<Rightarrow>
                (Some (chain_selection s1 (acb_index b)),
                 s1\<lparr>ac_sessions := map_put key (b\<lparr>acb_lastTouch := now\<rparr>) (ac_sessions s1)\<rparr>)
            | None \<Rightarrow>
                (let s2 = (if sticky then s1\<lparr>ac_sessions := map_del key (ac_sessions s1)\<rparr> else s1) in
                 case chain_choice s2 now usable of
                   None \<Rightarrow> (None, s2)
                 | Some index \<Rightarrow>
                     (Some (chain_selection s2 index),
                      if sticky then s2\<lparr>ac_sessions := map_put key \<lparr>acb_index = index, acb_lastTouch = now\<rparr> (ac_sessions s2)\<rparr>
                      else s2))))"

text \<open>\<open>boundRoute\<close>: the entry a session is bound to, touched, without regard to its health.\<close>

definition chain_boundRoute :: "(string \<Rightarrow> string) \<Rightarrow> string option \<Rightarrow> time \<Rightarrow> auto_chain \<Rightarrow> auto_chain_selection option \<times> auto_chain" where
  "chain_boundRoute hash key now s =
     (case key of
        None \<Rightarrow> (None, s)
      | Some k \<Rightarrow>
          (case map_of (ac_sessions s) (hash k) of
             None \<Rightarrow> (None, s)
           | Some b \<Rightarrow>
               if ac_ttl s \<le> time_sub now (acb_lastTouch b) \<or> length (ac_entries s) \<le> acb_index b then (None, s)
               else (Some (chain_selection s (acb_index b)),
                     s\<lparr>ac_sessions := map_put (hash k) (b\<lparr>acb_lastTouch := now\<rparr>) (ac_sessions s)\<rparr>)))"

section \<open>Failures and recovery\<close>

text \<open>\<open>for s.next < len(s.entries) && s.failed[s.next] != nil { s.next++ }\<close>\<close>

definition advance_next :: "auto_chain \<Rightarrow> auto_chain" where
  "advance_next s = s\<lparr>ac_next := skip_invalid (\<lambda>j. map_of (ac_failed s) j = None) (length (ac_entries s)) (ac_next s)\<rparr>"

definition chain_recordFailure ::
  "nat \<Rightarrow> call_error option \<Rightarrow> ctx_error option \<Rightarrow> bool \<Rightarrow> bool \<Rightarrow> time \<Rightarrow> auto_chain \<Rightarrow> auto_chain"
where
  "chain_recordFailure index callErr ctxErr delivered retainBindings now s =
     (if \<not> autoChainFailureAdvances callErr ctxErr delivered \<or> length (ac_entries s) \<le> index then s
      else
        advance_next
          (s\<lparr>ac_failed := map_put index \<lparr>rf_id = ac_fresh s, rf_retryAt = now + recoveryCooldown callErr, rf_probing = False\<rparr> (ac_failed s),
             ac_sessions := map_keep (\<lambda>_ b. \<not> (acb_index b = index \<and> \<not> retainBindings)) (ac_sessions s),
             ac_fresh := Suc (ac_fresh s)\<rparr>))"

definition chain_beginRecovery :: "nat \<Rightarrow> time \<Rightarrow> auto_chain \<Rightarrow> (nat option \<times> bool) \<times> auto_chain" where
  "chain_beginRecovery index now s =
     (case map_of (ac_failed s) index of
        None \<Rightarrow> ((None, True), s)
      | Some r \<Rightarrow>
          if \<not> rf_eligible (Some r) now then ((None, False), s)
          else ((Some (rf_id r), True), s\<lparr>ac_failed := map_put index (r\<lparr>rf_probing := True\<rparr>) (ac_failed s)\<rparr>))"

definition chain_finishRecovery ::
  "nat \<Rightarrow> nat option \<Rightarrow> time \<Rightarrow> bool \<Rightarrow> go_error option \<Rightarrow> ctx_error option \<Rightarrow> auto_chain \<Rightarrow> auto_chain"
where
  "chain_finishRecovery index probe now handled callErr ctxErr s =
     (case probe of
        None \<Rightarrow> s
      | Some a \<Rightarrow>
          (case map_of (ac_failed s) index of
             None \<Rightarrow> s
           | Some r \<Rightarrow>
               if rf_id r \<noteq> a then s
               else
                 (let (recovered, r') = completeRecovery r now handled callErr ctxErr in
                  if recovered
                  then s\<lparr>ac_failed := map_del index (ac_failed s), ac_next := (if index < ac_next s then index else ac_next s)\<rparr>
                  else s\<lparr>ac_failed := map_put index r' (ac_failed s)\<rparr>)))"

definition restore_one :: "string \<Rightarrow> nat \<times> route_failure \<Rightarrow> auto_chain \<Rightarrow> auto_chain" where
  "restore_one provider ir s =
     (if ace_Provider (ac_entries s ! fst ir) = provider
      then s\<lparr>ac_failed := map_del (fst ir) (ac_failed s), ac_next := (if fst ir < ac_next s then fst ir else ac_next s)\<rparr>
      else s)"

definition restoreProvider :: "string \<Rightarrow> auto_chain \<Rightarrow> auto_chain" where
  "restoreProvider provider s = fold (restore_one provider) (ac_failed s) s"

definition advanceForNewSessions :: "nat \<Rightarrow> auto_chain \<Rightarrow> auto_chain" where
  "advanceForNewSessions index s =
     (if index = ac_next s \<and> ac_next s < length (ac_entries s) then s\<lparr>ac_next := ac_next s + 1\<rparr> else s)"

section \<open>Reconfiguration\<close>

text \<open>The index of every entry in the new chain; a later duplicate wins.\<close>

definition entry_indices :: "auto_chain_entry list \<Rightarrow> (auto_chain_entry, nat) gomap" where
  "entry_indices entries = foldl (\<lambda>m (i, e). map_put e i m) [] (zip [0..<length entries] entries)"

definition carry_failure ::
  "auto_chain \<Rightarrow> (auto_chain_entry, nat) gomap \<Rightarrow> (auto_chain_entry \<Rightarrow> bool) \<Rightarrow> nat \<times> route_failure \<Rightarrow> auto_chain \<Rightarrow> auto_chain"
where
  "carry_failure old indices preserveFailures ir next =
     (let entry = ac_entries old ! fst ir in
      case map_of indices entry of
        None \<Rightarrow> next
      | Some newIndex \<Rightarrow>
          if preserveFailures entry
          then next\<lparr>ac_failed := map_put newIndex \<lparr>rf_id = ac_fresh next, rf_retryAt = rf_retryAt (snd ir), rf_probing = False\<rparr> (ac_failed next),
                    ac_fresh := Suc (ac_fresh next)\<rparr>
          else next)"

definition carry_session ::
  "auto_chain \<Rightarrow> time \<Rightarrow> (auto_chain_entry, nat) gomap \<Rightarrow> (auto_chain_entry \<Rightarrow> bool) \<Rightarrow> string \<times> auto_chain_binding \<Rightarrow> auto_chain \<Rightarrow> auto_chain"
where
  "carry_session old now indices preserve kb next =
     (let b = snd kb in
      if ac_ttl old \<le> time_sub now (acb_lastTouch b) \<or> length (ac_entries old) \<le> acb_index b then next
      else
        (let entry = ac_entries old ! acb_index b in
         case map_of indices entry of
           None \<Rightarrow> next
         | Some index \<Rightarrow>
             if preserve entry then next\<lparr>ac_sessions := map_put (fst kb) (b\<lparr>acb_index := index\<rparr>) (ac_sessions next)\<rparr> else next))"

definition reopened ::
  "auto_chain \<Rightarrow> (auto_chain_entry, nat) gomap \<Rightarrow> (auto_chain_entry \<Rightarrow> bool) \<Rightarrow> nat \<times> route_failure \<Rightarrow> nat \<Rightarrow> nat"
where
  "reopened old indices preserveFailures ir m =
     (let entry = ac_entries old ! fst ir in
      case map_of indices entry of
        None \<Rightarrow> m
      | Some newIndex \<Rightarrow> if \<not> preserveFailures entry \<and> newIndex < m then newIndex else m)"

definition reconfiguredWithFailures ::
  "auto_chain_entry list \<Rightarrow> duration \<Rightarrow> (auto_chain_entry \<Rightarrow> bool) \<Rightarrow> (auto_chain_entry \<Rightarrow> bool) \<Rightarrow> bool \<Rightarrow> time
     \<Rightarrow> auto_chain option \<Rightarrow> auto_chain"
where
  "reconfiguredWithFailures entries idleTTL preserve preserveFailures resetPreference now so =
     (let next0 = newAutoChainState entries idleTTL in
      case so of
        None \<Rightarrow> next0
      | Some s \<Rightarrow>
          (let indices = entry_indices entries;
               next1 = fold (carry_failure s indices preserveFailures) (ac_failed s) next0;
               next2 = fold (carry_session s now indices preserve) (ac_sessions s) next1;
               next3 = (if \<not> resetPreference then next2\<lparr>ac_next := fold (reopened s indices preserveFailures) (ac_failed s) (ac_next s)\<rparr> else next2)
           in next3\<lparr>ac_lastPrune := now\<rparr>))"

section \<open>Facts about the loops\<close>

lemma find_append: "find P (xs @ ys) = (case find P xs of Some x \<Rightarrow> Some x | None \<Rightarrow> find P ys)"
  by (induction xs) auto

lemma find_in: "find P xs = Some x \<Longrightarrow> P x \<and> x \<in> set xs"
  by (auto simp: find_Some_iff)

lemma skip_invalid_find: "skip_invalid v n i = (case find v [i..<n] of Some j \<Rightarrow> j | None \<Rightarrow> max i n)"
proof (induction v n i rule: skip_invalid.induct)
  case (1 v n i)
  show ?case
  proof (cases "i < n")
    case True
    then have upt: "[i..<n] = i # [Suc i..<n]" by (rule upt_conv_Cons)
    with True 1 show ?thesis
      by (subst skip_invalid.simps) (auto simp: max_def split: option.splits)
  qed (subst skip_invalid.simps, simp)
qed

lemma skip_invalid_le: "i \<le> n \<Longrightarrow> skip_invalid v n i \<le> n"
  by (auto simp: skip_invalid_find max_def split: option.splits dest!: find_in)

lemma skip_invalid_before: "j < skip_invalid v n i \<Longrightarrow> i \<le> j \<Longrightarrow> \<not> v j"
proof (induction v n i rule: skip_invalid.induct)
  case (1 v n i)
  show ?case
  proof (cases "i < n \<and> \<not> v i")
    case True
    with 1 skip_invalid.simps [of v n i] show ?thesis by (cases "j = i") auto
  next
    case False
    with "1.prems" skip_invalid.simps [of v n i] show ?thesis by auto
  qed
qed

section \<open>Invariant\<close>

text \<open>Every entry before \<open>next\<close> has failed; all indices stored are indices of the chain.\<close>

definition chain_inv :: "auto_chain \<Rightarrow> bool" where
  "chain_inv s \<longleftrightarrow> map_wf (ac_failed s) \<and> map_wf (ac_sessions s) \<and> ac_next s \<le> length (ac_entries s) \<and>
     (\<forall>j < ac_next s. map_of (ac_failed s) j \<noteq> None) \<and>
     (\<forall>j r. map_of (ac_failed s) j = Some r \<longrightarrow> j < length (ac_entries s)) \<and>
     (\<forall>k b. map_of (ac_sessions s) k = Some b \<longrightarrow> acb_index b < length (ac_entries s))"

lemma chain_inv_new: "chain_inv (newAutoChainState entries ttl)"
  by (simp add: chain_inv_def newAutoChainState_def)

text \<open>Under the invariant the two loops of the selection together find the first valid entry.\<close>

lemma chain_choice_first:
  assumes "chain_inv s"
  shows "chain_choice s now usable = find (chain_valid s now usable) [0..<length (ac_entries s)]"
proof -
  let ?n = "length (ac_entries s)" and ?v = "chain_valid s now usable"
  have le: "ac_next s \<le> ?n" using assms by (simp add: chain_inv_def)
  have "find (\<lambda>j. map_of (ac_failed s) j \<noteq> None \<and> ?v j) [0..<ac_next s] = find ?v [0..<ac_next s]"
    using assms by (intro find_cong) (auto simp: chain_inv_def)
  moreover have "[0..<?n] = [0..<ac_next s] @ [ac_next s..<?n]" using le upt_add_eq_append [of 0 "ac_next s" "?n - ac_next s"] by simp
  moreover have "j < ?n \<and> find ?v [j..<?n] = Some j" if "find ?v [0..<ac_next s] = Some j" for j
    using find_in [OF that] le by (auto simp: upt_conv_Cons)
  moreover have "j < ?n" if "find ?v [ac_next s..<?n] = Some j" for j using find_in [OF that] by auto
  ultimately show ?thesis
    using le by (auto simp: chain_choice_def Let_def skip_invalid_find find_append min_absorb1 max_def split: option.splits)
qed

lemma chain_inv_sessions:
  assumes "chain_inv s" "map_wf m" "\<And>k b. map_of m k = Some b \<Longrightarrow> acb_index b < length (ac_entries s)"
  shows "chain_inv (s\<lparr>ac_sessions := m\<rparr>)"
  using assms unfolding chain_inv_def by auto

lemma chain_inv_put:
  assumes "chain_inv s" "acb_index b < length (ac_entries s)"
  shows "chain_inv (s\<lparr>ac_sessions := map_put k b (ac_sessions s)\<rparr>)"
  using assms by (intro chain_inv_sessions) (auto simp: chain_inv_def lookup_put split: if_splits)

lemma chain_inv_del: "chain_inv s \<Longrightarrow> chain_inv (s\<lparr>ac_sessions := map_del k (ac_sessions s)\<rparr>)"
  by (intro chain_inv_sessions) (auto simp: chain_inv_def lookup_del split: if_splits)

lemma chain_inv_prune: "chain_inv s \<Longrightarrow> chain_inv (chain_prune now s)"
  by (auto simp: chain_prune_def chain_inv_def lookup_keep split: option.splits if_splits)

lemma chain_prune_frame [simp]:
  "ac_entries (chain_prune now s) = ac_entries s" "ac_failed (chain_prune now s) = ac_failed s"
  "ac_next (chain_prune now s) = ac_next s" "ac_fresh (chain_prune now s) = ac_fresh s" "ac_ttl (chain_prune now s) = ac_ttl s"
  by (simp_all add: chain_prune_def)

lemma chain_valid_sessions [simp]: "chain_valid (s\<lparr>ac_sessions := m\<rparr>) = chain_valid s"
  by (intro ext) (simp add: chain_valid_def split: option.split)

lemma chain_valid_prune [simp]: "chain_valid (chain_prune now s) = chain_valid s"
  by (intro ext) (simp add: chain_valid_def split: option.split)

lemma select_frame:
  assumes "selectForSessionAvailable hash sid sticky usable now s = (r, s')"
  shows "ac_entries s' = ac_entries s" "ac_failed s' = ac_failed s" "ac_fresh s' = ac_fresh s"
  using assms by (auto simp: selectForSessionAvailable_def Let_def split: if_splits option.splits)

lemma chain_choice_range: "chain_inv s \<Longrightarrow> chain_choice s now usable = Some i \<Longrightarrow> i < length (ac_entries s)"
  by (auto simp: chain_choice_first dest!: find_in)

lemma select_inv:
  assumes "chain_inv s" "selectForSessionAvailable hash sid sticky usable now s = (r, s')"
  shows "chain_inv s'"
proof -
  let ?p = "if sticky then chain_prune now s else s"
  let ?d = "if sticky then ?p\<lparr>ac_sessions := map_del (hash sid) (ac_sessions ?p)\<rparr> else ?p"
  have p: "chain_inv ?p" and d: "chain_inv ?d" using assms(1) by (auto intro: chain_inv_prune chain_inv_del)
  have put: "chain_inv (?d\<lparr>ac_sessions := map_put k \<lparr>acb_index = i, acb_lastTouch = now\<rparr> (ac_sessions ?d)\<rparr>)"
    if "chain_choice ?d now usable = Some i" for k i
    using d chain_choice_range [OF d that] by (intro chain_inv_put) auto
  have touch: "chain_inv (?p\<lparr>ac_sessions := map_put k (b\<lparr>acb_lastTouch := now\<rparr>) (ac_sessions ?p)\<rparr>)"
    if "chain_valid ?p now usable (acb_index b)" for k b
    using p that by (intro chain_inv_put) (auto simp: chain_valid_def)
  show ?thesis
    using assms(2) p d put touch assms(1)
    by (cases sticky) (auto simp: selectForSessionAvailable_def Let_def split: if_splits option.splits)
qed

lemma record_inv:
  assumes "chain_inv s"
  shows "chain_inv (chain_recordFailure i e c dl rt now s)"
proof (cases "\<not> autoChainFailureAdvances e c dl \<or> length (ac_entries s) \<le> i")
  case False
  define f where "f = map_put i \<lparr>rf_id = ac_fresh s, rf_retryAt = now + recoveryCooldown e, rf_probing = False\<rparr> (ac_failed s)"
  define t where "t = s\<lparr>ac_failed := f, ac_sessions := map_keep (\<lambda>_ b. \<not> (acb_index b = i \<and> \<not> rt)) (ac_sessions s), ac_fresh := Suc (ac_fresh s)\<rparr>"
  have f: "map_of f j = None \<longleftrightarrow> j \<noteq> i \<and> map_of (ac_failed s) j = None" for j by (simp add: f_def lookup_put)
  have t: "chain_inv t"
    using assms False by (auto simp: chain_inv_def t_def f_def lookup_put lookup_keep split: option.splits if_splits)
  have "chain_inv (advance_next t)"
  proof -
    have "map_of (ac_failed t) j \<noteq> None" if "j < skip_invalid (\<lambda>j. map_of (ac_failed t) j = None) (length (ac_entries t)) (ac_next t)" for j
    proof (cases "ac_next t \<le> j")
      case True
      then show ?thesis using skip_invalid_before [OF that] by simp
    qed (use t in \<open>simp add: chain_inv_def\<close>)
    then show ?thesis
      using t skip_invalid_le [of "ac_next t" "length (ac_entries t)"] by (simp add: chain_inv_def advance_next_def)
  qed
  with False show ?thesis by (simp add: chain_recordFailure_def t_def f_def)
qed (use assms in \<open>simp add: chain_recordFailure_def\<close>)

lemma recovered_inv:
  assumes "chain_inv s" "m \<le> i" "m \<le> ac_next s"
  shows "chain_inv (s\<lparr>ac_failed := map_del i (ac_failed s), ac_next := m\<rparr>)"
  using assms by (auto simp: chain_inv_def lookup_del)

lemma update_failed_inv:
  "chain_inv s \<Longrightarrow> map_of (ac_failed s) i \<noteq> None \<Longrightarrow> chain_inv (s\<lparr>ac_failed := map_put i r (ac_failed s)\<rparr>)"
  by (auto simp: chain_inv_def lookup_put)

lemma begin_inv: "chain_inv s \<Longrightarrow> chain_inv (snd (chain_beginRecovery i now s))"
  by (auto simp: chain_beginRecovery_def intro: update_failed_inv split: option.splits)

lemma finish_cases:
  "chain_finishRecovery i p now h e c s = s \<or>
   (\<exists>r. map_of (ac_failed s) i = Some r \<and> p = Some (rf_id r) \<and>
     chain_finishRecovery i p now h e c s =
       (if fst (completeRecovery r now h e c)
        then s\<lparr>ac_failed := map_del i (ac_failed s), ac_next := (if i < ac_next s then i else ac_next s)\<rparr>
        else s\<lparr>ac_failed := map_put i (snd (completeRecovery r now h e c)) (ac_failed s)\<rparr>))"
  by (cases p; cases "map_of (ac_failed s) i") (auto simp: chain_finishRecovery_def case_prod_unfold)

lemma finish_inv:
  assumes "chain_inv s"
  shows "chain_inv (chain_finishRecovery i p now h e c s)"
  using finish_cases [of i p now h e c s]
proof
  assume "\<exists>r. map_of (ac_failed s) i = Some r \<and> p = Some (rf_id r) \<and>
     chain_finishRecovery i p now h e c s =
       (if fst (completeRecovery r now h e c)
        then s\<lparr>ac_failed := map_del i (ac_failed s), ac_next := (if i < ac_next s then i else ac_next s)\<rparr>
        else s\<lparr>ac_failed := map_put i (snd (completeRecovery r now h e c)) (ac_failed s)\<rparr>)"
  then obtain r where r: "map_of (ac_failed s) i = Some r" and eq: "chain_finishRecovery i p now h e c s =
       (if fst (completeRecovery r now h e c)
        then s\<lparr>ac_failed := map_del i (ac_failed s), ac_next := (if i < ac_next s then i else ac_next s)\<rparr>
        else s\<lparr>ac_failed := map_put i (snd (completeRecovery r now h e c)) (ac_failed s)\<rparr>)" by blast
  show ?thesis unfolding eq using assms r recovered_inv [OF assms, of "if i < ac_next s then i else ac_next s" i] update_failed_inv
    by auto
qed (use assms in simp)

lemma restore_inv: "chain_inv s \<Longrightarrow> chain_inv (restoreProvider p s)"
proof -
  have one: "chain_inv (restore_one p ir t)" if "chain_inv t" for ir t
    using that recovered_inv [OF that, of "if fst ir < ac_next t then fst ir else ac_next t" "fst ir"] by (simp add: restore_one_def)
  have "chain_inv (fold (restore_one p) xs t)" if "chain_inv t" for xs t
    using that by (induction xs arbitrary: t) (simp_all add: one)
  then show "chain_inv s \<Longrightarrow> chain_inv (restoreProvider p s)" by (simp add: restoreProvider_def)
qed

lemma bound_inv: "chain_inv s \<Longrightarrow> chain_inv (snd (chain_boundRoute hash k now s))"
  by (auto simp: chain_boundRoute_def intro!: chain_inv_put split: option.splits)

inductive chain_other :: "auto_chain \<Rightarrow> auto_chain \<Rightarrow> bool" where
  select: "selectForSessionAvailable hash sid sticky usable now s = (r, s') \<Longrightarrow> chain_other s s'"
| bound: "chain_boundRoute hash key now s = (r, s') \<Longrightarrow> chain_other s s'"
| fail: "chain_other s (chain_recordFailure i e c dl rt now s)"
| restore: "chain_other s (restoreProvider provider s)"

inductive chain_step :: "auto_chain \<Rightarrow> auto_chain \<Rightarrow> bool" where
  other: "chain_other s s' \<Longrightarrow> chain_step s s'"
| probe: "chain_step s (snd (chain_beginRecovery i now s))"
| finish: "chain_step s (chain_finishRecovery i p now h e c s)"

lemma chain_other_inv: "chain_other s s' \<Longrightarrow> chain_inv s \<Longrightarrow> chain_inv s'"
proof (induction rule: chain_other.induct)
  case (select hash sid sticky usable now s r s')
  show ?case by (rule select_inv [OF select.prems select.hyps])
next
  case (bound hash key now s r s')
  from bound_inv [OF bound.prems, of hash key now] bound.hyps show ?case by simp
qed (simp_all add: record_inv restore_inv)

interpretation chain_safety: safe_system "\<lambda>s. \<exists>entries ttl. s = newAutoChainState entries ttl" chain_step chain_inv
proof
  show "chain_inv s" if "\<exists>entries ttl. s = newAutoChainState entries ttl" for s
    using that chain_inv_new by auto
  show "chain_inv t" if "chain_step s t" "chain_inv s" for s t
    using that by (induction rule: chain_step.induct) (auto intro: chain_other_inv begin_inv finish_inv)
qed

section \<open>Properties of the selection\<close>

text \<open>The entry a sticky request finds itself bound to, when the binding is fresh and its route usable.\<close>

definition usable_binding ::
  "(string \<Rightarrow> string) \<Rightarrow> string \<Rightarrow> (auto_chain_entry \<Rightarrow> bool) option \<Rightarrow> time \<Rightarrow> auto_chain \<Rightarrow> nat option"
where
  "usable_binding hash sid usable now s =
     (case map_of (ac_sessions s) (hash sid) of
        None \<Rightarrow> None
      | Some b \<Rightarrow> if time_sub now (acb_lastTouch b) < ac_ttl s \<and> chain_valid s now usable (acb_index b) then Some (acb_index b) else None)"

lemma prune_binding:
  assumes "map_wf (ac_sessions s)" "map_of (ac_sessions s) k = Some b" "time_sub now (acb_lastTouch b) < ac_ttl s"
  shows "map_of (ac_sessions (chain_prune now s)) k = Some b"
  using assms by (simp add: chain_prune_def lookup_keep)

lemma usable_binding_prune:
  assumes "map_wf (ac_sessions s)"
  shows "usable_binding hash sid usable now (chain_prune now s) = usable_binding hash sid usable now s"
  using assms by (auto simp: usable_binding_def chain_prune_def lookup_keep chain_valid_def split: option.splits)

lemma select_spec:
  assumes "chain_inv s" "sid \<noteq> []"
  shows "fst (selectForSessionAvailable hash sid sticky usable now s) =
    map_option (chain_selection s)
      (case (if sticky then usable_binding hash sid usable now s else None) of
         Some i \<Rightarrow> Some i
       | None \<Rightarrow> find (chain_valid s now usable) [0..<length (ac_entries s)])"
proof -
  let ?p = "if sticky then chain_prune now s else s"
  let ?d = "if sticky then ?p\<lparr>ac_sessions := map_del (hash sid) (ac_sessions ?p)\<rparr> else ?p"
  have wf: "map_wf (ac_sessions s)" using assms(1) by (simp add: chain_inv_def)
  have d: "chain_inv ?d" using assms(1) by (auto intro: chain_inv_prune chain_inv_del)
  have choice: "chain_choice ?d now usable = find (chain_valid s now usable) [0..<length (ac_entries s)]"
    using chain_choice_first [OF d] by (cases sticky) auto
  have sel: "chain_selection ?d = chain_selection s" "chain_selection ?p = chain_selection s"
    by (auto simp: chain_selection_def fun_eq_iff)
  have bind: "(if sticky then usable_binding hash sid usable now s else None) = (if sticky then usable_binding hash sid usable now ?p else None)"
    using usable_binding_prune [OF wf] by simp
  show ?thesis
  proof (cases "ac_entries s = []")
    case True
    then show ?thesis
      by (auto simp: selectForSessionAvailable_def usable_binding_def chain_valid_def split: option.splits)
  next
    case False
    then show ?thesis
      unfolding bind
      using choice sel assms(2)
      by (cases sticky) (auto simp: selectForSessionAvailable_def usable_binding_def Let_def split: option.splits)
  qed
qed

text \<open>C26. In every reachable state of a chain a request gets the route its session is bound to, as long
  as that is fresh and usable, and otherwise the first usable entry in configured order. It gets
  none exactly when no entry is usable: the bookkeeping with \<open>next\<close> never hides a usable entry.\<close>

theorem chain_selects_first_usable:
  assumes "chain_step\<^sup>*\<^sup>* (newAutoChainState entries ttl) s" and "sid \<noteq> []"
  shows "fst (selectForSessionAvailable hash sid sticky usable now s) =
    map_option (chain_selection s)
      (case (if sticky then usable_binding hash sid usable now s else None) of
         Some i \<Rightarrow> Some i
       | None \<Rightarrow> find (chain_valid s now usable) [0..<length (ac_entries s)])"
proof -
  have "chain_inv s" using chain_safety.run_inv [OF _ assms(1)] by blast
  then show ?thesis using assms(2) by (rule select_spec)
qed

definition sample_chain :: auto_chain where
  "sample_chain = newAutoChainState [\<lparr>ace_Provider = ''p'', ace_Model = ''m''\<rparr>, \<lparr>ace_Provider = ''q'', ace_Model = ''n''\<rparr>] 0"

definition sample_failed_chain :: auto_chain where
  "sample_failed_chain = chain_recordFailure 0
     (Some ((call_error_of 404 ''provider_model_not_found'')\<lparr>ce_Category := ProviderErrorModelNotFound, ce_FailoverSafe := True\<rparr>))
     None False True second sample_chain"

lemma sample_failed_chain_run: "chain_step\<^sup>*\<^sup>* sample_chain sample_failed_chain"
  unfolding sample_failed_chain_def by (intro r_into_rtranclp chain_step.other chain_other.fail)

theorem chain_selects_first_usable_witness:
  "fst (selectForSessionAvailable (\<lambda>x. x) ''s'' False None (2 * second) sample_failed_chain) =
     Some \<lparr>sel_provider = ''q'', sel_model = ''n'', sel_index = 1\<rparr>"
proof -
  have f: "find (chain_valid sample_failed_chain (2 * second) None) [0..<length (ac_entries sample_failed_chain)] = Some 1"
    "chain_selection sample_failed_chain 1 = \<lparr>sel_provider = ''q'', sel_model = ''n'', sel_index = 1\<rparr>"
    by code_simp+
  from chain_selects_first_usable [OF sample_failed_chain_run [unfolded sample_chain_def], of "''s''" "\<lambda>x. x" False None "2 * second"] f
  show ?thesis by simp
qed

section \<open>One probe per entry\<close>

definition chain_fin :: "nat \<Rightarrow> nat \<Rightarrow> auto_chain \<Rightarrow> auto_chain \<Rightarrow> bool" where
  "chain_fin k a s s' \<longleftrightarrow> (\<exists>now h e c. s' = chain_finishRecovery k (Some a) now h e c s)"

lemma restore_one_failed: "map_of (ac_failed (restore_one p ir s)) k = Some r \<Longrightarrow> map_of (ac_failed s) k = Some r"
  by (simp add: restore_one_def lookup_del split: if_splits)

lemma restore_fold_failed:
  "map_of (ac_failed (fold (restore_one p) xs s)) k = Some r \<Longrightarrow> map_of (ac_failed s) k = Some r"
proof (induction xs arbitrary: s)
  case (Cons x xs)
  then have "map_of (ac_failed (restore_one p x s)) k = Some r" by simp
  then show ?case by (rule restore_one_failed)
qed simp

lemma restore_fold_fresh: "ac_fresh (fold (restore_one p) xs s) = ac_fresh s"
  by (induction xs arbitrary: s) (simp_all add: restore_one_def)

lemma chain_other_failed:
  assumes "chain_other s s'"
  shows "ac_fresh s \<le> ac_fresh s'"
    "map_of (ac_failed s') k = Some r \<Longrightarrow>
       map_of (ac_failed s) k = Some r \<or> \<not> rf_probing r \<and> ac_fresh s \<le> rf_id r \<and> rf_id r < ac_fresh s'"
  using assms
proof (induction rule: chain_other.induct)
  case (select hash sid sticky usable now s r s')
  { case 1 from select_frame [OF select] show ?case by simp }
  { case 2 with select_frame [OF select] show ?case by simp }
next
  case (bound hash key now s r s')
  { case 1 from bound show ?case by (auto simp: chain_boundRoute_def split: option.splits if_splits) }
  { case 2 with bound show ?case by (auto simp: chain_boundRoute_def split: option.splits if_splits) }
next
  case (fail s i e c dl rt now)
  { case 1 show ?case by (simp add: chain_recordFailure_def advance_next_def) }
  { case 2 then show ?case by (auto simp: chain_recordFailure_def advance_next_def lookup_put split: if_splits) }
next
  case (restore s provider)
  { case 1 show ?case by (simp add: restoreProvider_def restore_fold_fresh) }
  { case 2 then show ?case unfolding restoreProvider_def by (rule restore_fold_failed [THEN disjI1]) }
qed

interpretation chain_probes: probe_table
  "\<lambda>s. map_of (ac_failed s)" ac_fresh chain_beginRecovery chain_fin chain_other
proof
  fix k a s s' assume f: "chain_fin k a s s'"
  then obtain now h e c where eq: "s' = chain_finishRecovery k (Some a) now h e c s" by (auto simp: chain_fin_def)
  show "s' = s" if "map_option rf_id (map_of (ac_failed s) k) \<noteq> Some a"
    using that by (auto simp: eq chain_finishRecovery_def split: option.splits)
  fix r assume r: "map_of (ac_failed s) k = Some r" "rf_id r = a"
  show "ac_fresh s' = ac_fresh s \<and> (\<exists>n. map_of (ac_failed s') = (map_of (ac_failed s))(k := n) \<and>
      (case n of None \<Rightarrow> True | Some r' \<Rightarrow> rf_id r' = a \<and> \<not> rf_probing r'))"
  proof (cases "fst (completeRecovery r now h e c)")
    case True
    then have "map_of (ac_failed s') = (map_of (ac_failed s))(k := None)" "ac_fresh s' = ac_fresh s"
      using r by (auto simp: eq chain_finishRecovery_def case_prod_unfold lookup_del)
    then show ?thesis by (intro conjI exI [of _ None]) simp_all
  next
    case False
    then have "map_of (ac_failed s') = (map_of (ac_failed s))(k := Some (snd (completeRecovery r now h e c)))" "ac_fresh s' = ac_fresh s"
      using r by (auto simp: eq chain_finishRecovery_def case_prod_unfold lookup_put)
    then show ?thesis using r(2) by (intro conjI exI [of _ "Some (snd (completeRecovery r now h e c))"]) simp_all
  qed
qed (auto simp: chain_beginRecovery_def lookup_put dest: chain_other_failed)

text \<open>A failed entry of the chain is tested by one request at a time. In every run, a failure record
  says that it is being tested exactly while a request holds it; no second request may start
  then, and once the holder has finished and the retry time has passed, the next one may.\<close>

theorem chain_single_probe:
  assumes "(probe_step chain_beginRecovery chain_fin chain_other)\<^sup>*\<^sup>* (newAutoChainState entries ttl, []) (s, H)"
    and "map_of (ac_failed s) k = Some r"
  shows "distinct H \<and> (rf_probing r \<longleftrightarrow> (k, rf_id r) \<in> set H) \<and>
    ((k, rf_id r) \<in> set H \<longrightarrow> chain_beginRecovery k now s = ((None, False), s)) \<and>
    ((k, rf_id r) \<notin> set H \<and> rf_retryAt r \<le> now \<longrightarrow> fst (chain_beginRecovery k now s) = (Some (rf_id r), True))"
  using chain_probes.single_probe [OF _ assms] by (simp add: newAutoChainState_def fun_eq_iff)

theorem chain_single_probe_witness:
  "chain_beginRecovery 0 hour (snd (chain_beginRecovery 0 minute sample_failed_chain)) =
     ((None, False), snd (chain_beginRecovery 0 minute sample_failed_chain))"
proof -
  let ?s = "snd (chain_beginRecovery 0 minute sample_failed_chain)"
  have "probe_step chain_beginRecovery chain_fin chain_other (sample_chain, []) (sample_failed_chain, [])"
    unfolding sample_failed_chain_def by (intro probe_step.else chain_other.fail)
  moreover have "fst (chain_beginRecovery 0 minute sample_failed_chain) = (Some 0, True)" by code_simp
  then have "probe_step chain_beginRecovery chain_fin chain_other (sample_failed_chain, []) (?s, [(0, 0)])"
    by (intro probe_step.take [of _ _ minute]) (simp add: prod_eq_iff)
  ultimately have run: "(probe_step chain_beginRecovery chain_fin chain_other)\<^sup>*\<^sup>* (sample_chain, []) (?s, [(0, 0)])" by simp
  have "map_of (ac_failed ?s) 0 = Some \<lparr>rf_id = 0, rf_retryAt = 31 * second, rf_probing = True\<rparr>" by code_simp
  from chain_single_probe [OF run [unfolded sample_chain_def] this, of hour] show ?thesis by simp
qed

section \<open>Properties of a reconfiguration\<close>

lemma entry_indices_snoc: "entry_indices (es @ [e]) = map_put e (length es) (entry_indices es)"
  by (simp add: entry_indices_def)

lemma entry_indices_sound: "map_of (entry_indices es) e = Some i \<Longrightarrow> i < length es \<and> es ! i = e"
  by (induction es arbitrary: i rule: rev_induct)
    (auto simp: entry_indices_snoc lookup_put nth_append entry_indices_def [of "[]"] split: if_splits dest: less_SucI)

lemma entry_indices_complete: "e \<in> set es \<Longrightarrow> map_of (entry_indices es) e \<noteq> None"
  by (induction es rule: rev_induct) (auto simp: entry_indices_snoc lookup_put)

lemma entry_indices_distinct: "distinct es \<Longrightarrow> i < length es \<Longrightarrow> map_of (entry_indices es) (es ! i) = Some i"
  using entry_indices_complete [of "es ! i" es] entry_indices_sound [of es "es ! i"]
  by (metis nth_eq_iff_index_eq nth_mem option.exhaust_sel)

definition carried ::
  "auto_chain \<Rightarrow> time \<Rightarrow> (auto_chain_entry, nat) gomap \<Rightarrow> (auto_chain_entry \<Rightarrow> bool) \<Rightarrow> auto_chain_binding \<Rightarrow> auto_chain_binding option"
where
  "carried old now indices preserve b =
     (if ac_ttl old \<le> time_sub now (acb_lastTouch b) \<or> length (ac_entries old) \<le> acb_index b \<or> \<not> preserve (ac_entries old ! acb_index b)
      then None else map_option (\<lambda>i. b\<lparr>acb_index := i\<rparr>) (map_of indices (ac_entries old ! acb_index b)))"

lemma carry_session_carried:
  "carry_session old now ix pr (k, b) n =
     (case carried old now ix pr b of None \<Rightarrow> n | Some b' \<Rightarrow> n\<lparr>ac_sessions := map_put k b' (ac_sessions n)\<rparr>)"
  by (auto simp: carry_session_def carried_def Let_def split: option.splits)

lemma carry_sessions_lookup:
  assumes "distinct (map fst xs)"
  shows "map_of (ac_sessions (fold (carry_session old now ix pr) xs n)) k =
    (case Option.bind (map_of xs k) (carried old now ix pr) of None \<Rightarrow> map_of (ac_sessions n) k | Some b \<Rightarrow> Some b)"
  using assms
proof (induction xs arbitrary: n)
  case (Cons kb xs)
  obtain j b where kb: "kb = (j, b)" by (cases kb)
  have "map_of xs j = None" using Cons.prems kb by (simp add: map_of_eq_None_iff)
  with Cons show ?case
    by (auto simp: kb carry_session_carried lookup_put split: option.splits)
qed simp

lemma carry_sessions_frame [simp]:
  "ac_entries (fold (carry_session old now ix pr) xs n) = ac_entries n"
  "ac_failed (fold (carry_session old now ix pr) xs n) = ac_failed n"
  "ac_next (fold (carry_session old now ix pr) xs n) = ac_next n"
  "map_wf (ac_sessions n) \<Longrightarrow> map_wf (ac_sessions (fold (carry_session old now ix pr) xs n))"
  by (induction xs arbitrary: n) (auto simp: carry_session_carried split: option.splits)

lemma carry_failures_frame [simp]:
  "ac_entries (fold (carry_failure old ix pf) xs n) = ac_entries n"
  "ac_sessions (fold (carry_failure old ix pf) xs n) = ac_sessions n"
  "ac_next (fold (carry_failure old ix pf) xs n) = ac_next n"
  "map_wf (ac_failed n) \<Longrightarrow> map_wf (ac_failed (fold (carry_failure old ix pf) xs n))"
  by (induction xs arbitrary: n) (auto simp: carry_failure_def Let_def split: option.splits)

text \<open>Which entries of the new chain have a failure record.\<close>

lemma carry_failures_dom:
  "map_of (ac_failed (fold (carry_failure old ix pf) xs n)) j \<noteq> None \<longleftrightarrow>
     map_of (ac_failed n) j \<noteq> None \<or>
     (\<exists>ir \<in> set xs. pf (ac_entries old ! fst ir) \<and> map_of ix (ac_entries old ! fst ir) = Some j)"
proof (induction xs arbitrary: n)
  case (Cons ir xs)
  have "map_of (ac_failed (carry_failure old ix pf ir n)) j \<noteq> None \<longleftrightarrow>
      map_of (ac_failed n) j \<noteq> None \<or> pf (ac_entries old ! fst ir) \<and> map_of ix (ac_entries old ! fst ir) = Some j"
    by (auto simp: carry_failure_def Let_def lookup_put split: option.splits)
  with Cons [of "carry_failure old ix pf ir n"] show ?case by auto
qed simp

lemma reopened_fold:
  "fold (reopened old ix pf) xs m \<le> m \<and>
   (\<forall>ir \<in> set xs. \<forall>i. map_of ix (ac_entries old ! fst ir) = Some i \<and> \<not> pf (ac_entries old ! fst ir) \<longrightarrow> fold (reopened old ix pf) xs m \<le> i)"
proof (induction xs arbitrary: m)
  case (Cons ir xs)
  let ?m = "reopened old ix pf ir m"
  have m: "?m \<le> m" "\<And>i. map_of ix (ac_entries old ! fst ir) = Some i \<Longrightarrow> \<not> pf (ac_entries old ! fst ir) \<Longrightarrow> ?m \<le> i"
    by (auto simp: reopened_def Let_def split: option.splits)
  from Cons.IH [of ?m] m show ?case by (fastforce intro: order_trans)
qed simp

lemma reconfigured_state:
  assumes "s' = reconfiguredWithFailures entries ttl preserve pf reset now (Some s)" "map_wf (ac_sessions s)"
  shows "ac_entries s' = entries"
    "map_of (ac_sessions s') k = Option.bind (map_of (ac_sessions s) k) (carried s now (entry_indices entries) preserve)"
    "map_of (ac_failed s') j \<noteq> None \<longleftrightarrow>
      (\<exists>ir \<in> set (ac_failed s). pf (ac_entries s ! fst ir) \<and> map_of (entry_indices entries) (ac_entries s ! fst ir) = Some j)"
    "ac_next s' = (if reset then 0 else fold (reopened s (entry_indices entries) pf) (ac_failed s) (ac_next s))"
    "map_wf (ac_failed s')" "map_wf (ac_sessions s')"
proof -
  define n0 where "n0 = newAutoChainState entries ttl"
  define n1 where "n1 = fold (carry_failure s (entry_indices entries) pf) (ac_failed s) n0"
  define n2 where "n2 = fold (carry_session s now (entry_indices entries) preserve) (ac_sessions s) n1"
  have n0: "ac_entries n0 = entries" "ac_failed n0 = []" "ac_sessions n0 = []" "ac_next n0 = 0"
    by (simp_all add: n0_def newAutoChainState_def)
  have s': "s' = (if \<not> reset then n2\<lparr>ac_next := fold (reopened s (entry_indices entries) pf) (ac_failed s) (ac_next s)\<rparr> else n2)\<lparr>ac_lastPrune := now\<rparr>"
    unfolding assms(1) reconfiguredWithFailures_def Let_def n2_def n1_def n0_def by simp
  have d: "distinct (map fst (ac_sessions s))" using assms(2) by (simp add: map_wf_def)
  show "ac_entries s' = entries" by (simp add: s' n2_def n1_def n0)
  show "map_of (ac_sessions s') k = Option.bind (map_of (ac_sessions s) k) (carried s now (entry_indices entries) preserve)"
    by (simp add: s' n2_def n1_def n0 carry_sessions_lookup [OF d] split: option.split)
  have "map_of (ac_failed s') j = map_of (ac_failed n1) j" by (simp add: s' n2_def)
  then show "map_of (ac_failed s') j \<noteq> None \<longleftrightarrow>
      (\<exists>ir \<in> set (ac_failed s). pf (ac_entries s ! fst ir) \<and> map_of (entry_indices entries) (ac_entries s ! fst ir) = Some j)"
    using carry_failures_dom [of s "entry_indices entries" pf "ac_failed s" n0 j] by (simp add: n1_def n0 del: not_None_eq)
  show "ac_next s' = (if reset then 0 else fold (reopened s (entry_indices entries) pf) (ac_failed s) (ac_next s))"
    by (simp add: s' n2_def n1_def n0)
  show "map_wf (ac_failed s')" "map_wf (ac_sessions s')" by (simp_all add: s' n2_def n1_def n0)
qed

lemma carried_Some:
  "carried s now (entry_indices entries) preserve b = Some b' \<longleftrightarrow>
     time_sub now (acb_lastTouch b) < ac_ttl s \<and> acb_index b < length (ac_entries s) \<and> preserve (ac_entries s ! acb_index b) \<and>
     (\<exists>i. map_of (entry_indices entries) (ac_entries s ! acb_index b) = Some i \<and> b' = b\<lparr>acb_index := i\<rparr>)"
  by (auto simp: carried_def)

lemma reconfigured_inv:
  assumes "chain_inv s" "reset \<or> entries = ac_entries s \<and> distinct entries"
    "s' = reconfiguredWithFailures entries ttl preserve pf reset now (Some s)"
  shows "chain_inv s'"
proof -
  have wf: "map_wf (ac_sessions s)" "map_wf (ac_failed s)" using assms(1) by (auto simp: chain_inv_def)
  note st = reconfigured_state [OF assms(3) wf(1)]
  have sessions: "acb_index b < length entries" if "map_of (ac_sessions s') k = Some b" for k b
    using that entry_indices_sound by (auto simp: st(2) bind_eq_Some_conv carried_Some)
  have failed: "j < length entries" if "map_of (ac_failed s') j = Some r" for j r
    using that st(3) [of j] entry_indices_sound by auto
  have "ac_next s' \<le> length entries \<and> (\<forall>j < ac_next s'. map_of (ac_failed s') j \<noteq> None)"
  proof (cases reset)
    case False
    with assms(2) have same: "entries = ac_entries s" "distinct entries" by auto
    note rf = reopened_fold [of s "entry_indices entries" pf "ac_failed s" "ac_next s"]
    have "map_of (ac_failed s') j \<noteq> None" if "j < ac_next s'" for j
    proof -
      from that False rf have lt: "j < ac_next s" by (auto simp: st(4))
      with assms(1) obtain r where "map_of (ac_failed s) j = Some r" and n: "j < length (ac_entries s)" by (force simp: chain_inv_def)
      then have mem: "(j, r) \<in> set (ac_failed s)" by (simp add: map_wf_lookup_iff [OF wf(2)])
      have ix: "map_of (entry_indices entries) (ac_entries s ! j) = Some j"
        using entry_indices_distinct [OF same(2), of j] same(1) n by simp
      have "pf (ac_entries s ! j)" using rf mem ix that False by (fastforce simp: st(4))
      with mem ix show ?thesis unfolding st(3) by force
    qed
    moreover have "ac_next s' \<le> length entries"
      using rf False assms(1) same(1) by (auto simp: st(4) chain_inv_def)
    ultimately show ?thesis by blast
  qed (simp add: st(4))
  with sessions failed st show ?thesis unfolding chain_inv_def by blast
qed

text \<open>C27. A reload keeps sessions where they are: the sessions of the new chain are exactly those of the old
  one that have not expired and whose provider/model pair the new configuration still has and
  preserves, and each is bound to the same pair with the same age, at whatever index the pair now
  has. The new chain again satisfies the invariant the selection relies on.\<close>

theorem reload_keeps_sessions:
  assumes "chain_step\<^sup>*\<^sup>* (newAutoChainState entries0 ttl0) s" and "reset \<or> entries = ac_entries s \<and> distinct entries"
    and "s' = reconfiguredWithFailures entries ttl preserve pf reset now (Some s)"
  shows "chain_inv s' \<and>
    (\<forall>k b'. map_of (ac_sessions s') k = Some b' \<longrightarrow>
      (\<exists>b. map_of (ac_sessions s) k = Some b \<and> acb_lastTouch b' = acb_lastTouch b \<and>
         ac_entries s' ! acb_index b' = ac_entries s ! acb_index b)) \<and>
    (\<forall>k. map_of (ac_sessions s') k \<noteq> None \<longleftrightarrow>
      (\<exists>b. map_of (ac_sessions s) k = Some b \<and> time_sub now (acb_lastTouch b) < ac_ttl s \<and>
         ac_entries s ! acb_index b \<in> set entries \<and> preserve (ac_entries s ! acb_index b)))"
proof -
  have inv: "chain_inv s" using chain_safety.run_inv [OF _ assms(1)] by blast
  then have wf: "map_wf (ac_sessions s)" and rng: "\<And>k b. map_of (ac_sessions s) k = Some b \<Longrightarrow> acb_index b < length (ac_entries s)"
    by (auto simp: chain_inv_def)
  note st = reconfigured_state [OF assms(3) wf]
  have mem: "e \<in> set entries \<longleftrightarrow> (\<exists>i. map_of (entry_indices entries) e = Some i)" for e
    using entry_indices_complete [of e entries] entry_indices_sound [of entries e] by (metis nth_mem option.exhaust)
  have kept: "\<exists>b. map_of (ac_sessions s) k = Some b \<and> acb_lastTouch b' = acb_lastTouch b \<and>
      ac_entries s' ! acb_index b' = ac_entries s ! acb_index b" if "map_of (ac_sessions s') k = Some b'" for k b'
    using that entry_indices_sound by (auto simp: st(1,2) bind_eq_Some_conv carried_Some)
  have "map_of (ac_sessions s') k \<noteq> None \<longleftrightarrow>
      (\<exists>b. map_of (ac_sessions s) k = Some b \<and> time_sub now (acb_lastTouch b) < ac_ttl s \<and>
         ac_entries s ! acb_index b \<in> set entries \<and> preserve (ac_entries s ! acb_index b))" for k
  proof (cases "map_of (ac_sessions s) k")
    case (Some b)
    with rng [OF Some] show ?thesis
      by (auto simp: st(2) mem carried_def)
  qed (simp add: st(2))
  with kept reconfigured_inv [OF inv assms(2,3)] show ?thesis by blast
qed

definition sample_bound_chain :: auto_chain where
  "sample_bound_chain = snd (selectForSessionAvailable (\<lambda>x. x) ''s'' True None second sample_chain)"

theorem reload_keeps_sessions_witness:
  "map_of (ac_sessions (reconfiguredWithFailures (rev (ac_entries sample_chain)) 0 (\<lambda>_. True) (\<lambda>_. True) True minute
     (Some sample_bound_chain))) ''s'' \<noteq> None"
proof -
  have "chain_step sample_chain sample_bound_chain"
    unfolding sample_bound_chain_def
    by (intro chain_step.other chain_other.select [of _ _ _ _ _ _ "fst (selectForSessionAvailable (\<lambda>x. x) ''s'' True None second sample_chain)"])
      simp
  then have run: "chain_step\<^sup>*\<^sup>* (newAutoChainState (ac_entries sample_chain) 0) sample_bound_chain"
    by (auto simp: sample_chain_def newAutoChainState_def)
  have b: "map_of (ac_sessions sample_bound_chain) ''s'' = Some \<lparr>acb_index = 0, acb_lastTouch = second\<rparr>"
    "time_sub minute second < ac_ttl sample_bound_chain"
    "ac_entries sample_bound_chain ! 0 \<in> set (rev (ac_entries sample_chain))"
    by code_simp+
  from reload_keeps_sessions [OF run, of True "rev (ac_entries sample_chain)" _ 0 "\<lambda>_. True" "\<lambda>_. True" minute] b
  show ?thesis by auto
qed

end
