(* ===== verification/Shared_Affinity.thy ===== *)
theory Shared_Affinity
  imports Route_Recovery
begin

text \<open>
  \<^verbatim>\<open>internal/gateway/shared_model_affinity.go\<close>: sessions bound to one of the providers of a shared
  model, and the failure records of provider/model routes.

  The digest \<open>sha256\<close> is an argument about which nothing is assumed; a session key is its value.
  The availability test, the random choice, the generations and the preference of the caller are
  arguments, as they are in the code.
\<close>

section \<open>Session keys\<close>

text \<open>\<open>binary.BigEndian.PutUint64\<close> of a length.\<close>

definition be64 :: "nat \<Rightarrow> string" where
  "be64 n = map (\<lambda>i. char_of (n div 256 ^ (7 - i) mod 256)) [0..<8]"

definition key_fields :: "string list \<Rightarrow> string" where
  "key_fields fs = concat (map (\<lambda>f. be64 (length f) @ f) fs)"

definition newSharedModelSessionKey :: "(string \<Rightarrow> string) \<Rightarrow> string \<Rightarrow> string \<Rightarrow> string \<Rightarrow> string \<Rightarrow> string" where
  "newSharedModelSessionKey sha256 namespace protocol model sessionID =
     sha256 (key_fields [namespace, protocol, trim_space model, trim_space sessionID])"

section \<open>State\<close>

abbreviation sharedModelSessionIdleTTL :: duration where "sharedModelSessionIdleTTL \<equiv> day"

record shared_route =
  sr_provider :: string
  sr_model :: string
  sr_generation :: u64

record shared_binding =
  sb_provider :: string
  sb_lastUsed :: time
  sb_model :: string
  sb_generation :: u64

record shared_affinity =
  sa_bindings :: "(string, shared_binding) gomap"
  sa_nextSweep :: time
  sa_activeEpoch :: u64
  sa_failed :: "(shared_route, route_failure) gomap"
  sa_fresh :: nat

definition new_shared_affinity :: shared_affinity where
  "new_shared_affinity = \<lparr>sa_bindings = [], sa_nextSweep = 0, sa_activeEpoch = 0, sa_failed = [], sa_fresh = 0\<rparr>"

definition containsModel :: "string list \<Rightarrow> string \<Rightarrow> bool" where
  "containsModel models model \<longleftrightarrow> list_ex (\<lambda>candidate. candidate = model) models"

section \<open>Operations\<close>

text \<open>The records that stay are copied, to addresses not used before.\<close>

definition activateForView ::
  "u64 \<Rightarrow> (shared_binding \<Rightarrow> bool) \<Rightarrow> (string \<Rightarrow> u64) option \<Rightarrow> (string \<Rightarrow> bool) option \<Rightarrow> shared_affinity \<Rightarrow> shared_affinity"
where
  "activateForView epoch valid generation present a =
     a\<lparr>sa_activeEpoch := epoch,
       sa_failed := map_vals (\<lambda>_ r. \<lparr>rf_id = sa_fresh a + rf_id r, rf_retryAt = rf_retryAt r, rf_probing = False\<rparr>)
         (map_keep (\<lambda>t r. \<not> (\<not> valid \<lparr>sb_provider = sr_provider t, sb_lastUsed = 0, sb_model = sr_model t, sb_generation = sr_generation t\<rparr> \<or>
             (case generation of None \<Rightarrow> False | Some g \<Rightarrow> sr_generation t \<noteq> g (sr_provider t)))) (sa_failed a)),
       sa_bindings := map_vals (\<lambda>_ b. case generation of None \<Rightarrow> b | Some g \<Rightarrow> b\<lparr>sb_generation := g (sb_provider b)\<rparr>)
         (map_keep (\<lambda>_ b. \<not> (\<not> valid b \<or> (case present of None \<Rightarrow> False | Some f \<Rightarrow> \<not> f (sb_provider b)))) (sa_bindings a)),
       sa_fresh := sa_fresh a + Suc (sum_list (map (\<lambda>tr. rf_id (snd tr)) (sa_failed a)))\<rparr>"

definition affinity_sweep :: "time \<Rightarrow> shared_affinity \<Rightarrow> shared_affinity" where
  "affinity_sweep now a =
     (if now < sa_nextSweep a then a
      else a\<lparr>sa_bindings := map_keep (\<lambda>_ b. \<not> sharedModelSessionIdleTTL \<le> time_sub now (sb_lastUsed b)) (sa_bindings a),
             sa_nextSweep := now + minute\<rparr>)"

text \<open>The candidates whose route has no failure that still holds and that the caller finds available.\<close>

definition eligible_providers ::
  "string \<Rightarrow> string list \<Rightarrow> (string \<Rightarrow> bool) \<Rightarrow> (string \<Rightarrow> u64) \<Rightarrow> time \<Rightarrow> shared_affinity \<Rightarrow> string list"
where
  "eligible_providers model candidates usable generation now a =
     filter (\<lambda>p. rf_eligible (map_of (sa_failed a) \<lparr>sr_provider = p, sr_model = model, sr_generation = generation p\<rparr>) now \<and> usable p) candidates"

definition chosen_provider :: "(nat \<Rightarrow> int) \<Rightarrow> string list \<Rightarrow> string" where
  "chosen_provider pick xs =
     (let index = pick (length xs) in
      xs ! (if index < 0 \<or> int (length xs) \<le> index then 0 else nat index))"

definition selectProviderForView ::
  "string \<Rightarrow> string \<Rightarrow> u64 \<Rightarrow> string list \<Rightarrow> (string \<Rightarrow> bool) \<Rightarrow> (nat \<Rightarrow> int) \<Rightarrow> (string \<Rightarrow> u64) \<Rightarrow> (string list \<Rightarrow> string list) option
     \<Rightarrow> time \<Rightarrow> shared_affinity \<Rightarrow> string option \<times> shared_affinity"
where
  "selectProviderForView key model epoch candidates usable pick generation prefer now a =
     (let a1 = affinity_sweep now a;
          current = (epoch = sa_activeEpoch a1);
          eligible = eligible_providers model candidates usable generation now a1;
          bound = (case map_of (sa_bindings a1) key of
                     None \<Rightarrow> None
                   | Some b \<Rightarrow> if time_sub now (sb_lastUsed b) < sharedModelSessionIdleTTL \<and> containsModel eligible (sb_provider b) \<and>
                                  sb_generation b = generation (sb_provider b) then Some b else None)
      in case bound of
           Some b \<Rightarrow>
             (Some (sb_provider b),
              if current then a1\<lparr>sa_bindings := map_put key (b\<lparr>sb_lastUsed := now\<rparr>) (sa_bindings a1)\<rparr> else a1)
         | None \<Rightarrow>
             (let a2 = (if current then a1\<lparr>sa_bindings := map_del key (sa_bindings a1)\<rparr> else a1) in
              if eligible = [] then (None, a2)
              else
                (let provider = chosen_provider pick (case prefer of None \<Rightarrow> eligible | Some f \<Rightarrow> f eligible)
                 in (Some provider,
                     if current
                     then a2\<lparr>sa_bindings := map_put key
                            \<lparr>sb_provider = provider, sb_lastUsed = now, sb_model = model, sb_generation = generation provider\<rparr> (sa_bindings a2)\<rparr>
                     else a2))))"

text \<open>\<open>reusableRandomCandidates\<close> of \<^verbatim>\<open>routing_reload.go\<close>: prefer the connections a reload kept, if any.\<close>

definition reusableRandomCandidates :: "(string \<Rightarrow> bool) \<Rightarrow> string list \<Rightarrow> string list" where
  "reusableRandomCandidates reusable candidates =
     (let r = filter reusable candidates in if 0 < length r then r else candidates)"

definition affinity_recordFailure ::
  "u64 \<Rightarrow> string \<Rightarrow> string \<Rightarrow> u64 \<Rightarrow> call_error option \<Rightarrow> ctx_error option \<Rightarrow> bool \<Rightarrow> time \<Rightarrow> shared_affinity \<Rightarrow> shared_affinity"
where
  "affinity_recordFailure epoch provider model generation callErr ctxErr delivered now a =
     (if \<not> autoChainFailureAdvances callErr ctxErr delivered \<or> (case callErr of None \<Rightarrow> True | Some e \<Rightarrow> ce_Category e = []) then a
      else if epoch \<noteq> sa_activeEpoch a then a
      else
        a\<lparr>sa_failed := map_put \<lparr>sr_provider = provider, sr_model = model, sr_generation = generation\<rparr>
             \<lparr>rf_id = sa_fresh a, rf_retryAt = now + recoveryCooldown callErr, rf_probing = False\<rparr> (sa_failed a),
          sa_fresh := Suc (sa_fresh a),
          sa_bindings := map_keep (\<lambda>_ b. \<not> (sb_provider b = provider \<and> sb_model b = model \<and> sb_generation b = generation)) (sa_bindings a)\<rparr>)"

definition affinity_beginRecovery ::
  "u64 \<Rightarrow> shared_route \<Rightarrow> time \<Rightarrow> shared_affinity \<Rightarrow> (nat option \<times> bool) \<times> shared_affinity"
where
  "affinity_beginRecovery epoch route now a =
     (if epoch \<noteq> sa_activeEpoch a then ((None, True), a)
      else
        (case map_of (sa_failed a) route of
           None \<Rightarrow> ((None, True), a)
         | Some r \<Rightarrow>
             if \<not> rf_eligible (Some r) now then ((None, False), a)
             else ((Some (rf_id r), True), a\<lparr>sa_failed := map_put route (r\<lparr>rf_probing := True\<rparr>) (sa_failed a)\<rparr>)))"

definition affinity_finishRecovery ::
  "u64 \<Rightarrow> shared_route \<Rightarrow> nat option \<Rightarrow> time \<Rightarrow> bool \<Rightarrow> go_error option \<Rightarrow> ctx_error option \<Rightarrow> shared_affinity \<Rightarrow> shared_affinity"
where
  "affinity_finishRecovery epoch route probe now handled callErr ctxErr a =
     (case probe of
        None \<Rightarrow> a
      | Some i \<Rightarrow>
          if epoch \<noteq> sa_activeEpoch a then a
          else
            (case map_of (sa_failed a) route of
               None \<Rightarrow> a
             | Some r \<Rightarrow>
                 if rf_id r \<noteq> i then a
                 else
                   (let (recovered, r') = completeRecovery r now handled callErr ctxErr in
                    if recovered then a\<lparr>sa_failed := map_del route (sa_failed a)\<rparr>
                    else a\<lparr>sa_failed := map_put route r' (sa_failed a)\<rparr>)))"

definition affinity_boundRoute ::
  "string \<Rightarrow> string \<Rightarrow> u64 \<Rightarrow> string list \<Rightarrow> (string, u64) gomap \<Rightarrow> time \<Rightarrow> shared_affinity \<Rightarrow> string option \<times> shared_affinity"
where
  "affinity_boundRoute key model epoch candidates generations now a =
     (case map_of (sa_bindings a) key of
        None \<Rightarrow> (None, a)
      | Some b \<Rightarrow>
          if sa_activeEpoch a \<noteq> epoch \<or> sharedModelSessionIdleTTL \<le> time_sub now (sb_lastUsed b) \<or> sb_model b \<noteq> model \<or>
             sb_generation b \<noteq> (case map_of generations (sb_provider b) of None \<Rightarrow> 0 | Some g \<Rightarrow> g) \<or>
             \<not> containsModel candidates (sb_provider b)
          then (None, a)
          else (Some (sb_provider b), a\<lparr>sa_bindings := map_put key (b\<lparr>sb_lastUsed := now\<rparr>) (sa_bindings a)\<rparr>))"

section \<open>Session keys separate their fields\<close>

lemma be64_length [simp]: "length (be64 n) = 8"
  by (simp add: be64_def)

definition from_be64 :: "string \<Rightarrow> nat" where
  "from_be64 s = foldl (\<lambda>n c. n * 256 + of_char c) 0 s"

lemma digit_step: "(n div (256 * m)) * 256 + n div m mod 256 = n div m" for n m :: nat
proof -
  have "n div (256 * m) = n div m div 256" by (metis div_mult2_eq mult.commute)
  then show ?thesis by (simp only: div_mult_mod_eq)
qed

lemma from_be64_prefix:
  fixes n :: nat
  assumes "k \<le> 8"
  shows "foldl (\<lambda>n c. n * 256 + of_char c) (n div 256 ^ 8) (map (\<lambda>i. char_of (n div 256 ^ (7 - i) mod 256)) [0..<k]) = n div 256 ^ (8 - k)"
  using assms
proof (induction k)
  case 0
  show ?case by (simp only: upt_0 list.map foldl.simps diff_zero)
next
  case (Suc k)
  let ?F = "foldl (\<lambda>n c. n * 256 + of_char c) (n div 256 ^ 8)" and ?d = "\<lambda>i. char_of (n div 256 ^ (7 - i) mod 256) :: char"
  from Suc.prems have e: "8 - k = Suc (7 - k)" "8 - Suc k = 7 - k" by simp_all
  have "?F (map ?d [0..<Suc k]) = ?F (map ?d [0..<k]) * 256 + of_char (?d k)" by simp
  also have "of_char (?d k) = n div 256 ^ (7 - k) mod 256" by simp
  also have "?F (map ?d [0..<k]) = n div (256 * 256 ^ (7 - k))" using Suc e(1) by simp
  finally show ?case unfolding digit_step e(2) .
qed

lemma from_be64: "n < 2 ^ 64 \<Longrightarrow> from_be64 (be64 n) = n"
  using from_be64_prefix [of 8 n] by (simp add: from_be64_def be64_def)

text \<open>A length-prefixed field can be split off again.\<close>

lemma split_field:
  assumes "be64 (length f) @ f @ r = be64 (length g) @ g @ s" "length f < 2 ^ 64" "length g < 2 ^ 64"
  shows "f = g \<and> r = s"
proof -
  have "be64 (length f) = be64 (length g) \<and> f @ r = g @ s"
    by (rule append_eq_append_conv [THEN iffD1, OF _ assms(1)]) simp
  then have eq: "be64 (length f) = be64 (length g)" and rest: "f @ r = g @ s" by blast+
  from eq from_be64 [OF assms(2)] from_be64 [OF assms(3)] have "length f = length g" by metis
  then show ?thesis using append_eq_append_conv [THEN iffD1, OF _ rest] by blast
qed

lemma key_fields_inj:
  assumes "key_fields fs = key_fields gs" "length fs = length gs" "\<forall>f \<in> set fs \<union> set gs. length f < 2 ^ 64"
  shows "fs = gs"
  using assms(2,1,3)
proof (induction fs gs rule: list_induct2)
  case (Cons f fs g gs)
  then have "be64 (length f) @ f @ key_fields fs = be64 (length g) @ g @ key_fields gs" by (simp add: key_fields_def)
  moreover have "length f < 2 ^ 64" "length g < 2 ^ 64" using Cons.prems(2) by (simp_all only: set_simps Un_iff insert_iff ball_Un simp_thms)
  ultimately have fg: "f = g" "key_fields fs = key_fields gs" using split_field by blast+
  have "\<forall>f \<in> set fs \<union> set gs. length f < 2 ^ 64" using Cons.prems(2) by (meson UnE UnI1 UnI2 list.set_intros(2))
  from Cons.IH [OF fg(2) this] fg(1) show ?case by blast
qed simp

text \<open>C28. Sessions are told apart by all four fields: unless the digest collides on the two texts that are
  hashed, two requests have the same session key exactly when their namespace, their protocol and
  their trimmed model and session names agree. No shift of characters between neighbouring fields
  makes two sessions one.\<close>

theorem session_key_separates_fields:
  fixes sha256 :: "string \<Rightarrow> string"
  assumes no_collision: "sha256 (key_fields [n1, p1, trim_space m1, trim_space s1]) = sha256 (key_fields [n2, p2, trim_space m2, trim_space s2])
      \<Longrightarrow> key_fields [n1, p1, trim_space m1, trim_space s1] = key_fields [n2, p2, trim_space m2, trim_space s2]"
    and "\<forall>f \<in> set [n1, p1, trim_space m1, trim_space s1, n2, p2, trim_space m2, trim_space s2]. length f < 2 ^ 64"
  shows "newSharedModelSessionKey sha256 n1 p1 m1 s1 = newSharedModelSessionKey sha256 n2 p2 m2 s2 \<longleftrightarrow>
    n1 = n2 \<and> p1 = p2 \<and> trim_space m1 = trim_space m2 \<and> trim_space s1 = trim_space s2"
proof
  assume "newSharedModelSessionKey sha256 n1 p1 m1 s1 = newSharedModelSessionKey sha256 n2 p2 m2 s2"
  then have "key_fields [n1, p1, trim_space m1, trim_space s1] = key_fields [n2, p2, trim_space m2, trim_space s2]"
    using no_collision by (simp add: newSharedModelSessionKey_def)
  then have "[n1, p1, trim_space m1, trim_space s1] = [n2, p2, trim_space m2, trim_space s2]"
    by (rule key_fields_inj) (use assms(2) in \<open>auto simp del: power_numeral\<close>)
  then show "n1 = n2 \<and> p1 = p2 \<and> trim_space m1 = trim_space m2 \<and> trim_space s1 = trim_space s2" by simp
qed (simp add: newSharedModelSessionKey_def)

theorem session_key_separates_fields_witness:
  "newSharedModelSessionKey (\<lambda>x. x) ''ns'' ''openai'' ''ab'' ''c'' \<noteq> newSharedModelSessionKey (\<lambda>x. x) ''ns'' ''openai'' ''a'' ''bc''"
proof -
  have t: "trim_space ''ab'' = ''ab''" "trim_space ''a'' = ''a''" "trim_space ''c'' = ''c''" "trim_space ''bc'' = ''bc''" by code_simp+
  show ?thesis
    using session_key_separates_fields [of "\<lambda>x. x" "''ns''" "''openai''" "''ab''" "''c''" "''ns''" "''openai''" "''a''" "''bc''"]
    by (simp add: t)
qed

section \<open>One probe per route\<close>

text \<open>A request's route is looked up in its own view: a request of another epoch sees no record.\<close>

definition view_failed :: "shared_affinity \<Rightarrow> u64 \<times> shared_route \<Rightarrow> route_failure option" where
  "view_failed a er = (if fst er = sa_activeEpoch a then map_of (sa_failed a) (snd er) else None)"

definition affinity_start :: "u64 \<times> shared_route \<Rightarrow> time \<Rightarrow> shared_affinity \<Rightarrow> (nat option \<times> bool) \<times> shared_affinity" where
  "affinity_start er = affinity_beginRecovery (fst er) (snd er)"

definition affinity_fin :: "u64 \<times> shared_route \<Rightarrow> nat \<Rightarrow> shared_affinity \<Rightarrow> shared_affinity \<Rightarrow> bool" where
  "affinity_fin er i a a' \<longleftrightarrow> (\<exists>now h e c. a' = affinity_finishRecovery (fst er) (snd er) (Some i) now h e c a)"

text \<open>Every other operation.\<close>

inductive affinity_other :: "shared_affinity \<Rightarrow> shared_affinity \<Rightarrow> bool" where
  select: "selectProviderForView key model epoch candidates usable pick generation prefer now a = (r, a') \<Longrightarrow> affinity_other a a'"
| bound: "affinity_boundRoute key model epoch candidates generations now a = (r, a') \<Longrightarrow> affinity_other a a'"
| fail: "affinity_other a (affinity_recordFailure epoch provider model generation callErr ctxErr delivered now a)"
| reload: "affinity_other a (activateForView epoch valid generation present a)"

lemma affinity_select_frame:
  assumes "selectProviderForView key model epoch candidates usable pick generation prefer now a = (r, a')"
  shows "sa_failed a' = sa_failed a" "sa_fresh a' = sa_fresh a" "sa_activeEpoch a' = sa_activeEpoch a"
  using assms by (auto simp: selectProviderForView_def affinity_sweep_def Let_def split: option.splits if_splits)

lemma activate_record:
  assumes "map_of (sa_failed (activateForView epoch valid generation present a)) k = Some r"
  shows "\<not> rf_probing r \<and> sa_fresh a \<le> rf_id r \<and> rf_id r < sa_fresh (activateForView epoch valid generation present a)"
proof -
  from map_of_SomeD [OF assms] obtain r0 where r0: "(k, r0) \<in> set (sa_failed a)"
      "r = \<lparr>rf_id = sa_fresh a + rf_id r0, rf_retryAt = rf_retryAt r0, rf_probing = False\<rparr>"
    by (auto simp: activateForView_def map_vals_def)
  have "rf_id r0 \<le> sum_list (map (\<lambda>tr. rf_id (snd tr)) (sa_failed a))"
    by (rule member_le_sum_list) (use r0(1) in force, simp)
  with r0(2) show ?thesis by (simp add: activateForView_def)
qed

lemma affinity_other_failed:
  assumes "affinity_other a a'"
  shows "sa_fresh a \<le> sa_fresh a'"
    "view_failed a' k = Some r \<Longrightarrow> view_failed a k = Some r \<or> \<not> rf_probing r \<and> sa_fresh a \<le> rf_id r \<and> rf_id r < sa_fresh a'"
  using assms
proof (induction rule: affinity_other.induct)
  case (select key model epoch candidates usable pick generation pref now a r a')
  { case 1 from affinity_select_frame [OF select] show ?case by simp }
  { case 2 with affinity_select_frame [OF select] show ?case by (auto simp: view_failed_def split: if_splits) }
next
  case (bound key model epoch candidates generations now a r a')
  { case 1 from bound show ?case by (auto simp: affinity_boundRoute_def split: option.splits if_splits) }
  { case 2 with bound show ?case by (auto simp: affinity_boundRoute_def view_failed_def split: option.splits if_splits) }
next
  case (fail a epoch provider model generation callErr ctxErr delivered now)
  { case 1 show ?case by (simp add: affinity_recordFailure_def) }
  { case 2 then show ?case by (auto simp: affinity_recordFailure_def view_failed_def lookup_put split: if_splits) }
next
  case (reload a epoch valid generation present)
  { case 1 show ?case by (simp add: activateForView_def) }
  { case 2 then show ?case
      using activate_record [of epoch valid generation present a "snd k" r] by (simp add: view_failed_def split: if_splits) }
qed

interpretation affinity_probes: probe_table view_failed sa_fresh affinity_start affinity_fin affinity_other
proof
  fix k i a a' assume f: "affinity_fin k i a a'"
  then obtain now h e c where eq: "a' = affinity_finishRecovery (fst k) (snd k) (Some i) now h e c a" by (auto simp: affinity_fin_def)
  show "a' = a" if "map_option rf_id (view_failed a k) \<noteq> Some i"
    using that by (auto simp: eq affinity_finishRecovery_def view_failed_def split: option.splits if_splits)
  fix r assume r: "view_failed a k = Some r" "rf_id r = i"
  then have ep: "fst k = sa_activeEpoch a" "map_of (sa_failed a) (snd k) = Some r" by (auto simp: view_failed_def split: if_splits)
  show "sa_fresh a' = sa_fresh a \<and> (\<exists>n. view_failed a' = (view_failed a)(k := n) \<and>
      (case n of None \<Rightarrow> True | Some r' \<Rightarrow> rf_id r' = i \<and> \<not> rf_probing r'))"
  proof (cases "fst (completeRecovery r now h e c)")
    case True
    then have "a' = a\<lparr>sa_failed := map_del (snd k) (sa_failed a)\<rparr>"
      using r(2) ep by (simp add: eq affinity_finishRecovery_def case_prod_unfold)
    then have "view_failed a' = (view_failed a)(k := None)" "sa_fresh a' = sa_fresh a"
      using ep(1) by (auto simp: view_failed_def lookup_del fun_eq_iff prod_eq_iff)
    then show ?thesis by (intro conjI exI [of _ None]) simp_all
  next
    case False
    then have "a' = a\<lparr>sa_failed := map_put (snd k) (snd (completeRecovery r now h e c)) (sa_failed a)\<rparr>"
      using r(2) ep by (simp add: eq affinity_finishRecovery_def case_prod_unfold)
    then have "view_failed a' = (view_failed a)(k := Some (snd (completeRecovery r now h e c)))" "sa_fresh a' = sa_fresh a"
      using ep(1) by (auto simp: view_failed_def lookup_put fun_eq_iff prod_eq_iff)
    then show ?thesis using r(2) by (intro conjI exI [of _ "Some (snd (completeRecovery r now h e c))"]) simp_all
  qed
next
  fix k a r now assume r: "view_failed a k = Some r"
  then have ep: "fst k = sa_activeEpoch a" "map_of (sa_failed a) (snd k) = Some r" by (auto simp: view_failed_def split: if_splits)
  show "affinity_start k now a = ((None, False), a)" if "\<not> rf_eligible (Some r) now"
    using that ep by (simp add: affinity_start_def affinity_beginRecovery_def)
  show "\<exists>s'. affinity_start k now a = ((Some (rf_id r), True), s') \<and>
      view_failed s' = (view_failed a)(k := Some (r\<lparr>rf_probing := True\<rparr>)) \<and> sa_fresh s' = sa_fresh a" if "rf_eligible (Some r) now"
    using that ep by (auto simp: affinity_start_def affinity_beginRecovery_def view_failed_def lookup_put fun_eq_iff prod_eq_iff)
next
  fix k a now assume "view_failed a k = None"
  then show "affinity_start k now a = ((None, True), a)"
    by (auto simp: affinity_start_def affinity_beginRecovery_def view_failed_def split: if_splits)
qed (auto dest: affinity_other_failed)

text \<open>A failed route of a shared model is tested by one request at a time, also across reloads: a
  record of the active view is being tested exactly while a request of that view holds it, and no
  second one may start then. A request of an older view neither holds nor blocks a record.\<close>

theorem affinity_single_probe:
  assumes "(probe_step affinity_start affinity_fin affinity_other)\<^sup>*\<^sup>* (new_shared_affinity, []) (a, H)"
    and "map_of (sa_failed a) route = Some r"
  shows "distinct H \<and> (rf_probing r \<longleftrightarrow> ((sa_activeEpoch a, route), rf_id r) \<in> set H) \<and>
    (((sa_activeEpoch a, route), rf_id r) \<in> set H \<longrightarrow> affinity_beginRecovery (sa_activeEpoch a) route now a = ((None, False), a)) \<and>
    (epoch \<noteq> sa_activeEpoch a \<longrightarrow> affinity_beginRecovery epoch route now a = ((None, True), a))"
proof -
  have f: "view_failed a (sa_activeEpoch a, route) = Some r" using assms(2) by (simp add: view_failed_def)
  have "view_failed new_shared_affinity = (\<lambda>_. None)" by (simp add: view_failed_def new_shared_affinity_def fun_eq_iff)
  from affinity_probes.single_probe [OF this assms(1) f] show ?thesis
    by (simp add: affinity_start_def affinity_beginRecovery_def)
qed

definition sample_failed_affinity :: shared_affinity where
  "sample_failed_affinity = affinity_recordFailure 0 ''p'' ''m'' 0
     (Some ((call_error_of 404 ''provider_model_not_found'')\<lparr>ce_Category := ProviderErrorModelNotFound, ce_FailoverSafe := True\<rparr>))
     None False second new_shared_affinity"

abbreviation sample_route :: shared_route where
  "sample_route \<equiv> \<lparr>sr_provider = ''p'', sr_model = ''m'', sr_generation = 0\<rparr>"

theorem affinity_single_probe_witness:
  "let s = snd (affinity_beginRecovery 0 sample_route minute sample_failed_affinity)
   in affinity_beginRecovery 0 sample_route hour s = ((None, False), s)"
proof -
  let ?s = "snd (affinity_beginRecovery 0 sample_route minute sample_failed_affinity)"
  let ?step = "probe_step affinity_start affinity_fin affinity_other"
  have "?step (new_shared_affinity, []) (sample_failed_affinity, [])"
    unfolding sample_failed_affinity_def by (intro probe_step.else affinity_other.fail)
  moreover have "fst (affinity_beginRecovery 0 sample_route minute sample_failed_affinity) = (Some 0, True)" by code_simp
  then have "?step (sample_failed_affinity, []) (?s, [((0, sample_route), 0)])"
    by (intro probe_step.take [of _ _ minute]) (simp add: affinity_start_def prod_eq_iff)
  ultimately have run: "?step\<^sup>*\<^sup>* (new_shared_affinity, []) (?s, [((0, sample_route), 0)])" by simp
  have "map_of (sa_failed ?s) sample_route = Some \<lparr>rf_id = 0, rf_retryAt = 31 * second, rf_probing = True\<rparr>"
    and e: "sa_activeEpoch ?s = 0" by code_simp+
  from affinity_single_probe [OF run this(1), of hour] e show ?thesis by simp
qed

section \<open>Properties of the selection\<close>

lemma containsModel_iff [simp]: "containsModel xs x \<longleftrightarrow> x \<in> set xs"
  by (auto simp: containsModel_def list_ex_iff)

lemma chosen_in: "xs \<noteq> [] \<Longrightarrow> chosen_provider pick xs \<in> set xs"
  by (auto simp: chosen_provider_def Let_def)

lemma reusable_subset: "set (reusableRandomCandidates f xs) \<subseteq> set xs" "xs \<noteq> [] \<Longrightarrow> reusableRandomCandidates f xs \<noteq> []"
  by (auto simp: reusableRandomCandidates_def Let_def)

lemma eligible_sweep [simp]:
  "eligible_providers model candidates usable generation now (affinity_sweep now a) = eligible_providers model candidates usable generation now a"
  "sa_activeEpoch (affinity_sweep now a) = sa_activeEpoch a"
  by (simp_all add: eligible_providers_def affinity_sweep_def)

lemma sweep_lookup:
  assumes "map_wf (sa_bindings a)" "time_sub now (sb_lastUsed b) < sharedModelSessionIdleTTL"
  shows "map_of (sa_bindings (affinity_sweep now a)) k = Some b \<longleftrightarrow> map_of (sa_bindings a) k = Some b"
  using assms by (auto simp: affinity_sweep_def lookup_keep split: option.splits if_splits)

lemma select_eligible:
  assumes "selectProviderForView key model epoch candidates usable pick generation (Some (reusableRandomCandidates f)) now a = (r, a')"
  shows "case r of
      None \<Rightarrow> eligible_providers model candidates usable generation now a = []
    | Some p \<Rightarrow> p \<in> set (eligible_providers model candidates usable generation now a)"
proof -
  let ?e = "eligible_providers model candidates usable generation now a"
  have pref: "chosen_provider pick (reusableRandomCandidates f ?e) \<in> set ?e" if "?e \<noteq> []"
    using chosen_in [OF reusable_subset(2) [OF that]] reusable_subset(1) by blast
  show ?thesis
    using assms pref by (auto simp: selectProviderForView_def Let_def split: option.splits if_splits)
qed

text \<open>The selection only ever returns a candidate that is eligible and available, and returns none
  exactly when there is no such candidate, with whatever random choice and with the preference
  for connections that a reload kept.\<close>

theorem affinity_selects_eligible:
  assumes "selectProviderForView key model epoch candidates usable pick generation (Some (reusableRandomCandidates f)) now a = (r, a')"
  shows "(case r of
      None \<Rightarrow> eligible_providers model candidates usable generation now a = []
    | Some p \<Rightarrow> p \<in> set candidates \<and> usable p \<and>
        rf_eligible (map_of (sa_failed a) \<lparr>sr_provider = p, sr_model = model, sr_generation = generation p\<rparr>) now)"
  using select_eligible [OF assms] by (auto simp: eligible_providers_def split: option.splits)

theorem affinity_selects_eligible_witness:
  "fst (selectProviderForView ''k'' ''m'' 0 [''p'', ''q''] (\<lambda>_. True) (\<lambda>_. 0) (\<lambda>_. 0) (Some (reusableRandomCandidates (\<lambda>_. False))) (2 * second)
     sample_failed_affinity) = Some ''q''"
proof -
  let ?r = "selectProviderForView ''k'' ''m'' 0 [''p'', ''q''] (\<lambda>_. True) (\<lambda>_. 0) (\<lambda>_. 0) (Some (reusableRandomCandidates (\<lambda>_. False))) (2 * second)
     sample_failed_affinity"
  have e: "eligible_providers ''m'' [''p'', ''q''] (\<lambda>_. True) (\<lambda>_. 0) (2 * second) sample_failed_affinity = [''q'']" by code_simp
  have "?r = (fst ?r, snd ?r)" by simp
  from affinity_selects_eligible [OF this] e show ?thesis
    by (auto simp: eligible_providers_def split: option.splits if_splits)
qed

text \<open>A session stays with its provider: after a request of the active view got a provider, a later
  request of the session within a day gets the same one for any random choice, as long as that
  provider is still eligible and keeps its connection generation. In particular the first of
  several concurrent requests decides for all.\<close>

theorem affinity_sticks:
  assumes "map_wf (sa_bindings a)" and "epoch = sa_activeEpoch a"
    and "selectProviderForView key model epoch candidates usable pick generation prefer now a = (Some p, a')"
    and "time_sub later now < sharedModelSessionIdleTTL"
    and "p \<in> set (eligible_providers model2 candidates2 usable2 generation2 later a')"
    and "generation2 p = generation p"
  shows "fst (selectProviderForView key model2 epoch2 candidates2 usable2 pick2 generation2 prefer2 later a') = Some p"
proof -
  have "\<exists>b. map_of (sa_bindings a') key = Some b \<and> sb_provider b = p \<and> sb_lastUsed b = now \<and> sb_generation b = generation p"
    using assms(2,3) by (auto simp: selectProviderForView_def Let_def lookup_put split: option.splits if_splits)
  then obtain b where b: "map_of (sa_bindings a') key = Some b" "sb_provider b = p" "sb_lastUsed b = now" "sb_generation b = generation p"
    by blast
  have wf: "map_wf (sa_bindings a')"
    using assms(1,3) by (auto simp: selectProviderForView_def affinity_sweep_def Let_def split: option.splits if_splits)
  have "map_of (sa_bindings (affinity_sweep later a')) key = Some b"
    using sweep_lookup [OF wf] b assms(4) by simp
  with b assms(4-6) show ?thesis by (simp add: selectProviderForView_def Let_def)
qed

definition sample_bound_affinity :: "string option \<times> shared_affinity" where
  "sample_bound_affinity = selectProviderForView ''k'' ''m'' 0 [''p'', ''q''] (\<lambda>_. True) (\<lambda>_. 1) (\<lambda>_. 0) None second new_shared_affinity"

theorem affinity_sticks_witness:
  "fst (selectProviderForView ''k'' ''m'' 0 [''p'', ''q''] (\<lambda>_. True) (\<lambda>_. 0) (\<lambda>_. 0) None hour (snd sample_bound_affinity)) = Some ''q''"
proof -
  have s: "sample_bound_affinity = (Some ''q'', snd sample_bound_affinity)"
    and e: "''q'' \<in> set (eligible_providers ''m'' [''p'', ''q''] (\<lambda>_. True) (\<lambda>_. 0) hour (snd sample_bound_affinity))"
    and t: "time_sub hour second < sharedModelSessionIdleTTL"
    by code_simp+
  have "selectProviderForView ''k'' ''m'' 0 [''p'', ''q''] (\<lambda>_. True) (\<lambda>_. 1) (\<lambda>_. 0) None second new_shared_affinity =
      (Some ''q'', snd sample_bound_affinity)"
    using s by (subst (asm) (1) sample_bound_affinity_def)
  from affinity_sticks [OF _ _ this t e] show ?thesis by (simp add: new_shared_affinity_def)
qed

text \<open>A classified failure moves exactly the sessions it concerns: after it is recorded in the active
  view, no session is bound to the failed provider, model and generation, every other binding is
  untouched, and the route is not eligible for at least 30 seconds. From an older view, or without
  an advancing category, nothing changes.\<close>

theorem affinity_failure_unbinds:
  assumes "map_wf (sa_bindings a)"
    and "a' = affinity_recordFailure epoch provider model generation callErr ctxErr delivered now a"
  shows "(if epoch = sa_activeEpoch a \<and> autoChainFailureAdvances callErr ctxErr delivered \<and> (\<exists>e. callErr = Some e \<and> ce_Category e \<noteq> []) then
      (\<forall>k b. map_of (sa_bindings a') k = Some b \<longleftrightarrow> map_of (sa_bindings a) k = Some b \<and>
         \<not> (sb_provider b = provider \<and> sb_model b = model \<and> sb_generation b = generation)) \<and>
      (\<forall>t. rf_eligible (map_of (sa_failed a') \<lparr>sr_provider = provider, sr_model = model, sr_generation = generation\<rparr>) t \<longrightarrow>
         now + 30 * second \<le> t)
    else a' = a)"
proof -
  have "now + 30 * second \<le> t" if "now + recoveryCooldown callErr \<le> t" for t
    using that recoveryCooldown_min [of callErr] by simp
  then show ?thesis
    using assms by (auto simp: affinity_recordFailure_def lookup_keep lookup_put rf_eligible_def split: option.splits)
qed

theorem affinity_failure_unbinds_witness:
  "\<not> rf_eligible (map_of (sa_failed sample_failed_affinity) sample_route) (30 * second)"
proof -
  define e where "e = (call_error_of 404 ''provider_model_not_found'')\<lparr>ce_Category := ProviderErrorModelNotFound, ce_FailoverSafe := True\<rparr>"
  have adv: "autoChainFailureAdvances (Some e) None False" unfolding e_def by code_simp
  have cat: "ce_Category e \<noteq> []" by (simp add: e_def)
  have wf: "map_wf (sa_bindings new_shared_affinity)" and ep: "sa_activeEpoch new_shared_affinity = 0"
    by (simp_all add: new_shared_affinity_def)
  from affinity_failure_unbinds [OF wf sample_failed_affinity_def [folded e_def]] adv cat ep
  have "rf_eligible (map_of (sa_failed sample_failed_affinity) sample_route) (30 * second) \<longrightarrow> second + 30 * second \<le> 30 * second"
    by auto
  then show ?thesis by simp
qed

end
