(* ===== verification/Key_Pool.thy ===== *)
theory Key_Pool
  imports Availability
begin

text \<open>
  \<^verbatim>\<open>internal/gateway/provider_key_pool.go\<close>, \<^verbatim>\<open>provider_retry_after.go\<close> and
  \<^verbatim>\<open>key_diagnostics.go\<close>: the credentials of a provider, their cooldowns, the rate-limit streak and
  the waits a provider asks for.

  The slices of the pool are lists of the length of \<open>kp_keys\<close>. The server state is an argument of
  its own, since several pools of one endpoint share it. A recovery lease is its address; the
  address and the \<open>server\<close> pointer of the lease are the fields of \<open>rate_lease\<close>. The counters of a key
  carry their address, which \<open>setDiagnostics\<close> allocates from \<open>kp_fresh\<close>. The labels drawn at
  random are arguments.
\<close>

section \<open>Data\<close>

record key_counters =
  kc_addr :: nat
  kc_Requests :: u64
  kc_HTTPAttempts :: u64
  kc_Successes :: u64
  kc_Failures :: u64
  kc_Cancellations :: u64
  kc_Timeouts :: u64
  kc_InFlight :: u64

record key_failover =
  kf_Timestamp :: time
  kf_From :: string
  kf_To :: string
  kf_Reason :: string

record retry_state =
  rs_until :: time
  rs_version :: u64
  rs_probe :: "nat option"

record rate_lease =
  rl_id :: nat
  rl_server :: bool

record key_pool =
  kp_backendID :: string
  kp_labels :: "string list"
  kp_failureClasses :: "string list"
  kp_failureTimes :: "time list"
  kp_counters :: "key_counters list"
  kp_telemetryEnabled :: bool
  kp_counterEpoch :: u64
  kp_decisions :: "key_failover list"
  kp_keys :: "string list"
  kp_next :: nat
  kp_cooldowns :: "time list"
  kp_rateFailures :: "u16 list"
  kp_rateVersions :: "u64 list"
  kp_rateStreak :: u16
  kp_rateVersion :: u64
  kp_rateProviderUntil :: time
  kp_lastRateLimit :: time
  kp_rateProbe :: "nat option"
  kp_fresh :: nat

record rate_observation =
  ro_keyVersion :: u64
  ro_providerVersion :: u64
  ro_serverVersion :: u64

abbreviation keyDecisionLimit :: nat where "keyDecisionLimit \<equiv> 32"
abbreviation keyDecisionTTL :: duration where "keyDecisionTTL \<equiv> hour"

definition fresh_retry_state :: retry_state where
  "fresh_retry_state = \<lparr>rs_until = 0, rs_version = 0, rs_probe = None\<rparr>"

section \<open>Diagnostics switch\<close>

definition zero_counters :: "nat \<Rightarrow> key_counters" where
  "zero_counters a = \<lparr>kc_addr = a, kc_Requests = 0, kc_HTTPAttempts = 0, kc_Successes = 0, kc_Failures = 0,
     kc_Cancellations = 0, kc_Timeouts = 0, kc_InFlight = 0\<rparr>"

definition setDiagnostics :: "bool \<Rightarrow> key_pool \<Rightarrow> key_pool" where
  "setDiagnostics enabled p =
     (if kp_telemetryEnabled p = enabled then p
      else p\<lparr>kp_telemetryEnabled := enabled,
             kp_counterEpoch := sat_inc (kp_counterEpoch p),
             kp_counters := (if enabled then map (\<lambda>i. zero_counters (kp_fresh p + i)) [0..<length (kp_keys p)] else []),
             kp_decisions := [],
             kp_fresh := (if enabled then kp_fresh p + length (kp_keys p) else kp_fresh p)\<rparr>)"

text \<open>\<open>newProviderKeyPool\<close> with \<open>initializeDiagnostics\<close>; \<open>backendID\<close> and \<open>label\<close> are the assigned labels.\<close>

definition newProviderKeyPool :: "string \<Rightarrow> (nat \<Rightarrow> string) \<Rightarrow> string list \<Rightarrow> key_pool option" where
  "newProviderKeyPool backendID label keys =
     (if keys = [] then None
      else
        (let n = length keys;
             p = \<lparr>kp_backendID = backendID, kp_labels = map label [0..<n], kp_failureClasses = replicate n [],
                  kp_failureTimes = replicate n 0, kp_counters = [], kp_telemetryEnabled = False, kp_counterEpoch = 0,
                  kp_decisions = [], kp_keys = keys, kp_next = 0, kp_cooldowns = replicate n 0,
                  kp_rateFailures = replicate n 0, kp_rateVersions = replicate n 0, kp_rateStreak = 0, kp_rateVersion = 0,
                  kp_rateProviderUntil = 0, kp_lastRateLimit = 0, kp_rateProbe = None, kp_fresh = 0\<rparr>
         in Some (setDiagnostics True p)))"

section \<open>Candidates and cooldowns\<close>

text \<open>\<open>earliest.IsZero() || until.Before(earliest)\<close>.\<close>

definition earlier :: "time \<Rightarrow> time \<Rightarrow> time" where
  "earlier earliest until = (if earliest = 0 \<or> until < earliest then until else earliest)"

text \<open>The loop over the keys in rotation order: cooling keys give the earliest deadline, the
  others have their cooldown cleared and are collected.\<close>

fun scan_keys :: "time \<Rightarrow> string list \<Rightarrow> nat list \<Rightarrow> time list \<times> (nat \<times> string) list \<times> time
    \<Rightarrow> time list \<times> (nat \<times> string) list \<times> time" where
  "scan_keys now keys [] st = st"
| "scan_keys now keys (i # is) (cds, result, earliest) =
     (if now < cds ! i then scan_keys now keys is (cds, result, earlier earliest (cds ! i))
      else scan_keys now keys is (cds[i := 0], result @ [(i, keys ! i)], earliest))"

definition CandidatesAt :: "time \<Rightarrow> retry_state \<Rightarrow> key_pool \<Rightarrow> ((nat \<times> string) list \<times> duration) \<times> key_pool" where
  "CandidatesAt now server p =
     (if kp_keys p = [] then (([], 0), p)
      else if now < rs_until server then (([], time_sub (rs_until server) now), p)
      else
        (let n = length (kp_keys p); start = kp_next p mod n;
             (cds, result, earliest) = scan_keys now (kp_keys p) (map (\<lambda>offset. (start + offset) mod n) [0..<n]) (kp_cooldowns p, [], 0);
             p1 = p\<lparr>kp_next := (start + 1) mod n, kp_cooldowns := cds\<rparr>
         in if result \<noteq> [] \<or> earliest = 0 then ((result, 0), p1) else (([], time_sub earliest now), p1)))"

text \<open>\<open>Next\<close>: the first candidate, or the empty string.\<close>

definition pool_Next :: "time \<Rightarrow> retry_state \<Rightarrow> key_pool \<Rightarrow> string \<times> key_pool" where
  "pool_Next now server p =
     (let ((cs, _), p1) = CandidatesAt now server p
      in (case cs of [] \<Rightarrow> [] | c # _ \<Rightarrow> snd c, p1))"

definition valid_index :: "key_pool \<Rightarrow> int \<Rightarrow> bool" where
  "valid_index p index \<longleftrightarrow> \<not> (index < 0 \<or> int (length (kp_keys p)) \<le> index)"

definition clamp_delay :: "duration \<Rightarrow> duration" where
  "clamp_delay delay =
     (let d = (if delay < second then second else delay) in if day < d then day else d)"

definition raise_to :: "time \<Rightarrow> time \<Rightarrow> time" where
  "raise_to until old = (if old < until then until else old)"

definition CooldownAt :: "int \<Rightarrow> duration \<Rightarrow> time \<Rightarrow> string option \<Rightarrow> key_pool \<Rightarrow> key_pool" where
  "CooldownAt index delay now reason p =
     (if \<not> valid_index p index then p
      else
        (let i = nat index; until = now + clamp_delay delay;
             p1 = p\<lparr>kp_cooldowns := (kp_cooldowns p)[i := raise_to until (kp_cooldowns p ! i)]\<rparr>
         in case reason of
              None \<Rightarrow> p1
            | Some r \<Rightarrow> p1\<lparr>kp_failureClasses := (kp_failureClasses p1)[i := r], kp_failureTimes := (kp_failureTimes p1)[i := now]\<rparr>))"

definition CooldownAll :: "duration \<Rightarrow> time \<Rightarrow> key_pool \<Rightarrow> key_pool" where
  "CooldownAll delay now p =
     (if kp_keys p = [] then p
      else p\<lparr>kp_cooldowns := map (raise_to (now + clamp_delay delay)) (kp_cooldowns p)\<rparr>)"

definition zero_observation :: rate_observation where
  "zero_observation = \<lparr>ro_keyVersion = 0, ro_providerVersion = 0, ro_serverVersion = 0\<rparr>"

definition candidateStateAt ::
  "int \<Rightarrow> time \<Rightarrow> retry_state \<Rightarrow> key_pool \<Rightarrow> (bool \<times> duration \<times> rate_observation) \<times> key_pool"
where
  "candidateStateAt index now server p =
     (if \<not> valid_index p index then ((False, 0, zero_observation), p)
      else
        (let i = nat index; until = raise_to (rs_until server) (kp_cooldowns p ! i);
             obs = \<lparr>ro_keyVersion = kp_rateVersions p ! i, ro_providerVersion = kp_rateVersion p, ro_serverVersion = rs_version server\<rparr>
         in if now < until then ((False, time_sub until now, obs), p)
            else ((True, 0, obs), p\<lparr>kp_cooldowns := (kp_cooldowns p)[i := 0]\<rparr>)))"

text \<open>The loop of \<open>cooldownWaitLocked\<close>, with the earliest deadline so far.\<close>

fun wait_loop :: "time \<Rightarrow> time list \<Rightarrow> time \<Rightarrow> duration" where
  "wait_loop now [] earliest = (if earliest = 0 then 0 else time_sub earliest now)"
| "wait_loop now (u # us) earliest = (if \<not> now < u then 0 else wait_loop now us (earlier earliest u))"

definition cooldownWaitLocked :: "time \<Rightarrow> key_pool \<Rightarrow> duration" where
  "cooldownWaitLocked now p = wait_loop now (kp_cooldowns p) 0"

definition CooldownWaitAt :: "time \<Rightarrow> retry_state \<Rightarrow> key_pool \<Rightarrow> duration" where
  "CooldownWaitAt now server p =
     (if kp_rateProbe p \<noteq> None \<or> rs_probe server \<noteq> None then second
      else foldl (\<lambda>delay until. if delay < time_sub until now then time_sub until now else delay)
             (cooldownWaitLocked now p) [kp_rateProviderUntil p, rs_until server])"

section \<open>Rate limits\<close>

definition holdProviderUntil :: "time \<Rightarrow> retry_state \<Rightarrow> key_pool \<Rightarrow> time \<times> retry_state \<times> key_pool" where
  "holdProviderUntil until server p =
     (if until = 0 then (0, server, p)
      else
        (let p1 = p\<lparr>kp_rateVersion := sat_inc (kp_rateVersion p)\<rparr>;
             server1 = server\<lparr>rs_version := sat_inc (rs_version server), rs_until := raise_to until (rs_until server)\<rparr>
         in (rs_until server1, server1, p1)))"

text \<open>\<open>rateLimitedAt\<close> in two parts: what it does to the attempted key, and what the streak does to
  the whole pool.\<close>

definition limited_key_delay :: "(duration \<Rightarrow> duration) \<Rightarrow> u16 \<Rightarrow> duration \<Rightarrow> bool \<Rightarrow> duration" where
  "limited_key_delay jitter failures upstream provided =
     (let d0 = (if \<not> provided then bounded_recovery_backoff ''rate_limited'' failures upstream jitter else upstream);
          d1 = (if d0 < second then second else d0)
      in if day < d1 \<or> 10 < failures then day else d1)"

definition limit_key :: "(duration \<Rightarrow> duration) \<Rightarrow> nat \<Rightarrow> duration \<Rightarrow> bool \<Rightarrow> time \<Rightarrow> key_pool \<Rightarrow> key_pool" where
  "limit_key jitter i upstream provided now p =
     (let failures = sat_inc (kp_rateFailures p ! i);
          until = now + limited_key_delay jitter failures upstream provided
      in p\<lparr>kp_rateFailures := (kp_rateFailures p)[i := failures],
           kp_rateStreak := sat_inc (kp_rateStreak p),
           kp_rateVersions := (kp_rateVersions p)[i := sat_inc (kp_rateVersions p ! i)],
           kp_rateVersion := sat_inc (kp_rateVersion p),
           kp_cooldowns := (kp_cooldowns p)[i := raise_to until (kp_cooldowns p ! i)],
           kp_failureClasses := (kp_failureClasses p)[i := ''rate_limited''],
           kp_failureTimes := (kp_failureTimes p)[i := now],
           kp_lastRateLimit := now\<rparr>)"

definition silence_provider :: "time \<Rightarrow> key_pool \<Rightarrow> duration \<times> key_pool" where
  "silence_provider now p =
     (let wait = cooldownWaitLocked now p;
          silent = (0 < wait \<and> 10 < kp_rateStreak p);
          p1 = (if silent then p\<lparr>kp_cooldowns := map (raise_to (now + day)) (kp_cooldowns p)\<rparr> else p);
          providerDelay = (if silent then day else wait)
      in (providerDelay, if 0 < providerDelay then p1\<lparr>kp_rateProviderUntil := now + providerDelay\<rparr> else p1))"

definition rateLimitedAt ::
  "(duration \<Rightarrow> duration) \<Rightarrow> int \<Rightarrow> duration \<Rightarrow> bool \<Rightarrow> time \<Rightarrow> key_pool \<Rightarrow> (duration \<times> duration \<times> u16) \<times> key_pool"
where
  "rateLimitedAt jitter index upstream provided now p =
     (if \<not> valid_index p index then ((0, 0, 0), p)
      else
        (let p1 = limit_key jitter (nat index) upstream provided now p;
             keyDelay = time_sub (kp_cooldowns p1 ! nat index) now;
             (providerDelay, p2) = silence_provider now p1
         in ((keyDelay, providerDelay, kp_rateStreak p2), p2)))"

definition rateSucceeded :: "int \<Rightarrow> rate_observation \<Rightarrow> retry_state \<Rightarrow> key_pool \<Rightarrow> bool \<times> retry_state \<times> key_pool" where
  "rateSucceeded index obs server p =
     (if \<not> valid_index p index then (False, server, p)
      else
        (let i = nat index;
             p1 = (if kp_rateVersions p ! i = ro_keyVersion obs then p\<lparr>kp_rateFailures := (kp_rateFailures p)[i := 0]\<rparr> else p)
         in if kp_rateVersion p1 \<noteq> ro_providerVersion obs then (False, server, p1)
            else if rs_version server \<noteq> ro_serverVersion obs then (False, server, p1)
            else
              (True,
               if rs_until server \<noteq> 0 then server\<lparr>rs_until := 0, rs_version := sat_inc (rs_version server)\<rparr> else server,
               p1\<lparr>kp_rateStreak := 0, kp_rateProviderUntil := 0\<rparr>)))"

section \<open>The recovery claim\<close>

text \<open>\<open>addr\<close> is the address of the lease that is allocated when the claim is granted. The result
  is an error, or a lease, or neither when the pool needs no recovery.\<close>

definition beginRateRecovery ::
  "nat \<Rightarrow> time \<Rightarrow> retry_state \<Rightarrow> key_pool \<Rightarrow> (call_error + rate_lease option) \<times> retry_state \<times> key_pool"
where
  "beginRateRecovery addr now server p =
     (if kp_rateProbe p \<noteq> None \<or> rs_probe server \<noteq> None then
        (Inl ((call_error_of 429 ''recovery_in_progress'')\<lparr>ce_UpstreamNotAttempted := True\<rparr>), server, p)
      else if (kp_rateStreak p = 0 \<or> kp_rateProviderUntil p = 0) \<and> rs_until server = 0 then (Inr None, server, p)
      else
        (let until = raise_to (rs_until server) (kp_rateProviderUntil p) in
         if now < until then
           (Inl ((call_error_of 429
                    (if now < rs_until server then ''provider_retry_after_cooling_down'' else ''provider_rate_limited_cooling_down''))
                  \<lparr>ce_Cooldown := time_sub until now, ce_CooldownUntil := until, ce_UpstreamNotAttempted := True\<rparr>), server, p)
         else
           (let withServer = (rs_until server \<noteq> 0) in
            (Inr (Some \<lparr>rl_id = addr, rl_server = withServer\<rparr>),
             if withServer then server\<lparr>rs_probe := Some addr\<rparr> else server,
             p\<lparr>kp_rateProbe := Some addr\<rparr>))))"

definition finishRateRecovery :: "rate_lease option \<Rightarrow> retry_state \<Rightarrow> key_pool \<Rightarrow> retry_state \<times> key_pool" where
  "finishRateRecovery lease server p =
     (case lease of
        None \<Rightarrow> (server, p)
      | Some l \<Rightarrow>
          if kp_rateProbe p = Some (rl_id l) then
            (if rl_server l \<and> rs_probe server = Some (rl_id l) then server\<lparr>rs_probe := None\<rparr> else server,
             p\<lparr>kp_rateProbe := None\<rparr>)
          else (server, p))"

section \<open>Attempt counters\<close>

definition pruneDecisions :: "time \<Rightarrow> key_pool \<Rightarrow> key_pool" where
  "pruneDecisions now p =
     p\<lparr>kp_decisions := dropWhile (\<lambda>d. keyDecisionTTL \<le> time_sub now (kf_Timestamp d)) (kp_decisions p)\<rparr>"

text \<open>\<open>beginAttempt\<close> returns a closure over the index and the counters; the pair of both stands for it.\<close>

definition record_failover :: "int \<Rightarrow> int \<Rightarrow> string \<Rightarrow> time \<Rightarrow> key_pool \<Rightarrow> key_pool" where
  "record_failover index from reason now p =
     (if 0 \<le> from \<and> from \<noteq> index \<and> from < int (length (kp_labels p)) then
        (let p1 = pruneDecisions now p;
             ds = (if length (kp_decisions p1) = keyDecisionLimit then tl (kp_decisions p1) else kp_decisions p1)
         in p1\<lparr>kp_decisions := ds @ [\<lparr>kf_Timestamp = now, kf_From = kp_labels p ! nat from, kf_To = kp_labels p ! nat index, kf_Reason = reason\<rparr>]\<rparr>)
      else p)"

definition beginAttempt ::
  "int \<Rightarrow> bool \<Rightarrow> int \<Rightarrow> string \<Rightarrow> time \<Rightarrow> key_pool \<Rightarrow> (nat \<times> nat) option \<times> key_pool"
where
  "beginAttempt index first from reason now p =
     (if \<not> kp_telemetryEnabled p \<or> index < 0 \<or> int (length (kp_counters p)) \<le> index then (None, p)
      else
        (let i = nat index; c = kp_counters p ! i;
             c1 = c\<lparr>kc_HTTPAttempts := sat_inc (kc_HTTPAttempts c), kc_InFlight := sat_inc (kc_InFlight c)\<rparr>;
             c2 = (if first then c1\<lparr>kc_Requests := sat_inc (kc_Requests c1)\<rparr> else c1)
         in (Some (i, kc_addr c), record_failover index from reason now (p\<lparr>kp_counters := (kp_counters p)[i := c2]\<rparr>))))"

definition count_outcome :: "string \<Rightarrow> key_counters \<Rightarrow> key_counters" where
  "count_outcome outcome c =
     (if outcome = ''success'' then c\<lparr>kc_Successes := sat_inc (kc_Successes c)\<rparr>
      else if outcome = ''canceled'' then c\<lparr>kc_Cancellations := sat_inc (kc_Cancellations c)\<rparr>
      else if outcome = ''timeout'' then c\<lparr>kc_Timeouts := sat_inc (kc_Timeouts c)\<rparr>
      else c\<lparr>kc_Failures := sat_inc (kc_Failures c)\<rparr>)"

definition finishAttempt :: "nat \<times> nat \<Rightarrow> attempt_result \<Rightarrow> time \<Rightarrow> key_pool \<Rightarrow> key_pool" where
  "finishAttempt token result now p =
     (let (i, addr) = token in
      if \<not> kp_telemetryEnabled p \<or> kc_addr (kp_counters p ! i) \<noteq> addr then p
      else
        (let c = kp_counters p ! i;
             c1 = (if 0 < kc_InFlight c then c\<lparr>kc_InFlight := kc_InFlight c - 1\<rparr> else c);
             p1 = p\<lparr>kp_counters := (kp_counters p)[i := count_outcome (ar_Outcome result) c1]\<rparr>
         in if ar_Outcome result \<noteq> ''success''
            then p1\<lparr>kp_failureClasses := (kp_failureClasses p1)[i := ar_FailureClass result], kp_failureTimes := (kp_failureTimes p1)[i := now]\<rparr>
            else p1))"

section \<open>Diagnostic status\<close>

record key_status =
  ks_Label :: string
  ks_State :: string
  ks_LastFailureClass :: string
  ks_LastFailureAt :: time
  ks_CooldownUntil :: time
  ks_ConsecutiveRateLimits :: u16
  ks_Counters :: "key_counters option"

record key_pool_status =
  st_Capacity :: nat
  st_Eligible :: nat
  st_Cooling :: nat
  st_TelemetryEnabled :: bool
  st_CounterEpoch :: u64
  st_Keys :: "key_status list"
  st_RecentFailovers :: "key_failover list"
  st_RecentLimit :: nat
  st_RecentTTLSeconds :: int
  st_ConsecutiveRateLimits :: u16
  st_RateLimitRetryAt :: time
  st_ProviderRetryAt :: time
  st_LastRateLimitAt :: time
  st_RecoveryInProgress :: bool

definition key_status_of :: "time \<Rightarrow> retry_state \<Rightarrow> key_pool \<Rightarrow> nat \<Rightarrow> key_status" where
  "key_status_of now server p i =
     (let until = raise_to (rs_until server) (kp_cooldowns p ! i); cooling = (now < until)
      in \<lparr>ks_Label = kp_labels p ! i, ks_State = (if cooling then ''cooling'' else ''eligible''),
          ks_LastFailureClass = kp_failureClasses p ! i, ks_LastFailureAt = kp_failureTimes p ! i,
          ks_CooldownUntil = (if cooling then until else 0), ks_ConsecutiveRateLimits = kp_rateFailures p ! i,
          ks_Counters = (if kp_telemetryEnabled p then Some (kp_counters p ! i) else None)\<rparr>)"

definition diagnosticStatus :: "time \<Rightarrow> retry_state \<Rightarrow> key_pool \<Rightarrow> key_pool_status \<times> key_pool" where
  "diagnosticStatus now server p =
     (let p1 = pruneDecisions now p; keys = map (key_status_of now server p1) [0..<length (kp_labels p1)]
      in (\<lparr>st_Capacity = length (kp_keys p1), st_Eligible = length (filter (\<lambda>k. ks_State k = ''eligible'') keys),
           st_Cooling = length (filter (\<lambda>k. ks_State k = ''cooling'') keys),
           st_TelemetryEnabled = kp_telemetryEnabled p1, st_CounterEpoch = kp_counterEpoch p1, st_Keys = keys,
           st_RecentFailovers = kp_decisions p1, st_RecentLimit = keyDecisionLimit, st_RecentTTLSeconds = keyDecisionTTL div second,
           st_ConsecutiveRateLimits = kp_rateStreak p1, st_RateLimitRetryAt = kp_rateProviderUntil p1,
           st_ProviderRetryAt = rs_until server, st_LastRateLimitAt = kp_lastRateLimit p1,
           st_RecoveryInProgress = (kp_rateProbe p1 \<noteq> None \<or> rs_probe server \<noteq> None)\<rparr>, p1))"

section \<open>Well-formedness\<close>

definition pool_wf :: "key_pool \<Rightarrow> bool" where
  "pool_wf p \<longleftrightarrow>
     (let n = length (kp_keys p) in
      0 < n \<and> kp_next p < n \<and> length (kp_labels p) = n \<and> length (kp_failureClasses p) = n \<and>
      length (kp_failureTimes p) = n \<and> length (kp_cooldowns p) = n \<and> length (kp_rateFailures p) = n \<and>
      length (kp_rateVersions p) = n \<and> length (kp_counters p) = (if kp_telemetryEnabled p then n else 0) \<and>
      length (kp_decisions p) \<le> keyDecisionLimit)"

text \<open>The operations on a pool and its server other than the recovery claim.\<close>

inductive pool_op :: "retry_state \<times> key_pool \<Rightarrow> retry_state \<times> key_pool \<Rightarrow> bool" where
  candidates: "CandidatesAt now sv p = (r, p') \<Longrightarrow> pool_op (sv, p) (sv, p')"
| ready: "candidateStateAt i now sv p = (r, p') \<Longrightarrow> pool_op (sv, p) (sv, p')"
| cooldown: "pool_op (sv, p) (sv, CooldownAt i delay now reason p)"
| cooldown_all: "pool_op (sv, p) (sv, CooldownAll delay now p)"
| hold: "holdProviderUntil until sv p = (r, sv', p') \<Longrightarrow> pool_op (sv, p) (sv', p')"
| limited: "rateLimitedAt jitter i upstream provided now p = (r, p') \<Longrightarrow> pool_op (sv, p) (sv, p')"
| succeeded: "rateSucceeded i obs sv p = (r, sv', p') \<Longrightarrow> pool_op (sv, p) (sv', p')"
| attempt: "beginAttempt i first from reason now p = (r, p') \<Longrightarrow> pool_op (sv, p) (sv, p')"
| attempt_done: "fst token < length (kp_keys p) \<Longrightarrow> pool_op (sv, p) (sv, finishAttempt token result now p)"
| status: "diagnosticStatus now sv p = (r, p') \<Longrightarrow> pool_op (sv, p) (sv, p')"
| switch: "pool_op (sv, p) (sv, setDiagnostics enabled p)"

lemma scan_keys_length [simp]: "length (fst (scan_keys now keys is st)) = length (fst st)"
  by (induction now keys "is" st rule: scan_keys.induct) auto

lemma candidates_shape:
  assumes "CandidatesAt now sv p = (r, p')"
  shows "p' = p \<or> kp_keys p \<noteq> [] \<and> (\<exists>cds. length cds = length (kp_cooldowns p) \<and>
    p' = p\<lparr>kp_next := (kp_next p mod length (kp_keys p) + 1) mod length (kp_keys p), kp_cooldowns := cds\<rparr>)"
proof -
  obtain cds res e where sc: "scan_keys now (kp_keys p)
      (map (\<lambda>offset. (kp_next p mod length (kp_keys p) + offset) mod length (kp_keys p)) [0..<length (kp_keys p)])
      (kp_cooldowns p, [], 0) = (cds, res, e)" by (metis surj_pair)
  then have "length cds = length (kp_cooldowns p)" using scan_keys_length by (metis fst_conv)
  with assms sc show ?thesis by (auto simp: CandidatesAt_def Let_def split: if_splits)
qed

text \<open>What no operation but the claim touches, and in which direction the versions move.\<close>

definition op_frame :: "retry_state \<times> key_pool \<Rightarrow> retry_state \<times> key_pool \<Rightarrow> bool" where
  "op_frame x y \<longleftrightarrow> kp_rateProbe (snd y) = kp_rateProbe (snd x) \<and> rs_probe (fst y) = rs_probe (fst x) \<and>
     kp_rateVersion (snd x) \<le> kp_rateVersion (snd y) \<and> rs_version (fst x) \<le> rs_version (fst y) \<and>
     kp_keys (snd y) = kp_keys (snd x)"

lemma limit_key_frame [simp]:
  "kp_rateProbe (limit_key j i u pr now p) = kp_rateProbe p" "kp_keys (limit_key j i u pr now p) = kp_keys p"
  "kp_rateVersion (limit_key j i u pr now p) = sat_inc (kp_rateVersion p)"
  "kp_rateStreak (limit_key j i u pr now p) = sat_inc (kp_rateStreak p)"
  by (simp_all add: limit_key_def Let_def)

lemma limit_key_wf: "pool_wf p \<Longrightarrow> pool_wf (limit_key j i u pr now p)"
  by (simp add: pool_wf_def limit_key_def Let_def)

lemma silence_frame [simp]:
  "kp_rateProbe (snd (silence_provider now p)) = kp_rateProbe p" "kp_keys (snd (silence_provider now p)) = kp_keys p"
  "kp_rateVersion (snd (silence_provider now p)) = kp_rateVersion p"
  "kp_rateStreak (snd (silence_provider now p)) = kp_rateStreak p"
  by (simp_all add: silence_provider_def Let_def)

lemma silence_wf: "pool_wf p \<Longrightarrow> pool_wf (snd (silence_provider now p))"
  by (simp add: pool_wf_def silence_provider_def Let_def)

lemma limited_state:
  assumes "rateLimitedAt jitter i upstream provided now p = (r, p')"
  shows "p' = (if valid_index p i then snd (silence_provider now (limit_key jitter (nat i) upstream provided now p)) else p)"
  using assms by (auto simp: rateLimitedAt_def Let_def case_prod_unfold)

lemma limit_frame:
  assumes "rateLimitedAt jitter i upstream provided now p = (r, p')"
  shows "kp_rateProbe p' = kp_rateProbe p" "kp_keys p' = kp_keys p" "pool_wf p \<Longrightarrow> pool_wf p'"
    "kp_rateVersion p' = (if valid_index p i then sat_inc (kp_rateVersion p) else kp_rateVersion p)"
  unfolding limited_state [OF assms] by (simp_all add: limit_key_wf silence_wf)

lemma pool_op_frame: "pool_op x y \<Longrightarrow> op_frame x y"
proof (induction rule: pool_op.induct)
  case (candidates now sv p r p')
  from candidates_shape [OF this] show ?case by (auto simp: op_frame_def)
next
  case (limited jitter i upstream provided now p r p' sv)
  from limit_frame [OF this] show ?case by (simp add: op_frame_def sat_inc_mono)
qed (auto simp: op_frame_def candidateStateAt_def CooldownAt_def CooldownAll_def holdProviderUntil_def rateSucceeded_def
  beginAttempt_def record_failover_def finishAttempt_def diagnosticStatus_def pruneDecisions_def setDiagnostics_def Let_def
  sat_inc_mono split: if_splits option.splits prod.splits)

lemma dropWhile_length [simp]: "length (dropWhile P xs) \<le> length xs"
  by (induction xs) auto

lemma shift_full_length:
  "length ds \<le> keyDecisionLimit \<Longrightarrow> length (if length ds = keyDecisionLimit then tl ds else ds) < keyDecisionLimit"
  by (cases "length ds = keyDecisionLimit") auto

lemma record_failover_wf:
  assumes "pool_wf p"
  shows "pool_wf (record_failover index from reason now p)"
proof (cases "0 \<le> from \<and> from \<noteq> index \<and> from < int (length (kp_labels p))")
  case True
  let ?ds = "kp_decisions (pruneDecisions now p)"
  have "length ?ds \<le> keyDecisionLimit"
    using assms order_trans [OF dropWhile_length] by (auto simp: pool_wf_def Let_def pruneDecisions_def)
  then have "length ((if length ?ds = keyDecisionLimit then tl ?ds else ?ds) @ [d]) \<le> keyDecisionLimit" for d
    using shift_full_length by (metis Suc_leI length_append_singleton)
  moreover have "pool_wf (p\<lparr>kp_decisions := ds\<rparr>)" if "length ds \<le> keyDecisionLimit" for ds
    using assms that by (simp add: pool_wf_def Let_def)
  moreover have "pruneDecisions now p\<lparr>kp_decisions := ds\<rparr> = p\<lparr>kp_decisions := ds\<rparr>" for ds
    by (simp add: pruneDecisions_def)
  ultimately show ?thesis using True by (simp only: record_failover_def Let_def if_True simp_thms)
next
  case False
  with assms show ?thesis by (auto simp: record_failover_def)
qed

lemma pool_op_wf: "pool_op x y \<Longrightarrow> pool_wf (snd x) \<Longrightarrow> pool_wf (snd y)"
proof (induction rule: pool_op.induct)
  case (candidates now sv p r p')
  from candidates_shape [OF candidates.hyps] candidates.prems show ?case by (auto simp: pool_wf_def Let_def)
next
  case (limited jitter i upstream provided now p r p' sv)
  from limit_frame(3) [OF limited.hyps] limited.prems show ?case by simp
next
  case (attempt i first frm reason now p r p' sv)
  have "pool_wf (p\<lparr>kp_counters := (kp_counters p)[j := c]\<rparr>)" for j c
    using attempt.prems by (simp add: pool_wf_def Let_def)
  with attempt show ?case by (auto simp: beginAttempt_def Let_def intro: record_failover_wf split: if_splits)
next
  case (status now sv p r p')
  then show ?case
    using order_trans [OF dropWhile_length]
    by (auto simp: diagnosticStatus_def pruneDecisions_def pool_wf_def Let_def)
next
  case (switch sv p enabled)
  then show ?case by (auto simp: setDiagnostics_def pool_wf_def Let_def)
qed (auto simp: pool_wf_def candidateStateAt_def CooldownAt_def CooldownAll_def holdProviderUntil_def rateSucceeded_def
  finishAttempt_def Let_def split: if_splits option.splits prod.splits)

lemma new_pool_wf: "newProviderKeyPool b label keys = Some p \<Longrightarrow> pool_wf p \<and> kp_rateProbe p = None"
  by (auto simp: newProviderKeyPool_def setDiagnostics_def pool_wf_def Let_def split: if_splits)

section \<open>Pools that share an endpoint\<close>

text \<open>
  The pools of one endpoint (a reload may add one) with the server state they share and the
  recovery leases of the requests in flight, each with the index of its pool. A refused
  \<open>beginRateRecovery\<close>, and one that needs no recovery, leave everything as it is.
\<close>

record pool_sys =
  py_pools :: "key_pool list"
  py_server :: retry_state
  py_flight :: "(nat \<times> rate_lease) list"

definition pool_init :: pool_sys where
  "pool_init = \<lparr>py_pools = [], py_server = fresh_retry_state, py_flight = []\<rparr>"

inductive pool_step :: "pool_sys \<Rightarrow> pool_sys \<Rightarrow> bool" where
  use: "pool_step \<lparr>py_pools = ps, py_server = sv, py_flight = F\<rparr> \<lparr>py_pools = ps[k := p'], py_server = sv', py_flight = F\<rparr>"
    if "k < length ps" and "pool_op (sv, ps ! k) (sv', p')"
| claim: "pool_step \<lparr>py_pools = ps, py_server = sv, py_flight = F\<rparr> \<lparr>py_pools = ps[k := p'], py_server = sv', py_flight = (k, l) # F\<rparr>"
    if "k < length ps" and "addr \<notin> (rl_id \<circ> snd) ` set F"
      and "beginRateRecovery addr now sv (ps ! k) = (Inr (Some l), sv', p')"
| finish: "pool_step \<lparr>py_pools = ps, py_server = sv, py_flight = F @ (k, l) # G\<rparr>
      \<lparr>py_pools = ps[k := p'], py_server = sv', py_flight = F @ G\<rparr>"
    if "finishRateRecovery (Some l) sv (ps ! k) = (sv', p')"
| publish: "pool_step \<lparr>py_pools = ps, py_server = sv, py_flight = F\<rparr> \<lparr>py_pools = ps @ [p], py_server = sv, py_flight = F\<rparr>"
    if "newProviderKeyPool b label keys = Some p"

text \<open>Every lease in flight holds the claim of its pool, and of the server if it took it; every claim
  is held by a lease in flight.\<close>

definition holds_claim :: "pool_sys \<Rightarrow> nat \<times> rate_lease \<Rightarrow> bool" where
  "holds_claim y kl \<longleftrightarrow> fst kl < length (py_pools y) \<and>
     kp_rateProbe (py_pools y ! fst kl) = Some (rl_id (snd kl)) \<and>
     (rl_server (snd kl) \<longrightarrow> rs_probe (py_server y) = Some (rl_id (snd kl)))"

definition pool_inv :: "pool_sys \<Rightarrow> bool" where
  "pool_inv y \<longleftrightarrow> distinct (map (rl_id \<circ> snd) (py_flight y)) \<and> list_all pool_wf (py_pools y) \<and>
     (\<forall>kl \<in> set (py_flight y). holds_claim y kl) \<and>
     (\<forall>k i. k < length (py_pools y) \<and> kp_rateProbe (py_pools y ! k) = Some i \<longrightarrow>
        (\<exists>l. (k, l) \<in> set (py_flight y) \<and> rl_id l = i)) \<and>
     (\<forall>i. rs_probe (py_server y) = Some i \<longrightarrow> (\<exists>k l. (k, l) \<in> set (py_flight y) \<and> rl_id l = i \<and> rl_server l))"

lemma pool_inv_probe:
  assumes "pool_inv y" "k < length (py_pools y)" "kp_rateProbe (py_pools y ! k) = Some i"
  obtains l where "(k, l) \<in> set (py_flight y)" "rl_id l = i"
  using assms unfolding pool_inv_def by blast

lemma begin_granted:
  assumes "beginRateRecovery addr now sv p = (Inr (Some l), sv', p')"
  shows "kp_rateProbe p = None" "rs_probe sv = None" "rl_id l = addr" "p' = p\<lparr>kp_rateProbe := Some addr\<rparr>"
    "rl_server l \<longleftrightarrow> rs_until sv \<noteq> 0" "sv' = (if rl_server l then sv\<lparr>rs_probe := Some addr\<rparr> else sv)"
  using assms by (auto simp: beginRateRecovery_def Let_def split: if_splits)

lemma pool_wf_probe [simp]: "pool_wf (p\<lparr>kp_rateProbe := x\<rparr>) = pool_wf p"
  by (simp add: pool_wf_def)

lemma list_all_update: "list_all P xs \<Longrightarrow> P x \<Longrightarrow> list_all P (xs[k := x])"
  using set_update_subset_insert [of xs k x] by (auto simp: list_all_iff)

lemma use_pool_inv:
  assumes "pool_inv \<lparr>py_pools = ps, py_server = sv, py_flight = F\<rparr>" "k < length ps" "pool_op (sv, ps ! k) (sv', p')"
  shows "pool_inv \<lparr>py_pools = ps[k := p'], py_server = sv', py_flight = F\<rparr>"
proof -
  have "pool_wf (ps ! k)" using assms(1,2) by (simp add: pool_inv_def list_all_length)
  then have "pool_wf p'" using pool_op_wf [OF assms(3)] by simp
  moreover have "kp_rateProbe p' = kp_rateProbe (ps ! k)" "rs_probe sv' = rs_probe sv"
    using pool_op_frame [OF assms(3)] by (simp_all add: op_frame_def)
  ultimately show ?thesis
    using assms(1,2) unfolding pool_inv_def holds_claim_def
    by (simp add: list_all_update nth_list_update)
qed

lemma claim_pool_inv:
  assumes "pool_inv \<lparr>py_pools = ps, py_server = sv, py_flight = F\<rparr>" "k < length ps" "addr \<notin> (rl_id \<circ> snd) ` set F"
    "beginRateRecovery addr now sv (ps ! k) = (Inr (Some l), sv', p')"
  shows "pool_inv \<lparr>py_pools = ps[k := p'], py_server = sv', py_flight = (k, l) # F\<rparr>"
proof -
  note g = begin_granted [OF assms(4)]
  have inv: "\<forall>kl \<in> set F. holds_claim \<lparr>py_pools = ps, py_server = sv, py_flight = F\<rparr> kl"
    using assms(1) by (simp add: pool_inv_def)
  have ne: "fst kl \<noteq> k \<and> \<not> rl_server (snd kl)" if "kl \<in> set F" for kl
    using inv that g(1,2) by (auto simp: holds_claim_def)
  have "\<forall>kl \<in> set ((k, l) # F). holds_claim \<lparr>py_pools = ps[k := p'], py_server = sv', py_flight = (k, l) # F\<rparr> kl"
  proof
    fix kl assume m: "kl \<in> set ((k, l) # F)"
    show "holds_claim \<lparr>py_pools = ps[k := p'], py_server = sv', py_flight = (k, l) # F\<rparr> kl"
    proof (cases "kl = (k, l)")
      case True
      with g(3,4,6) assms(2) show ?thesis by (simp add: holds_claim_def)
    next
      case False
      with m have "kl \<in> set F" by simp
      with inv ne [OF this] show ?thesis by (auto simp: holds_claim_def)
    qed
  qed
  moreover have "pool_wf p'" using assms(1,2) g(4) by (simp add: pool_inv_def list_all_length)
  moreover have "\<exists>l'. (j, l') \<in> set ((k, l) # F) \<and> rl_id l' = i"
    if "j < length ps" "kp_rateProbe (ps[k := p'] ! j) = Some i" for i j
    using that assms(1,2) g(3,4) by (cases "j = k") (auto simp: pool_inv_def)
  moreover have "\<exists>j l'. (j, l') \<in> set ((k, l) # F) \<and> rl_id l' = i \<and> rl_server l'" if "rs_probe sv' = Some i" for i
    using that g(2,3,6) by (auto split: if_splits)
  ultimately show ?thesis
    using assms(1,3) g(3) unfolding pool_inv_def by (auto simp: list_all_update)
qed

lemma finish_pool_inv:
  assumes "pool_inv \<lparr>py_pools = ps, py_server = sv, py_flight = F @ (k, l) # G\<rparr>"
    "finishRateRecovery (Some l) sv (ps ! k) = (sv', p')"
  shows "pool_inv \<lparr>py_pools = ps[k := p'], py_server = sv', py_flight = F @ G\<rparr>"
proof -
  let ?y = "\<lparr>py_pools = ps, py_server = sv, py_flight = F @ (k, l) # G\<rparr>"
  have own: "k < length ps" "kp_rateProbe (ps ! k) = Some (rl_id l)" "rl_server l \<longrightarrow> rs_probe sv = Some (rl_id l)"
    using assms(1) by (auto simp: pool_inv_def holds_claim_def)
  have eqs: "p' = (ps ! k)\<lparr>kp_rateProbe := None\<rparr>" "sv' = (if rl_server l then sv\<lparr>rs_probe := None\<rparr> else sv)"
    using assms(2) own by (auto simp: finishRateRecovery_def split: if_splits)
  have inv: "\<forall>kl \<in> set (F @ G). holds_claim ?y kl" using assms(1) by (simp add: pool_inv_def)
  have other: "rl_id (snd kl) \<noteq> rl_id l" if "kl \<in> set (F @ G)" for kl
    using assms(1) that by (auto simp: pool_inv_def rev_image_eqI)
  have ne: "fst kl \<noteq> k \<and> (rl_server l \<longrightarrow> \<not> rl_server (snd kl))" if "kl \<in> set (F @ G)" for kl
    using inv that own other [OF that] by (auto simp: holds_claim_def)
  have "\<forall>kl \<in> set (F @ G). holds_claim \<lparr>py_pools = ps[k := p'], py_server = sv', py_flight = F @ G\<rparr> kl"
  proof
    fix kl assume m: "kl \<in> set (F @ G)"
    from inv m ne [OF m] eqs(2) show "holds_claim \<lparr>py_pools = ps[k := p'], py_server = sv', py_flight = F @ G\<rparr> kl"
      by (auto simp: holds_claim_def)
  qed
  moreover have "pool_wf p'" using assms(1) own(1) eqs(1) by (simp add: pool_inv_def list_all_length)
  moreover have "\<exists>l'. (j, l') \<in> set (F @ G) \<and> rl_id l' = i"
    if j: "j < length ps" "kp_rateProbe (ps[k := p'] ! j) = Some i" for i j
  proof -
    from j own(1) eqs(1) have "j \<noteq> k" "kp_rateProbe (ps ! j) = Some i" by (auto simp: nth_list_update split: if_splits)
    with j(1) obtain l' where "(j, l') \<in> set (F @ (k, l) # G)" "rl_id l' = i"
      using pool_inv_probe [OF assms(1), of j i] by auto
    with \<open>j \<noteq> k\<close> show ?thesis by auto
  qed
  moreover have "\<exists>j l'. (j, l') \<in> set (F @ G) \<and> rl_id l' = i \<and> rl_server l'" if "rs_probe sv' = Some i" for i
  proof -
    from that eqs(2) have "\<not> rl_server l" "rs_probe sv = Some i" by (auto split: if_splits)
    then obtain j l' where "(j, l') \<in> set (F @ (k, l) # G)" "rl_id l' = i" "rl_server l'"
      using assms(1) unfolding pool_inv_def by auto
    with \<open>\<not> rl_server l\<close> show ?thesis by auto
  qed
  ultimately show ?thesis
    using assms(1) unfolding pool_inv_def by (auto simp: list_all_update)
qed

lemma publish_pool_inv:
  assumes "pool_inv \<lparr>py_pools = ps, py_server = sv, py_flight = F\<rparr>" "newProviderKeyPool b label keys = Some p"
  shows "pool_inv \<lparr>py_pools = ps @ [p], py_server = sv, py_flight = F\<rparr>"
  using assms(1) new_pool_wf [OF assms(2)]
  unfolding pool_inv_def holds_claim_def by (auto simp: nth_append less_Suc_eq)

lemma pool_step_inv: "pool_step x y \<Longrightarrow> pool_inv x \<Longrightarrow> pool_inv y"
proof (induction rule: pool_step.induct)
  case (use k ps sv sv' p' F)
  show ?case by (rule use_pool_inv [OF use.prems use.hyps])
next
  case (claim k ps addr F now sv l sv' p')
  show ?case by (rule claim_pool_inv [OF claim.prems claim.hyps])
next
  case (finish l sv ps k sv' p' F G)
  show ?case by (rule finish_pool_inv [OF finish.prems finish.hyps])
next
  case (publish b label keys p ps sv F)
  show ?case by (rule publish_pool_inv [OF publish.prems publish.hyps])
qed

interpretation pool_safety: safe_system "\<lambda>y. y = pool_init" pool_step pool_inv
proof
  show "pool_inv y" if "y = pool_init" for y
    using that by (simp add: pool_init_def pool_inv_def fresh_retry_state_def)
qed (rule pool_step_inv)

section \<open>Properties of the recovery claim\<close>

lemma flight_ids_inj:
  assumes "pool_inv y" "kl \<in> set (py_flight y)" "km \<in> set (py_flight y)" "rl_id (snd kl) = rl_id (snd km)"
  shows "kl = km"
  using assms unfolding pool_inv_def distinct_map inj_on_def by auto


definition sample_pool :: key_pool where
  "sample_pool = the (newProviderKeyPool ''key-b'' (\<lambda>i. ''key-'' @ [char_of (97 + i)]) [''alpha'', ''beta''])"

text \<open>The provider asked for a wait of a minute; two minutes later a request probes it.\<close>

definition sample_held :: "time \<times> retry_state \<times> key_pool" where
  "sample_held = holdProviderUntil minute fresh_retry_state sample_pool"

definition sample_claim :: "(call_error + rate_lease option) \<times> retry_state \<times> key_pool" where
  "sample_claim = beginRateRecovery 7 (2 * minute) (fst (snd sample_held)) (snd (snd sample_held))"

definition sample_recovering :: pool_sys where
  "sample_recovering = \<lparr>py_pools = [snd (snd sample_claim)], py_server = fst (snd sample_claim),
     py_flight = [(0, \<lparr>rl_id = 7, rl_server = True\<rparr>)]\<rparr>"

lemma sample_recovering_run: "pool_step\<^sup>*\<^sup>* pool_init sample_recovering"
proof -
  have new: "newProviderKeyPool ''key-b'' (\<lambda>i. ''key-'' @ [char_of (97 + i)]) [''alpha'', ''beta''] = Some sample_pool"
    by (simp add: sample_pool_def newProviderKeyPool_def Let_def)
  have s1: "pool_step pool_init \<lparr>py_pools = [sample_pool], py_server = fresh_retry_state, py_flight = []\<rparr>"
    using pool_step.publish [OF new, of "[]" fresh_retry_state "[]"] by (simp add: pool_init_def)
  have "pool_op (fresh_retry_state, sample_pool) (fst (snd sample_held), snd (snd sample_held))"
    by (rule pool_op.hold [of minute _ _ "fst sample_held"]) (simp add: sample_held_def)
  then have s2: "pool_step \<lparr>py_pools = [sample_pool], py_server = fresh_retry_state, py_flight = []\<rparr>
      \<lparr>py_pools = [snd (snd sample_held)], py_server = fst (snd sample_held), py_flight = []\<rparr>"
    using pool_step.use [of 0 "[sample_pool]"] by simp
  have "fst sample_claim = Inr (Some \<lparr>rl_id = 7, rl_server = True\<rparr>)" by code_simp
  then have "beginRateRecovery 7 (2 * minute) (fst (snd sample_held)) ([snd (snd sample_held)] ! 0) =
      (Inr (Some \<lparr>rl_id = 7, rl_server = True\<rparr>), fst (snd sample_claim), snd (snd sample_claim))"
    by (simp add: sample_claim_def prod_eq_iff)
  from pool_step.claim [OF _ _ this, of "[]"]
  have s3: "pool_step \<lparr>py_pools = [snd (snd sample_held)], py_server = fst (snd sample_held), py_flight = []\<rparr> sample_recovering"
    by (simp add: sample_recovering_def)
  from s1 s2 s3 show ?thesis by simp
qed


text \<open>C22. A recovery claim never leaks: once no request is in flight, a pool whose waits have passed
  admits the next request again, as a probe or without one.\<close>

theorem rate_recovery_admits_again:
  assumes "pool_step\<^sup>*\<^sup>* pool_init y" and "py_flight y = []" and "p \<in> set (py_pools y)"
    and "kp_rateProviderUntil p \<le> now" and "rs_until (py_server y) \<le> now"
  shows "\<exists>l. fst (beginRateRecovery addr now (py_server y) p) = Inr l"
proof -
  have inv: "pool_inv y" using pool_safety.run_inv [OF refl assms(1)] .
  obtain k where "k < length (py_pools y)" "p = py_pools y ! k" using assms(3) by (auto simp: in_set_conv_nth)
  then have "kp_rateProbe p = None" "rs_probe (py_server y) = None"
    using inv assms(2) unfolding pool_inv_def by auto
  with assms(4,5) show ?thesis by (auto simp: beginRateRecovery_def Let_def raise_to_def)
qed

lemma sample_published_run: "pool_step\<^sup>*\<^sup>* pool_init \<lparr>py_pools = [sample_pool], py_server = fresh_retry_state, py_flight = []\<rparr>"
proof -
  have new: "newProviderKeyPool ''key-b'' (\<lambda>i. ''key-'' @ [char_of (97 + i)]) [''alpha'', ''beta''] = Some sample_pool"
    by (simp add: sample_pool_def newProviderKeyPool_def Let_def)
  from pool_step.publish [OF this, of "[]" fresh_retry_state "[]"] show ?thesis by (auto simp: pool_init_def)
qed

theorem rate_recovery_admits_again_witness: "\<exists>l. fst (beginRateRecovery 3 0 fresh_retry_state sample_pool) = Inr l"
proof -
  have "kp_rateProviderUntil sample_pool \<le> 0" by code_simp
  with rate_recovery_admits_again [OF sample_published_run, of sample_pool 0 3] show ?thesis
    by (simp add: fresh_retry_state_def)
qed

text \<open>C23. A wait the provider asked for holds for the whole endpoint: until it has passed, whichever pool
  and key a request would use, it gets no candidates, no key is ready for dispatch and recovery
  is refused, and the delays reported are positive.\<close>

theorem server_wait_blocks_dispatch:
  assumes "0 \<le> now" and "now < rs_until sv" and "kp_keys p \<noteq> []"
  shows "fst (CandidatesAt now sv p) = ([], time_sub (rs_until sv) now) \<and> 0 < time_sub (rs_until sv) now \<and>
    (\<exists>d obs. fst (candidateStateAt i now sv p) = (False, d, obs) \<and> (valid_index p i \<longrightarrow> 0 < d)) \<and>
    (\<exists>e. fst (beginRateRecovery addr now sv p) = Inl e \<and> ce_Status e = 429 \<and> ce_UpstreamNotAttempted e \<and>
       (ce_Code e = ''recovery_in_progress'' \<or> 0 < ce_Cooldown e \<and> rs_until sv \<le> ce_CooldownUntil e)) \<and>
    0 < CooldownWaitAt now sv p"
proof -
  have r: "now < raise_to (rs_until sv) x" "rs_until sv \<le> raise_to (rs_until sv) x" for x
    using assms(2) by (simp_all add: raise_to_def)
  have "rs_until sv \<noteq> 0" using assms(1,2) by simp
  then have "\<exists>e. fst (beginRateRecovery addr now sv p) = Inl e \<and> ce_Status e = 429 \<and> ce_UpstreamNotAttempted e \<and>
       (ce_Code e = ''recovery_in_progress'' \<or> 0 < ce_Cooldown e \<and> rs_until sv \<le> ce_CooldownUntil e)"
    using r by (simp add: beginRateRecovery_def call_error_of_def Let_def)
  moreover have "0 < CooldownWaitAt now sv p"
    using assms(2) time_sub_pos_iff [of "rs_until sv" now] by (auto simp: CooldownWaitAt_def simp del: time_sub_pos_iff)
  moreover have "\<exists>d obs. fst (candidateStateAt i now sv p) = (False, d, obs) \<and> (valid_index p i \<longrightarrow> 0 < d)"
    using r by (simp add: candidateStateAt_def Let_def)
  ultimately show ?thesis using assms by (simp add: CandidatesAt_def)
qed

theorem server_wait_blocks_dispatch_witness:
  "fst (CandidatesAt second (fst (snd sample_held)) sample_pool) = ([], 59 * second)"
proof -
  have e: "rs_until (fst (snd sample_held)) = minute" "kp_keys sample_pool \<noteq> []" by code_simp+
  with server_wait_blocks_dispatch [of second "fst (snd sample_held)" sample_pool 0 0] show ?thesis
    by (simp add: time_sub_def min_int64_def max_int64_def)
qed

section \<open>Version fences\<close>

lemma pool_ops_frame: "pool_op\<^sup>*\<^sup>* x y \<Longrightarrow> op_frame x y"
proof (induction rule: rtranclp_induct)
  case base
  show ?case by (simp add: op_frame_def)
next
  case (step y z)
  from pool_op_frame [OF step.hyps(2)] step.IH show ?case by (auto simp: op_frame_def)
qed

lemma sat_inc_less: "c < - 1 \<Longrightarrow> c < sat_inc c"
  for c :: "'a::len word"
  using sat_inc_mono [of c] sat_inc_neq [of c] by simp

text \<open>C24. An older success cannot erase a newer rate limit: when any attempt on the pool was rate limited
  after a request observed the pool at dispatch, the success of that request is stale. It leaves
  the streak, the provider's silence and the server's wait as they are, whatever else happened in
  between. (The 64-bit version counter must not have run out.)\<close>

theorem stale_success_keeps_limits:
  assumes "candidateStateAt i now sv0 p0 = ((True, d, obs), p0')"
    and "pool_op\<^sup>*\<^sup>* (sv0, p0') (sv1, p1)"
    and "rateLimitedAt jitter j upstream provided now1 p1 = (r, p2)" and "valid_index p1 j"
    and "kp_rateVersion p1 < - 1"
    and "pool_op\<^sup>*\<^sup>* (sv1, p2) (sv3, p3)"
    and "rateSucceeded i obs sv3 p3 = (ok, sv4, p4)"
  shows "\<not> ok \<and> sv4 = sv3 \<and> kp_rateStreak p4 = kp_rateStreak p3 \<and>
    kp_rateProviderUntil p4 = kp_rateProviderUntil p3 \<and> kp_cooldowns p4 = kp_cooldowns p3"
proof -
  have "ro_providerVersion obs = kp_rateVersion p0" "kp_rateVersion p0' = kp_rateVersion p0"
    using assms(1) by (auto simp: candidateStateAt_def Let_def split: if_splits)
  then have "ro_providerVersion obs \<le> kp_rateVersion p1" using pool_ops_frame [OF assms(2)] by (simp add: op_frame_def)
  also have "\<dots> < kp_rateVersion p2" using limit_frame(4) [OF assms(3)] assms(4,5) by (simp add: sat_inc_less)
  also have "\<dots> \<le> kp_rateVersion p3" using pool_ops_frame [OF assms(6)] by (simp add: op_frame_def)
  finally have "kp_rateVersion p3 \<noteq> ro_providerVersion obs" by simp
  with assms(7) show ?thesis
    by (auto simp: rateSucceeded_def Let_def split: if_splits)
qed

theorem stale_success_keeps_limits_witness:
  "let ready = candidateStateAt 0 second fresh_retry_state sample_pool;
       limited = snd (rateLimitedAt (\<lambda>_. 0) 1 0 False (2 * second) (snd ready));
       late = rateSucceeded 0 (snd (snd (fst ready))) fresh_retry_state limited
   in \<not> fst late \<and> kp_rateStreak (snd (snd late)) = kp_rateStreak limited \<and> kp_rateStreak limited = 1"
proof -
  define ready where "ready = candidateStateAt 0 second fresh_retry_state sample_pool"
  define limited where "limited = snd (rateLimitedAt (\<lambda>_. 0) 1 0 False (2 * second) (snd ready))"
  have r: "ready = ((True, 0, snd (snd (fst ready))), snd ready)"
    and v: "valid_index (snd ready) 1" "kp_rateVersion (snd ready) < - 1" and s: "kp_rateStreak limited = 1"
    unfolding ready_def limited_def by code_simp+
  have l: "rateLimitedAt (\<lambda>_. 0) 1 0 False (2 * second) (snd ready) =
      (fst (rateLimitedAt (\<lambda>_. 0) 1 0 False (2 * second) (snd ready)), limited)"
    by (simp add: limited_def)
  have fin: "rateSucceeded 0 (snd (snd (fst ready))) fresh_retry_state limited =
      (fst (rateSucceeded 0 (snd (snd (fst ready))) fresh_retry_state limited),
       fst (snd (rateSucceeded 0 (snd (snd (fst ready))) fresh_retry_state limited)),
       snd (snd (rateSucceeded 0 (snd (snd (fst ready))) fresh_retry_state limited)))"
    by simp
  have c: "candidateStateAt 0 second fresh_retry_state sample_pool = ((True, 0, snd (snd (fst ready))), snd ready)"
    using r unfolding ready_def [symmetric] .
  from stale_success_keeps_limits [OF c rtranclp.rtrancl_refl l v rtranclp.rtrancl_refl fin] s
  show ?thesis unfolding Let_def ready_def [symmetric] limited_def [symmetric] by blast
qed

section \<open>Selection order\<close>

lemma scan_keys_spec:
  assumes "distinct is" "\<forall>i \<in> set is. i < length cds"
  shows "fst (snd (scan_keys now keys is (cds, res, e))) = res @ map (\<lambda>i. (i, keys ! i)) (filter (\<lambda>i. cds ! i \<le> now) is)"
    and "snd (snd (scan_keys now keys is (cds, res, e))) = foldl earlier e (map ((!) cds) (filter (\<lambda>i. now < cds ! i) is))"
    and "\<forall>j < length cds. fst (scan_keys now keys is (cds, res, e)) ! j = (if j \<in> set is \<and> cds ! j \<le> now then 0 else cds ! j)"
  using assms
proof (induction "is" arbitrary: cds res e)
  case (Cons i js)
  {
    case 1
    then have "filter (\<lambda>j. cds[i := 0] ! j \<le> now) js = filter (\<lambda>j. cds ! j \<le> now) js"
      by (intro filter_cong) (auto simp: nth_list_update)
    with 1 show ?case by (auto simp: Cons.IH(1))
  next
    case 2
    then have "filter (\<lambda>j. now < cds[i := 0] ! j) js = filter (\<lambda>j. now < cds ! j) js"
      "map ((!) (cds[i := 0])) (filter (\<lambda>j. now < cds ! j) js) = map ((!) cds) (filter (\<lambda>j. now < cds ! j) js)"
      by (auto intro!: filter_cong simp: nth_list_update)
    with 2 show ?case by (simp add: Cons.IH(2) del: map_eq_conv)
  next
    case 3
    then show ?case by (auto simp: Cons.IH(3) nth_list_update)
  }
qed simp_all

lemma foldl_earlier_Min:
  assumes "e \<noteq> 0" "0 < e" "\<forall>x \<in> set xs. 0 < x"
  shows "foldl earlier e xs = Min (set (e # xs))"
  using assms
proof (induction xs arbitrary: e)
  case (Cons x xs)
  then have "earlier e x = min e x" by (auto simp: earlier_def)
  with Cons show ?case by (cases "xs = []") (auto simp: min.assoc)
qed simp

lemma rotation_indices: "map (\<lambda>k. (m mod n + k) mod n) [0..<n] = rotate m [0..<n]"
proof (rule nth_equalityI)
  fix i assume "i < length (map (\<lambda>k. (m mod n + k) mod n) [0..<n])"
  then have "i < n" "(m + i) mod n < n" by auto
  then show "map (\<lambda>k. (m mod n + k) mod n) [0..<n] ! i = rotate m [0..<n] ! i"
    by (simp add: nth_rotate mod_add_left_eq)
qed simp

lemma candidates_state:
  assumes "pool_wf p" "rs_until sv \<le> now"
  defines "order \<equiv> rotate (kp_next p) [0..<length (kp_keys p)]"
  shows "fst (fst (CandidatesAt now sv p)) = map (\<lambda>i. (i, kp_keys p ! i)) (filter (\<lambda>i. kp_cooldowns p ! i \<le> now) order)"
    and "kp_next (snd (CandidatesAt now sv p)) = Suc (kp_next p) mod length (kp_keys p)"
    and "kp_cooldowns (snd (CandidatesAt now sv p)) = map (\<lambda>u. if u \<le> now then 0 else u) (kp_cooldowns p)"
    and "filter (\<lambda>i. kp_cooldowns p ! i \<le> now) order = [] \<Longrightarrow> 0 \<le> now \<Longrightarrow>
      snd (fst (CandidatesAt now sv p)) = time_sub (Min (set (kp_cooldowns p))) now"
proof -
  let ?n = "length (kp_keys p)" let ?c = "kp_cooldowns p"
  have n: "0 < ?n" "kp_next p < ?n" "length ?c = ?n" using assms(1) by (auto simp: pool_wf_def Let_def)
  have ord: "map (\<lambda>k. (kp_next p mod ?n + k) mod ?n) [0..<?n] = order"
    unfolding order_def by (rule rotation_indices)
  have d: "distinct order" "\<forall>i \<in> set order. i < length ?c" and all: "set order = {0..<?n}"
    using n by (auto simp: order_def)
  obtain cds res e where sc: "scan_keys now (kp_keys p) order (?c, [], 0) = (cds, res, e)" by (metis surj_pair)
  note spec = scan_keys_spec [OF d, of now "kp_keys p" "[]" 0, unfolded sc, simplified]
  have cds: "cds = map (\<lambda>u. if u \<le> now then 0 else u) ?c"
    using spec(3) all n scan_keys_length [of now "kp_keys p" order "(?c, [], 0)"] sc by (intro nth_equalityI) auto
  have call: "CandidatesAt now sv p =
      (if res \<noteq> [] \<or> e = 0 then ((res, 0), p\<lparr>kp_next := (kp_next p mod ?n + 1) mod ?n, kp_cooldowns := cds\<rparr>)
       else (([], time_sub e now), p\<lparr>kp_next := (kp_next p mod ?n + 1) mod ?n, kp_cooldowns := cds\<rparr>))"
    using n assms(2) unfolding CandidatesAt_def Let_def ord sc by auto
  show "fst (fst (CandidatesAt now sv p)) = map (\<lambda>i. (i, kp_keys p ! i)) (filter (\<lambda>i. ?c ! i \<le> now) order)"
    using spec(1) by (simp add: call)
  show "kp_next (snd (CandidatesAt now sv p)) = Suc (kp_next p) mod ?n"
    using n by (simp add: call)
  show "kp_cooldowns (snd (CandidatesAt now sv p)) = map (\<lambda>u. if u \<le> now then 0 else u) ?c"
    by (simp add: call cds)
  assume none: "filter (\<lambda>i. ?c ! i \<le> now) order = []" and "0 \<le> now"
  then have cooling: "now < ?c ! i" if "i \<in> set order" for i using that by (auto simp: filter_empty_conv)
  then have "filter (\<lambda>i. now < ?c ! i) order = order" by simp
  moreover obtain a as where o: "order = a # as" using n(1) by (cases order) (auto simp: order_def)
  ultimately have "e = foldl earlier (?c ! a) (map ((!) ?c) as)"
    using spec(2) by (simp add: earlier_def)
  also have "\<dots> = Min (set (map ((!) ?c) order))"
    using cooling \<open>0 \<le> now\<close> by (subst foldl_earlier_Min) (fastforce simp: o)+
  also have "set (map ((!) ?c) order) = set ?c"
    unfolding set_map all n(3) [symmetric] by (auto simp: in_set_conv_nth)
  finally have e: "e = Min (set ?c)" .
  have "Min (set ?c) \<in> set ?c" using n(1,3) by (intro Min_in) auto
  moreover have "\<forall>u \<in> set ?c. now < u" using cooling all n(3) by (auto simp: in_set_conv_nth)
  ultimately have "now < Min (set ?c)" by blast
  then have "0 < e" unfolding e using \<open>0 \<le> now\<close> by simp
  with none spec(1) e show "snd (fst (CandidatesAt now sv p)) = time_sub (Min (set ?c)) now" by (simp add: call)
qed

text \<open>A request is offered exactly the keys that are not cooling down, each once, in rotation order
  from the pool's position, which moves by one key per call. When all keys cool down the wait
  reported is the one of the key that is ready first.\<close>

theorem candidates_exact:
  assumes "pool_wf p" and "rs_until sv \<le> now" and "0 \<le> now"
  shows "let order = rotate (kp_next p) [0..<length (kp_keys p)];
       ready = filter (\<lambda>i. kp_cooldowns p ! i \<le> now) order
     in fst (fst (CandidatesAt now sv p)) = map (\<lambda>i. (i, kp_keys p ! i)) ready \<and>
        kp_next (snd (CandidatesAt now sv p)) = Suc (kp_next p) mod length (kp_keys p) \<and>
        (ready = [] \<longrightarrow> snd (fst (CandidatesAt now sv p)) = time_sub (Min (set (kp_cooldowns p))) now)"
  using candidates_state [OF assms(1,2)] assms(3) by (simp add: Let_def)

lemma sample_pool_wf: "pool_wf sample_pool"
  by code_simp

theorem candidates_exact_witness:
  "fst (fst (CandidatesAt second fresh_retry_state sample_pool)) = [(0, ''alpha''), (1, ''beta'')]"
proof -
  have e: "rs_until fresh_retry_state \<le> second" "kp_next sample_pool = 0" "kp_keys sample_pool = [''alpha'', ''beta'']"
    "kp_cooldowns sample_pool = [0, 0]"
    by code_simp+
  from candidates_exact [OF sample_pool_wf e(1)] show ?thesis unfolding e(2-4) by (simp add: Let_def upt_rec)
qed

lemma candidates_wf:
  assumes "pool_wf p"
  shows "pool_wf (snd (CandidatesAt now sv p))" "kp_keys (snd (CandidatesAt now sv p)) = kp_keys p"
proof -
  have op: "pool_op (sv, p) (sv, snd (CandidatesAt now sv p))"
    by (rule pool_op.candidates [of now _ _ "fst (CandidatesAt now sv p)"]) simp
  show "pool_wf (snd (CandidatesAt now sv p))" using pool_op_wf [OF op] assms by simp
  show "kp_keys (snd (CandidatesAt now sv p)) = kp_keys p" using pool_op_frame [OF op] by (simp add: op_frame_def)
qed

lemma repeated_candidates:
  assumes "pool_wf p" "rs_until sv \<le> now" "0 \<le> now" "\<forall>u \<in> set (kp_cooldowns p). u \<le> now"
  defines "q \<equiv> \<lambda>m. ((\<lambda>x. snd (CandidatesAt now sv x)) ^^ m) p"
  shows "pool_wf (q m) \<and> kp_keys (q m) = kp_keys p \<and> kp_next (q m) = (kp_next p + m) mod length (kp_keys p) \<and>
    (\<forall>u \<in> set (kp_cooldowns (q m)). u \<le> now)"
proof (induction m)
  case 0
  from assms(1) have "kp_next p < length (kp_keys p)" by (simp add: pool_wf_def Let_def)
  with assms show ?case by (simp add: q_def)
next
  case (Suc m)
  have step: "q (Suc m) = snd (CandidatesAt now sv (q m))" by (simp add: q_def)
  from Suc candidates_wf [of "q m" now sv] candidates_state(2,3) [of "q m" sv now] assms(2,3) show ?case
    unfolding step by (auto simp: mod_Suc_eq)
qed

text \<open>C25. No key is starved: while no key cools down, in any run of as many selections as there are keys
  each key is offered first exactly when its turn in the rotation comes.\<close>

theorem rotation_fair:
  assumes "pool_wf p" and "rs_until sv \<le> now" and "0 \<le> now" and "\<forall>u \<in> set (kp_cooldowns p). u \<le> now"
    and "i < length (kp_keys p)"
  shows "\<exists>m < length (kp_keys p). fst (pool_Next now sv (((\<lambda>x. snd (CandidatesAt now sv x)) ^^ m) p)) = kp_keys p ! i \<and>
    (kp_next p + m) mod length (kp_keys p) = i"
proof -
  let ?n = "length (kp_keys p)"
  have n: "0 < ?n" "kp_next p < ?n" using assms(1) by (auto simp: pool_wf_def Let_def)
  define m where "m = (i + (?n - kp_next p)) mod ?n"
  have mn: "m < ?n" "(kp_next p + m) mod ?n = i"
    using n assms(5) by (simp_all add: m_def mod_add_right_eq)
  let ?q = "((\<lambda>x. snd (CandidatesAt now sv x)) ^^ m) p"
  note q = repeated_candidates [OF assms(1-4), of m]
  have len: "length (kp_cooldowns ?q) = ?n" using q by (auto simp: pool_wf_def Let_def)
  then have "\<forall>j \<in> set (rotate i [0..<?n]). kp_cooldowns ?q ! j \<le> now" using q by auto
  then have f: "filter (\<lambda>j. kp_cooldowns ?q ! j \<le> now) (rotate i [0..<?n]) = rotate i [0..<?n]" by (rule filter_True)
  obtain rest where r: "rotate i [0..<?n] = i # rest"
    using assms(5) n(1) hd_rotate_conv_nth [of "[0..<?n]" i]
    by (metis (no_types, lifting) length_upt list.collapse minus_nat.diff_0 mod_less not_less0 nth_upt add_0 rotate_is_Nil_conv upt_eq_Nil_conv)
  have "fst (fst (CandidatesAt now sv ?q)) = (i, kp_keys p ! i) # map (\<lambda>j. (j, kp_keys p ! j)) rest"
    using candidates_state(1) [of ?q sv now] q assms(2) mn(2) f r by simp
  then have "fst (pool_Next now sv ?q) = kp_keys p ! i"
    by (simp add: pool_Next_def Let_def case_prod_unfold)
  with mn show ?thesis by blast
qed

theorem rotation_fair_witness:
  "\<exists>m < 2. fst (pool_Next second fresh_retry_state (((\<lambda>x. snd (CandidatesAt second fresh_retry_state x)) ^^ m) sample_pool)) = ''beta''"
proof -
  have e: "rs_until fresh_retry_state \<le> second" "kp_keys sample_pool = [''alpha'', ''beta'']" "kp_cooldowns sample_pool = [0, 0]"
    by code_simp+
  from rotation_fair [OF sample_pool_wf e(1), of 1] show ?thesis unfolding e(2,3) by (auto simp: numeral_2_eq_2)
qed

section \<open>Rate-limit delays\<close>

lemma wait_loop_pos:
  assumes "0 \<le> now" "e = 0 \<or> now < e"
  shows "0 < wait_loop now us e \<longleftrightarrow> (\<forall>u \<in> set us. now < u) \<and> (us \<noteq> [] \<or> e \<noteq> 0)"
  using assms(2)
proof (induction us arbitrary: e)
  case (Cons u us)
  show ?case
  proof (cases "now < u")
    case True
    then have "earlier e u \<noteq> 0 \<and> now < earlier e u" using assms(1) Cons.prems by (auto simp: earlier_def)
    with True Cons.IH [of "earlier e u"] show ?thesis by simp
  qed simp
qed auto

lemma wait_loop_le:
  assumes "e = 0 \<or> e \<le> now + day" "\<forall>u \<in> set us. u \<le> now + day"
  shows "wait_loop now us e \<le> day"
  using assms
proof (induction us arbitrary: e)
  case Nil
  then show ?case by (auto simp: time_sub_def min_int64_def)
next
  case (Cons u us)
  then show ?case by (auto simp: earlier_def intro!: Cons.IH)
qed

lemma limited_key_delay_bounds:
  "second \<le> limited_key_delay jitter failures upstream provided" "limited_key_delay jitter failures upstream provided \<le> day"
  by (auto simp: limited_key_delay_def Let_def)

lemma set_update_le: "\<forall>u \<in> set us. u \<le> (b::time) \<Longrightarrow> x \<le> b \<Longrightarrow> \<forall>u \<in> set (us[i := x]). u \<le> b"
  using set_update_subset_insert [of us i x] by auto

text \<open>What a rate limit does to a pool, for every jitter: the key waits between a second and a day,
  at least as long as the provider asked for; counters saturate; the provider as a whole waits
  exactly when every key cools down; and after more than ten rejections in a row with every key
  cooling down the whole provider is silent for a day. No cooldown ever exceeds a day.\<close>

theorem rate_limit_delays:
  assumes "pool_wf p" and "valid_index p i" and "0 \<le> now" and "\<forall>u \<in> set (kp_cooldowns p). u \<le> now + day"
    and "rateLimitedAt jitter i upstream provided now p = ((keyDelay, providerDelay, streak), p')"
  shows "second \<le> keyDelay \<and> keyDelay \<le> day \<and> min upstream day \<le> (if provided then keyDelay else day) \<and>
    streak = sat_inc (kp_rateStreak p) \<and> (\<forall>u \<in> set (kp_cooldowns p'). u \<le> now + day) \<and>
    (0 < providerDelay \<longleftrightarrow> (\<forall>u \<in> set (kp_cooldowns p'). now < u)) \<and> providerDelay \<le> day \<and>
    (0 < providerDelay \<longrightarrow> kp_rateProviderUntil p' = now + providerDelay) \<and>
    (0 < providerDelay \<and> 10 < streak \<longrightarrow> providerDelay = day \<and> (\<forall>u \<in> set (kp_cooldowns p'). u = now + day))"
proof -
  let ?n = "length (kp_keys p)"
  let ?k = "limit_key jitter (nat i) upstream provided now p"
  have idx: "nat i < length (kp_cooldowns p)" using assms(1,2) by (auto simp: valid_index_def pool_wf_def Let_def)
  define d where "d = limited_key_delay jitter (sat_inc (kp_rateFailures p ! nat i)) upstream provided"
  have db: "second \<le> d" "d \<le> day" unfolding d_def by (rule limited_key_delay_bounds)+
  have dp: "min upstream day \<le> d" if provided using that by (auto simp: d_def limited_key_delay_def Let_def)
  define c where "c = raise_to (now + d) (kp_cooldowns p ! nat i)"
  have "kp_cooldowns p ! nat i \<le> now + day" using assms(4) idx by simp
  then have c: "now + d \<le> c" "c \<le> now + day" using db by (auto simp: c_def raise_to_def)
  have kc: "kp_cooldowns ?k = (kp_cooldowns p)[nat i := c]" by (simp add: limit_key_def Let_def c_def d_def)
  then have kle: "\<forall>u \<in> set (kp_cooldowns ?k). u \<le> now + day" using set_update_le [OF assms(4) c(2)] by simp
  have ne: "kp_cooldowns ?k \<noteq> []" using idx by (auto simp: kc)
  define w where "w = cooldownWaitLocked now ?k"
  have wpos: "0 < w \<longleftrightarrow> (\<forall>u \<in> set (kp_cooldowns ?k). now < u)"
    unfolding w_def cooldownWaitLocked_def using wait_loop_pos [OF assms(3), of 0] ne by simp
  have wle: "w \<le> day" unfolding w_def cooldownWaitLocked_def using wait_loop_le [of 0] kle by simp
  from assms(2,5) have r: "keyDelay = time_sub c now" "(providerDelay, p') = silence_provider now ?k" "streak = kp_rateStreak p'"
    using idx by (auto simp: rateLimitedAt_def Let_def kc split: prod.splits)
  then have p': "p' = snd (silence_provider now ?k)" "providerDelay = fst (silence_provider now ?k)" by (metis snd_conv fst_conv)+
  have key: "keyDelay = c - now"
    unfolding r(1) using c db by (intro time_sub_exact) (auto simp: min_int64_def max_int64_def)
  have str: "streak = sat_inc (kp_rateStreak p)" by (simp add: r(3) p'(1))
  define silent where "silent = (0 < w \<and> 10 < sat_inc (kp_rateStreak p))"
  have pd: "providerDelay = (if silent then day else w)"
    by (simp add: p'(2) silence_provider_def Let_def w_def [symmetric] silent_def)
  have cds: "kp_cooldowns p' = (if silent then map (raise_to (now + day)) (kp_cooldowns ?k) else kp_cooldowns ?k)"
    by (simp add: p'(1) silence_provider_def Let_def w_def [symmetric] silent_def)
  have until: "0 < providerDelay \<longrightarrow> kp_rateProviderUntil p' = now + providerDelay"
    by (simp add: p' silence_provider_def Let_def)
  have silent_eq: "\<forall>u \<in> set (kp_cooldowns p'). u = now + day" if silent
    using that kle by (auto simp: cds raise_to_def)
  show ?thesis
    using key c db dp str until pd wle silent_eq wpos cds kle unfolding str silent_def by (auto split: if_splits)
qed

theorem rate_limit_delays_witness:
  "let r = rateLimitedAt (\<lambda>b. b div 5) 0 (90 * second) True second sample_pool
   in fst (fst r) = 90 * second \<and> fst (snd (fst r)) = 0 \<and> (\<forall>u \<in> set (kp_cooldowns (snd r)). u \<le> second + day)"
proof -
  let ?r = "rateLimitedAt (\<lambda>b. b div 5) 0 (90 * second) True second sample_pool"
  have v: "valid_index sample_pool 0" "\<forall>u \<in> set (kp_cooldowns sample_pool). u \<le> second + day"
    and e: "fst (fst ?r) = 90 * second" "fst (snd (fst ?r)) = 0" by code_simp+
  have "?r = ((fst (fst ?r), fst (snd (fst ?r)), snd (snd (fst ?r))), snd ?r)" by simp
  from rate_limit_delays [OF sample_pool_wf v(1) _ v(2) this] e show ?thesis by (simp add: Let_def)
qed

text \<open>The status report accounts for every key: eligible and cooling keys add up to the capacity,
  it lists one entry per key and at most 32 recent failovers, and asking for it changes no key.\<close>

theorem status_accounts_for_keys:
  assumes "pool_wf p"
  shows "let (st, p') = diagnosticStatus now sv p in
    st_Eligible st + st_Cooling st = st_Capacity st \<and> length (st_Keys st) = st_Capacity st \<and>
    length (st_RecentFailovers st) \<le> st_RecentLimit st \<and> kp_cooldowns p' = kp_cooldowns p \<and> kp_counters p' = kp_counters p"
proof -
  have state: "ks_State (key_status_of now sv q i) = ''eligible'' \<longleftrightarrow> ks_State (key_status_of now sv q i) \<noteq> ''cooling''" for q i
    by (simp add: key_status_of_def Let_def)
  let ?q = "pruneDecisions now p"
  let ?ks = "map (key_status_of now sv ?q) [0..<length (kp_labels ?q)]"
  have "length (filter (\<lambda>k. ks_State k = ''eligible'') ?ks) + length (filter (\<lambda>k. ks_State k = ''cooling'') ?ks) = length ?ks"
  proof -
    have "filter (\<lambda>k. ks_State k = ''eligible'') ?ks = filter (\<lambda>k. ks_State k \<noteq> ''cooling'') ?ks"
      by (intro filter_cong) (auto simp: state)
    then show ?thesis using sum_length_filter_compl [of "\<lambda>k. ks_State k = ''cooling''" ?ks] by simp
  qed
  moreover have "length (kp_decisions ?q) \<le> keyDecisionLimit"
    using assms order_trans [OF dropWhile_length] by (auto simp: pool_wf_def Let_def pruneDecisions_def)
  ultimately show ?thesis
    using assms by (simp add: diagnosticStatus_def Let_def pool_wf_def pruneDecisions_def)
qed

theorem status_accounts_for_keys_witness:
  "st_Eligible (fst (diagnosticStatus second fresh_retry_state sample_pool)) = 2"
proof -
  have "st_Cooling (fst (diagnosticStatus second fresh_retry_state sample_pool)) = 0"
    "st_Capacity (fst (diagnosticStatus second fresh_retry_state sample_pool)) = 2"
    by code_simp+
  with status_accounts_for_keys [OF sample_pool_wf, of second fresh_retry_state] show ?thesis
    by (simp add: case_prod_unfold Let_def)
qed

end
