(* ===== verification/Routing.thy ===== *)
theory Routing
  imports Auto_Chain Shared_Affinity Key_Pool Client_Config Go_Json "HOL-Library.List_Lexorder" "HOL-Library.Char_ord"
begin

text \<open>
  The choice of a route: \<^verbatim>\<open>internal/gateway/routing.go\<close>, \<^verbatim>\<open>cooldown_switch.go\<close>, \<^verbatim>\<open>model_aliases.go\<close>,
  \<^verbatim>\<open>auto_chain_config.go\<close> and the candidate functions of \<^verbatim>\<open>gateway.go\<close>.

  \<open>gw_view\<close> is the immutable part of the handler: configuration, clients and a snapshot of the
  credential pools with the server state each shares. The availability table is read as it is at
  \<open>now\<close>; the sweep that a query may do is the step \<open>query\<close> of the table and does not change an
  answer (\<open>available_again\<close>). The chain and the affinity table are passed through and returned. What
  the adapter says of a request body (whether it converts to a provider's protocol, which parameter
  stands in the way, whether it needs Anthropic server tools) is the argument \<open>adapter_ops\<close>; the random
  index, the session digest and the text functions are arguments as well. A clock
  reading is \<open>now\<close> throughout one resolution.
\<close>

section \<open>Configuration\<close>

record provider_config =
  pv_ModelAliases :: "(string, string) gomap"
  pv_SupportedModels :: "string list"
  pv_Prices :: "(string, price) gomap"
  pv_BaseURL :: string
  pv_ProviderSwitchThreshold :: "int option"
  pv_ModelSwitchThresholds :: "(string, int) gomap"

record gw_view =
  gv_providers :: "(string, provider_config) gomap"
  gv_unavailable :: "string list"
  gv_clients :: "(string, client_config) gomap"
  gv_pools :: "(string, retry_state \<times> key_pool) gomap"
  gv_models :: "(string, string list) gomap"
  gv_modelsKnown :: "(string, bool) gomap"
  gv_generations :: "(string, u64) gomap"
  gv_reused :: "(string, bool) gomap"
  gv_epoch :: u64
  gv_AutoChain :: "auto_chain_entry list"
  gv_strategy :: string
  gv_switchThreshold :: "int option"

record adapter_ops =
  ad_prepares :: "string \<Rightarrow> string \<Rightarrow> string \<Rightarrow> string \<Rightarrow> int \<Rightarrow> bool"
  ad_parameter :: "string \<Rightarrow> string \<Rightarrow> string \<Rightarrow> string \<Rightarrow> int \<Rightarrow> string"
  ad_serverTools :: "string \<Rightarrow> bool"

definition zero_provider :: provider_config where
  "zero_provider = \<lparr>pv_ModelAliases = [], pv_SupportedModels = [], pv_Prices = [], pv_BaseURL = [],
     pv_ProviderSwitchThreshold = None, pv_ModelSwitchThresholds = []\<rparr>"

text \<open>Reading a map gives the zero value for a missing key.\<close>

definition provider_at :: "gw_view \<Rightarrow> string \<Rightarrow> provider_config" where
  "provider_at v p = (case map_of (gv_providers v) p of None \<Rightarrow> zero_provider | Some c \<Rightarrow> c)"

definition view_generation :: "gw_view \<Rightarrow> string \<Rightarrow> u64" where
  "view_generation v p = (case map_of (gv_generations v) p of None \<Rightarrow> 0 | Some g \<Rightarrow> g)"

section \<open>Aliases and model scopes\<close>

definition UpstreamModel :: "provider_config \<Rightarrow> string \<Rightarrow> string" where
  "UpstreamModel p model = (case map_of (pv_ModelAliases p) model of None \<Rightarrow> model | Some upstream \<Rightarrow> upstream)"

definition validAliasModelID :: "string \<Rightarrow> bool" where
  "validAliasModelID model \<longleftrightarrow> model \<noteq> ''auto'' \<and> safe_availability_model model"

definition validateModelAliases :: "provider_config \<Rightarrow> bool" where
  "validateModelAliases p \<longleftrightarrow>
     \<not> 128 < length (pv_ModelAliases p) \<and>
     list_all (\<lambda>(alias, upstream).
       \<not> (\<not> validAliasModelID alias \<or> CHR ''/'' \<in> set alias \<or> \<not> validAliasModelID upstream) \<and>
       map_of (pv_ModelAliases p) upstream = None) (pv_ModelAliases p)"

definition supportScopeAllows :: "gw_view \<Rightarrow> string \<Rightarrow> string \<Rightarrow> bool" where
  "supportScopeAllows v provider model =
     (case map_of (gv_providers v) provider of
        None \<Rightarrow> False
      | Some p \<Rightarrow> length (pv_SupportedModels p) = 0 \<or> containsModel (pv_SupportedModels p) model)"

definition upstreamScopeAllows :: "gw_view \<Rightarrow> string \<Rightarrow> string \<Rightarrow> bool" where
  "upstreamScopeAllows v provider model =
     (case map_of (gv_providers v) provider of
        None \<Rightarrow> False
      | Some p \<Rightarrow>
          UpstreamModel p model = model \<and> supportScopeAllows v provider model \<or>
          list_ex (\<lambda>(alias, upstream). upstream = model \<and> supportScopeAllows v provider alias) (pv_ModelAliases p))"

text \<open>The loop of \<open>validateAutoChain\<close> over the entries. Comparing with \<^verbatim>\<open>auto\<close> under
  \<open>strings.EqualFold\<close> is comparing in lower case: none of its letters folds outside ASCII.\<close>

definition chain_model_ok :: "string \<Rightarrow> bool" where
  "chain_model_ok m \<longleftrightarrow>
     \<not> (trim_space m = [] \<or> m \<noteq> trim_space m \<or> map to_lower m = ''auto'' \<or>
        list_ex (\<lambda>c. c = CHR 0x0D \<or> c = CHR 0x0A \<or> c = CHR 0x00) m)"

fun validate_chain_entries :: "gw_view \<Rightarrow> auto_chain_entry list \<Rightarrow> auto_chain_entry list \<Rightarrow> bool" where
  "validate_chain_entries v seen [] = True"
| "validate_chain_entries v seen (e # es) =
     (map_of (gv_providers v) (ace_Provider e) \<noteq> None \<and> chain_model_ok (ace_Model e) \<and>
      supportScopeAllows v (ace_Provider e) (ace_Model e) \<and> e \<notin> set seen \<and> validate_chain_entries v (e # seen) es)"

definition validateAutoChain :: "gw_view \<Rightarrow> bool" where
  "validateAutoChain v \<longleftrightarrow> \<not> 64 < length (gv_AutoChain v) \<and> validate_chain_entries v [] (gv_AutoChain v)"

section \<open>Candidates\<close>

text \<open>\<open>parseQualifiedModelID\<close>: the text before and after the first slash.\<close>

definition parseQualifiedModelID :: "string \<Rightarrow> (string \<times> string) option" where
  "parseQualifiedModelID value =
     (let provider = takeWhile (\<lambda>c. c \<noteq> CHR ''/'') value; model = drop (Suc (length provider)) value
      in if CHR ''/'' \<notin> set value \<or> provider = [] \<or> model = [] then None
         else if trim_space provider \<noteq> provider \<or> trim_space model \<noteq> model \<or>
                 list_ex (\<lambda>c. c = CHR 0x0D \<or> c = CHR 0x0A \<or> c = CHR 0x00) value then None
         else Some (provider, model))"

definition modelsForProvider :: "gw_view \<Rightarrow> string \<Rightarrow> string list \<times> bool" where
  "modelsForProvider v provider =
     (if map_of (gv_providers v) provider \<noteq> None \<and> 0 < length (pv_SupportedModels (provider_at v provider))
      then (pv_SupportedModels (provider_at v provider), True)
      else
        (let models = (case map_of (gv_models v) provider of None \<Rightarrow> [] | Some ms \<Rightarrow> ms);
             all = foldl (\<lambda>ms (alias, _). if containsModel ms alias then ms else ms @ [alias]) models
                     (pv_ModelAliases (provider_at v provider))
         in (sort all, (case map_of (gv_modelsKnown v) provider of None \<Rightarrow> False | Some b \<Rightarrow> b))))"

definition bare_candidate :: "gw_view \<Rightarrow> string \<Rightarrow> bool \<Rightarrow> string \<times> provider_config \<Rightarrow> bool" where
  "bare_candidate v model requireKnownScope np =
     (let (name, provider) = np in
      name \<notin> set (gv_unavailable v) \<and>
      (if 0 < length (pv_SupportedModels provider) then containsModel (pv_SupportedModels provider) model
       else if requireKnownScope then
         (let (models, known) = modelsForProvider v name
          in map_of (pv_ModelAliases provider) model \<noteq> None \<or> known \<and> containsModel models model)
       else True))"

definition bareModelCandidates :: "gw_view \<Rightarrow> string \<Rightarrow> bool \<Rightarrow> string list" where
  "bareModelCandidates v model requireKnownScope =
     sort (map fst (filter (bare_candidate v model requireKnownScope) (gv_providers v)))"

definition resolveRequestModel :: "gw_view \<Rightarrow> string \<Rightarrow> (string \<times> int) + (string \<times> string)" where
  "resolveRequestModel v modelID =
     (let by_candidates = (\<lambda>cs missing.
            case cs of [] \<Rightarrow> Inl (missing, 404) | [c] \<Rightarrow> Inr (c, modelID) | _ \<Rightarrow> Inl (''model_ambiguous'', 400))
      in case parseQualifiedModelID modelID of
           Some (ref, suffix) \<Rightarrow>
             if map_of (gv_providers v) ref \<noteq> None then Inr (ref, suffix)
             else by_candidates (bareModelCandidates v modelID True) ''provider_not_found''
         | None \<Rightarrow> by_candidates (bareModelCandidates v modelID False) ''model_not_found'')"

definition supportsNativeAnthropicTools :: "gw_view \<Rightarrow> string \<Rightarrow> bool" where
  "supportsNativeAnthropicTools v provider =
     (case map_of (gv_clients v) provider of None \<Rightarrow> False | Some c \<Rightarrow> cl_Protocol c = ''anthropic'')"

definition needs_native_tools :: "adapter_ops \<Rightarrow> string \<Rightarrow> string \<Rightarrow> bool" where
  "needs_native_tools ad protocol body \<longleftrightarrow> protocol = ''anthropic'' \<and> ad_serverTools ad body"

definition prepares :: "adapter_ops \<Rightarrow> gw_view \<Rightarrow> string \<Rightarrow> string \<Rightarrow> client_config \<Rightarrow> string \<Rightarrow> string \<Rightarrow> bool" where
  "prepares ad v provider model c protocol body =
     (let upstream = UpstreamModel (provider_at v provider) model
      in ad_prepares ad protocol (cl_Protocol c) body upstream (OutputTokenDefault c upstream))"

definition routing_candidate :: "adapter_ops \<Rightarrow> gw_view \<Rightarrow> string \<Rightarrow> string \<Rightarrow> string \<Rightarrow> string \<Rightarrow> bool" where
  "routing_candidate ad v model protocol body name =
     (\<not> (needs_native_tools ad protocol body \<and> \<not> supportsNativeAnthropicTools v name) \<and>
      (case map_of (gv_clients v) name of
         None \<Rightarrow> True
       | Some c \<Rightarrow> \<not> (gv_strategy v \<noteq> [] \<and> 0 < length body \<and> \<not> prepares ad v name model c protocol body)))"

definition routingCandidates :: "adapter_ops \<Rightarrow> gw_view \<Rightarrow> string \<Rightarrow> bool \<Rightarrow> string \<Rightarrow> string \<Rightarrow> string list" where
  "routingCandidates ad v model requireKnownScope protocol body =
     filter (routing_candidate ad v model protocol body) (bareModelCandidates v model requireKnownScope)"

definition routeRequestCompatible :: "adapter_ops \<Rightarrow> gw_view \<Rightarrow> string \<Rightarrow> string \<Rightarrow> string \<Rightarrow> string \<Rightarrow> bool" where
  "routeRequestCompatible ad v provider model protocol body =
     (case map_of (gv_clients v) provider of
        None \<Rightarrow> False
      | Some c \<Rightarrow>
          if needs_native_tools ad protocol body \<and> \<not> supportsNativeAnthropicTools v provider then False
          else if length body = 0 then True
          else prepares ad v provider model c protocol body)"

text \<open>The first candidate whose conversion names a parameter.\<close>

definition routeErrorParameter :: "adapter_ops \<Rightarrow> gw_view \<Rightarrow> string \<Rightarrow> string \<Rightarrow> string \<Rightarrow> string" where
  "routeErrorParameter ad v model protocol body =
     (if needs_native_tools ad protocol body then ''tools''
      else
        (let candidates = bareModelCandidates v model False @ (if model = ''auto'' then map ace_Provider (gv_AutoChain v) else []);
             field = (\<lambda>ref. case map_of (gv_clients v) ref of
                        None \<Rightarrow> []
                      | Some c \<Rightarrow>
                          (let upstream = UpstreamModel (provider_at v ref) model
                           in if prepares ad v ref model c protocol body then []
                              else ad_parameter ad protocol (cl_Protocol c) body upstream (OutputTokenDefault c upstream)))
         in case find (\<lambda>f. f \<noteq> []) (map field candidates) of None \<Rightarrow> ''model'' | Some f \<Rightarrow> f))"

section \<open>Availability of a route\<close>

definition providerRouteAvailable :: "gw_view \<Rightarrow> time \<Rightarrow> string \<Rightarrow> bool" where
  "providerRouteAvailable v now provider =
     (if provider \<in> set (gv_unavailable v) \<or> map_of (gv_clients v) provider = None then False
      else (case map_of (gv_pools v) provider of None \<Rightarrow> True | Some (server, p) \<Rightarrow> CooldownWaitAt now server p = 0))"

definition modelRouteAvailable :: "gw_view \<Rightarrow> avail_state option \<Rightarrow> time \<Rightarrow> string \<Rightarrow> string \<Rightarrow> bool" where
  "modelRouteAvailable v so now provider model =
     (providerRouteAvailable v now provider \<and>
      (case so of
         None \<Rightarrow> True
       | Some s \<Rightarrow> fst (available (gv_epoch v) provider (UpstreamModel (provider_at v provider) model) (view_generation v provider) now s)))"

definition reusable_provider :: "gw_view \<Rightarrow> time \<Rightarrow> string \<Rightarrow> bool" where
  "reusable_provider v now provider \<longleftrightarrow>
     (case map_of (gv_reused v) provider of None \<Rightarrow> False | Some b \<Rightarrow> b) \<and> providerRouteAvailable v now provider"

definition providerBindingPresent :: "gw_view \<Rightarrow> string \<Rightarrow> bool" where
  "providerBindingPresent v provider \<longleftrightarrow> provider \<notin> set (gv_unavailable v) \<and> map_of (gv_clients v) provider \<noteq> None"

section \<open>Waits and thresholds\<close>

record route_step =
  rst_provider :: string
  rst_model :: string
  rst_sessionKey :: "string option"
  rst_autoChainIndex :: "nat option"
  rst_dynamic :: bool
  rst_holdAffinity :: bool
  rst_decision :: "routing_decision option"

definition route_to :: "string \<Rightarrow> string \<Rightarrow> route_step" where
  "route_to provider model =
     \<lparr>rst_provider = provider, rst_model = model, rst_sessionKey = None, rst_autoChainIndex = None, rst_dynamic = False,
      rst_holdAffinity = False, rst_decision = None\<rparr>"

record route_wait =
  rw_blocked :: bool
  rw_unknown :: bool
  rw_retryAt :: time
  rw_temporary :: bool
  rw_terminal :: bool
  rw_terminalCategory :: category

definition no_wait :: route_wait where
  "no_wait = \<lparr>rw_blocked = False, rw_unknown = False, rw_retryAt = 0, rw_temporary = False, rw_terminal = False, rw_terminalCategory = []\<rparr>"

definition wait_add :: "time \<Rightarrow> bool \<Rightarrow> route_wait \<Rightarrow> route_wait" where
  "wait_add until unknown w =
     w\<lparr>rw_blocked := True, rw_unknown := (rw_unknown w \<or> unknown), rw_retryAt := (if rw_retryAt w < until then until else rw_retryAt w)\<rparr>"

definition terminal_reasons :: "category list" where
  "terminal_reasons = [ProviderErrorQuotaExhausted, ProviderErrorAccessDenied, ProviderErrorFairUseThrottled]"

text \<open>The gate of one availability target.\<close>

definition wait_target :: "avail_state \<Rightarrow> time \<Rightarrow> avail_target \<Rightarrow> route_wait \<Rightarrow> route_wait" where
  "wait_target s now t w =
     (case map_of (as_entries s) t of
        None \<Rightarrow> w
      | Some e \<Rightarrow>
          if entry_eligible (Some e) now then w
          else
            (let w1 = wait_add (ae_retryAt e) (ae_probing e) w
             in if ae_reason e \<in> set terminal_reasons then w1\<lparr>rw_terminal := True, rw_terminalCategory := ae_reason e\<rparr> else w1))"

text \<open>The gates of the credential pool, from its status.\<close>

definition wait_keys :: "key_pool_status \<Rightarrow> route_wait \<Rightarrow> route_wait" where
  "wait_keys st w =
     (if 0 < st_Capacity st \<and> st_Eligible st = 0 then
        (let earliest = foldl earlier 0 (map ks_CooldownUntil (st_Keys st)) in wait_add earliest (earliest = 0) w)
      else w)"

definition wait_pool :: "key_pool_status \<Rightarrow> time \<Rightarrow> route_wait \<Rightarrow> route_wait" where
  "wait_pool st now w =
     (let w1 = (if st_RecoveryInProgress st then wait_add 0 True w else w);
          w2 = (if now < st_RateLimitRetryAt st then wait_add (st_RateLimitRetryAt st) False w1 else w1);
          w3 = (if now < st_ProviderRetryAt st then wait_add (st_ProviderRetryAt st) False w2 else w2)
      in wait_keys st w3)"

definition routeWaitLocked :: "gw_view \<Rightarrow> avail_state option \<Rightarrow> time \<Rightarrow> route_step \<Rightarrow> route_wait" where
  "routeWaitLocked v so now route =
     (let p = rst_provider route in
      if map_of (gv_clients v) p = None then wait_add 0 True no_wait
      else if p \<in> set (gv_unavailable v) then wait_add 0 True no_wait
      else
        (let w1 = (case so of
                     None \<Rightarrow> no_wait
                   | Some s \<Rightarrow>
                       foldl (\<lambda>w m. wait_target s now (mk_target p m (view_generation v p)) w) no_wait
                         [[], UpstreamModel (provider_at v p) (rst_model route)]);
             w2 = (case map_of (gv_pools v) p of
                     None \<Rightarrow> w1
                   | Some (server, pool) \<Rightarrow> wait_pool (fst (diagnosticStatus now server pool)) now w1)
         in w2\<lparr>rw_temporary := rw_blocked w2\<rparr>))"

abbreviation defaultProviderSwitchThreshold :: int where "defaultProviderSwitchThreshold \<equiv> 60"

definition validSwitchThreshold :: "int option \<Rightarrow> bool" where
  "validSwitchThreshold value \<longleftrightarrow> (case value of None \<Rightarrow> True | Some s \<Rightarrow> \<not> (s < 0 \<or> 86400 < s))"

definition validateSwitchThresholds :: "provider_config \<Rightarrow> bool" where
  "validateSwitchThresholds p \<longleftrightarrow>
     validSwitchThreshold (pv_ProviderSwitchThreshold p) \<and> \<not> 256 < length (pv_ModelSwitchThresholds p) \<and>
     list_all (\<lambda>(model, seconds). \<not> (model = [] \<or> trim_space model \<noteq> model \<or> 255 < length model) \<and> validSwitchThreshold (Some seconds))
       (pv_ModelSwitchThresholds p)"

definition routing_validate :: "gw_view \<Rightarrow> bool" where
  "routing_validate v \<longleftrightarrow> validSwitchThreshold (gv_switchThreshold v) \<and> gv_strategy v \<in> {[], ''random'', ''price_priority''}"

definition switchThreshold :: "gw_view \<Rightarrow> string \<Rightarrow> string \<Rightarrow> int" where
  "switchThreshold v provider model =
     (case map_of (pv_ModelSwitchThresholds (provider_at v provider)) model of
        Some seconds \<Rightarrow> seconds
      | None \<Rightarrow>
          (case pv_ProviderSwitchThreshold (provider_at v provider) of
             Some seconds \<Rightarrow> seconds
           | None \<Rightarrow> (case gv_switchThreshold v of Some seconds \<Rightarrow> seconds | None \<Rightarrow> defaultProviderSwitchThreshold)))"

text \<open>The milliseconds to a deadline, rounded up and at least 1.\<close>

definition remaining_ms :: "time \<Rightarrow> time \<Rightarrow> int" where
  "remaining_ms until now =
     (let r0 = unix_milli until - unix_milli now;
          r1 = (if nanosecond_of now mod millisecond < nanosecond_of until mod millisecond then r0 + 1 else r0)
      in if r1 < 1 then 1 else r1)"

definition wait_decision :: "route_step \<Rightarrow> route_wait \<Rightarrow> int \<Rightarrow> time \<Rightarrow> routing_decision" where
  "wait_decision route w threshold now =
     (let d = \<lparr>rd_FromProvider = rst_provider route, rd_ToProvider = rst_provider route, rd_Model = rst_model route, rd_ToModel = [],
               rd_Action = ''retain'', rd_Reason = ''within_threshold'', rd_ThresholdMS = threshold * 1000, rd_RemainingMS = None,
               rd_CooldownUntilMS = 0, rd_WaitUnknown = rw_unknown w\<rparr>
      in if now < rw_retryAt w
         then d\<lparr>rd_RemainingMS := Some (remaining_ms (rw_retryAt w) now), rd_CooldownUntilMS := unix_milli (rw_retryAt w)\<rparr>
         else d)"

definition free_alternative :: "gw_view \<Rightarrow> avail_state option \<Rightarrow> time \<Rightarrow> route_step \<Rightarrow> route_step list \<Rightarrow> bool" where
  "free_alternative v so now route alternatives \<longleftrightarrow>
     list_ex (\<lambda>a. rst_provider a \<noteq> rst_provider route \<and> \<not> rw_blocked (routeWaitLocked v so now a)) alternatives"

definition cooldownChoiceLocked ::
  "gw_view \<Rightarrow> avail_state option \<Rightarrow> time \<Rightarrow> route_step \<Rightarrow> route_step list \<Rightarrow> routing_decision option \<times> bool"
where
  "cooldownChoiceLocked v so now route alternatives =
     (if \<not> providerBindingPresent v (rst_provider route) then (None, False)
      else
        (let w = routeWaitLocked v so now route in
         if \<not> rw_blocked w then (None, False)
         else
           (let threshold = switchThreshold v (rst_provider route) (rst_model route);
                d = wait_decision route w threshold now;
                long = (now + threshold * second < rw_retryAt w)
            in if rw_unknown w \<and> \<not> long \<and> threshold \<noteq> 0 then (Some (d\<lparr>rd_Reason := ''unknown_wait''\<rparr>), True)
               else if \<not> long \<and> \<not> (rw_unknown w \<and> threshold = 0) then (Some d, True)
               else if free_alternative v so now route alternatives then
                 (Some (d\<lparr>rd_Action := ''switch'',
                          rd_Reason := (if rw_unknown w \<and> \<not> long then ''affinity_disabled'' else ''exceeds_threshold'')\<rparr>), False)
               else if threshold = 0 then (None, False)
               else (Some (d\<lparr>rd_Reason := ''no_eligible_alternative''\<rparr>), True))))"

text \<open>A view that is not the table's current one decides nothing.\<close>

definition cooldownChoice ::
  "gw_view \<Rightarrow> avail_state option \<Rightarrow> time \<Rightarrow> route_step \<Rightarrow> route_step list \<Rightarrow> routing_decision option \<times> bool"
where
  "cooldownChoice v so now route alternatives =
     (case so of
        None \<Rightarrow> cooldownChoiceLocked v so now route alternatives
      | Some s \<Rightarrow> if as_epoch s \<noteq> gv_epoch v then (None, False) else cooldownChoiceLocked v so now route alternatives)"

definition retainedRoute ::
  "gw_view \<Rightarrow> avail_state option \<Rightarrow> time \<Rightarrow> route_step \<Rightarrow> route_step list \<Rightarrow> route_step \<times> bool"
where
  "retainedRoute v so now route alternatives =
     (let (d, retain) = cooldownChoice v so now route alternatives
      in (route\<lparr>rst_decision := d, rst_holdAffinity := (rst_holdAffinity route \<or> retain)\<rparr>, retain))"

text \<open>The alternatives a queued request re-resolves with.\<close>

definition compatible_entries :: "adapter_ops \<Rightarrow> gw_view \<Rightarrow> string \<Rightarrow> string \<Rightarrow> (nat \<times> auto_chain_entry) list" where
  "compatible_entries ad v protocol body =
     filter (\<lambda>(i, e). supportScopeAllows v (ace_Provider e) (ace_Model e) \<and>
                      routeRequestCompatible ad v (ace_Provider e) (ace_Model e) protocol body)
       (zip [0..<length (gv_AutoChain v)] (gv_AutoChain v))"

definition retainQueuedAffinity ::
  "adapter_ops \<Rightarrow> gw_view \<Rightarrow> avail_state option \<Rightarrow> time \<Rightarrow> route_step \<Rightarrow> string \<Rightarrow> string \<Rightarrow> bool"
where
  "retainQueuedAffinity ad v so now route protocol body =
     (let alternatives =
        (if rst_autoChainIndex route \<noteq> None
         then map (\<lambda>(i, e). route_to (ace_Provider e) (ace_Model e)) (compatible_entries ad v protocol body)
         else map (\<lambda>p. route_to p (rst_model route))
                (filter (\<lambda>p. supportScopeAllows v p (rst_model route) \<and>
                             routeRequestCompatible ad v p (rst_model route) protocol body) (map fst (gv_providers v))))
      in snd (cooldownChoice v so now route alternatives))"

section \<open>Order of shared providers\<close>

text \<open>\<open>sort.Slice\<close> by cost, then name.\<close>

definition priced_le :: "string \<times> rat \<Rightarrow> string \<times> rat \<Rightarrow> bool" where
  "priced_le a b \<longleftrightarrow> (if snd a = snd b then fst a \<le> fst b else snd a < snd b)"

fun insert_priced :: "string \<times> rat \<Rightarrow> (string \<times> rat) list \<Rightarrow> (string \<times> rat) list" where
  "insert_priced x [] = [x]"
| "insert_priced x (y # ys) = (if priced_le x y then x # y # ys else y # insert_priced x ys)"

definition sort_priced :: "(string \<times> rat) list \<Rightarrow> (string \<times> rat) list" where
  "sort_priced xs = foldr insert_priced xs []"

definition configured_price :: "text_ops \<Rightarrow> gw_view \<Rightarrow> string \<Rightarrow> string \<Rightarrow> price option" where
  "configured_price tx v model name =
     (let p = provider_at v name; upstream = UpstreamModel p model
      in case map_of (pv_Prices p) upstream of Some pr \<Rightarrow> Some pr | None \<Rightarrow> BuiltInPrice tx (pv_BaseURL p) upstream)"

text \<open>The comparison cost of a valid price, when it is finite.\<close>

definition price_cost :: "price \<Rightarrow> rat option" where
  "price_cost pr =
     (case (pr_InputCacheHit pr, pr_InputCacheMiss pr, pr_Output pr) of
        (Some hit, Some miss, Some out) \<Rightarrow>
          (case f_add (f_add hit miss) out of Fin c \<Rightarrow> Some c | _ \<Rightarrow> None)
      | _ \<Rightarrow> None)"

fun price_all :: "text_ops \<Rightarrow> gw_view \<Rightarrow> string \<Rightarrow> string \<Rightarrow> string list \<Rightarrow> (string \<times> rat) list option" where
  "price_all tx v model currency [] = Some []"
| "price_all tx v model currency (name # names) =
     (case configured_price tx v model name of
        None \<Rightarrow> None
      | Some pr \<Rightarrow>
          if \<not> price_validate tx pr then None
          else if currency \<noteq> [] \<and> currency \<noteq> pr_Currency pr then None
          else
            (case price_cost pr of
               None \<Rightarrow> None
             | Some cost \<Rightarrow> map_option (Cons (name, cost)) (price_all tx v model (pr_Currency pr) names)))"

datatype order_error = RoutingPriceUnavailable | StrategyDisabled

definition orderSharedModelProviders ::
  "text_ops \<Rightarrow> (nat \<Rightarrow> int) \<Rightarrow> gw_view \<Rightarrow> string \<Rightarrow> string list \<Rightarrow> order_error + string list"
where
  "orderSharedModelProviders tx pick v model names =
     (let ordered = sort names in
      if gv_strategy v = ''random'' then
        (let start0 = pick (length ordered);
             start = (if start0 < 0 \<or> int (length ordered) \<le> start0 then 0 else nat start0)
         in Inr (drop start ordered @ take start ordered))
      else if gv_strategy v = ''price_priority'' then
        (case price_all tx v model [] ordered of
           None \<Rightarrow> Inl RoutingPriceUnavailable
         | Some priced \<Rightarrow> Inr (map fst (sort_priced priced)))
      else Inl StrategyDisabled)"

section \<open>Resolution\<close>

text \<open>A refusal is the error code and the HTTP status; a resolution is one route.\<close>

type_synonym route_result = "(string \<times> int) + route_step"

definition switched :: "routing_decision option \<Rightarrow> string \<Rightarrow> routing_decision option" where
  "switched decision selected =
     (case decision of
        None \<Rightarrow> None
      | Some d \<Rightarrow> if selected = rd_FromProvider d then None else Some (d\<lparr>rd_ToProvider := selected\<rparr>))"

text \<open>A session of a shared model under the strategy \<^verbatim>\<open>random\<close>.\<close>

definition select_shared ::
  "(nat \<Rightarrow> int) \<Rightarrow> gw_view \<Rightarrow> avail_state option \<Rightarrow> time \<Rightarrow> string \<Rightarrow> string list \<Rightarrow> string \<Rightarrow> routing_decision option
     \<Rightarrow> shared_affinity \<Rightarrow> route_result \<times> shared_affinity"
where
  "select_shared pick v so now model candidates key decision a =
     (case selectProviderForView key model (gv_epoch v) candidates (\<lambda>p. modelRouteAvailable v so now p model) pick (view_generation v)
             (Some (reusableRandomCandidates (reusable_provider v now))) now a of
        (None, a1) \<Rightarrow> (Inl (''provider_keys_cooling_down'', 503), a1)
      | (Some selected, a1) \<Rightarrow>
          (Inr ((route_to selected model)\<lparr>rst_sessionKey := Some key, rst_dynamic := True, rst_decision := switched decision selected\<rparr>), a1))"

definition route_shared_session ::
  "(nat \<Rightarrow> int) \<Rightarrow> gw_view \<Rightarrow> avail_state option \<Rightarrow> time \<Rightarrow> string \<Rightarrow> string list \<Rightarrow> string \<Rightarrow> shared_affinity
     \<Rightarrow> route_result \<times> shared_affinity"
where
  "route_shared_session pick v so now model candidates key a =
     (case affinity_boundRoute key model (gv_epoch v) candidates (gv_generations v) now a of
        (None, a1) \<Rightarrow> select_shared pick v so now model candidates key None a1
      | (Some p, a1) \<Rightarrow>
          (let bound = (route_to p model)\<lparr>rst_sessionKey := Some key, rst_dynamic := True\<rparr>;
               (held, retain) = retainedRoute v so now bound (map (\<lambda>c. route_to c model) candidates)
           in if retain then (Inr held, a1) else select_shared pick v so now model candidates key (rst_decision held) a1))"

text \<open>A request without a binding: the ordered providers that are available.\<close>

definition route_ordered ::
  "text_ops \<Rightarrow> (nat \<Rightarrow> int) \<Rightarrow> gw_view \<Rightarrow> avail_state option \<Rightarrow> time \<Rightarrow> string \<Rightarrow> string list \<Rightarrow> routing_decision option \<Rightarrow> route_result"
where
  "route_ordered tx pick v so now model candidates decision =
     (let usable = filter (\<lambda>p. modelRouteAvailable v so now p model) candidates in
      if usable = [] then Inl (''provider_keys_cooling_down'', 503)
      else
        (let preferred = (if gv_strategy v = ''random'' then reusableRandomCandidates (reusable_provider v now) usable else usable)
         in case orderSharedModelProviders tx pick v model preferred of
              Inl _ \<Rightarrow> Inl (''routing_price_unavailable'', 503)
            | Inr ordered \<Rightarrow>
                Inr ((route_to (ordered ! 0) model)\<lparr>rst_dynamic := True, rst_decision := switched decision (ordered ! 0)\<rparr>)))"

definition route_by_price ::
  "text_ops \<Rightarrow> (nat \<Rightarrow> int) \<Rightarrow> gw_view \<Rightarrow> avail_state option \<Rightarrow> time \<Rightarrow> string \<Rightarrow> string list \<Rightarrow> route_result"
where
  "route_by_price tx pick v so now model candidates =
     (case (if gv_strategy v = ''price_priority'' then orderSharedModelProviders tx pick v model candidates else Inl StrategyDisabled) of
        Inr (p # ps) \<Rightarrow>
          (let alternatives = map (\<lambda>c. (route_to c model)\<lparr>rst_dynamic := True\<rparr>) (p # ps);
               (held, retain) = retainedRoute v so now (alternatives ! 0) alternatives
           in if retain then Inr held else route_ordered tx pick v so now model candidates (rst_decision held))
      | _ \<Rightarrow> route_ordered tx pick v so now model candidates None)"

definition routesForBareModel ::
  "text_ops \<Rightarrow> (nat \<Rightarrow> int) \<Rightarrow> gw_view \<Rightarrow> avail_state option \<Rightarrow> time \<Rightarrow> string \<Rightarrow> string list \<Rightarrow> bool \<Rightarrow> string option
     \<Rightarrow> shared_affinity \<Rightarrow> route_result \<times> shared_affinity"
where
  "routesForBareModel tx pick v so now model candidates qualifiedUnknown sessionKey a =
     (case candidates of
        [] \<Rightarrow> (Inl (if qualifiedUnknown then ''provider_not_found'' else ''model_not_found'', 404), a)
      | c # cs \<Rightarrow>
          (case (if gv_strategy v = ''random'' then sessionKey else None) of
             Some key \<Rightarrow> route_shared_session pick v so now model candidates key a
           | None \<Rightarrow>
               if cs = [] then
                 (let route = (route_to c model)\<lparr>rst_dynamic := True\<rparr>; (held, retain) = retainedRoute v so now route []
                  in (Inr (if gv_strategy v = ''price_priority'' \<and> retain then held else route), a))
               else if gv_strategy v = [] then (Inl (''model_ambiguous'', 400), a)
               else (route_by_price tx pick v so now model candidates, a)))"

text \<open>Nothing converts the request although the model has candidates.\<close>

definition unsupported_feature :: "adapter_ops \<Rightarrow> gw_view \<Rightarrow> string \<Rightarrow> bool \<Rightarrow> string \<Rightarrow> string \<Rightarrow> bool" where
  "unsupported_feature ad v model requireKnownScope protocol body \<longleftrightarrow>
     routingCandidates ad v model requireKnownScope protocol body = [] \<and>
     bareModelCandidates v model requireKnownScope \<noteq> [] \<and> (needs_native_tools ad protocol body \<or> gv_strategy v \<noteq> [])"

definition hex_encode :: "string \<Rightarrow> string" where
  "hex_encode s = concat (map (\<lambda>c. [hex_digit (of_char c div 16), hex_digit (of_char c mod 16)]) s)"

definition entry_usable :: "adapter_ops \<Rightarrow> gw_view \<Rightarrow> string \<Rightarrow> string \<Rightarrow> auto_chain_entry \<Rightarrow> bool" where
  "entry_usable ad v protocol body e \<longleftrightarrow>
     supportScopeAllows v (ace_Provider e) (ace_Model e) \<and> routeRequestCompatible ad v (ace_Provider e) (ace_Model e) protocol body"

definition chain_route :: "auto_chain_selection \<Rightarrow> string option \<Rightarrow> bool \<Rightarrow> route_step" where
  "chain_route sel sessionKey dynamic =
     (route_to (sel_provider sel) (sel_model sel))\<lparr>rst_autoChainIndex := Some (sel_index sel), rst_sessionKey := sessionKey, rst_dynamic := dynamic\<rparr>"

definition chain_switched :: "routing_decision option \<Rightarrow> auto_chain_selection \<Rightarrow> routing_decision option" where
  "chain_switched decision sel =
     (case decision of
        None \<Rightarrow> None
      | Some d \<Rightarrow>
          if sel_provider sel = rd_FromProvider d then None
          else Some (let d1 = d\<lparr>rd_ToProvider := sel_provider sel\<rparr>
                     in if sel_model sel \<noteq> rd_Model d then d1\<lparr>rd_ToModel := sel_model sel\<rparr> else d1))"

definition select_chain ::
  "adapter_ops \<Rightarrow> (string \<Rightarrow> string) \<Rightarrow> gw_view \<Rightarrow> avail_state option \<Rightarrow> time \<Rightarrow> string \<Rightarrow> string \<Rightarrow> string option
     \<Rightarrow> routing_decision option \<Rightarrow> auto_chain \<Rightarrow> route_result \<times> auto_chain"
where
  "select_chain ad hash v so now protocol body sessionKey decision ch =
     (let sid = (case sessionKey of None \<Rightarrow> ''request-scoped'' | Some k \<Rightarrow> hex_encode k);
          usable = (\<lambda>e. entry_usable ad v protocol body e \<and> modelRouteAvailable v so now (ace_Provider e) (ace_Model e))
      in case selectForSessionAvailable hash sid (sessionKey \<noteq> None) (Some usable) now ch of
           (None, ch1) \<Rightarrow> (Inl (''auto_chain_exhausted'', 503), ch1)
         | (Some sel, ch1) \<Rightarrow> (Inr ((chain_route sel sessionKey False)\<lparr>rst_decision := chain_switched decision sel\<rparr>), ch1))"

definition route_auto ::
  "adapter_ops \<Rightarrow> (string \<Rightarrow> string) \<Rightarrow> gw_view \<Rightarrow> avail_state option \<Rightarrow> time \<Rightarrow> string \<Rightarrow> string \<Rightarrow> string option \<Rightarrow> auto_chain
     \<Rightarrow> route_result \<times> auto_chain"
where
  "route_auto ad hash v so now protocol body sessionKey ch =
     (if gv_AutoChain v = [] then (Inl (''auto_chain_unconfigured'', 400), ch)
      else
        (let compatible = compatible_entries ad v protocol body;
             alternatives = map (\<lambda>(i, e). chain_route \<lparr>sel_provider = ace_Provider e, sel_model = ace_Model e, sel_index = i\<rparr> None True) compatible
         in if compatible = [] then (Inl (''unsupported_request_feature'', 400), ch)
            else
              (case chain_boundRoute hash (map_option hex_encode sessionKey) now ch of
                 (None, ch1) \<Rightarrow> select_chain ad hash v so now protocol body sessionKey None ch1
               | (Some sel, ch1) \<Rightarrow>
                   if entry_usable ad v protocol body \<lparr>ace_Provider = sel_provider sel, ace_Model = sel_model sel\<rparr> then
                     (let (held, retain) = retainedRoute v so now (chain_route sel sessionKey True) alternatives
                      in if retain then (Inr held, ch1)
                         else select_chain ad hash v so now protocol body sessionKey (rst_decision held) ch1)
                   else select_chain ad hash v so now protocol body sessionKey None ch1)))"

definition route_bare ::
  "adapter_ops \<Rightarrow> text_ops \<Rightarrow> (nat \<Rightarrow> int) \<Rightarrow> gw_view \<Rightarrow> avail_state option \<Rightarrow> time \<Rightarrow> string \<Rightarrow> bool \<Rightarrow> string \<Rightarrow> string \<Rightarrow> string option
     \<Rightarrow> shared_affinity \<Rightarrow> route_result \<times> shared_affinity"
where
  "route_bare ad tx pick v so now modelID qualifiedUnknown protocol body sessionKey a =
     (if unsupported_feature ad v modelID qualifiedUnknown protocol body then (Inl (''unsupported_request_feature'', 400), a)
      else routesForBareModel tx pick v so now modelID (routingCandidates ad v modelID qualifiedUnknown protocol body)
             qualifiedUnknown sessionKey a)"

definition resolveRoutes ::
  "adapter_ops \<Rightarrow> text_ops \<Rightarrow> (nat \<Rightarrow> int) \<Rightarrow> (string \<Rightarrow> string) \<Rightarrow> gw_view \<Rightarrow> avail_state option \<Rightarrow> time \<Rightarrow> string \<Rightarrow> string \<Rightarrow> string
     \<Rightarrow> string option \<Rightarrow> auto_chain \<times> shared_affinity \<Rightarrow> route_result \<times> auto_chain \<times> shared_affinity"
where
  "resolveRoutes ad tx pick hash v so now modelID protocol body sessionKey st =
     (let bare = (\<lambda>unknown. map_prod (\<lambda>x. x) (Pair (fst st))
                    (route_bare ad tx pick v so now modelID unknown protocol body sessionKey (snd st)))
      in case parseQualifiedModelID modelID of
           Some (ref, model) \<Rightarrow>
             if map_of (gv_providers v) ref = None then bare True
             else if model = ''auto'' then (Inl (''auto_model_must_be_unqualified'', 400), st)
             else if needs_native_tools ad protocol body \<and> \<not> supportsNativeAnthropicTools v ref
               then (Inl (''unsupported_request_feature'', 400), st)
             else (Inr (route_to ref model), st)
         | None \<Rightarrow>
             if modelID = ''auto'' then
               (let (r, ch) = route_auto ad hash v so now protocol body sessionKey (fst st) in (r, ch, snd st))
             else bare False)"

section \<open>A resolved route can take the request\<close>

text \<open>A query changes no answer of the same moment.\<close>

lemma prune_prune: "prune now (prune now s) = prune now s"
  by (simp add: prune_def)

lemma available_again:
  "fst (available epoch provider model g now (snd (available epoch' provider' model' g' now s))) = fst (available epoch provider model g now s)
     \<or> as_epoch s \<noteq> epoch'"
  by (auto simp: available_def Let_def prune_prune)

lemma chain_choice_valid:
  assumes "chain_choice s now usable = Some i"
  shows "chain_valid s now usable i"
proof -
  let ?v = "chain_valid s now usable" and ?n = "length (ac_entries s)"
  obtain i0 where "i = skip_invalid ?v ?n i0" "i < ?n"
    using assms by (auto simp: chain_choice_def Let_def split: if_splits)
  then show ?thesis by (auto simp: skip_invalid_find dest: find_in split: option.splits)
qed

lemma select_valid:
  assumes "selectForSessionAvailable hash sid sticky usable now s = (Some sel, s')"
  shows "\<exists>i. sel = chain_selection s i \<and> chain_valid s now usable i"
proof -
  have "chain_selection (s\<lparr>ac_sessions := m\<rparr>) = chain_selection s" for m by (simp add: chain_selection_def fun_eq_iff)
  moreover have "chain_selection (chain_prune now s) = chain_selection s" by (simp add: chain_selection_def fun_eq_iff)
  moreover have "chain_selection ((chain_prune now s)\<lparr>ac_sessions := m\<rparr>) = chain_selection s" for m
    by (simp add: chain_selection_def fun_eq_iff)
  ultimately show ?thesis using assms
    by (auto simp: selectForSessionAvailable_def Let_def dest!: chain_choice_valid split: if_splits option.splits)
qed

lemma insert_priced_set [simp]: "set (insert_priced x xs) = insert x (set xs)"
  by (induction xs) auto

lemma sort_priced_set [simp]: "set (sort_priced xs) = set xs"
  by (induction xs) (auto simp: sort_priced_def)

lemma priced_le_trans: "priced_le a b \<Longrightarrow> priced_le b c \<Longrightarrow> priced_le a c"
  by (auto simp: priced_le_def split: if_splits)

lemma priced_le_total: "\<not> priced_le a b \<Longrightarrow> priced_le b a"
  by (auto simp: priced_le_def split: if_splits)

lemma insert_priced_sorted: "sorted_wrt priced_le xs \<Longrightarrow> sorted_wrt priced_le (insert_priced x xs)"
  by (induction xs) (auto intro: priced_le_trans dest: priced_le_total)

lemma sort_priced_sorted: "sorted_wrt priced_le (sort_priced xs)"
  by (induction xs) (auto simp: sort_priced_def intro: insert_priced_sorted)

lemma price_all_names: "price_all tx v model cur names = Some priced \<Longrightarrow> map fst priced = names"
  by (induction names arbitrary: cur priced) (auto split: option.splits if_splits)

lemma ordered_set:
  assumes "orderSharedModelProviders tx pick v model names = Inr ordered"
  shows "set ordered = set names"
proof (cases "gv_strategy v = ''random''")
  case True
  have "set (drop n xs @ take n xs) = set xs" for n and xs :: "string list"
    by (metis Un_commute append_take_drop_id set_append)
  with assms True show ?thesis by (auto simp: orderSharedModelProviders_def Let_def simp del: set_append)
next
  case False
  with assms obtain priced where "price_all tx v model [] (sort names) = Some priced" "ordered = map fst (sort_priced priced)"
    by (auto simp: orderSharedModelProviders_def Let_def split: if_splits option.splits)
  with price_all_names [of tx v model "[]" "sort names" priced] show ?thesis by (metis list.set_map set_sort sort_priced_set)
qed

text \<open>What every resolution by model keeps: the provider is a candidate, and is available unless it is held.\<close>

definition bare_route_ok ::
  "gw_view \<Rightarrow> avail_state option \<Rightarrow> time \<Rightarrow> string \<Rightarrow> string list \<Rightarrow> route_result \<Rightarrow> bool"
where
  "bare_route_ok v so now model candidates res \<longleftrightarrow>
     (case res of
        Inl _ \<Rightarrow> True
      | Inr r \<Rightarrow>
          rst_provider r \<in> set candidates \<and> rst_model r = model \<and>
          (rst_holdAffinity r \<or> modelRouteAvailable v so now (rst_provider r) model \<or> candidates = [rst_provider r]))"

lemma ok_simps [simp]:
  "bare_route_ok v so now model candidates (Inl e)"
  "bare_route_ok v so now model candidates (Inr r) \<longleftrightarrow> rst_provider r \<in> set candidates \<and> rst_model r = model \<and>
     (rst_holdAffinity r \<or> modelRouteAvailable v so now (rst_provider r) model \<or> candidates = [rst_provider r])"
  by (simp_all add: bare_route_ok_def)

lemma retained_fields [simp]:
  "rst_provider (fst (retainedRoute v so now r alts)) = rst_provider r" "rst_model (fst (retainedRoute v so now r alts)) = rst_model r"
  "snd (retainedRoute v so now r alts) \<Longrightarrow> rst_holdAffinity (fst (retainedRoute v so now r alts))"
  by (auto simp: retainedRoute_def split: prod.splits)

lemma route_to_fields [simp]: "rst_provider (route_to p m) = p" "rst_model (route_to p m) = m"
  by (simp_all add: route_to_def)

lemma select_shared_ok: "bare_route_ok v so now model candidates (fst (select_shared pick v so now model candidates key d a))"
proof -
  obtain r a' where sel: "selectProviderForView key model (gv_epoch v) candidates (\<lambda>p. modelRouteAvailable v so now p model) pick (view_generation v)
             (Some (reusableRandomCandidates (reusable_provider v now))) now a = (r, a')" by fastforce
  from select_eligible [OF sel] show ?thesis
    by (auto simp: select_shared_def sel eligible_providers_def split: option.splits)
qed

lemma route_shared_ok: "bare_route_ok v so now model candidates (fst (route_shared_session pick v so now model candidates key a))"
proof -
  have bound: "p \<in> set candidates" if "affinity_boundRoute key model (gv_epoch v) candidates (gv_generations v) now a = (Some p, a')" for p a'
    using that by (auto simp: affinity_boundRoute_def split: option.splits if_splits)
  show ?thesis
  proof (cases "affinity_boundRoute key model (gv_epoch v) candidates (gv_generations v) now a")
    case (Pair po a')
    then show ?thesis
      using select_shared_ok bound retained_fields
      by (cases po) (simp_all add: route_shared_session_def Let_def case_prod_unfold)
  qed
qed

lemma route_ordered_ok: "bare_route_ok v so now model candidates (route_ordered tx pick v so now model candidates d)"
proof -
  let ?u = "filter (\<lambda>p. modelRouteAvailable v so now p model) candidates"
  let ?p = "if gv_strategy v = ''random'' then reusableRandomCandidates (reusable_provider v now) ?u else ?u"
  have "ordered ! 0 \<in> set ?u" if "orderSharedModelProviders tx pick v model ?p = Inr ordered" "?u \<noteq> []" for ordered
  proof -
    have "?p \<noteq> []" "set ?p \<subseteq> set ?u" using that(2) reusable_subset(1) [of "reusable_provider v now" ?u] reusable_subset(2) [of ?u "reusable_provider v now"] by auto
    with ordered_set [OF that(1)] have "ordered \<noteq> []" "set ordered \<subseteq> set ?u" by auto
    then show ?thesis by (meson length_greater_0_conv nth_mem subsetD)
  qed
  then show ?thesis
    by (auto simp: route_ordered_def Let_def split: sum.splits)
qed

lemma route_by_price_ok: "bare_route_ok v so now model candidates (route_by_price tx pick v so now model candidates)"
proof -
  have "p \<in> set candidates" if "orderSharedModelProviders tx pick v model candidates = Inr (p # ps)" for p ps
    using ordered_set [OF that] by auto
  with route_ordered_ok show ?thesis
    by (auto simp: route_by_price_def Let_def case_prod_unfold split: sum.splits list.splits)
qed

lemma bare_model_ok: "bare_route_ok v so now model candidates (fst (routesForBareModel tx pick v so now model candidates q key a))"
proof (cases candidates)
  case Nil
  then show ?thesis by (simp add: routesForBareModel_def)
next
  case (Cons c cs)
  then show ?thesis
    using route_shared_ok [of v so now model candidates] route_by_price_ok [of v so now model candidates]
    by (auto simp: routesForBareModel_def Let_def case_prod_unfold split: option.splits)
qed

lemma chain_route_fields [simp]:
  "rst_provider (chain_route sel k d) = sel_provider sel" "rst_model (chain_route sel k d) = sel_model sel"
  "rst_autoChainIndex (chain_route sel k d) = Some (sel_index sel)"
  by (simp_all add: chain_route_def)

definition chain_route_ok :: "adapter_ops \<Rightarrow> gw_view \<Rightarrow> avail_state option \<Rightarrow> time \<Rightarrow> string \<Rightarrow> string \<Rightarrow> route_result \<Rightarrow> bool" where
  "chain_route_ok ad v so now protocol body res \<longleftrightarrow>
     (case res of
        Inl _ \<Rightarrow> True
      | Inr r \<Rightarrow>
          entry_usable ad v protocol body \<lparr>ace_Provider = rst_provider r, ace_Model = rst_model r\<rparr> \<and>
          (rst_holdAffinity r \<or> modelRouteAvailable v so now (rst_provider r) (rst_model r)))"

lemma chain_ok_simps [simp]:
  "chain_route_ok ad v so now protocol body (Inl e)"
  "chain_route_ok ad v so now protocol body (Inr r) \<longleftrightarrow>
     entry_usable ad v protocol body \<lparr>ace_Provider = rst_provider r, ace_Model = rst_model r\<rparr> \<and>
     (rst_holdAffinity r \<or> modelRouteAvailable v so now (rst_provider r) (rst_model r))"
  by (simp_all add: chain_route_ok_def)

lemma select_chain_ok: "chain_route_ok ad v so now protocol body (fst (select_chain ad hash v so now protocol body key d ch))"
proof -
  let ?sid = "case key of None \<Rightarrow> ''request-scoped'' | Some k \<Rightarrow> hex_encode k"
  let ?u = "\<lambda>e. entry_usable ad v protocol body e \<and> modelRouteAvailable v so now (ace_Provider e) (ace_Model e)"
  obtain r ch' where sel: "selectForSessionAvailable hash ?sid (key \<noteq> None) (Some ?u) now ch = (r, ch')" by fastforce
  show ?thesis
  proof (cases r)
    case None
    with sel show ?thesis by (simp add: select_chain_def Let_def)
  next
    case (Some s)
    with select_valid [of hash ?sid "key \<noteq> None" "Some ?u" now ch s ch'] sel obtain i
      where "s = chain_selection ch i" "?u (ac_entries ch ! i)" by (auto simp: chain_valid_def)
    moreover obtain p m where "ac_entries ch ! i = \<lparr>ace_Provider = p, ace_Model = m\<rparr>" by (cases "ac_entries ch ! i")
    ultimately have "?u \<lparr>ace_Provider = sel_provider s, ace_Model = sel_model s\<rparr>" by (simp add: chain_selection_def)
    with sel Some show ?thesis by (simp add: select_chain_def Let_def)
  qed
qed

lemma route_auto_ok: "chain_route_ok ad v so now protocol body (fst (route_auto ad hash v so now protocol body key ch))"
  using select_chain_ok retained_fields
  by (auto simp: route_auto_def Let_def case_prod_unfold split: option.splits)


section \<open>Waiting or switching\<close>

lemma remaining_ms_ceiling:
  assumes "now < until"
  shows "until \<le> now + remaining_ms until now * millisecond" and "now + remaining_ms until now * millisecond < until + millisecond"
proof -
  define uq ur nq nr where "uq = until div millisecond" and "ur = until mod millisecond"
    and "nq = now div millisecond" and "nr = now mod millisecond"
  then have eqs: "until = millisecond * uq + ur" "now = millisecond * nq + nr"
    and bounds: "0 \<le> ur" "ur < millisecond" "0 \<le> nr" "nr < millisecond" by simp_all
  have mod: "nanosecond_of t mod millisecond = t mod millisecond" for t
    by (simp add: nanosecond_of_def mod_mod_cancel)
  define r where "r = (if nr < ur then uq - nq + 1 else uq - nq)"
  have "remaining_ms until now = (if r < 1 then 1 else r)"
    by (simp add: remaining_ms_def unix_milli_def mod Let_def r_def uq_def ur_def nq_def nr_def)
  moreover have "1 \<le> r" using assms eqs bounds by (auto simp: r_def)
  ultimately have "remaining_ms until now = r" by simp
  with eqs bounds show "until \<le> now + remaining_ms until now * millisecond" "now + remaining_ms until now * millisecond < until + millisecond"
    by (auto simp: r_def algebra_simps)
qed

text \<open>C32. When a session waits for its provider and when it moves. A session is kept on its provider exactly
  if that is blocked and either the wait is short (the deadline is at most the switch threshold away,
  and known unless the threshold is positive) or no other provider is free and the threshold is not
  zero. So with a free alternative nobody waits beyond the threshold. A switch is announced
  exactly when the wait is not short and another provider is free, and the announced
  milliseconds are the wait rounded up.\<close>

theorem cooldown_choice_policy:
  assumes "providerBindingPresent v (rst_provider route)" "cooldownChoiceLocked v so now route alternatives = (d, retain)"
  shows "let w = routeWaitLocked v so now route; threshold = switchThreshold v (rst_provider route) (rst_model route);
             free = free_alternative v so now route alternatives;
             short = (rw_retryAt w \<le> now + threshold * second \<and> (rw_unknown w \<longrightarrow> threshold \<noteq> 0))
    in retain = (rw_blocked w \<and> (short \<or> \<not> free \<and> threshold \<noteq> 0)) \<and>
       (retain \<and> free \<longrightarrow> rw_retryAt w \<le> now + threshold * second) \<and>
       (d \<noteq> None \<and> rd_Action (the d) = ''switch'') = (rw_blocked w \<and> free \<and> \<not> short) \<and>
       (d \<noteq> None \<and> now < rw_retryAt w \<longrightarrow> (\<exists>ms. rd_RemainingMS (the d) = Some ms \<and>
          rw_retryAt w \<le> now + ms * millisecond \<and> now + ms * millisecond < rw_retryAt w + millisecond))"
proof -
  define w threshold free where "w = routeWaitLocked v so now route"
    and "threshold = switchThreshold v (rst_provider route) (rst_model route)"
    and "free = free_alternative v so now route alternatives"
  define d0 where "d0 = wait_decision route w threshold now"
  have action: "rd_Action d0 \<noteq> ''switch''" by (simp add: d0_def wait_decision_def Let_def)
  have remaining: "rd_RemainingMS d0 = Some (remaining_ms (rw_retryAt w) now)" if "now < rw_retryAt w"
    using that by (simp add: d0_def wait_decision_def Let_def)
  have choice: "(d, retain) =
      (if \<not> rw_blocked w then (None, False)
       else if rw_unknown w \<and> \<not> now + threshold * second < rw_retryAt w \<and> threshold \<noteq> 0 then (Some (d0\<lparr>rd_Reason := ''unknown_wait''\<rparr>), True)
       else if \<not> now + threshold * second < rw_retryAt w \<and> \<not> (rw_unknown w \<and> threshold = 0) then (Some d0, True)
       else if free then
         (Some (d0\<lparr>rd_Action := ''switch'',
            rd_Reason := (if rw_unknown w \<and> \<not> now + threshold * second < rw_retryAt w then ''affinity_disabled'' else ''exceeds_threshold'')\<rparr>), False)
       else if threshold = 0 then (None, False)
       else (Some (d0\<lparr>rd_Reason := ''no_eligible_alternative''\<rparr>), True))"
    using assms unfolding cooldownChoiceLocked_def Let_def w_def threshold_def free_def d0_def by simp
  have ms: "\<exists>ms. rd_RemainingMS (the d) = Some ms \<and> rw_retryAt w \<le> now + ms * millisecond \<and> now + ms * millisecond < rw_retryAt w + millisecond"
    if "d \<noteq> None" "now < rw_retryAt w"
  proof -
    have "rd_RemainingMS (the d) = Some (remaining_ms (rw_retryAt w) now)"
      using choice that(1) remaining [OF that(2)] by (auto split: if_splits)
    with remaining_ms_ceiling [OF that(2)] show ?thesis by simp
  qed
  have "retain = (rw_blocked w \<and> (rw_retryAt w \<le> now + threshold * second \<and> (rw_unknown w \<longrightarrow> threshold \<noteq> 0) \<or> \<not> free \<and> threshold \<noteq> 0))"
    "(d \<noteq> None \<and> rd_Action (the d) = ''switch'') =
       (rw_blocked w \<and> free \<and> \<not> (rw_retryAt w \<le> now + threshold * second \<and> (rw_unknown w \<longrightarrow> threshold \<noteq> 0)))"
    using choice action by (auto simp: not_less split: if_splits)
  with ms show ?thesis unfolding Let_def w_def [symmetric] threshold_def [symmetric] free_def [symmetric] by blast
qed

text \<open>C33. Under \<^verbatim>\<open>price_priority\<close> a request without a held session goes to a cheapest available provider:
  every other available candidate costs at least as much, and on equal cost the name decides,
  so that the choice does not depend on the order of the candidates.\<close>

theorem price_priority_cheapest:
  assumes "gv_strategy v = ''price_priority''" "route_ordered tx pick v so now model candidates decision = Inr r"
  shows "\<exists>priced. set (map fst priced) = {p \<in> set candidates. modelRouteAvailable v so now p model} \<and>
    (\<forall>(p, cost) \<in> set priced. \<exists>pr. configured_price tx v model p = Some pr \<and> price_cost pr = Some cost) \<and>
    (\<exists>cost. (rst_provider r, cost) \<in> set priced \<and> (\<forall>x \<in> set priced. priced_le (rst_provider r, cost) x))"
proof -
  let ?u = "filter (\<lambda>p. modelRouteAvailable v so now p model) candidates"
  from assms obtain ordered where o: "orderSharedModelProviders tx pick v model ?u = Inr ordered" "rst_provider r = ordered ! 0" "?u \<noteq> []"
    by (auto simp: route_ordered_def Let_def split: if_splits sum.splits)
  from o(1) assms(1) obtain priced where priced: "price_all tx v model [] (sort ?u) = Some priced" "ordered = map fst (sort_priced priced)"
    by (auto simp: orderSharedModelProviders_def Let_def split: if_splits option.splits)
  have names: "map fst priced = sort ?u" using priced(1) by (rule price_all_names)
  have costs: "\<exists>pr. configured_price tx v model p = Some pr \<and> price_cost pr = Some cost"
    if "price_all tx v model cur ns = Some ps" "(p, cost) \<in> set ps" for cur ns ps p cost
    using that by (induction ns arbitrary: cur ps) (auto split: option.splits if_splits)
  obtain x xs where xs: "sort_priced priced = x # xs"
  proof (cases "sort_priced priced")
    case Nil
    with sort_priced_set [of priced] have "map fst priced = []" by simp
    with names o(3) show ?thesis by (metis set_empty set_sort)
  qed (rule that)
  have min: "priced_le x y" if "y \<in> set priced" for y
  proof -
    from that have "y \<in> set (x # xs)" using sort_priced_set [of priced] by (simp only: xs)
    moreover have "priced_le x x" by (simp add: priced_le_def)
    ultimately show ?thesis using sort_priced_sorted [of priced] by (auto simp: xs)
  qed
  have "x \<in> set priced" using sort_priced_set [of priced] by (auto simp: xs)
  moreover have "rst_provider r = fst x" using o(2) priced(2) by (simp add: xs)
  moreover have "set (map fst priced) = set ?u" by (simp only: names set_sort)
  ultimately show ?thesis using min costs [OF priced(1)] by (intro exI [of _ priced]) (cases x, auto)
qed

section \<open>Samples\<close>

definition sample_shared_provider :: provider_config where
  "sample_shared_provider = zero_provider\<lparr>pv_SupportedModels := [''m''], pv_Prices := [(''m'', sample_price)]\<rparr>"

definition sample_client :: client_config where
  "sample_client = \<lparr>cl_Protocol = ''openai'', cl_MaxOutputTokens = 0, cl_ModelOutputLimits = []\<rparr>"

definition sample_view :: "string \<Rightarrow> gw_view" where
  "sample_view strategy =
     \<lparr>gv_providers = [(''q'', sample_shared_provider), (''p'', sample_shared_provider)], gv_unavailable = [],
      gv_clients = [(''p'', sample_client), (''q'', sample_client)], gv_pools = [], gv_models = [], gv_modelsKnown = [],
      gv_generations = [], gv_reused = [], gv_epoch = 0, gv_AutoChain = [], gv_strategy = strategy, gv_switchThreshold = None\<rparr>"

definition sample_adapter :: adapter_ops where
  "sample_adapter = \<lparr>ad_prepares = (\<lambda>_ _ _ _ _. True), ad_parameter = (\<lambda>_ _ _ _ _. []), ad_serverTools = (\<lambda>_. False)\<rparr>"

definition sample_cooling :: avail_state where
  "sample_cooling = new_availability_state\<lparr>as_entries :=
     [(mk_target ''p'' [] 0, \<lparr>ae_id = 0, ae_reason = ''transport_error'', ae_failures = 1, ae_lastSuccess = 0, ae_lastFailure = second,
        ae_retryAt = 90 * second, ae_touched = second, ae_probing = False, ae_owner = None\<rparr>)]\<rparr>"


theorem cooldown_choice_policy_witness:
  "providerBindingPresent (sample_view ''random'') ''p'' \<and>
   (\<exists>d. cooldownChoiceLocked (sample_view ''random'') (Some sample_cooling) (2 * second) (route_to ''p'' ''m'') [route_to ''q'' ''m''] =
      (Some d, False) \<and> rd_Action d = ''switch'')"
proof -
  let ?v = "sample_view ''random''" and ?r = "route_to ''p'' ''m''"
  have present: "providerBindingPresent ?v (rst_provider ?r)" by code_simp
  obtain d retain where choice: "cooldownChoiceLocked ?v (Some sample_cooling) (2 * second) ?r [route_to ''q'' ''m''] = (d, retain)"
    by fastforce
  have facts: "free_alternative ?v (Some sample_cooling) (2 * second) ?r [route_to ''q'' ''m'']"
    "rw_blocked (routeWaitLocked ?v (Some sample_cooling) (2 * second) ?r)"
    "\<not> rw_retryAt (routeWaitLocked ?v (Some sample_cooling) (2 * second) ?r) \<le>
       2 * second + switchThreshold ?v (rst_provider ?r) (rst_model ?r) * second"
    by code_simp+
  from cooldown_choice_policy [OF present choice] facts
  have "d \<noteq> None \<and> rd_Action (the d) = ''switch''" "\<not> retain" unfolding Let_def by blast+
  with choice present show ?thesis by auto
qed

theorem price_priority_cheapest_witness:
  "\<exists>r. gv_strategy (sample_view ''price_priority'') = ''price_priority'' \<and>
     route_ordered sample_text_ops (\<lambda>_. 0) (sample_view ''price_priority'') None second ''m'' [''q'', ''p''] None = Inr r \<and>
     rst_provider r = ''p'' \<and> price_cost sample_price = Some 6"
proof -
  let ?v = "sample_view ''price_priority''"
  have strategy: "gv_strategy ?v = ''price_priority''" by (simp add: sample_view_def)
  have avail: "modelRouteAvailable ?v None second ''p'' ''m''" "modelRouteAvailable ?v None second ''q'' ''m''" by code_simp+
  have cost: "price_cost sample_price = Some 6" by (simp add: price_cost_def sample_price_def round64_numeral)
  have price: "configured_price sample_text_ops ?v ''m'' p = Some sample_price" if "p = ''p'' \<or> p = ''q''" for p
    using that by (elim disjE) (simp_all add: configured_price_def provider_at_def sample_view_def sample_shared_provider_def
        zero_provider_def UpstreamModel_def)
  have valid: "price_validate sample_text_ops sample_price" by code_simp
  have sorted: "sort [''q'', ''p''] = [''p'', ''q'']" by code_simp
  have "price_all sample_text_ops ?v ''m'' [] [''p'', ''q''] = Some [(''p'', 6), (''q'', 6)]"
    by (simp add: price valid cost)
  moreover have "sort_priced [(''p'', 6 :: rat), (''q'', 6)] = [(''p'', 6), (''q'', 6)]" by code_simp
  ultimately have "orderSharedModelProviders sample_text_ops (\<lambda>_. 0) ?v ''m'' [''q'', ''p''] = Inr [''p'', ''q'']"
    by (simp add: orderSharedModelProviders_def sorted strategy)
  then obtain r where r: "route_ordered sample_text_ops (\<lambda>_. 0) ?v None second ''m'' [''q'', ''p''] None = Inr r" "rst_provider r = ''p''"
    by (simp add: route_ordered_def avail strategy)
  from price_priority_cheapest [OF strategy r(1)] r strategy cost show ?thesis by blast
qed

end
