(* ===== verification/Retry_Guidance.thy ===== *)
theory Retry_Guidance
  imports Routing
begin

text \<open>
  \<^verbatim>\<open>internal/gateway/retry_guidance.go\<close>: what a client is told about retrying a failed request. The gates
  of a route (\<open>routeWaitLocked\<close>) are in \<open>Routing\<close> and \<open>retryDeadlineSeconds\<close> in \<open>Availability\<close>.

  The advice is computed on the current view \<open>v\<close>; \<open>guidance_view\<close> chooses it. The request context is
  the optional \<open>recovery_request\<close>, the provider of the request log and the chosen route. A
  \<open>CallError\<close> is compared by its address, an argument. The response writer is reduced to the flag
  whether the header is out and to the retry headers it is given.
\<close>

section \<open>Data\<close>

record recovery_request =
  rq_model :: string
  rq_protocol :: string
  rq_body :: string

record retry_advice =
  ra_Strategy :: string
  ra_AfterSeconds :: "int option"
  ra_EligibleAfterSeconds :: "int option"
  ra_ProviderRetryAt :: time
  ra_InitialDelaySeconds :: int
  ra_MaxDelaySeconds :: int
  ra_MaxAttempts :: int
  ra_NewRequestRequired :: bool
  ra_ReselectProvider :: bool
  ra_Alternatives :: "string list"
  ra_AlternativesRequireModelChange :: bool
  ra_AlternativesScope :: string
  ra_WaitSource :: string
  ra_AlternativeCount :: nat
  ra_hasCooldown :: bool
  ra_terminalProviderBlocked :: bool
  ra_terminalCategory :: category

definition default_advice :: retry_advice where
  "default_advice =
     \<lparr>ra_Strategy = ''exponential_backoff_with_jitter'', ra_AfterSeconds = None, ra_EligibleAfterSeconds = None, ra_ProviderRetryAt = 0,
      ra_InitialDelaySeconds = 1, ra_MaxDelaySeconds = 30, ra_MaxAttempts = 3, ra_NewRequestRequired = True, ra_ReselectProvider = False,
      ra_Alternatives = [], ra_AlternativesRequireModelChange = False, ra_AlternativesScope = ''model_protocol_health'',
      ra_WaitSource = ''unknown'', ra_AlternativeCount = 0, ra_hasCooldown = False, ra_terminalProviderBlocked = False,
      ra_terminalCategory = []\<rparr>"

definition manualAuditAdvice :: retry_advice where
  "manualAuditAdvice =
     default_advice\<lparr>ra_Strategy := ''manual_check'', ra_InitialDelaySeconds := 0, ra_MaxDelaySeconds := 0, ra_MaxAttempts := 0,
       ra_AlternativesScope := ''none'', ra_WaitSource := ''audit_persistence''\<rparr>"

definition guidance_view :: "gw_view \<Rightarrow> gw_view option \<Rightarrow> gw_view" where
  "guidance_view own active = (case active of None \<Rightarrow> own | Some current \<Rightarrow> current)"

section \<open>Routes of a new request\<close>

definition recoveryRoutes ::
  "adapter_ops \<Rightarrow> gw_view \<Rightarrow> recovery_request \<Rightarrow> route_step list \<times> route_step list \<times> bool"
where
  "recoveryRoutes ad v rq =
     (let bare = (if rq_model rq = ''auto''
                  then map (\<lambda>(i, e). route_to (ace_Provider e) (ace_Model e)) (compatible_entries ad v (rq_protocol rq) (rq_body rq))
                  else map (\<lambda>c. route_to c (rq_model rq)) (routingCandidates ad v (rq_model rq) False (rq_protocol rq) (rq_body rq)))
      in case parseQualifiedModelID (rq_model rq) of
           Some (ref, model) \<Rightarrow>
             if map_of (gv_providers v) ref \<noteq> None then
               ([route_to ref model],
                map (\<lambda>c. route_to c model) (filter (\<lambda>c. c \<noteq> ref) (routingCandidates ad v model False (rq_protocol rq) (rq_body rq))),
                True)
             else (bare, [], False)
         | None \<Rightarrow> (bare, [], False))"

definition qualified_name :: "route_step \<Rightarrow> string" where
  "qualified_name r = rst_provider r @ ''/'' @ rst_model r"

section \<open>The advice\<close>

text \<open>What the loop over the routes gathers.\<close>

record route_scan =
  sc_earliest :: time
  sc_unknown :: bool
  sc_ready :: bool
  sc_terminalOnly :: bool
  sc_category :: category
  sc_mixed :: bool
  sc_cooldown :: bool
  sc_alternatives :: "string list"

definition scan_start :: "route_step list \<Rightarrow> route_scan" where
  "scan_start routes =
     \<lparr>sc_earliest = 0, sc_unknown = (length routes = 0), sc_ready = False, sc_terminalOnly = (0 < length routes), sc_category = [],
      sc_mixed = False, sc_cooldown = False, sc_alternatives = []\<rparr>"

definition scan_route :: "string \<Rightarrow> route_step \<times> route_wait \<Rightarrow> route_scan \<Rightarrow> route_scan" where
  "scan_route providerRef rw sc =
     (let (route, w) = rw;
          sc1 = sc\<lparr>sc_terminalOnly := (sc_terminalOnly sc \<and> rw_terminal w), sc_cooldown := (sc_cooldown sc \<or> rw_temporary w)\<rparr>;
          sc2 = (if rw_terminal w
                 then sc1\<lparr>sc_mixed := (sc_mixed sc1 \<or> sc_category sc1 \<noteq> [] \<and> sc_category sc1 \<noteq> rw_terminalCategory w),
                          sc_category := rw_terminalCategory w\<rparr>
                 else sc1)
      in if \<not> rw_blocked w then
           sc2\<lparr>sc_ready := True,
               sc_alternatives := (if rst_provider route \<noteq> providerRef then sc_alternatives sc2 @ [qualified_name route] else sc_alternatives sc2)\<rparr>
         else if rw_unknown w then sc2\<lparr>sc_unknown := True\<rparr>
         else if sc_earliest sc2 = 0 \<or> rw_retryAt w < sc_earliest sc2 then sc2\<lparr>sc_earliest := rw_retryAt w\<rparr>
         else sc2)"

definition scan_routes :: "gw_view \<Rightarrow> avail_state option \<Rightarrow> time \<Rightarrow> string \<Rightarrow> route_step list \<Rightarrow> route_scan" where
  "scan_routes v so now providerRef routes =
     fold (scan_route providerRef) (map (\<lambda>r. (r, routeWaitLocked v so now r)) routes) (scan_start routes)"

text \<open>The end of \<open>retryAdviceFor\<close>: the delays, from what was gathered and the alternatives.\<close>

definition advise_delay :: "time \<Rightarrow> route_scan \<Rightarrow> retry_advice \<Rightarrow> retry_advice" where
  "advise_delay now sc a =
     (if sc_ready sc then
        a\<lparr>ra_EligibleAfterSeconds := Some 0, ra_Strategy := ''new_request'', ra_AfterSeconds := Some 0, ra_WaitSource := ''eligible_route''\<rparr>
      else if \<not> sc_unknown sc \<and> now < sc_earliest sc then
        (let actual = retryDeadlineSeconds (sc_earliest sc) now
         in a\<lparr>ra_EligibleAfterSeconds := Some actual, ra_Strategy := ''retry_after'', ra_AfterSeconds := Some (min actual 30),
              ra_WaitSource := ''gateway_cooldown''\<rparr>)
      else a)"

definition advise_finish :: "route_scan \<Rightarrow> retry_advice \<Rightarrow> retry_advice" where
  "advise_finish sc a =
     (let a1 = (if \<not> sc_ready sc \<and> 0 < length (ra_Alternatives a) \<and> ra_AfterSeconds a \<noteq> None then a\<lparr>ra_AfterSeconds := Some 2\<rparr> else a)
      in if ra_AfterSeconds a1 \<noteq> None then a1\<lparr>ra_InitialDelaySeconds := 0, ra_MaxDelaySeconds := 0\<rparr> else a1)"

definition advise_routes ::
  "gw_view \<Rightarrow> avail_state option \<Rightarrow> time \<Rightarrow> string \<Rightarrow> route_step list \<Rightarrow> route_step list \<Rightarrow> retry_advice \<Rightarrow> retry_advice"
where
  "advise_routes v so now providerRef routes manual a =
     (let sc = scan_routes v so now providerRef routes;
          alternatives = sort (sc_alternatives sc @
            map qualified_name (filter (\<lambda>r. \<not> rw_blocked (routeWaitLocked v so now r)) manual));
          a1 = a\<lparr>ra_hasCooldown := sc_cooldown sc,
                 ra_terminalProviderBlocked := (\<not> sc_ready sc \<and> sc_terminalOnly sc),
                 ra_terminalCategory := (if sc_mixed sc then ra_terminalCategory a else sc_category sc),
                 ra_AlternativeCount := length alternatives,
                 ra_Alternatives := take 16 alternatives\<rparr>
      in advise_finish sc (advise_delay now sc a1))"

definition retryAdviceFor ::
  "adapter_ops \<Rightarrow> gw_view \<Rightarrow> avail_state option \<Rightarrow> time \<Rightarrow> recovery_request option \<Rightarrow> string \<Rightarrow> route_step option \<Rightarrow> retry_advice"
where
  "retryAdviceFor ad v so now request providerRef chosen =
     (case request of
        None \<Rightarrow> default_advice
      | Some rq \<Rightarrow>
          (let (routes, manual, explicit) = recoveryRoutes ad v rq;
               a = default_advice
                     \<lparr>ra_ReselectProvider := (\<not> explicit \<and> (rq_model rq = ''auto'' \<or> 1 < length routes \<and> gv_strategy v \<noteq> [])),
                      ra_AlternativesRequireModelChange := explicit\<rparr>
           in if (case so of None \<Rightarrow> False | Some s \<Rightarrow> as_epoch s \<noteq> gv_epoch v) then a
              else
                (case chosen of
                   None \<Rightarrow> advise_routes v so now providerRef routes manual a
                 | Some r \<Rightarrow>
                     if \<not> explicit \<and> (rst_sessionKey r \<noteq> None \<or> gv_strategy v = ''price_priority'') \<and>
                        snd (cooldownChoiceLocked v so now r routes)
                     then advise_routes v so now providerRef [r] [] (a\<lparr>ra_ReselectProvider := False\<rparr>)
                     else advise_routes v so now providerRef routes manual a)))"

definition retryDelaySeconds :: "duration \<Rightarrow> int" where
  "retryDelaySeconds delay =
     (if delay \<le> 0 then 0 else if delay mod second \<noteq> 0 then delay div second + 1 else delay div second)"

section \<open>The message\<close>

definition manual_check_message :: string where
  "manual_check_message = ''Audit persistence failed and a provider request may already have completed. Do not retry automatically; reconcile the failed request'' @ [CHR 0x27] @ ''s accounting, repair storage and restart the gateway before resubmitting.''"

definition retryMessage :: "retry_advice \<Rightarrow> string" where
  "retryMessage a =
     (if ra_Strategy a = ''manual_check'' then manual_check_message
      else
        (let m0 = (case ra_AfterSeconds a of
                     None \<Rightarrow> ''Recovery time is unknown. Retry as a new request with bounded exponential backoff and jitter (up to 30 seconds)''
                   | Some s \<Rightarrow> if 0 < s then ''Retry after '' @ show_int s @ '' seconds as a new request'' else ''Retry as a new request'');
             m1 = (if ra_ReselectProvider a then m0 @ ''; routing will reselect an eligible provider''
                   else if ra_AlternativesRequireModelChange a \<and> 0 < length (ra_Alternatives a)
                     then m0 @ ''; another listed provider requires an explicit model change''
                   else m0);
             m2 = (case (ra_EligibleAfterSeconds a, ra_AfterSeconds a) of
                     (Some e, Some s) \<Rightarrow>
                       if s < e then m1 @ ''; the selected routes remain paused for '' @ show_int e @ '' seconds, and this shorter retry only rechecks routing''
                       else m1
                   | _ \<Rightarrow> m1)
         in m2 @ ''. Limit retries to 3 attempts; request features, capacity and budgets are rechecked.''))"

section \<open>The response\<close>

text \<open>The header fields a response carries: \<^verbatim>\<open>x-should-retry\<close>, \<^verbatim>\<open>Retry-After\<close>, \<^verbatim>\<open>retry-after-ms\<close>. An
  old value is deleted first, unless the header is out already.\<close>

definition writeRetryHeaders ::
  "bool \<Rightarrow> retry_headers option \<Rightarrow> (string, string) gomap \<Rightarrow> (string, string) gomap"
where
  "writeRetryHeaders wroteHeader headers hdrs =
     (if wroteHeader then hdrs
      else
        (let f0 = map_del ''retry-after-ms'' (map_del ''Retry-After'' (map_del ''x-should-retry'' hdrs))
         in case retry_headers_normalize headers of
              None \<Rightarrow> f0
            | Some h \<Rightarrow>
                (let f1 = (if rh_ShouldRetry h \<noteq> [] then map_put ''x-should-retry'' (rh_ShouldRetry h) f0 else f0);
                     f2 = (case rh_RetryAfterSeconds h of None \<Rightarrow> f1 | Some s \<Rightarrow> map_put ''Retry-After'' (show_int s) f1)
                 in case rh_RetryAfterMS h of None \<Rightarrow> f2 | Some m \<Rightarrow> map_put ''retry-after-ms'' (show_int m) f2)))"

definition advice_headers :: "string \<Rightarrow> retry_advice option \<Rightarrow> retry_headers" where
  "advice_headers signal ao =
     (case ao of
        Some a \<Rightarrow>
          (case ra_AfterSeconds a of
             Some s \<Rightarrow>
               if 0 < s then \<lparr>rh_ShouldRetry = signal, rh_RetryAfterSeconds = Some s, rh_RetryAfterMS = Some (s * 1000)\<rparr>
               else \<lparr>rh_ShouldRetry = signal, rh_RetryAfterSeconds = None, rh_RetryAfterMS = None\<rparr>
           | None \<Rightarrow> \<lparr>rh_ShouldRetry = signal, rh_RetryAfterSeconds = None, rh_RetryAfterMS = None\<rparr>)
      | None \<Rightarrow> \<lparr>rh_ShouldRetry = signal, rh_RetryAfterSeconds = None, rh_RetryAfterMS = None\<rparr>)"

definition applyRetryHeader :: "bool \<Rightarrow> retry_advice \<Rightarrow> (string, string) gomap \<Rightarrow> (string, string) gomap" where
  "applyRetryHeader wroteHeader a hdrs = writeRetryHeaders wroteHeader (Some (advice_headers ''true'' (Some a))) hdrs"

text \<open>Whether the error invites a retry, and the signal, in the order the code settles them.\<close>

definition never_retried :: "category list" where
  "never_retried = [ProviderErrorAuthentication, ProviderErrorPermissionDenied, ProviderErrorPolicyDenied, ProviderErrorInvalidRequest]"

definition needs_manual_check :: "call_error \<Rightarrow> bool \<Rightarrow> bool" where
  "needs_manual_check e auditUnavailable \<longleftrightarrow>
     ce_Code e = ''audit_failed_do_not_retry_blindly'' \<or> ce_Code e = ''audit_unavailable'' \<or> auditUnavailable"

definition retry_signal :: "call_error \<Rightarrow> retry_advice \<Rightarrow> bool \<Rightarrow> bool \<times> string" where
  "retry_signal e a auditUnavailable =
     (let may0 = (is_availability_error (ce_Code e) \<or> ce_Category e = ProviderErrorRateLimited \<or> ce_Category e = ProviderErrorTemporarilyUnavailable);
          (may1, sig1) = (case ce_Failure e of
                            None \<Rightarrow> (may0, [])
                          | Some f \<Rightarrow>
                              (may0 \<or> fl_Retryability f = ''retryable'' \<or> fl_Source f = ''stream_error'' \<and> fl_Retryability f = ''unknown'',
                               if fl_Retryability f = ''terminal'' then ''false'' else []));
          (may2, sig2) = (if ce_Category e \<in> set never_retried then (False, ''false'') else (may1, sig1));
          (may3, sig3) = (if ce_Category e = ProviderErrorModelNotFound \<or> provider_scoped_terminal (ce_Category e)
                          then (ra_ReselectProvider a \<and> 0 < length (ra_Alternatives a), ''false'') else (may2, sig2));
          (may4, sig4) = (if ra_terminalProviderBlocked a then (False, ''false'') else (may3, sig3));
          (may5, sig5) = (if needs_manual_check e auditUnavailable then (False, ''false'') else (may4, sig4))
      in (may5, if may5 then ''true'' else sig5))"

text \<open>The adjustments for an error that may be retried.\<close>

definition provider_wait :: "call_error \<Rightarrow> retry_advice \<Rightarrow> retry_advice" where
  "provider_wait e a =
     (if ce_RetryProvided e then
        (let a1 = a\<lparr>ra_ProviderRetryAt := ce_CooldownUntil e\<rparr>
         in if ra_AfterSeconds a1 = None \<and> ra_WaitSource a1 = ''unknown''
            then a1\<lparr>ra_AfterSeconds := Some (min (max (retryDelaySeconds (ce_Cooldown e)) 2) 30), ra_Strategy := ''retry_after'',
                    ra_WaitSource := ''provider_cooldown'', ra_InitialDelaySeconds := 0, ra_MaxDelaySeconds := 0\<rparr>
            else a1)
      else a)"

definition retry_adjusted :: "call_error \<Rightarrow> retry_advice \<Rightarrow> retry_advice" where
  "retry_adjusted e a =
     provider_wait e
       (if ra_AfterSeconds a = Some 0 \<and>
           (ce_RetryProvided e \<or> ce_Category e = ProviderErrorRateLimited \<or> provider_scoped_terminal (ce_Category e) \<or>
            ce_Category e = ProviderErrorModelNotFound)
        then a\<lparr>ra_AfterSeconds := Some 2\<rparr> else a)"

definition final_advice :: "call_error \<Rightarrow> retry_advice \<Rightarrow> bool \<Rightarrow> retry_advice option" where
  "final_advice e a auditUnavailable =
     (if needs_manual_check e auditUnavailable then Some manualAuditAdvice
      else if fst (retry_signal e a auditUnavailable) then Some (retry_adjusted e a)
      else None)"

record retry_response =
  rr_callErr :: "nat option"
  rr_advice :: "retry_advice option"
  rr_headers :: "retry_headers option"

record prepared_retry =
  pp_advice :: "retry_advice option"
  pp_headers :: "retry_headers option"
  pp_callErr :: call_error
  pp_response :: "retry_response option"

text \<open>\<open>prepareRetryResponse\<close>: an error that was prepared before keeps its advice and headers; the
  headers are the ones given to \<open>writeRetryHeaders\<close>.\<close>

definition response_headers :: "bool \<Rightarrow> bool \<Rightarrow> retry_advice \<Rightarrow> call_error \<Rightarrow> retry_headers option" where
  "response_headers wroteHeader auditUnavailable advised e =
     retry_headers_normalize
       (Some (if wroteHeader then \<lparr>rh_ShouldRetry = [], rh_RetryAfterSeconds = None, rh_RetryAfterMS = None\<rparr>
              else advice_headers (snd (retry_signal e advised auditUnavailable)) (final_advice e advised auditUnavailable)))"

definition prepareRetryResponse ::
  "message_ops \<Rightarrow> bool \<Rightarrow> bool \<Rightarrow> retry_advice \<Rightarrow> nat \<Rightarrow> call_error \<Rightarrow> retry_response option \<Rightarrow> prepared_retry"
where
  "prepareRetryResponse ops wroteHeader auditUnavailable advised addr e prepared =
     (case prepared of
        Some p \<Rightarrow>
          if rr_callErr p = Some addr
          then \<lparr>pp_advice = rr_advice p, pp_headers = rr_headers p, pp_callErr = e, pp_response = prepared\<rparr>
          else
            (let headers = response_headers wroteHeader auditUnavailable advised e; advice = final_advice e advised auditUnavailable
             in \<lparr>pp_advice = advice, pp_headers = headers,
                 pp_callErr = e\<lparr>ce_Failure := map_option (\<lambda>f. f\<lparr>fl_ResponseRetryHeaders := headers\<rparr>) (failure_normalize ops (ce_Failure e))\<rparr>,
                 pp_response = Some (p\<lparr>rr_callErr := Some addr, rr_advice := advice, rr_headers := headers\<rparr>)\<rparr>)
      | None \<Rightarrow>
          (let headers = response_headers wroteHeader auditUnavailable advised e
           in \<lparr>pp_advice = final_advice e advised auditUnavailable, pp_headers = headers,
               pp_callErr = e\<lparr>ce_Failure := map_option (\<lambda>f. f\<lparr>fl_ResponseRetryHeaders := headers\<rparr>) (failure_normalize ops (ce_Failure e))\<rparr>,
               pp_response = None\<rparr>))"

section \<open>Waits have a known end\<close>

text \<open>A route that is blocked and does not wait for something unknown has a deadline in the future.\<close>

definition wait_ok :: "time \<Rightarrow> route_wait \<Rightarrow> bool" where
  "wait_ok now w \<longleftrightarrow> (rw_blocked w \<and> \<not> rw_unknown w \<longrightarrow> now < rw_retryAt w)"

lemma wait_ok_add: "wait_ok now w \<Longrightarrow> unknown \<or> now < until \<Longrightarrow> wait_ok now (wait_add until unknown w)"
  by (auto simp: wait_ok_def wait_add_def)

lemma wait_ok_target: "wait_ok now w \<Longrightarrow> wait_ok now (wait_target s now t w)"
proof (cases "map_of (as_entries s) t")
  case (Some e)
  assume "wait_ok now w"
  then have add: "wait_ok now (wait_add (ae_retryAt e) (ae_probing e) w)" if "\<not> entry_eligible (Some e) now"
    using that by (intro wait_ok_add) (auto simp: entry_eligible_def)
  from \<open>wait_ok now w\<close> add Some show ?thesis by (simp add: wait_target_def Let_def wait_ok_def)
qed (simp add: wait_target_def)

lemma earlier_fold:
  assumes "\<forall>u \<in> set us. now < u" "0 \<le> now" "e = 0 \<or> now < e" "us \<noteq> [] \<or> e \<noteq> 0"
  shows "now < foldl earlier e us"
  using assms by (induction us arbitrary: e) (auto simp: earlier_def)

lemma cooling_keys:
  assumes "st_Eligible (fst (diagnosticStatus now server p)) = 0" "k \<in> set (st_Keys (fst (diagnosticStatus now server p)))"
  shows "now < ks_CooldownUntil k"
proof -
  have "ks_State k \<noteq> ''eligible''"
    using assms by (auto simp: diagnosticStatus_def Let_def filter_empty_conv)
  with assms(2) show ?thesis by (auto simp: diagnosticStatus_def Let_def key_status_of_def split: if_splits)
qed

lemma wait_ok_pool:
  assumes "wait_ok now w" "0 \<le> now"
  shows "wait_ok now (wait_pool (fst (diagnosticStatus now server p)) now w)"
proof -
  define st where "st = fst (diagnosticStatus now server p)"
  define w3 where "w3 = (let w1 = (if st_RecoveryInProgress st then wait_add 0 True w else w);
          w2 = (if now < st_RateLimitRetryAt st then wait_add (st_RateLimitRetryAt st) False w1 else w1)
      in (if now < st_ProviderRetryAt st then wait_add (st_ProviderRetryAt st) False w2 else w2))"
  have "wait_ok now w3" unfolding w3_def Let_def using assms(1) by (auto intro!: wait_ok_add)
  moreover have "wait_ok now (wait_keys st w')" if "wait_ok now w'" for w'
  proof (cases "0 < st_Capacity st \<and> st_Eligible st = 0")
    case True
    have keys: "\<forall>u \<in> set (map ks_CooldownUntil (st_Keys st)). now < u"
      using cooling_keys True unfolding st_def by auto
    have "foldl earlier 0 (map ks_CooldownUntil (st_Keys st)) = 0 \<or> now < foldl earlier 0 (map ks_CooldownUntil (st_Keys st))"
      using earlier_fold [OF keys assms(2), of 0] by (cases "st_Keys st") auto
    with that True show ?thesis by (auto simp: wait_keys_def Let_def intro!: wait_ok_add)
  next
    case False
    with that show ?thesis by (auto simp: wait_keys_def)
  qed
  moreover have "wait_pool st now w = wait_keys st w3" by (simp add: wait_pool_def w3_def Let_def)
  ultimately show ?thesis unfolding st_def by simp
qed

lemma route_wait_ok:
  assumes "0 \<le> now"
  shows "wait_ok now (routeWaitLocked v so now route)"
proof -
  have start: "wait_ok now no_wait" by (simp add: wait_ok_def no_wait_def)
  have temp: "wait_ok now (w\<lparr>rw_temporary := b\<rparr>) = wait_ok now w" for w b by (simp add: wait_ok_def)
  show ?thesis
    unfolding routeWaitLocked_def Let_def
    using start assms
    by (auto simp: temp intro!: wait_ok_add wait_ok_target wait_ok_pool split: option.splits)
qed

section \<open>The advice gives the exact wait\<close>

text \<open>What the scan says of the waits it has seen.\<close>

definition known_waits :: "route_wait list \<Rightarrow> time set" where
  "known_waits ws = {rw_retryAt w |w. w \<in> set ws \<and> rw_blocked w \<and> \<not> rw_unknown w}"

definition scan_ok :: "time \<Rightarrow> route_wait list \<Rightarrow> route_scan \<Rightarrow> bool" where
  "scan_ok now ws sc \<longleftrightarrow>
     sc_ready sc = (\<exists>w \<in> set ws. \<not> rw_blocked w) \<and>
     sc_unknown sc = (\<exists>w \<in> set ws. rw_blocked w \<and> rw_unknown w) \<and>
     (if known_waits ws = {} then sc_earliest sc = 0
      else sc_earliest sc \<in> known_waits ws \<and> (\<forall>t \<in> known_waits ws. sc_earliest sc \<le> t))"

lemma scan_step_ok:
  assumes "scan_ok now ws sc" "\<forall>x \<in> set (w # ws). wait_ok now x" "0 \<le> now"
  shows "scan_ok now (ws @ [w]) (scan_route ref (r, w) sc)"
proof -
  let ?known = known_waits
  define sc' where "sc' = scan_route ref (r, w) sc"
  have ready: "sc_ready sc' = (sc_ready sc \<or> \<not> rw_blocked w)"
    and unknown: "sc_unknown sc' = (sc_unknown sc \<or> rw_blocked w \<and> rw_unknown w)"
    and earliest: "sc_earliest sc' = (if rw_blocked w \<and> \<not> rw_unknown w \<and> (sc_earliest sc = 0 \<or> rw_retryAt w < sc_earliest sc)
        then rw_retryAt w else sc_earliest sc)"
    by (auto simp: sc'_def scan_route_def Let_def)
  have pos: "t \<noteq> 0" if "t \<in> ?known ws" for t using that assms(2,3) by (auto simp: wait_ok_def known_waits_def)
  have known: "?known (ws @ [w]) = (if rw_blocked w \<and> \<not> rw_unknown w then insert (rw_retryAt w) (?known ws) else ?known ws)"
    by (auto simp: known_waits_def)
  have old: "if ?known ws = {} then sc_earliest sc = 0 else sc_earliest sc \<in> ?known ws \<and> (\<forall>t \<in> ?known ws. sc_earliest sc \<le> t)"
    using assms(1) unfolding scan_ok_def by blast
  have new: "if ?known (ws @ [w]) = {} then sc_earliest sc' = 0
      else sc_earliest sc' \<in> ?known (ws @ [w]) \<and> (\<forall>t \<in> ?known (ws @ [w]). sc_earliest sc' \<le> t)"
  proof (cases "rw_blocked w \<and> \<not> rw_unknown w")
    case False
    then have "?known (ws @ [w]) = ?known ws" "sc_earliest sc' = sc_earliest sc"
      unfolding earliest by (auto simp: known_waits_def)
    with old show ?thesis by simp
  next
    case True
    then have k: "?known (ws @ [w]) = insert (rw_retryAt w) (?known ws)" unfolding known by simp
    show ?thesis
    proof (cases "?known ws = {}")
      case True
      then show ?thesis using old \<open>rw_blocked w \<and> \<not> rw_unknown w\<close> unfolding k earliest by simp
    next
      case False
      with old have o: "sc_earliest sc \<in> ?known ws" "\<forall>t \<in> ?known ws. sc_earliest sc \<le> t" by simp_all
      from pos [OF o(1)] o \<open>rw_blocked w \<and> \<not> rw_unknown w\<close> show ?thesis unfolding k earliest by auto
    qed
  qed
  from assms(1) ready unknown new show ?thesis
    unfolding sc'_def [symmetric] scan_ok_def by auto
qed

lemma scan_fold_ok:
  assumes "0 \<le> now" "\<forall>x \<in> set (map snd rws). wait_ok now x" "\<forall>x \<in> set ws. wait_ok now x" "scan_ok now ws sc"
  shows "scan_ok now (ws @ map snd rws) (fold (scan_route ref) rws sc)"
  using assms(2-)
proof (induction rws arbitrary: ws sc)
  case (Cons rw rws)
  obtain r w where rw: "rw = (r, w)" by fastforce
  have "scan_ok now (ws @ [w]) (scan_route ref (r, w) sc)"
    using Cons.prems assms(1) by (intro scan_step_ok) (auto simp: rw)
  from Cons.IH [OF _ _ this] Cons.prems show ?case by (auto simp: rw)
qed simp

lemma scan_routes_ok:
  assumes "0 \<le> now" "routes \<noteq> []"
  shows "scan_ok now (map (routeWaitLocked v so now) routes) (scan_routes v so now ref routes)"
proof -
  have "scan_ok now [] (scan_start routes)" using assms(2) by (simp add: scan_ok_def scan_start_def known_waits_def)
  from scan_fold_ok [OF assms(1) _ _ this, of "map (\<lambda>r. (r, routeWaitLocked v so now r)) routes"] route_wait_ok [OF assms(1)]
  show ?thesis by (simp add: scan_routes_def comp_def)
qed

lemma advise_fields:
  "ra_EligibleAfterSeconds (advise_finish sc a) = ra_EligibleAfterSeconds a"
  by (simp add: advise_finish_def Let_def)

lemma deadline_pos: "now < until \<Longrightarrow> 0 < retryDeadlineSeconds until now"
  using retryDeadlineSeconds_ceiling [of now until] by (smt (verit) mult_nonneg_nonneg mult_le_0_iff)



section \<open>The response is safe to follow\<close>

definition advice_in :: "retry_advice \<Rightarrow> bool" where
  "advice_in a \<longleftrightarrow> ra_MaxAttempts a = 3 \<and> (case ra_AfterSeconds a of None \<Rightarrow> True | Some s \<Rightarrow> 0 \<le> s \<and> s \<le> 30)"

lemma default_fields [simp]: "ra_MaxAttempts default_advice = 3" "ra_AfterSeconds default_advice = None"
  by (simp_all add: default_advice_def)

lemma default_in: "advice_in default_advice" "advice_in (a\<lparr>ra_ReselectProvider := b, ra_AlternativesRequireModelChange := c\<rparr>) = advice_in a"
  by (simp_all add: advice_in_def)

lemma advise_routes_in:
  "ra_MaxAttempts a = 3 \<Longrightarrow> ra_AfterSeconds a = None \<Longrightarrow> advice_in (advise_routes v so now ref routes manual a)"
  using deadline_pos
  by (auto simp: advice_in_def advise_routes_def advise_finish_def advise_delay_def Let_def min_def less_imp_le)

lemma advice_bounds: "advice_in (retryAdviceFor ad v so now rq ref chosen)"
  unfolding retryAdviceFor_def case_prod_unfold Let_def
  by (auto simp: default_in intro!: advise_routes_in split: option.splits)

lemma retry_signal_true: "snd (retry_signal e a u) = ''true'' \<Longrightarrow> fst (retry_signal e a u)"
  by (auto simp: retry_signal_def Let_def case_prod_unfold split: if_splits option.splits)

lemma retry_signal_fst: "fst (retry_signal e a u) \<Longrightarrow> snd (retry_signal e a u) = ''true''"
  unfolding retry_signal_def Let_def case_prod_unfold fst_conv snd_conv by (rule if_P)

lemma retry_signal_blocked:
  assumes "fst (retry_signal e a u)"
  shows "\<not> needs_manual_check e u" "\<not> ra_terminalProviderBlocked a" "ce_Category e \<notin> set never_retried"
    "ce_Category e = ProviderErrorModelNotFound \<or> provider_scoped_terminal (ce_Category e) \<Longrightarrow>
       ra_ReselectProvider a \<and> ra_Alternatives a \<noteq> []"
  using assms
  by (auto simp: retry_signal_def Let_def case_prod_unfold never_retried_def provider_scoped_terminal_def split: if_splits option.splits)

lemma adjusted_bounds:
  assumes "advice_in a"
  shows "advice_in (retry_adjusted e a)"
  using assms by (auto simp: advice_in_def retry_adjusted_def provider_wait_def Let_def split: option.splits)

text \<open>A client that follows the headers cannot do harm. The signal is \<^verbatim>\<open>true\<close> only when no audit needs
  a manual check, the routes are not blocked by a terminal provider state, the error is none of
  the categories that another attempt cannot cure, and for a missing model or an exhausted provider only when routing
  will reselect among listed alternatives. Then the advice comes with at most three attempts and
  a delay of 0 to 30 seconds, and the headers carry exactly that delay. In every other case
  no delay is sent, and after a failed audit the advice is the manual check with no attempts.\<close>

theorem retry_headers_safe:
  "let advised = retryAdviceFor ad v so now rq ref chosen;
       p = prepareRetryResponse ops False auditUnavailable advised addr e None
   in case pp_headers p of
        None \<Rightarrow> False
      | Some h \<Rightarrow>
          (if rh_ShouldRetry h = ''true'' then
             \<not> needs_manual_check e auditUnavailable \<and> \<not> ra_terminalProviderBlocked advised \<and> ce_Category e \<notin> set never_retried \<and>
             (if ce_Category e = ProviderErrorModelNotFound \<or> provider_scoped_terminal (ce_Category e)
              then ra_ReselectProvider advised \<and> ra_Alternatives advised \<noteq> [] else True) \<and>
             (case pp_advice p of
                None \<Rightarrow> False
              | Some a \<Rightarrow> ra_MaxAttempts a = 3 \<and>
                  rh_RetryAfterSeconds h = (if ra_AfterSeconds a = Some 0 then None else ra_AfterSeconds a) \<and>
                  (case ra_AfterSeconds a of None \<Rightarrow> True | Some s \<Rightarrow> 0 \<le> s \<and> s \<le> 30))
           else
             rh_RetryAfterSeconds h = None \<and> rh_RetryAfterMS h = None \<and>
             (if needs_manual_check e auditUnavailable then rh_ShouldRetry h = ''false'' \<and> pp_advice p = Some manualAuditAdvice else True))"
proof -
  define advised where "advised = retryAdviceFor ad v so now rq ref chosen"
  note bounds = advice_bounds [of ad v so now rq ref chosen, folded advised_def]
  define signal where "signal = snd (retry_signal e advised auditUnavailable)"
  define advice where "advice = final_advice e advised auditUnavailable"
  obtain h where h: "response_headers False auditUnavailable advised e = Some h"
    by (auto simp: response_headers_def retry_headers_normalize_def Let_def)
  have hn: "retry_headers_normalize (Some (advice_headers signal advice)) = Some h"
    using h by (simp add: response_headers_def signal_def advice_def)
  have sigs: "signal = ''true'' \<or> signal = ''false'' \<or> signal = []"
    by (auto simp: signal_def retry_signal_def Let_def case_prod_unfold split: option.splits)
  have should: "rh_ShouldRetry h = signal"
    using hn sigs by (auto simp: retry_headers_normalize_def advice_headers_def Let_def split: option.splits if_splits)
  have p: "pp_headers (prepareRetryResponse ops False auditUnavailable advised addr e None) = Some h"
    "pp_advice (prepareRetryResponse ops False auditUnavailable advised addr e None) = advice"
    by (simp_all add: prepareRetryResponse_def h advice_def Let_def)
  show ?thesis
  proof (cases "signal = ''true''")
    case True
    then have may: "fst (retry_signal e advised auditUnavailable)" unfolding signal_def by (rule retry_signal_true)
    note nb = retry_signal_blocked [OF may]
    have adv: "advice = Some (retry_adjusted e advised)" using may nb(1) by (simp add: advice_def final_advice_def)
    have ab: "ra_MaxAttempts (retry_adjusted e advised) = 3"
      "case ra_AfterSeconds (retry_adjusted e advised) of None \<Rightarrow> True | Some s \<Rightarrow> 0 \<le> s \<and> s \<le> 30"
      using adjusted_bounds [of advised e] bounds by (simp_all add: advice_in_def)
    have "rh_RetryAfterSeconds h =
        (if ra_AfterSeconds (retry_adjusted e advised) = Some 0 then None else ra_AfterSeconds (retry_adjusted e advised))"
      using hn ab(2) True
      by (auto simp: retry_headers_normalize_def advice_headers_def adv Let_def split: option.splits if_splits)
    then show ?thesis
      unfolding Let_def advised_def [symmetric] p option.case should if_P [OF True] adv using nb ab by simp
  next
    case False
    then have "\<not> fst (retry_signal e advised auditUnavailable)"
      unfolding signal_def using retry_signal_fst by blast
    then have adv: "advice = (if needs_manual_check e auditUnavailable then Some manualAuditAdvice else None)"
      by (simp add: advice_def final_advice_def)
    have "advice_headers signal advice = \<lparr>rh_ShouldRetry = signal, rh_RetryAfterSeconds = None, rh_RetryAfterMS = None\<rparr>"
      by (simp add: adv advice_headers_def manualAuditAdvice_def default_advice_def)
    then have none: "rh_RetryAfterSeconds h = None \<and> rh_RetryAfterMS h = None"
      using hn unfolding \<open>advice_headers signal advice = _\<close> by (auto simp: retry_headers_normalize_def Let_def split: if_splits)
    have "signal = ''false''" if "needs_manual_check e auditUnavailable"
      using that by (simp add: signal_def retry_signal_def Let_def case_prod_unfold)
    with none adv False show ?thesis
      unfolding Let_def advised_def [symmetric] p option.case should by simp
  qed
qed

end
