(* ===== verification/Provider_Dispatch.thy ===== *)
theory Provider_Dispatch
  imports Provider_Call Provider_Sessions Retry_Guidance
begin

text \<open>
  The dispatch of a chosen route: \<^verbatim>\<open>internal/gateway/provider_dispatch.go\<close>, and \<open>callRouteWithRecovery\<close> of
  \<^verbatim>\<open>route_recovery.go\<close> around it. The route owner is the state behind the callbacks that a call makes: the key pool of the
  provider, the health table, the auto chain, and what the request remembers (its lease, its recovery claim, what it saw of the keys).

  Every critical section reads the clock once more, and other requests act in between: reading \<open>n\<close> is \<open>dv_clock env n\<close>, and before it
  the others do \<open>dv_pool_others env n\<close>, \<open>dv_avail_others env n\<close> and \<open>dv_chain_others env n\<close>. The health table is the one every running
  gateway has (\<open>callRouteWithLegacyRecovery\<close> serves a handler without it). Pointers are addresses above \<open>ow_fresh\<close>. Logging and the
  output of contents are left out.
\<close>

section \<open>The owner of a route\<close>

record dispatch_env =
  dv_deps :: call_deps
  dv_adapter :: adapter_ops
  dv_view :: gw_view
  dv_active :: "gw_view option"
  dv_request :: "recovery_request option"
  dv_route :: route_step
  dv_candidates :: "(nat \<times> string) list"
  dv_jitter :: "avail_target \<Rightarrow> duration \<Rightarrow> duration"
  dv_limitJitter :: "duration \<Rightarrow> duration"
  dv_clock :: "nat \<Rightarrow> time"
  dv_pool_others :: "nat \<Rightarrow> retry_state \<times> key_pool \<Rightarrow> retry_state \<times> key_pool"
  dv_avail_others :: "nat \<Rightarrow> avail_state \<Rightarrow> avail_state"
  dv_chain_others :: "nat \<Rightarrow> auto_chain \<Rightarrow> auto_chain"
  dv_wroteHeader :: "nat \<Rightarrow> bool"
  dv_auditUnavailable :: "nat \<Rightarrow> bool"
  dv_ctx :: "nat \<Rightarrow> ctx_error option"
  dv_diagnostics :: bool

record route_owner =
  ow_reading :: nat
  ow_pool :: "(retry_state \<times> key_pool) option"
  ow_avail :: avail_state
  ow_chain :: auto_chain
  ow_lease :: "avail_lease option"
  ow_claim :: "rate_lease option option"
  ow_observations :: "rate_observation list"
  ow_seen :: "nat list"
  ow_last :: int
  ow_reason :: string
  ow_token :: "(nat \<times> nat) option"
  ow_response :: "retry_response option"
  ow_completed :: bool
  ow_fresh :: nat

definition tick :: "dispatch_env \<Rightarrow> route_owner \<Rightarrow> time \<times> route_owner" where
  "tick env ob =
     (let n = ow_reading ob in
      (dv_clock env n,
       ob\<lparr>ow_reading := Suc n, ow_pool := map_option (dv_pool_others env n) (ow_pool ob), ow_avail := dv_avail_others env n (ow_avail ob),
          ow_chain := dv_chain_others env n (ow_chain ob)\<rparr>))"

abbreviation route_provider :: "dispatch_env \<Rightarrow> string" where
  "route_provider env \<equiv> rst_provider (dv_route env)"

abbreviation env_messages :: "dispatch_env \<Rightarrow> message_ops" where
  "env_messages env \<equiv> go_messages (cd_ops (dv_deps env))"

definition candidate_index :: "dispatch_env \<Rightarrow> nat \<Rightarrow> int" where
  "candidate_index env i = int (fst (dv_candidates env ! i))"

section \<open>Ready\<close>

definition ready_lease :: "dispatch_env \<Rightarrow> route_owner \<Rightarrow> call_error option \<times> route_owner" where
  "ready_lease env ob =
     (case ow_lease ob of
        None \<Rightarrow> (None, ob)
      | Some lease \<Rightarrow>
          (let (now, ob1) = tick env ob; (blocked, lease1, s) = avail_dispatch now lease (ow_avail ob1)
           in (blocked, ob1\<lparr>ow_lease := Some lease1, ow_avail := s\<rparr>)))"

definition ready_claim :: "dispatch_env \<Rightarrow> route_owner \<Rightarrow> call_error option \<times> route_owner" where
  "ready_claim env ob =
     (if ow_claim ob = Some None then
        (let (now, ob1) = tick env ob in
         case ow_pool ob1 of
           None \<Rightarrow> (None, ob1)
         | Some (server, p) \<Rightarrow>
             (case beginRateRecovery (ow_fresh ob1) now server p of
                (Inl e, _) \<Rightarrow> (Some e, ob1)
              | (Inr lease, sp) \<Rightarrow> (None, ob1\<lparr>ow_pool := Some sp, ow_claim := Some lease, ow_fresh := Suc (ow_fresh ob1)\<rparr>)))
      else (None, ob))"

definition ready_key :: "dispatch_env \<Rightarrow> nat \<Rightarrow> route_owner \<Rightarrow> (bool \<times> duration) \<times> route_owner" where
  "ready_key env i ob =
     (let (now, ob1) = tick env ob in
      case ow_pool ob1 of
        None \<Rightarrow> ((True, 0), ob1)
      | Some (server, p) \<Rightarrow>
          (case candidateStateAt (candidate_index env i) now server p of
             ((ready, delay, observation), p1) \<Rightarrow>
               ((ready, delay),
                ob1\<lparr>ow_pool := Some (server, p1),
                    ow_observations := (if ready then (ow_observations ob1)[i := observation] else ow_observations ob1)\<rparr>)))"

definition ready_callback :: "dispatch_env \<Rightarrow> nat \<Rightarrow> route_owner \<Rightarrow> (bool \<times> duration) \<times> route_owner" where
  "ready_callback env i ob =
     (case ready_lease env ob of
        (Some blocked, ob1) \<Rightarrow> ((False, ce_Cooldown blocked), ob1)
      | (None, ob1) \<Rightarrow>
          if ow_pool ob1 = None then ((True, 0), ob1)
          else if length (dv_candidates env) \<le> i then ((False, 0), ob1)
          else
            (case ready_claim env ob1 of
               (Some blocked, ob2) \<Rightarrow> ((False, max (ce_Cooldown blocked) second), ob2)
             | (None, ob2) \<Rightarrow> ready_key env i ob2))"

section \<open>Failed\<close>

definition setCooldownFailure :: "dispatch_env \<Rightarrow> call_error \<times> route_owner \<Rightarrow> call_error \<times> route_owner" where
  "setCooldownFailure env eo =
     (let (e, ob) = eo in
      case ce_Failure e of
        None \<Rightarrow> (e, ob)
      | Some f \<Rightarrow>
          (let (now, ob1) = tick env ob; f1 = normalize_failure (env_messages env) f
           in (e\<lparr>ce_Failure := Some (f1\<lparr>fl_CooldownScope := (if ce_AllKeysCooling e then ''provider'' else ''key''),
                  fl_CooldownSeconds := retryDeadlineSeconds (ce_CooldownUntil e) now,
                  fl_CooldownUntilMS := unix_milli (ce_CooldownUntil e),
                  fl_ProviderRateLimitStreak := ce_RateLimitFailures e\<rparr>)\<rparr>, ob1)))"

text \<open>A wait the provider asked for holds every key; \<open>0\<close>: it asked for none.\<close>

definition hold_provider :: "dispatch_env \<Rightarrow> call_error \<times> route_owner \<Rightarrow> time \<times> call_error \<times> route_owner" where
  "hold_provider env eo =
     (let (e, ob) = eo in
      case ow_pool ob of
        None \<Rightarrow> (0, e, ob)
      | Some (server, p) \<Rightarrow>
          if \<not> ce_RetryProvided e then (0, e, ob)
          else
            (case holdProviderUntil (ce_CooldownUntil e) server p of
               (until, sp) \<Rightarrow>
                 (let ob1 = ob\<lparr>ow_pool := Some sp\<rparr> in
                  if until = 0 then (until, e, ob1)
                  else
                    (let (now, ob2) = tick env ob1
                     in (until, setCooldownFailure env
                          (e\<lparr>ce_AllKeysCooling := True, ce_CooldownUntil := until, ce_Cooldown := max (time_sub until now) 0\<rparr>, ob2))))))"

definition limit_error :: "time \<Rightarrow> time \<Rightarrow> duration \<times> duration \<times> u16 \<Rightarrow> call_error \<Rightarrow> call_error" where
  "limit_error now serverUntil limits e =
     (let (delay, providerDelay, streak) = limits;
          e1 = e\<lparr>ce_Cooldown := delay, ce_RateLimitFailures := streak\<rparr>;
          e2 = (if 0 < providerDelay then e1\<lparr>ce_AllKeysCooling := True, ce_Cooldown := providerDelay\<rparr> else e1);
          e3 = e2\<lparr>ce_CooldownUntil := now + ce_Cooldown e2\<rparr>
      in if now < serverUntil
         then (let until = raise_to serverUntil (now + providerDelay)
               in e3\<lparr>ce_AllKeysCooling := True, ce_CooldownUntil := until, ce_Cooldown := time_sub until now\<rparr>)
         else e3)"

definition cool_key :: "dispatch_env \<Rightarrow> nat \<Rightarrow> time \<Rightarrow> time \<Rightarrow> call_error \<times> route_owner \<Rightarrow> call_error \<times> route_owner" where
  "cool_key env i serverUntil now eo =
     (let (e, ob) = eo in
      case ow_pool ob of
        None \<Rightarrow> eo
      | Some (server, p) \<Rightarrow>
          if ce_Category e = ProviderErrorRateLimited then
            (let upstreamDelay = (if ce_RetryProvided e then max (time_sub (ce_CooldownUntil e) now) 0 else ce_Cooldown e);
                 (limits, p1) = rateLimitedAt (dv_limitJitter env) (candidate_index env i) upstreamDelay (ce_RetryProvided e) now p
             in setCooldownFailure env (limit_error now serverUntil limits e, ob\<lparr>ow_pool := Some (server, p1)\<rparr>))
          else if serverUntil \<noteq> 0 then
            setCooldownFailure env
              (e\<lparr>ce_AllKeysCooling := True, ce_CooldownUntil := serverUntil, ce_Cooldown := time_sub serverUntil now\<rparr>, ob)
          else if ce_Category e \<noteq> ProviderErrorAuthentication \<and> ce_Category e \<noteq> ProviderErrorRateLimited \<and> ce_UpstreamStatus e \<noteq> 401
          then eo
          else
            (let (now1, ob1) = tick env ob in
             (e, ob1\<lparr>ow_pool := map_option (map_prod (\<lambda>s. s)
                 (CooldownAt (candidate_index env i) (ce_Cooldown e) now1 (Some (SafeFailureClass (Some (CallErr e)))))) (ow_pool ob1)\<rparr>)))"

definition failed_callback :: "dispatch_env \<Rightarrow> nat \<Rightarrow> call_error \<Rightarrow> route_owner \<Rightarrow> call_error \<times> route_owner" where
  "failed_callback env i e ob =
     (if length (dv_candidates env) \<le> i \<or> ow_pool ob = None then (e, ob)
      else if ce_UpstreamNotAttempted e \<and> ce_Code e = ''upstream_transport_error'' then (e, ob)
      else
        (case hold_provider env (e, ob) of
           (serverUntil, e1, ob1) \<Rightarrow>
             (let (now, ob2) = tick env ob1
              in snd (with_current (Some (ow_avail ob2)) (gv_epoch (dv_view env)) (route_provider env)
                        (view_generation (dv_view env) (route_provider env)) (cool_key env i serverUntil now) (e1, ob2)))))"

section \<open>Completed\<close>

definition finish_health :: "dispatch_env \<Rightarrow> go_error option \<Rightarrow> bool \<Rightarrow> route_owner \<Rightarrow> route_owner" where
  "finish_health env err handled ob =
     (case ow_lease ob of
        None \<Rightarrow> ob
      | Some lease \<Rightarrow>
          (let (now, ob1) = tick env ob;
               (restored, s) = avail_complete (env_messages env) (dv_jitter env) now lease handled err (dv_ctx env (ow_reading ob)) (ow_avail ob1)
           in ob1\<lparr>ow_avail := s, ow_completed := True,
                  ow_chain := (if restored then restoreProvider (route_provider env) (ow_chain ob1) else ow_chain ob1)\<rparr>))"

definition rate_settled :: "dispatch_env \<Rightarrow> nat \<Rightarrow> go_error option \<Rightarrow> bool \<times> route_owner \<Rightarrow> bool \<times> route_owner" where
  "rate_settled env i err so =
     (let (staleRate, ob) = so in
      case ow_pool ob of
        None \<Rightarrow> so
      | Some (server, p) \<Rightarrow>
          if err = None \<and> i < length (dv_candidates env) then
            (case rateSucceeded (candidate_index env i) (ow_observations ob ! i) server p of
               (current, sp) \<Rightarrow> (\<not> current, ob\<lparr>ow_pool := Some sp\<rparr>))
          else so)"

definition completed_callback :: "dispatch_env \<Rightarrow> nat \<Rightarrow> go_error option \<Rightarrow> route_owner \<Rightarrow> route_owner" where
  "completed_callback env i err ob =
     (let (_, ob1) = tick env ob;
          (current, staleRate, ob2) =
            with_current (Some (ow_avail ob1)) (gv_epoch (dv_view env)) (route_provider env)
              (view_generation (dv_view env) (route_provider env)) (rate_settled env i err) (False, ob1)
      in finish_health env err (\<not> current \<or> staleRate) ob2)"

section \<open>The other callbacks\<close>

definition attempt_start :: "dispatch_env \<Rightarrow> nat \<Rightarrow> route_owner \<Rightarrow> route_owner" where
  "attempt_start env i ob =
     (let (now, ob1) = tick env ob in
      case ow_pool ob1 of
        None \<Rightarrow> ob1
      | Some (server, p) \<Rightarrow>
          (let index = candidate_index env i;
               (token, p1) = beginAttempt index (nat index \<notin> set (ow_seen ob1)) (ow_last ob1) (ow_reason ob1) now p
           in ob1\<lparr>ow_pool := Some (server, p1), ow_token := token, ow_seen := nat index # ow_seen ob1, ow_last := index\<rparr>))"

definition attempt_finish :: "dispatch_env \<Rightarrow> nat \<Rightarrow> attempt_result \<Rightarrow> route_owner \<Rightarrow> route_owner" where
  "attempt_finish env i res ob =
     (let (now, ob1) = tick env ob; ob2 = ob1\<lparr>ow_reason := ar_FailureClass res\<rparr> in
      case (ow_token ob2, ow_pool ob2) of
        (Some token, Some (server, p)) \<Rightarrow> ob2\<lparr>ow_pool := Some (server, finishAttempt token res now p)\<rparr>
      | _ \<Rightarrow> ob2)"

definition prepare_callback :: "dispatch_env \<Rightarrow> call_error \<Rightarrow> route_owner \<Rightarrow> call_error \<times> route_owner" where
  "prepare_callback env e ob =
     (let (now, ob1) = tick env ob; n = ow_reading ob;
          v = guidance_view (dv_view env) (dv_active env);
          v1 = (case ow_pool ob1 of None \<Rightarrow> v | Some sp \<Rightarrow> v\<lparr>gv_pools := map_put (route_provider env) sp (gv_pools v)\<rparr>);
          advised = retryAdviceFor (dv_adapter env) v1 (Some (ow_avail ob1)) now (dv_request env) (route_provider env) (Some (dv_route env));
          prepared = prepareRetryResponse (env_messages env) (dv_wroteHeader env n) (dv_auditUnavailable env n) advised (ow_fresh ob1) e
            (ow_response ob1)
      in (pp_callErr prepared, ob1\<lparr>ow_response := pp_response prepared, ow_fresh := Suc (ow_fresh ob1)\<rparr>))"

definition key_label :: "dispatch_env \<Rightarrow> route_owner \<Rightarrow> nat \<Rightarrow> string" where
  "key_label env ob i =
     (case ow_pool ob of
        None \<Rightarrow> []
      | Some (server, p) \<Rightarrow> if length (dv_candidates env) \<le> i then [] else kp_labels p ! fst (dv_candidates env ! i))"

text \<open>The labels of a pool never change, so they are those of the owner \<open>ob0\<close> at the start.\<close>

definition gateway_callbacks :: "dispatch_env \<Rightarrow> route_owner \<Rightarrow> route_owner key_callbacks" where
  "gateway_callbacks env ob0 =
     (let observed = (dv_diagnostics env \<and> ow_pool ob0 \<noteq> None); r = dv_route env in
      \<lparr>cb_YieldUnavailable = (rst_dynamic r \<or> rst_sessionKey r \<noteq> None \<or> rst_autoChainIndex r \<noteq> None),
       cb_Ready = Some (ready_callback env), cb_KeyLabel = key_label env ob0, cb_Dispatch = (\<lambda>i ob. ob),
       cb_AttemptStart = (\<lambda>i ob. if observed then attempt_start env i ob else ob),
       cb_AttemptFinish = (\<lambda>i res ob. if observed then attempt_finish env i res ob else ob),
       cb_Failed = failed_callback env, cb_Completed = completed_callback env, cb_PrepareFailure = prepare_callback env\<rparr>)"

section \<open>The callbacks keep the contract of a call\<close>

lemma setCooldownFailure_truth [simp]:
  "ce_UpstreamNotAttempted (fst (setCooldownFailure env eo)) = ce_UpstreamNotAttempted (fst eo)"
  by (simp add: setCooldownFailure_def tick_def Let_def split: option.split prod.split)

lemma hold_provider_truth [simp]:
  "ce_UpstreamNotAttempted (fst (snd (hold_provider env (e, ob)))) = ce_UpstreamNotAttempted e"
  by (simp add: hold_provider_def tick_def Let_def split: option.split prod.split)

lemma cool_key_truth [simp]:
  "ce_UpstreamNotAttempted (fst (cool_key env i until now (e, ob))) = ce_UpstreamNotAttempted e"
  by (simp add: cool_key_def limit_error_def tick_def Let_def split: option.split prod.split)

lemma failed_callback_truth:
  "ce_UpstreamNotAttempted (fst (failed_callback env i e ob)) = ce_UpstreamNotAttempted e"
proof (cases "hold_provider env (e, ob)")
  case (fields until e1 ob1)
  with hold_provider_truth [of env e ob] show ?thesis
    by (simp add: failed_callback_def tick_def with_current_def Let_def)
qed

lemma prepare_callback_frame:
  "ce_UpstreamNotAttempted (fst (prepare_callback env e ob)) = ce_UpstreamNotAttempted e"
  "ce_Code (fst (prepare_callback env e ob)) = ce_Code e"
  "ce_BudgetCost (fst (prepare_callback env e ob)) = ce_BudgetCost e"
  by (simp_all add: prepare_callback_def prepareRetryResponse_def tick_def Let_def split: option.split)

interpretation gateway_owner: key_owner "gateway_callbacks env ob0"
  by unfold_locales (simp_all add: gateway_callbacks_def Let_def failed_callback_truth prepare_callback_frame)

end
