(* ===== verification/Route_Call.thy ===== *)
theory Route_Call
  imports Provider_Dispatch
begin

text \<open>
  One route of a client request: \<open>callRouteCandidate\<close> of \<^verbatim>\<open>internal/gateway/provider_dispatch.go\<close> and \<open>callRouteWithRecovery\<close> of
  \<^verbatim>\<open>route_recovery.go\<close>. The checks, the session, the keys and the budget reservation come first, then the call, then the settlement
  of the reservation.

  A rejection is the status, the code and the parameter given to \<open>reject\<close>. The configuration is the view of the handler with the
  clients, budgets and session limits of its providers; the route is \<open>dv_route env\<close>.
\<close>

section \<open>Data\<close>

record handler_config =
  hc_clients :: "(string, upstream_client) gomap"
  hc_budgets :: "(string, budget_policy) gomap"
  hc_limits :: "(string, int) gomap"
  hc_idleSeconds :: int

text \<open>\<open>dq_delivered\<close> is whether the sink has been given anything, now or before.\<close>

record 'k route_request =
  dq_protocol :: string
  dq_body :: string
  dq_options :: call_options
  dq_sink :: "(string \<Rightarrow> 'k \<Rightarrow> bool \<times> 'k) option"
  dq_confirmed :: bool
  dq_delivered :: "'k \<Rightarrow> bool"

text \<open>What the route meets, with what other requests do to the ledger between the end of the call and its settlement.\<close>

record route_world =
  ro_ctx :: "ctx_error option"
  ro_shutdown :: bool
  ro_now :: time
  ro_nonce :: "string option"
  ro_call :: call_world
  ro_settled_at :: time
  ro_ledger_settling :: "ledger \<Rightarrow> ledger"

record gateway_state =
  gs_ledger :: ledger
  gs_cache :: prompt_cache
  gs_blocked :: "(string, unit) gomap"
  gs_sessions :: provider_sessions
  gs_owner :: route_owner

datatype route_answer = Rejected int string string | Answered "go_error + string" string

record 'k route_run =
  rt_answer :: route_answer
  rt_state :: gateway_state
  rt_admission :: "session_admission option"
  rt_sink :: 'k
  rt_attempted :: bool
  rt_reservation :: string

definition rejected :: "int \<Rightarrow> string \<Rightarrow> string \<Rightarrow> gateway_state \<Rightarrow> session_admission option \<Rightarrow> 'k \<Rightarrow> 'k route_run" where
  "rejected status code param s adm k =
     \<lparr>rt_answer = Rejected status code param, rt_state = s, rt_admission = adm, rt_sink = k, rt_attempted = False,
      rt_reservation = []\<rparr>"

definition refused_route :: "call_error \<Rightarrow> gateway_state \<Rightarrow> session_admission option \<Rightarrow> 'k \<Rightarrow> 'k route_run" where
  "refused_route e s adm k =
     \<lparr>rt_answer = Answered (Inl (CallErr e)) [], rt_state = s, rt_admission = adm, rt_sink = k, rt_attempted = False,
      rt_reservation = []\<rparr>"

section \<open>Checks\<close>

definition replaceRequestModel :: "json_codec \<Rightarrow> string \<Rightarrow> string \<Rightarrow> string option" where
  "replaceRequestModel codec body model =
     (case jc_parse codec body of
        Some (JObj kvs) \<Rightarrow> Some (jc_show codec (map_json (set_member ''model'' (JStr model) kvs)))
      | _ \<Rightarrow> None)"

text \<open>The client, the options, the upstream model and the body of the route, or the rejection.\<close>

definition checked_route ::
  "handler_config \<Rightarrow> dispatch_env \<Rightarrow> 'k route_request \<Rightarrow> (int \<times> string \<times> string) + (upstream_client \<times> call_options \<times> string \<times> string)"
where
  "checked_route cfg env q =
     (let v = dv_view env; r = dv_route env; ref = rst_provider r;
          opts0 = dq_options q;
          opts1 = (if rst_autoChainIndex r \<noteq> None then opts0\<lparr>op_ResponseModel := rst_model r\<rparr> else opts0)
      in if map_of (gv_providers v) ref = None then Inl (404, ''provider_not_found'', ''model'')
         else if ref \<in> set (gv_unavailable v) then Inl (503, ''provider_unavailable'', ''model'')
         else if \<not> supportScopeAllows v ref (rst_model r) then Inl (404, ''model_not_found'', [])
         else
           (case map_of (hc_clients cfg) ref of
              None \<Rightarrow> Inl (404, ''provider_not_found'', ''model'')
            | Some c \<Rightarrow>
                (let upstreamModel = UpstreamModel (provider_at v ref) (rst_model r);
                     opts2 = (if upstreamModel \<noteq> rst_model r then opts1\<lparr>op_ResponseModel := rst_model r\<rparr> else opts1)
                 in case replaceRequestModel (go_codec (cd_ops (dv_deps env))) (dq_body q) upstreamModel of
                      None \<Rightarrow> Inl (400, ''invalid_request'', ''model'')
                    | Some body \<Rightarrow> Inr (c, opts2, upstreamModel, body))))"

definition session_rejection :: "bool \<Rightarrow> string \<Rightarrow> limiter_error \<Rightarrow> int \<times> string \<times> string" where
  "session_rejection shutdown ref e =
     (if e = ErrActiveSessionLimit then (429, ''active_session_limit'', ref)
      else if shutdown then (503, ''server_shutting_down'', [])
      else (400, ''invalid_session_id'', []))"

definition limit_of :: "handler_config \<Rightarrow> string \<Rightarrow> int" where
  "limit_of cfg ref = (case map_of (hc_limits cfg) ref of None \<Rightarrow> 0 | Some n \<Rightarrow> n)"

definition admit_session ::
  "handler_config \<Rightarrow> dispatch_env \<Rightarrow> route_world \<Rightarrow> session_admission option \<Rightarrow> gateway_state
     \<Rightarrow> (int \<times> string \<times> string) option \<times> session_admission option \<times> gateway_state"
where
  "admit_session cfg env w adm s =
     (case adm of
        None \<Rightarrow> (None, None, s)
      | Some a \<Rightarrow>
          (case acquireProvider (map fst (gv_providers (dv_view env))) (hc_idleSeconds cfg) (ro_ctx w) (ro_now w) (route_provider env)
                  (limit_of cfg (route_provider env)) a (gs_sessions s) of
             (err, a1, sessions) \<Rightarrow>
               (map_option (session_rejection (ro_shutdown w) (route_provider env)) err, Some a1, s\<lparr>gs_sessions := sessions\<rparr>)))"

definition release_session :: "dispatch_env \<Rightarrow> 'k route_run \<Rightarrow> 'k route_run" where
  "release_session env run =
     (case rt_admission run of
        None \<Rightarrow> run
      | Some a \<Rightarrow>
          (case releaseProvider (route_provider env) a (gs_sessions (rt_state run)) of
             (a1, sessions) \<Rightarrow> run\<lparr>rt_admission := Some a1, rt_state := (rt_state run)\<lparr>gs_sessions := sessions\<rparr>\<rparr>))"

section \<open>Candidates and budget\<close>

definition keys_cooling :: "duration \<Rightarrow> call_error" where
  "keys_cooling delay = (call_error_of 503 ''provider_keys_cooling_down'')\<lparr>ce_Cooldown := delay, ce_UpstreamNotAttempted := True\<rparr>"

text \<open>A provider without keys of its own has the key of the client as its only candidate.\<close>

definition pool_candidates ::
  "dispatch_env \<Rightarrow> upstream_client \<Rightarrow> route_owner \<Rightarrow> (call_error + (nat \<times> string) list) \<times> route_owner"
where
  "pool_candidates env c ob =
     (let (now, ob1) = tick env ob in
      case ow_pool ob1 of
        None \<Rightarrow> (Inr [(0, cl_APIKey c)], ob1)
      | Some (server, p) \<Rightarrow>
          (case CandidatesAt now server p of
             ((cs, delay), p1) \<Rightarrow>
               (if cs = [] then Inl (keys_cooling delay) else Inr cs, ob1\<lparr>ow_pool := Some (server, p1)\<rparr>)))"

definition route_budget :: "handler_config \<Rightarrow> dispatch_env \<Rightarrow> upstream_client \<Rightarrow> budget_provider" where
  "route_budget cfg env c =
     (let ref = route_provider env; v = provider_at (dv_view env) ref
      in \<lparr>bv_name = ref, bv_Budget = map_of (hc_budgets cfg) ref, bv_Prices = pv_Prices v, bv_BaseURL = pv_BaseURL v\<rparr>)"

definition budget_request_of :: "string \<Rightarrow> route_world \<Rightarrow> 'k route_request \<Rightarrow> budget_request" where
  "budget_request_of upstreamModel w q =
     \<lparr>bq_upstreamModel = upstreamModel, bq_nonce = ro_nonce w, bq_confirmed = dq_confirmed q, bq_shuttingDown = ro_shutdown w\<rparr>"

section \<open>The call and its settlement\<close>

definition dispatched ::
  "dispatch_env \<Rightarrow> route_world \<Rightarrow> 'k route_request \<Rightarrow> upstream_client \<Rightarrow> call_options \<Rightarrow> string \<Rightarrow> string \<Rightarrow> gateway_state \<Rightarrow> 'k
     \<Rightarrow> (go_error + string) \<times> ('k, route_owner) call_state"
where
  "dispatched env w q c opts upstreamModel body s k =
     callWithKeyCandidates (dv_deps env) c (gateway_callbacks env (gs_owner s)) (ro_call w) (dq_protocol q) body upstreamModel
       (dq_sink q) opts (map snd (dv_candidates env)) (gs_ledger s) (gs_cache s)
       ((gs_owner s)\<lparr>ow_observations := replicate (length (dv_candidates env)) zero_observation,
          ow_seen := [], ow_last := -1, ow_reason := ''upstream_error'', ow_token := None\<rparr>) k"

definition settled_route ::
  "dispatch_env \<Rightarrow> route_world \<Rightarrow> budget_provider \<Rightarrow> string \<Rightarrow> gateway_state \<Rightarrow> session_admission option
     \<Rightarrow> (go_error + string) \<times> ('k, route_owner) call_state \<Rightarrow> 'k route_run"
where
  "settled_route env w b reservationID s adm outcome =
     (let (res, st) = outcome;
          (blocked, l) = settle_budget (cd_sql (dv_deps env)) reservationID (error_of res) (cs_id st) (route_provider env)
             (bp_Currency (provider_budget b)) (ro_settled_at w) (gs_blocked s) (ro_ledger_settling w (cs_ledger st));
          run = \<lparr>rt_answer = Answered res (cs_id st),
                 rt_state = s\<lparr>gs_ledger := l, gs_cache := cs_cache st, gs_blocked := blocked, gs_owner := cs_owner st\<rparr>,
                 rt_admission = adm, rt_sink = cs_sink st, rt_attempted = cs_attempted st,
                 rt_reservation = reservationID\<rparr>
      in if error_of res = None then run else release_session env run)"

definition callRouteCandidate ::
  "handler_config \<Rightarrow> dispatch_env \<Rightarrow> route_world \<Rightarrow> 'k route_request \<Rightarrow> session_admission option \<Rightarrow> gateway_state \<Rightarrow> 'k \<Rightarrow> 'k route_run"
where
  "callRouteCandidate cfg env w q adm s k =
     (case checked_route cfg env q of
        Inl (status, code, param) \<Rightarrow> rejected status code param s adm k
      | Inr (c, opts, upstreamModel, body) \<Rightarrow>
          (case admit_session cfg env w adm s of
             (Some (status, code, param), adm1, s1) \<Rightarrow> rejected status code param s1 adm1 k
           | (None, adm1, s1) \<Rightarrow>
               (case pool_candidates env c (gs_owner s1) of
                  (Inl e, ob) \<Rightarrow>
                    (let s2 = s1\<lparr>gs_owner := ob\<rparr>; r = dv_route env in
                     release_session env
                       (if rst_sessionKey r \<noteq> None \<or> rst_autoChainIndex r \<noteq> None then refused_route e s2 adm1 k
                        else rejected (ce_Status e) (ce_Code e) [] s2 adm1 k))
                | (Inr candidates, ob) \<Rightarrow>
                    (let b = route_budget cfg env c; env1 = env\<lparr>dv_candidates := candidates\<rparr> in
                     case reserve_budget (cd_sql (dv_deps env)) (go_text (cd_ops (dv_deps env))) b (budget_request_of upstreamModel w q)
                            (ro_now w) (gs_blocked s1) (gs_ledger s1) of
                       (Refused status code, l) \<Rightarrow>
                         release_session env (rejected status code [] (s1\<lparr>gs_owner := ob, gs_ledger := l\<rparr>) adm1 k)
                     | (Reserved reservationID warning, l) \<Rightarrow>
                         (let s2 = s1\<lparr>gs_owner := ob, gs_ledger := l\<rparr>
                          in settled_route env1 w b reservationID s2 adm1 (dispatched env1 w q c opts upstreamModel body s2 k))))))"

section \<open>Recovery around the call\<close>

text \<open>The claim on a rate-limited provider and the lease on the health of the route come first.\<close>

definition begin_claim :: "dispatch_env \<Rightarrow> route_owner \<Rightarrow> call_error option \<times> route_owner" where
  "begin_claim env ob =
     (let (now, ob1) = tick env ob in
      case ow_pool ob1 of
        None \<Rightarrow> (None, ob1\<lparr>ow_claim := Some None\<rparr>)
      | Some (server, p) \<Rightarrow>
          (case beginRateRecovery (ow_fresh ob1) now server p of
             (Inl e, _) \<Rightarrow> (Some e, ob1)
           | (Inr lease, sp) \<Rightarrow> (None, ob1\<lparr>ow_pool := Some sp, ow_claim := Some lease, ow_fresh := Suc (ow_fresh ob1)\<rparr>)))"

definition finish_claim :: "dispatch_env \<Rightarrow> route_owner \<Rightarrow> route_owner" where
  "finish_claim env ob =
     (let (now, ob1) = tick env ob in
      case (ow_claim ob1, ow_pool ob1) of
        (Some lease, Some (server, p)) \<Rightarrow> ob1\<lparr>ow_pool := Some (finishRateRecovery lease server p), ow_claim := None\<rparr>
      | _ \<Rightarrow> ob1\<lparr>ow_claim := None\<rparr>)"

definition begin_lease :: "dispatch_env \<Rightarrow> route_owner \<Rightarrow> call_error option \<times> route_owner" where
  "begin_lease env ob =
     (let (now, ob1) = tick env ob; v = dv_view env; ref = route_provider env in
      case avail_begin (gv_epoch v) ref (UpstreamModel (provider_at v ref) (rst_model (dv_route env))) (view_generation v ref) now (ow_avail ob1) of
        (blocked, lease, s) \<Rightarrow> (blocked, ob1\<lparr>ow_avail := s, ow_lease := (if blocked = None then Some lease else None), ow_completed := False\<rparr>))"

definition bound_route :: "route_step \<Rightarrow> bool" where
  "bound_route r \<longleftrightarrow> rst_dynamic r \<or> rst_sessionKey r \<noteq> None \<or> rst_autoChainIndex r \<noteq> None"

fun answer_error :: "route_answer \<Rightarrow> go_error option" where
  "answer_error (Rejected status code param) = None"
| "answer_error (Answered res nonce) = error_of res"

fun answer_handled :: "route_answer \<Rightarrow> bool" where
  "answer_handled (Rejected status code param) = True"
| "answer_handled (Answered res nonce) = False"

fun answer_id :: "route_answer \<Rightarrow> string" where
  "answer_id (Rejected status code param) = []"
| "answer_id (Answered res nonce) = nonce"

text \<open>The deferred function: what the chain and the health table learn from a call that did not report its completion.\<close>

definition record_route :: "dispatch_env \<Rightarrow> bool \<Rightarrow> route_answer \<Rightarrow> route_owner \<Rightarrow> route_owner" where
  "record_route env delivered answer ob =
     (let (now, ob1) = tick env ob; ctx = dv_ctx env (ow_reading ob); err = answer_error answer;
          ob2 = (case rst_autoChainIndex (dv_route env) of
                   None \<Rightarrow> ob1
                 | Some i \<Rightarrow> ob1\<lparr>ow_chain := chain_recordFailure i (as_call_error err) ctx delivered True now (ow_chain ob1)\<rparr>)
      in if ow_completed ob2 then ob2 else finish_health env err (answer_handled answer) ob2)"

definition with_owner :: "(route_owner \<Rightarrow> route_owner) \<Rightarrow> 'k route_run \<Rightarrow> 'k route_run" where
  "with_owner f run = run\<lparr>rt_state := (rt_state run)\<lparr>gs_owner := f (gs_owner (rt_state run))\<rparr>\<rparr>"

definition callRouteWithRecovery ::
  "handler_config \<Rightarrow> dispatch_env \<Rightarrow> route_world \<Rightarrow> 'k route_request \<Rightarrow> session_admission option \<Rightarrow> gateway_state \<Rightarrow> 'k \<Rightarrow> 'k route_run"
where
  "callRouteWithRecovery cfg env w q adm s k =
     (case begin_claim env (gs_owner s) of
        (Some e, ob) \<Rightarrow> refused_route e (s\<lparr>gs_owner := ob\<rparr>) adm k
      | (None, ob) \<Rightarrow>
          with_owner (finish_claim env)
            (case begin_lease env ob of
               (Some e, ob1) \<Rightarrow>
                 (let s1 = s\<lparr>gs_owner := ob1\<rparr>
                  in if bound_route (dv_route env) then refused_route e s1 adm k else rejected (ce_Status e) (ce_Code e) [] s1 adm k)
             | (None, ob1) \<Rightarrow>
                 (let run = callRouteCandidate cfg env w q adm (s\<lparr>gs_owner := ob1\<rparr>) k
                  in with_owner (\<lambda>ob2. (record_route env (dq_delivered q (rt_sink run)) (rt_answer run) ob2)\<lparr>ow_lease := None\<rparr>) run)))"

section \<open>What a route owes\<close>

text \<open>Only a route whose keys and budget allowed it makes a call, and its run is the settlement of that call.\<close>

lemma attempted_route:
  assumes run: "callRouteCandidate cfg env w q adm s k = run" and attempted: "rt_attempted run"
  obtains c opts upstreamModel body adm1 s1 ob candidates env1 rid warning l res st
  where "checked_route cfg env q = Inr (c, opts, upstreamModel, body)" "admit_session cfg env w adm s = (None, adm1, s1)"
    "env1 = env\<lparr>dv_candidates := candidates\<rparr>"
    "reserve_budget (cd_sql (dv_deps env)) (go_text (cd_ops (dv_deps env))) (route_budget cfg env c) (budget_request_of upstreamModel w q)
       (ro_now w) (gs_blocked s1) (gs_ledger s1) = (Reserved rid warning, l)"
    "dispatched env1 w q c opts upstreamModel body (s1\<lparr>gs_owner := ob, gs_ledger := l\<rparr>) k = (res, st)" "cs_attempted st"
    "run = settled_route env1 w (route_budget cfg env c) rid (s1\<lparr>gs_owner := ob, gs_ledger := l\<rparr>) adm1 (res, st)"
proof -
  have released: "rt_attempted (release_session e r) = rt_attempted r" for e and r :: "'a route_run"
    by (simp add: release_session_def split: option.split prod.split)
  have settled: "rt_attempted (settled_route e w b rid s2 adm2 (res, st)) = cs_attempted st" for e b rid s2 adm2 res and st :: "('a, route_owner) call_state"
    by (simp add: settled_route_def Let_def released split: prod.split)
  obtain c opts upstreamModel body where checked: "checked_route cfg env q = Inr (c, opts, upstreamModel, body)"
    using run attempted by (cases "checked_route cfg env q") (auto simp: callRouteCandidate_def rejected_def)
  obtain adm1 s1 where admitted: "admit_session cfg env w adm s = (None, adm1, s1)"
    using run attempted checked
    by (cases "admit_session cfg env w adm s") (auto simp: callRouteCandidate_def rejected_def split: option.splits prod.splits)
  obtain candidates ob where pool: "pool_candidates env c (gs_owner s1) = (Inr candidates, ob)"
    using run attempted checked admitted
    by (cases "pool_candidates env c (gs_owner s1)")
      (auto simp: callRouteCandidate_def rejected_def refused_route_def released Let_def split: sum.splits if_splits)
  let ?b = "route_budget cfg env c" and ?env = "env\<lparr>dv_candidates := candidates\<rparr>"
  let ?reserve = "reserve_budget (cd_sql (dv_deps env)) (go_text (cd_ops (dv_deps env))) ?b (budget_request_of upstreamModel w q)
       (ro_now w) (gs_blocked s1) (gs_ledger s1)"
  obtain rid warning l where reserved: "?reserve = (Reserved rid warning, l)"
    using run attempted checked admitted pool
    by (cases ?reserve)
      (auto simp: callRouteCandidate_def rejected_def released Let_def split: reservation_result.splits)
  obtain res st where call: "dispatched ?env w q c opts upstreamModel body (s1\<lparr>gs_owner := ob, gs_ledger := l\<rparr>) k = (res, st)"
    by fastforce
  with run checked admitted pool reserved
  have out: "run = settled_route ?env w ?b rid (s1\<lparr>gs_owner := ob, gs_ledger := l\<rparr>) adm1 (res, st)"
    by (simp add: callRouteCandidate_def Let_def)
  with attempted settled have "cs_attempted st" by simp
  from that [OF checked admitted refl reserved call this out] show ?thesis .
qed

text \<open>What the run of a settled call holds.\<close>

lemma settled_route_fields:
  assumes settle: "settle_budget (cd_sql (dv_deps env)) rid (error_of res) (cs_id st) (route_provider env) (bp_Currency (provider_budget b))
      (ro_settled_at w) (gs_blocked s) (ro_ledger_settling w (cs_ledger st)) = (blocked, l)"
  shows "rt_answer (settled_route env w b rid s adm (res, st)) = Answered res (cs_id st)"
    "rt_reservation (settled_route env w b rid s adm (res, st)) = rid"
    "gs_ledger (rt_state (settled_route env w b rid s adm (res, st))) = l"
    "gs_blocked (rt_state (settled_route env w b rid s adm (res, st))) = blocked"
    "gs_cache (rt_state (settled_route env w b rid s adm (res, st))) = cs_cache st"
    "rt_attempted (settled_route env w b rid s adm (res, st)) = cs_attempted st"
  using assms by (simp_all add: settled_route_def release_session_def Let_def split: option.split prod.split)

text \<open>Other requests leave the row of a reservation that is not theirs.\<close>

definition keeps_row :: "string \<Rightarrow> (ledger \<Rightarrow> ledger) \<Rightarrow> bool" where
  "keeps_row rid f \<longleftrightarrow> (\<forall>l c. c \<in> set (lg_charges l) \<longrightarrow> bc_request_id c = rid \<longrightarrow> c \<in> set (lg_charges (f l)))"

definition route_currency :: "handler_config \<Rightarrow> dispatch_env \<Rightarrow> string" where
  "route_currency cfg env = (case map_of (hc_budgets cfg) (route_provider env) of None \<Rightarrow> [] | Some b \<Rightarrow> bp_Currency b)"

text \<open>C4. No route spends unseen. When a route has a budget and its call may have reached the provider, then after the settlement the
  ledger holds the row of its reservation under its provider and currency, and it is settled at the cost the error or the audit
  record gives, or marked as unknown usage, or still pending with the provider blocked; a released reservation therefore means that
  nothing was sent.\<close>

theorem route_spending_accounted:
  assumes run: "callRouteCandidate cfg env w q adm s k = run" and attempted: "rt_attempted run" and sent: "\<not> not_sent (cw_attempt (ro_call w))"
    and budget: "rt_reservation run \<noteq> []"
    and others: "keeps_row (rt_reservation run) (cw_ledger_waiting (ro_call w))"
      "keeps_row (rt_reservation run) (cw_ledger_running (ro_call w))" "keeps_row (rt_reservation run) (ro_ledger_settling w)"
  shows "\<exists>r \<in> set (lg_charges (gs_ledger (rt_state run))).
    row_of \<lparr>bf_id = rt_reservation run, bf_provider = route_provider env, bf_currency = route_currency cfg env\<rparr> r \<and>
    (bc_state r = Settled \<and>
       known_cost (gs_ledger (rt_state run)) (answer_error (rt_answer run)) (answer_id (rt_answer run)) = Some (bc_charged_amount r) \<or>
     bc_state r = UnknownUsage \<or>
     bc_state r = Pending \<and> isBudgetBlocked (route_provider env) (route_currency cfg env) (gs_blocked (rt_state run)))"
proof -
  from run attempted show ?thesis
  proof (rule attempted_route)
    fix c opts upstreamModel body adm1 ob candidates env1 rid warning l res st and s1 :: gateway_state
    let ?b = "route_budget cfg env c" and ?s = "s1\<lparr>gs_owner := ob, gs_ledger := l\<rparr>"
    let ?cur = "bp_Currency (provider_budget ?b)"
    have cur: "route_currency cfg env = ?cur"
      by (simp add: route_currency_def route_budget_def provider_budget_def zero_policy_def Let_def split: option.split)
    assume env1: "env1 = env\<lparr>dv_candidates := candidates\<rparr>"
      and reserved: "reserve_budget (cd_sql (dv_deps env)) (go_text (cd_ops (dv_deps env))) ?b (budget_request_of upstreamModel w q)
        (ro_now w) (gs_blocked s1) (gs_ledger s1) = (Reserved rid warning, l)"
      and call: "dispatched env1 w q c opts upstreamModel body ?s k = (res, st)" and att: "cs_attempted st"
      and out: "run = settled_route env1 w ?b rid ?s adm1 (res, st)"
    let ?l = "ro_ledger_settling w (cs_ledger st)"
    obtain blocked l1 where settle: "settle_budget (cd_sql (dv_deps env1)) rid (error_of res) (cs_id st) (route_provider env1) ?cur
        (ro_settled_at w) (gs_blocked ?s) ?l = (blocked, l1)" by fastforce
    note fields = settled_route_fields [OF settle, of adm1, folded out]
    have rid: "rid \<noteq> []" using budget fields(2) by simp
    let ?f = "\<lparr>bf_id = rid, bf_provider = route_provider env, bf_currency = ?cur\<rparr>"
    let ?row = "reservation rid (route_provider env) ?cur (ro_now w)"
    have "?row \<in> set (lg_charges l)" using reserve_row(2) [OF reserved rid] by (simp add: route_budget_def Let_def)
    moreover have "lg_charges (cs_ledger st) = lg_charges (cw_ledger_running (ro_call w) (cw_ledger_waiting (ro_call w) l))"
      using gateway_owner.call_charges [OF call [unfolded dispatched_def] att] by simp
    ultimately have row: "?row \<in> set (lg_charges ?l)"
      using others fields(2) by (simp add: keeps_row_def reservation_def)
    have honest: "was_attempted (error_of res)"
      using gateway_owner.call_accounted [OF call [unfolded dispatched_def]] att sent
      by (cases res) (auto simp: was_attempted_def split: option.split elim!: as_call_error.elims)
    obtain e where charge: "settle_charge (cd_sql (dv_deps env1)) (bf_id ?f) (error_of res) (cs_id st) (bf_provider ?f) (bf_currency ?f)
        (ro_settled_at w) ?l = (e, l1)" and blocked: "blocked = (if e = None then gs_blocked ?s else blockBudget (route_provider env) ?cur (gs_blocked ?s))"
      using settle rid by (auto simp: settle_budget_def env1 Let_def split: prod.splits)
    have known: "known_cost l1 err nonce = known_cost ?l err nonce" for err nonce
      using settle_charge_touches [OF charge] by (simp add: known_cost_def touches_only_def)
    from settle_outcome [OF charge honest row] obtain r where "r \<in> set (lg_charges l1)" "row_of ?f r"
      "bc_state r = Settled \<and> known_cost ?l (error_of res) (cs_id st) = Some (bc_charged_amount r) \<or> bc_state r = UnknownUsage \<or>
       bc_state r = Pending \<and> e \<noteq> None" by (auto simp: row_of_def reservation_def)
    then show ?thesis using fields blocked unfolding cur by (intro bexI [of _ r]) (auto simp: known)
  qed
qed

section \<open>A sample\<close>

text \<open>A provider with one key and a budget; its attempt panics after the request is out.\<close>

definition sample_config :: handler_config where
  "sample_config = \<lparr>hc_clients = [(''p'', sample_upstream)], hc_budgets = [(''p'', sample_policy)], hc_limits = [], hc_idleSeconds = 60\<rparr>"

definition sample_call_deps :: call_deps where
  "sample_call_deps = \<lparr>cd_ops = sample_gateway_ops, cd_numbers = sample_numbers, cd_sql = Budget.sample_env\<rparr>"

definition sample_dispatch_env :: dispatch_env where
  "sample_dispatch_env =
     \<lparr>dv_deps = sample_call_deps, dv_adapter = sample_adapter, dv_view = sample_view [], dv_active = None, dv_request = None,
      dv_route = route_to ''p'' ''m'', dv_candidates = [], dv_jitter = (\<lambda>t d. d), dv_limitJitter = (\<lambda>d. d), dv_clock = (\<lambda>n. sample_now),
      dv_pool_others = (\<lambda>n sp. sp), dv_avail_others = (\<lambda>n s. s), dv_chain_others = (\<lambda>n s. s), dv_wroteHeader = (\<lambda>n. False),
      dv_auditUnavailable = (\<lambda>n. False), dv_ctx = (\<lambda>n. None), dv_diagnostics = True\<rparr>"

definition sample_call_world :: call_world where
  "sample_call_world =
     \<lparr>cw_started = sample_now, cw_nonce = Some ''a1'', cw_admission = no_admission, cw_gate_failed = False, cw_done_after_gate = False,
      cw_ledger_waiting = (\<lambda>l. l), cw_ledger_running = (\<lambda>l. l), cw_attempt = Upstream_Attempt.sample_world, cw_panic = Some (False, []),
      cw_deadline = False, cw_ctx = None, cw_shutdown = False, cw_finished = sample_now\<rparr>"

definition sample_route_world :: route_world where
  "sample_route_world =
     \<lparr>ro_ctx = None, ro_shutdown = False, ro_now = sample_now, ro_nonce = Some ''r1'', ro_call = sample_call_world,
      ro_settled_at = sample_now, ro_ledger_settling = (\<lambda>l. l)\<rparr>"

definition sample_route_request :: "nat route_request" where
  "sample_route_request =
     \<lparr>dq_protocol = ''openai'', dq_body = ''x'', dq_options = sample_call_options, dq_sink = None, dq_confirmed = False, dq_delivered = (\<lambda>k. False)\<rparr>"

definition sample_owner :: route_owner where
  "sample_owner =
     \<lparr>ow_reading = 0, ow_pool = None, ow_avail = new_availability_state, ow_chain = newAutoChainState [] 0, ow_lease = None, ow_claim = None,
      ow_observations = [], ow_seen = [], ow_last = -1, ow_reason = [], ow_token = None, ow_response = None, ow_completed = False, ow_fresh = 0\<rparr>"

definition sample_first_owner :: route_owner where
  "sample_first_owner = sample_owner\<lparr>ow_reading := 1\<rparr>"

definition sample_state :: gateway_state where
  "sample_state = \<lparr>gs_ledger = bs_ledger sample_idle, gs_cache = NewPromptCache, gs_blocked = [], gs_sessions = [], gs_owner = sample_owner\<rparr>"

abbreviation sample_route_run :: "nat route_run" where
  "sample_route_run \<equiv> callRouteCandidate sample_config sample_dispatch_env sample_route_world sample_route_request None sample_state 0"

text \<open>The call of the sample, from its owner on.\<close>

abbreviation sample_called :: "(go_error + string) \<times> (nat, route_owner) call_state" where
  "sample_called \<equiv> callWithKeyCandidates sample_call_deps sample_upstream (gateway_callbacks (sample_dispatch_env\<lparr>dv_candidates := [(0, ''key-1'')]\<rparr>) sample_first_owner)
     sample_call_world ''openai'' [] ''m'' None sample_call_options [''key-1''] (bs_ledger sample_in_flight) NewPromptCache
     (sample_first_owner\<lparr>ow_observations := [zero_observation], ow_last := -1, ow_reason := ''upstream_error''\<rparr>) 0"

lemma sample_prepared:
  "\<exists>q a. prepared_call sample_call_deps sample_upstream sample_call_world ''openai'' [] ''m'' False sample_call_options (bs_ledger sample_in_flight) = Inr (q, a)"
  by (simp add: prepared_call_def options_validate_def sample_call_options_def breaks_header_def sample_in_flight_def sample_idle_def
      sample_call_world_def sample_call_deps_def PrepareRequestWithWarnings_def sample_upstream_def Let_def)

lemma sample_attempted:
  assumes "sample_called = (res, st)"
  shows "cs_attempted st"
proof -
  obtain q a where prepared: "prepared_call sample_call_deps sample_upstream sample_call_world ''openai'' [] ''m'' (None \<noteq> (None :: (string \<Rightarrow> nat \<Rightarrow> bool \<times> nat) option))
      sample_call_options (bs_ledger sample_in_flight) = Inr (q, a)"
    using sample_prepared by auto
  let ?cb = "gateway_callbacks (sample_dispatch_env\<lparr>dv_candidates := [(0, ''key-1'')]\<rparr>) sample_first_owner"
  let ?ob = "sample_first_owner\<lparr>ow_observations := [zero_observation], ow_last := -1, ow_reason := ''upstream_error''\<rparr>"
  have "pick_key (cb_Ready ?cb) 0 (if [''key-1''] = [] then [cl_APIKey sample_upstream] else [''key-1'']) ?ob = (Pick 0 ''key-1'', ?ob)"
    by (simp add: gateway_callbacks_def ready_callback_def ready_lease_def sample_first_owner_def sample_owner_def Let_def)
  from gateway_owner.call_attempts [OF assms prepared _ _ _ this] show ?thesis
    by (simp add: sample_call_world_def sample_in_flight_def sample_idle_def)
qed

text \<open>C3. No attempt goes unaccounted. Whatever the gateway, the provider and the other requests do during a call: an attempt is made only
  while the ledger can still record calls, and then either the call's terminal record is in the ledger, with its cost, or the ledger
  refuses every further call and the error carries the cost; an answer reaches the client only with its record in the ledger; and an
  error that says that nothing was attempted is true.\<close>

theorem gateway_call_accounted:
  assumes run: "callWithKeyCandidates deps c (gateway_callbacks env ob0) w clientProtocol body model sink opts keys l cache ob k = (res, st)"
  shows "(cs_attempted st \<longrightarrow> \<not> lg_auditUnavailable l \<and> \<not> lg_auditUnavailable (cw_ledger_waiting w l) \<and>
      (\<exists>nonce. cw_nonce w = Some nonce \<and> (recorded nonce st \<or> refused_record res st))) \<and>
    (\<forall>data. res = Inr data \<longrightarrow> (\<exists>nonce. cw_nonce w = Some nonce \<and> recorded nonce st \<and> au_Status (cs_audit st) = ''ok'')) \<and>
    (\<forall>e. res = Inl (CallErr e) \<longrightarrow> ce_UpstreamNotAttempted e \<longrightarrow> cs_attempted st \<longrightarrow> not_sent (cw_attempt w))"
  using gateway_owner.call_accounted [OF run] by blast

theorem gateway_call_accounted_witness:
  "cs_attempted (snd sample_called) \<and> (recorded ''a1'' (snd sample_called) \<or> refused_record (fst sample_called) (snd sample_called))"
proof (cases "sample_called")
  case (Pair res st)
  note call = this
  from sample_attempted [OF call] gateway_call_accounted [OF call] have "recorded ''a1'' st \<or> refused_record res st"
    by (simp add: sample_call_world_def)
  with sample_attempted [OF call] show ?thesis by (simp add: call)
qed

lemma sample_checked:
  "checked_route sample_config sample_dispatch_env sample_route_request = Inr (sample_upstream, sample_call_options, ''m'', [])"
  by (simp add: checked_route_def sample_config_def sample_dispatch_env_def sample_route_request_def sample_view_def route_to_def
      supportScopeAllows_def sample_shared_provider_def containsModel_def UpstreamModel_def provider_at_def zero_provider_def
      replaceRequestModel_def sample_call_deps_def sample_gateway_ops_def Let_def)

lemma sample_reservation:
  "reserve_budget (cd_sql (dv_deps sample_dispatch_env)) (go_text (cd_ops (dv_deps sample_dispatch_env))) (route_budget sample_config sample_dispatch_env sample_upstream)
     (budget_request_of ''m'' sample_route_world sample_route_request) (ro_now sample_route_world) (gs_blocked sample_state) (gs_ledger sample_state) =
   (Reserved ''r1'' False, bs_ledger sample_in_flight)"
  by code_simp

lemma sample_route_settled:
  "sample_route_run = settled_route (sample_dispatch_env\<lparr>dv_candidates := [(0, ''key-1'')]\<rparr>) sample_route_world
     (route_budget sample_config sample_dispatch_env sample_upstream) ''r1''
     (sample_state\<lparr>gs_owner := sample_first_owner, gs_ledger := bs_ledger sample_in_flight\<rparr>) None
     (dispatched (sample_dispatch_env\<lparr>dv_candidates := [(0, ''key-1'')]\<rparr>) sample_route_world sample_route_request sample_upstream
        sample_call_options ''m'' [] (sample_state\<lparr>gs_owner := sample_first_owner, gs_ledger := bs_ledger sample_in_flight\<rparr>) 0)"
proof -
  have pool: "pool_candidates sample_dispatch_env sample_upstream (gs_owner sample_state) = (Inr [(0, ''key-1'')], sample_first_owner)"
    by (simp add: pool_candidates_def tick_def sample_dispatch_env_def sample_state_def sample_first_owner_def sample_owner_def sample_upstream_def Let_def)
  show ?thesis
    by (simp add: callRouteCandidate_def sample_checked admit_session_def pool sample_reservation Let_def)
qed

lemma sample_dispatched:
  "dispatched (sample_dispatch_env\<lparr>dv_candidates := [(0, ''key-1'')]\<rparr>) sample_route_world sample_route_request sample_upstream
     sample_call_options ''m'' [] (sample_state\<lparr>gs_owner := sample_first_owner, gs_ledger := bs_ledger sample_in_flight\<rparr>) 0 = sample_called"
  by (simp add: dispatched_def sample_dispatch_env_def sample_route_world_def sample_route_request_def sample_state_def sample_first_owner_def sample_owner_def)

lemma sample_route_fields: "rt_attempted sample_route_run" "rt_reservation sample_route_run = ''r1''"
proof -
  obtain res st where call: "sample_called = (res, st)" by fastforce
  obtain blocked l where settle: "settle_budget (cd_sql (dv_deps (sample_dispatch_env\<lparr>dv_candidates := [(0, ''key-1'')]\<rparr>))) ''r1'' (error_of res) (cs_id st)
      (route_provider (sample_dispatch_env\<lparr>dv_candidates := [(0, ''key-1'')]\<rparr>))
      (bp_Currency (provider_budget (route_budget sample_config sample_dispatch_env sample_upstream))) (ro_settled_at sample_route_world)
      (gs_blocked (sample_state\<lparr>gs_owner := sample_first_owner, gs_ledger := bs_ledger sample_in_flight\<rparr>))
      (ro_ledger_settling sample_route_world (cs_ledger st)) = (blocked, l)" by fastforce
  have run: "sample_route_run = settled_route (sample_dispatch_env\<lparr>dv_candidates := [(0, ''key-1'')]\<rparr>) sample_route_world
     (route_budget sample_config sample_dispatch_env sample_upstream) ''r1''
     (sample_state\<lparr>gs_owner := sample_first_owner, gs_ledger := bs_ledger sample_in_flight\<rparr>) None (res, st)"
    unfolding sample_route_settled sample_dispatched call ..
  note fields = settled_route_fields [OF settle, of None, folded run]
  show "rt_attempted sample_route_run" "rt_reservation sample_route_run = ''r1''"
    using fields(2,6) sample_attempted [OF call] by simp_all
qed

theorem route_spending_accounted_witness:
  "\<exists>r \<in> set (lg_charges (gs_ledger (rt_state sample_route_run))). bc_request_id r = ''r1'' \<and> bc_provider_scope r = ''p'' \<and> bc_currency r = ''USD''"
proof -
  have "keeps_row rid (\<lambda>l. l)" for rid by (simp add: keeps_row_def)
  moreover have "\<not> not_sent (cw_attempt (ro_call sample_route_world))"
    by (simp add: not_sent_def sample_route_world_def sample_call_world_def Upstream_Attempt.sample_world_def)
  ultimately obtain r where "r \<in> set (lg_charges (gs_ledger (rt_state sample_route_run)))"
    "row_of \<lparr>bf_id = ''r1'', bf_provider = route_provider sample_dispatch_env, bf_currency = route_currency sample_config sample_dispatch_env\<rparr> r"
    using route_spending_accounted [OF refl sample_route_fields(1)] sample_route_fields(2)
    by (auto simp: sample_route_world_def sample_call_world_def)
  then show ?thesis
    by (intro bexI [of _ r]) (simp_all add: row_of_def sample_dispatch_env_def route_to_def route_currency_def sample_config_def sample_policy_def)
qed

end
