(* ===== verification/Request_Loop.thy ===== *)
theory Request_Loop
  imports Route_Call
begin

text \<open>
  One client request over its routes: \<open>attemptRoutes\<close> of \<^verbatim>\<open>internal/gateway/gateway.go\<close>. A request that is not tied to one route is
  resolved again before every call, and called again only after an error that proves that nothing was dispatched.

  Iteration \<open>n\<close> meets \<open>le_env e n\<close> and \<open>le_world e n\<close>; the view, the route and the request in them are those of the loop. The pools of
  all providers are in \<open>ls_pools\<close>; the one of the route is with the owner during the call. Log details and the output of contents are left out.
\<close>

section \<open>Data\<close>

record 'k loop_env =
  le_config :: handler_config
  le_view :: gw_view
  le_hash :: "string \<Rightarrow> string"
  le_protocol :: string
  le_model :: string
  le_body :: string
  le_session :: "string option"
  le_confirmed :: bool
  le_sink :: "(string \<Rightarrow> 'k \<Rightarrow> bool \<times> 'k) option"
  le_delivered :: "'k \<Rightarrow> bool"
  le_env :: "nat \<Rightarrow> dispatch_env"
  le_world :: "nat \<Rightarrow> route_world"
  le_now :: "nat \<Rightarrow> time"
  le_pick :: "nat \<Rightarrow> nat \<Rightarrow> int"
  le_pools :: "nat \<Rightarrow> (string, retry_state \<times> key_pool) gomap \<Rightarrow> (string, retry_state \<times> key_pool) gomap"
  le_ctx :: "nat \<Rightarrow> ctx_error option"

record 'k loop_state =
  ls_gateway :: gateway_state
  ls_pools :: "(string, retry_state \<times> key_pool) gomap"
  ls_affinity :: shared_affinity
  ls_admission :: "session_admission option"
  ls_options :: call_options
  ls_sink :: 'k

definition loop_dispatch :: "'k loop_env \<Rightarrow> nat \<Rightarrow> route_step \<Rightarrow> dispatch_env" where
  "loop_dispatch e n route =
     (le_env e n)\<lparr>dv_view := le_view e, dv_route := route,
       dv_request := Some \<lparr>rq_model = le_model e, rq_protocol = le_protocol e, rq_body = le_body e\<rparr>\<rparr>"

definition current_view :: "'k loop_env \<Rightarrow> 'k loop_state \<Rightarrow> gw_view" where
  "current_view e s = (le_view e)\<lparr>gv_pools := ls_pools s\<rparr>"

section \<open>Binding the route again\<close>

text \<open>A decision made for the same target is kept when the new resolution makes none.\<close>

definition keep_decision :: "routing_decision option \<Rightarrow> route_step \<Rightarrow> route_step" where
  "keep_decision previous r =
     (case (rst_decision r, previous) of
        (None, Some d) \<Rightarrow>
          if rd_ToProvider d = rst_provider r \<and> (rd_ToModel d = rst_model r \<or> rd_ToModel d = [] \<and> rd_Model d = rst_model r)
          then r\<lparr>rst_decision := previous\<rparr> else r
      | _ \<Rightarrow> r)"

definition rebind :: "'k loop_env \<Rightarrow> nat \<Rightarrow> route_step \<Rightarrow> 'k loop_state \<Rightarrow> (int \<times> string \<times> string + route_step) \<times> 'k loop_state" where
  "rebind e n route s =
     (if \<not> bound_route route then (Inr route, s)
      else
        (let s1 = s\<lparr>ls_pools := le_pools e n (ls_pools s)\<rparr>;
             env = loop_dispatch e n route;
             (now, ob) = tick env (gs_owner (ls_gateway s1));
             (model, key) = (if rst_autoChainIndex route \<noteq> None then (''auto'', le_session e) else (rst_model route, rst_sessionKey route));
             (result, chain, affinity) = resolveRoutes (dv_adapter env) (go_text (cd_ops (dv_deps env))) (le_pick e n) (le_hash e) (current_view e s1)
               (Some (ow_avail ob)) now model (le_protocol e) (le_body e) key (ow_chain ob, ls_affinity s1);
             s2 = s1\<lparr>ls_affinity := affinity, ls_gateway := (ls_gateway s1)\<lparr>gs_owner := ob\<lparr>ow_chain := chain\<rparr>\<rparr>\<rparr>
         in case result of
              Inl (code, status) \<Rightarrow>
                (Inl (status, code,
                   if code = ''unsupported_request_feature''
                   then routeErrorParameter (dv_adapter env) (current_view e s1) (rst_model route) (le_protocol e) (le_body e)
                   else ''model''), s2)
            | Inr r \<Rightarrow> (Inr (keep_decision (rst_decision route) r), s2)))"

section \<open>The loop\<close>

definition call_route :: "'k loop_env \<Rightarrow> nat \<Rightarrow> route_step \<Rightarrow> 'k loop_state \<Rightarrow> 'k route_run \<times> 'k loop_state" where
  "call_route e n route s =
     (let ref = rst_provider route; opts = (ls_options s)\<lparr>op_RoutingDecision := rst_decision route\<rparr>; g = ls_gateway s;
          q = \<lparr>dq_protocol = le_protocol e, dq_body = le_body e, dq_options = opts, dq_sink = le_sink e, dq_confirmed = le_confirmed e,
               dq_delivered = le_delivered e\<rparr>;
          run = callRouteWithRecovery (le_config e) (loop_dispatch e n route) (le_world e n) q (ls_admission s)
            (g\<lparr>gs_owner := (gs_owner g)\<lparr>ow_pool := map_of (ls_pools s) ref\<rparr>\<rparr>) (ls_sink s);
          pools = (case ow_pool (gs_owner (rt_state run)) of None \<Rightarrow> ls_pools s | Some sp \<Rightarrow> map_put ref sp (ls_pools s))
      in (run, s\<lparr>ls_gateway := rt_state run, ls_pools := pools, ls_admission := rt_admission run, ls_options := opts, ls_sink := rt_sink run\<rparr>))"

text \<open>The error after which another route may be called: proven not dispatched, and a matter of availability.\<close>

definition pre_dispatch_error :: "route_answer \<Rightarrow> call_error option" where
  "pre_dispatch_error answer =
     (case as_call_error (answer_error answer) of
        None \<Rightarrow> None
      | Some x \<Rightarrow> if ce_UpstreamNotAttempted x \<and> is_availability_error (ce_Code x) then Some x else None)"

definition loop_ends :: "'k loop_env \<Rightarrow> nat \<Rightarrow> route_step \<Rightarrow> 'k route_run \<Rightarrow> 'k loop_state \<Rightarrow> bool" where
  "loop_ends e n route run s \<longleftrightarrow>
     rst_holdAffinity route \<and>
       retainQueuedAffinity (dv_adapter (le_env e n)) (current_view e s) (Some (ow_avail (gs_owner (ls_gateway s)))) (le_now e n) route
         (le_protocol e) (le_body e) \<or>
     \<not> bound_route route \<or> answer_handled (rt_answer run) \<or> le_delivered e (rt_sink run) \<or> le_ctx e n \<noteq> None \<or>
     length (gv_providers (le_view e)) \<le> n \<or> pre_dispatch_error (rt_answer run) = None"

definition carry_queue :: "call_error \<Rightarrow> 'k loop_state \<Rightarrow> 'k loop_state" where
  "carry_queue x s =
     (if ce_RequestStartedAt x \<noteq> 0
      then s\<lparr>ls_options := (ls_options s)\<lparr>op_RequestStartedAt := ce_RequestStartedAt x, op_PriorQueueMS := ce_QueueMS x\<rparr>\<rparr>
      else s)"

text \<open>The calls that were made, in order, come with the answer.\<close>

function attempt_loop :: "'k loop_env \<Rightarrow> nat \<Rightarrow> route_step \<Rightarrow> 'k loop_state \<Rightarrow> route_answer \<times> 'k route_run list \<times> 'k loop_state" where
  "attempt_loop e n route s =
     (case rebind e n route s of
        (Inl (status, code, param), s1) \<Rightarrow> (Rejected status code param, [], s1)
      | (Inr r, s1) \<Rightarrow>
          (case call_route e n r s1 of
             (run, s2) \<Rightarrow>
               if loop_ends e n r run s2 then (rt_answer run, [run], s2)
               else
                 (case pre_dispatch_error (rt_answer run) of
                    None \<Rightarrow> (rt_answer run, [run], s2)
                  | Some x \<Rightarrow>
                      (case attempt_loop e (Suc n) r (carry_queue x s2) of
                         (answer, runs, s3) \<Rightarrow> (answer, run # runs, s3)))))"
  by pat_completeness auto
termination
  by (relation "measure (\<lambda>(e, n, route, s). Suc (length (gv_providers (le_view e))) - n)") (auto simp: loop_ends_def)

declare attempt_loop.simps [simp del]

text \<open>What is left of the loop: an error of the gateway's own state is a rejection.\<close>

definition local_state_error :: "route_answer \<Rightarrow> call_error option" where
  "local_state_error answer =
     (case as_call_error (answer_error answer) of
        None \<Rightarrow> None
      | Some x \<Rightarrow>
          if answer_id answer = [] \<and> ce_UpstreamNotAttempted x \<and> (is_availability_error (ce_Code x) \<or> ce_Code x = ''audit_unavailable'')
          then Some x else None)"

definition attemptRoutes :: "'k loop_env \<Rightarrow> route_step \<Rightarrow> 'k loop_state \<Rightarrow> route_answer \<times> 'k route_run list \<times> 'k loop_state" where
  "attemptRoutes e route s =
     (case attempt_loop e 0 route s of
        (answer, runs, s1) \<Rightarrow>
          (case local_state_error answer of
             None \<Rightarrow> (answer, runs, s1)
           | Some x \<Rightarrow> (Rejected (ce_Status x) (ce_Code x) [], runs, s1)))"

section \<open>A request is sent once\<close>

text \<open>An error that claims that nothing was attempted is true of the whole route.\<close>

lemma candidate_truth:
  assumes run: "callRouteCandidate cfg env w q adm s k = run" and attempted: "rt_attempted run"
    and claim: "as_call_error (answer_error (rt_answer run)) = Some x" "ce_UpstreamNotAttempted x"
  shows "not_sent (cw_attempt (ro_call w))"
  using run attempted
proof (rule attempted_route)
  fix c opts upstreamModel body adm1 ob candidates env1 rid warning l res st and s1 :: gateway_state
  let ?b = "route_budget cfg env c" and ?s = "s1\<lparr>gs_owner := ob, gs_ledger := l\<rparr>"
  assume call: "dispatched env1 w q c opts upstreamModel body ?s k = (res, st)" and att: "cs_attempted st"
    and out: "run = settled_route env1 w ?b rid ?s adm1 (res, st)"
  obtain blocked l1 where settle: "settle_budget (cd_sql (dv_deps env1)) rid (error_of res) (cs_id st) (route_provider env1)
      (bp_Currency (provider_budget ?b)) (ro_settled_at w) (gs_blocked ?s) (ro_ledger_settling w (cs_ledger st)) = (blocked, l1)" by fastforce
  from claim settled_route_fields(1) [OF settle, of adm1, folded out] have "res = Inl (CallErr x)"
    by (cases res) (auto elim!: as_call_error.elims)
  with gateway_owner.call_accounted [OF call [unfolded dispatched_def]] att claim show ?thesis by blast
qed

lemma recovery_truth:
  assumes run: "callRouteWithRecovery cfg env w q adm s k = run" and attempted: "rt_attempted run"
    and claim: "as_call_error (answer_error (rt_answer run)) = Some x" "ce_UpstreamNotAttempted x"
  shows "not_sent (cw_attempt (ro_call w))"
proof -
  have owner [simp]: "rt_attempted (with_owner f r) = rt_attempted r" "rt_answer (with_owner f r) = rt_answer r" for f and r :: "'a route_run"
    by (simp_all add: with_owner_def)
  obtain ob where claimed: "begin_claim env (gs_owner s) = (None, ob)"
    using run attempted by (cases "begin_claim env (gs_owner s)") (auto simp: callRouteWithRecovery_def refused_route_def split: option.splits)
  obtain ob1 where leased: "begin_lease env ob = (None, ob1)"
    using run attempted claimed
    by (cases "begin_lease env ob")
      (auto simp: callRouteWithRecovery_def refused_route_def rejected_def Let_def split: option.splits if_splits)
  let ?run = "callRouteCandidate cfg env w q adm (s\<lparr>gs_owner := ob1\<rparr>) k"
  from run claimed leased have "rt_attempted run = rt_attempted ?run" "rt_answer run = rt_answer ?run"
    by (auto simp: callRouteWithRecovery_def Let_def)
  with attempted claim candidate_truth [OF refl, of cfg env w q adm "s\<lparr>gs_owner := ob1\<rparr>" k x] show ?thesis by simp
qed

lemma called_truth:
  assumes "call_route e n r s = (run, s1)" "rt_attempted run" "as_call_error (answer_error (rt_answer run)) = Some x" "ce_UpstreamNotAttempted x"
  shows "not_sent (cw_attempt (ro_call (le_world e n)))"
proof -
  let ?q = "\<lparr>dq_protocol = le_protocol e, dq_body = le_body e, dq_options = (ls_options s)\<lparr>op_RoutingDecision := rst_decision r\<rparr>,
    dq_sink = le_sink e, dq_confirmed = le_confirmed e, dq_delivered = le_delivered e\<rparr>"
  let ?g = "(ls_gateway s)\<lparr>gs_owner := (gs_owner (ls_gateway s))\<lparr>ow_pool := map_of (ls_pools s) (rst_provider r)\<rparr>\<rparr>"
  from assms(1) have "callRouteWithRecovery (le_config e) (loop_dispatch e n r) (le_world e n) ?q (ls_admission s) ?g (ls_sink s) = run"
    by (simp add: call_route_def Let_def)
  from recovery_truth [OF this assms(2-4)] show ?thesis .
qed

text \<open>C1. A request of a client is sent to a provider at most once. However the routes, the pools and the health of the providers change
  between the calls of its loop, and whatever the providers answer, only the last call can have sent anything upstream: the loop goes on
  only when the error before proves that no request was dispatched. The loop ends after at most one call more than there are providers.\<close>

theorem request_sent_once:
  assumes loop: "attemptRoutes e route s = (answer, runs, s1)"
  shows "(\<forall>i. i < length runs \<longrightarrow> rt_attempted (runs ! i) \<longrightarrow> \<not> not_sent (cw_attempt (ro_call (le_world e i))) \<longrightarrow> Suc i = length runs) \<and>
    length runs \<le> Suc (length (gv_providers (le_view e)))"
proof -
  have "(\<forall>i. i < length runs \<longrightarrow> rt_attempted (runs ! i) \<longrightarrow> \<not> not_sent (cw_attempt (ro_call (le_world e (n + i)))) \<longrightarrow> Suc i = length runs) \<and>
      length runs \<le> Suc (length (gv_providers (le_view e)) - n)"
    if "attempt_loop e n route s = (answer, runs, s1)" for n answer runs
    using that
  proof (induction e n route s arbitrary: answer runs s1 rule: attempt_loop.induct)
    case (1 e n route s)
    note loop = "1.prems" [unfolded attempt_loop.simps [of e n route s]]
    show ?case
    proof (cases "rebind e n route s")
      case (Pair result s2)
      show ?thesis
      proof (cases result)
        case (Inl x)
        with loop Pair show ?thesis by (cases x) simp
      next
        case (Inr r)
        obtain run s3 where called: "call_route e n r s2 = (run, s3)" by fastforce
        show ?thesis
        proof (cases "loop_ends e n r run s3 \<or> pre_dispatch_error (rt_answer run) = None")
          case True
          with loop Pair Inr called have "runs = [run]" by (auto split: if_splits)
          then show ?thesis by simp
        next
          case False
          then obtain x where x: "pre_dispatch_error (rt_answer run) = Some x" and go: "\<not> loop_ends e n r run s3" by auto
          obtain answer1 runs1 s4 where rest: "attempt_loop e (Suc n) r (carry_queue x s3) = (answer1, runs1, s4)" by (cases rule: prod_cases3)
          with loop Pair Inr called x go have runs: "runs = run # runs1" by simp
          from x have claim: "as_call_error (answer_error (rt_answer run)) = Some x" "ce_UpstreamNotAttempted x"
            by (auto simp: pre_dispatch_error_def split: option.splits if_splits)
          have first: "rt_attempted run \<longrightarrow> not_sent (cw_attempt (ro_call (le_world e n)))"
            using called_truth [OF called _ claim] by blast
          from go have early: "n < length (gv_providers (le_view e))" by (auto simp: loop_ends_def)
          from "1.IH" [OF Pair [symmetric] Inr called [symmetric] go x rest] have IH:
            "\<forall>i. i < length runs1 \<longrightarrow> rt_attempted (runs1 ! i) \<longrightarrow> \<not> not_sent (cw_attempt (ro_call (le_world e (Suc n + i)))) \<longrightarrow> Suc i = length runs1"
            "length runs1 \<le> Suc (length (gv_providers (le_view e)) - Suc n)" by blast+
          show ?thesis
          proof (intro conjI allI impI)
            fix i
            assume "i < length runs" "rt_attempted (runs ! i)" "\<not> not_sent (cw_attempt (ro_call (le_world e (n + i))))"
            with first IH(1) show "Suc i = length runs" by (cases i) (auto simp: runs)
          qed (use IH(2) early runs in simp)
        qed
      qed
    qed
  qed
  note bound = this [of 0]
  from loop obtain answer1 where "attempt_loop e 0 route s = (answer1, runs, s1)"
    by (auto simp: attemptRoutes_def split: prod.splits option.splits)
  from bound [OF this] show ?thesis by simp
qed

definition sample_loop :: "nat loop_env" where
  "sample_loop =
     \<lparr>le_config = sample_config, le_view = sample_view [], le_hash = (\<lambda>s. s), le_protocol = ''openai'', le_model = ''p/m'', le_body = ''x'',
      le_session = None, le_confirmed = False, le_sink = None, le_delivered = (\<lambda>k. False), le_env = (\<lambda>n. sample_dispatch_env),
      le_world = (\<lambda>n. sample_route_world), le_now = (\<lambda>n. sample_now), le_pick = (\<lambda>n m. 0), le_pools = (\<lambda>n p. p), le_ctx = (\<lambda>n. None)\<rparr>"

definition sample_loop_state :: "shared_affinity \<Rightarrow> nat loop_state" where
  "sample_loop_state a =
     \<lparr>ls_gateway = sample_state, ls_pools = [], ls_affinity = a, ls_admission = None, ls_options = sample_call_options, ls_sink = 0\<rparr>"

text \<open>A request for one route: one call.\<close>

theorem request_sent_once_witness:
  "\<forall>a. \<exists>answer run s1. attemptRoutes sample_loop (route_to ''p'' ''m'') (sample_loop_state a) = (answer, [run], s1) \<and> length [run] \<le> 3"
proof
  fix a
  obtain run s2 where called: "call_route sample_loop 0 (route_to ''p'' ''m'') (sample_loop_state a) = (run, s2)" by fastforce
  have single: "\<not> bound_route (route_to ''p'' ''m'')" by (simp add: bound_route_def route_to_def)
  then have "attempt_loop sample_loop 0 (route_to ''p'' ''m'') (sample_loop_state a) = (rt_answer run, [run], s2)"
    by (subst attempt_loop.simps) (simp add: rebind_def called loop_ends_def)
  then obtain answer where loop: "attemptRoutes sample_loop (route_to ''p'' ''m'') (sample_loop_state a) = (answer, [run], s2)"
    by (cases "local_state_error (rt_answer run)") (auto simp: attemptRoutes_def)
  with request_sent_once [OF loop] show "\<exists>answer run s1. attemptRoutes sample_loop (route_to ''p'' ''m'') (sample_loop_state a) = (answer, [run], s1) \<and>
      length [run] \<le> 3"
    by (auto simp: sample_loop_def sample_view_def)
qed

end
