(* ===== verification/Error_Response.thy ===== *)
theory Error_Response
  imports Retry_Guidance Call_Options Budget
begin

text \<open>
  What a client is told when its request fails: the error payloads of \<^verbatim>\<open>internal/gateway/gateway.go\<close>, \<^verbatim>\<open>error_policy.go\<close>,
  \<^verbatim>\<open>retry_guidance.go\<close> and \<^verbatim>\<open>lifecycle.go\<close>, and the local rejections of \<^verbatim>\<open>internal/ledger/diagnostics.go\<close>.

  A payload is a Go map of any values: its \<^verbatim>\<open>error\<close> member is \<open>ep_detail\<close>, the others are \<open>ep_top\<close>. The response is reduced to its status,
  its header fields and its payload; the text of a time in JSON is the argument \<open>tm\<close>.
\<close>

section \<open>JSON of the records\<close>

type_synonym members_of = "(string \<times> json) list"

definition jint :: "int \<Rightarrow> json" where
  "jint n = JNum (show_int n)"

text \<open>\<^verbatim>\<open>omitempty\<close>\<close>

definition opt_string :: "string \<Rightarrow> string \<Rightarrow> members_of" where
  "opt_string name s = (if s = [] then [] else [(name, JStr s)])"

definition opt_int :: "string \<Rightarrow> int \<Rightarrow> members_of" where
  "opt_int name n = (if n = 0 then [] else [(name, jint n)])"

definition opt_bool :: "string \<Rightarrow> bool \<Rightarrow> members_of" where
  "opt_bool name b = (if b then [(name, JBool True)] else [])"

definition opt_ptr :: "string \<Rightarrow> int option \<Rightarrow> members_of" where
  "opt_ptr name p = (case p of None \<Rightarrow> [] | Some n \<Rightarrow> [(name, jint n)])"

definition headers_json :: "retry_headers \<Rightarrow> json" where
  "headers_json h =
     JObj (opt_string ''x_should_retry'' (rh_ShouldRetry h) @ opt_ptr ''retry_after_seconds'' (rh_RetryAfterSeconds h) @
           opt_ptr ''retry_after_ms'' (rh_RetryAfterMS h))"

definition failure_json :: "failure \<Rightarrow> json" where
  "failure_json f =
     JObj ([(''source'', JStr (fl_Source f)), (''phase'', JStr (fl_Phase f))] @
       opt_int ''http_status'' (fl_HTTPStatus f) @ opt_int ''error_status'' (fl_ErrorStatus f) @
       opt_string ''provider_code'' (fl_ProviderCode f) @ [(''provider_code_state'', JStr (fl_CodeState f))] @
       opt_bool ''provider_code_configured'' (fl_ConfiguredCode f) @ opt_string ''provider_request_id'' (fl_ProviderRequestID f) @
       opt_string ''provider_type'' (fl_ProviderType f) @ opt_string ''provider_message'' (fl_ProviderMessage f) @
       opt_int ''actual_tokens'' (fl_ActualTokens f) @ opt_int ''limit_tokens'' (fl_LimitTokens f) @
       opt_string ''key_label'' (fl_KeyLabel f) @ opt_string ''backend_id'' (fl_BackendID f) @
       [(''category'', JStr (fl_Category f)), (''retryability'', JStr (fl_Retryability f))] @
       opt_string ''cooldown_scope'' (fl_CooldownScope f) @ opt_int ''cooldown_seconds'' (fl_CooldownSeconds f) @
       opt_int ''cooldown_until_ms'' (fl_CooldownUntilMS f) @ opt_int ''provider_rate_limit_streak'' (uint (fl_ProviderRateLimitStreak f)) @
       (case fl_ResponseRetryHeaders f of None \<Rightarrow> [] | Some h \<Rightarrow> [(''response_retry_headers'', headers_json h)]))"

definition decision_json :: "routing_decision \<Rightarrow> json" where
  "decision_json d =
     JObj ([(''from_provider'', JStr (rd_FromProvider d)), (''to_provider'', JStr (rd_ToProvider d)), (''model'', JStr (rd_Model d))] @
       opt_string ''to_model'' (rd_ToModel d) @
       [(''action'', JStr (rd_Action d)), (''reason'', JStr (rd_Reason d)), (''threshold_ms'', jint (rd_ThresholdMS d))] @
       opt_ptr ''remaining_ms'' (rd_RemainingMS d) @ opt_int ''cooldown_until_ms'' (rd_CooldownUntilMS d) @
       [(''wait_unknown'', JBool (rd_WaitUnknown d))])"

definition advice_json :: "(time \<Rightarrow> string) \<Rightarrow> retry_advice \<Rightarrow> json" where
  "advice_json tm a =
     JObj ([(''strategy'', JStr (ra_Strategy a))] @ opt_ptr ''after_seconds'' (ra_AfterSeconds a) @
       opt_ptr ''eligible_after_seconds'' (ra_EligibleAfterSeconds a) @
       (if ra_ProviderRetryAt a = 0 then [] else [(''provider_retry_at'', JStr (tm (ra_ProviderRetryAt a)))]) @
       opt_int ''initial_delay_seconds'' (ra_InitialDelaySeconds a) @ opt_int ''max_delay_seconds'' (ra_MaxDelaySeconds a) @
       [(''max_attempts'', jint (ra_MaxAttempts a)), (''new_request_required'', JBool (ra_NewRequestRequired a)),
        (''reselect_provider'', JBool (ra_ReselectProvider a)), (''alternatives'', JArr (map JStr (ra_Alternatives a))),
        (''alternatives_require_model_change'', JBool (ra_AlternativesRequireModelChange a)),
        (''alternatives_scope'', JStr (ra_AlternativesScope a)), (''wait_source'', JStr (ra_WaitSource a)),
        (''alternative_count'', jint (int (ra_AlternativeCount a)))])"

section \<open>Payloads\<close>

record error_payload =
  ep_detail :: "(string, json) gomap"
  ep_top :: "(string, json) gomap"

definition payload_json :: "error_payload \<Rightarrow> json" where
  "payload_json p = map_json (ep_top p @ [(''error'', map_json (ep_detail p))])"

definition put_detail :: "string \<Rightarrow> json \<Rightarrow> error_payload \<Rightarrow> error_payload" where
  "put_detail k v p = p\<lparr>ep_detail := map_put k v (ep_detail p)\<rparr>"

definition detail_at :: "string \<Rightarrow> error_payload \<Rightarrow> json option" where
  "detail_at k p = map_of (ep_detail p) k"

text \<open>\<open>Sprintf\<close> of the message, which is always a string.\<close>

definition detail_message :: "error_payload \<Rightarrow> string" where
  "detail_message p = (case detail_at ''message'' p of Some (JStr s) \<Rightarrow> s | _ \<Rightarrow> [])"

definition status_kind :: "int \<Rightarrow> string" where
  "status_kind status =
     (if status = 400 \<or> status = 413 then ''invalid_request_error'' else if status = 401 then ''authentication_error''
      else if status = 404 then ''not_found_error'' else if status = 429 then ''rate_limit_error'' else ''api_error'')"

definition start_payload :: "string \<Rightarrow> string \<Rightarrow> string \<Rightarrow> error_payload" where
  "start_payload kind message code =
     \<lparr>ep_detail = [(''type'', JStr kind), (''message'', JStr message), (''code'', JStr code)], ep_top = []\<rparr>"

definition addFailureDetails :: "message_ops \<Rightarrow> failure option \<Rightarrow> error_payload \<Rightarrow> error_payload" where
  "addFailureDetails mo f p = (case failure_normalize mo f of None \<Rightarrow> p | Some g \<Rightarrow> put_detail ''failure'' (failure_json g) p)"

definition too_large_message :: "int \<Rightarrow> string" where
  "too_large_message limit =
     ''request_too_large: body exceeds gateway limit of '' @ show_int limit @ '' bytes; configure limits.request_bytes to change it''"

definition capacity_message :: "int \<Rightarrow> string" where
  "capacity_message limit =
     ''provider capacity of '' @ show_int limit @ '' active sessions is full; capacity release time is unknown. Retry with bounded exponential backoff and jitter (up to 30 seconds).''"

definition capacity_retry :: json where
  "capacity_retry =
     map_json [(''strategy'', JStr ''exponential_backoff_with_jitter''), (''initial_delay_seconds'', jint 1), (''max_delay_seconds'', jint 30)]"

text \<open>What the code of a local error adds, and the field that is still to be reported.\<close>

definition code_details :: "int \<Rightarrow> (string \<Rightarrow> int) \<Rightarrow> string \<Rightarrow> string \<Rightarrow> string \<Rightarrow> error_payload \<Rightarrow> string \<times> error_payload" where
  "code_details requestBytes sessionLimit code protocol field p =
     (if code = ''provider_fair_use_throttled_cooling_down'' then
        (field, put_detail ''message'' (JStr (client_error_message ProviderErrorFairUseThrottled)) p)
      else if code = ''provider_access_denied_cooling_down'' then
        (field, put_detail ''message'' (JStr (client_error_message ProviderErrorAccessDenied)) p)
      else if code = ''request_too_large'' then
        (let p1 = put_detail ''limit_bytes'' (jint requestBytes) (put_detail ''message'' (JStr (too_large_message requestBytes)) p)
         in (field, if protocol = ''anthropic'' then put_detail ''type'' (JStr ''request_too_large'') p1 else p1))
      else if code = ''active_session_limit'' then
        (let limit = sessionLimit field in
         ([], put_detail ''retry'' capacity_retry (put_detail ''limit'' (jint limit) (put_detail ''scope'' (JStr ''provider'')
           (put_detail ''message'' (JStr (capacity_message limit)) (put_detail ''provider_ref'' (JStr field) p))))))
      else (field, p))"

definition errorPayload ::
  "message_ops \<Rightarrow> call_limits \<Rightarrow> (string \<Rightarrow> int) \<Rightarrow> int \<Rightarrow> string \<Rightarrow> string \<Rightarrow> failure option \<Rightarrow> string \<Rightarrow> error_payload"
where
  "errorPayload mo limits sessionLimit status code protocol f field0 =
     (let message = (if code = ''unsupported_request_feature'' \<and> field0 \<noteq> []
            then ''unsupported_request_feature: '' @ field0 @ '' cannot be represented by the configured upstream protocol'' else code);
          p0 = addFailureDetails mo f (start_payload (status_kind status) message code);
          (field, p1) = code_details (lim_RequestBytes (Effective limits)) sessionLimit code protocol field0 p0
      in if protocol = ''anthropic''
         then (if field \<noteq> [] then put_detail ''param'' (JStr field) p1 else p1)\<lparr>ep_top := [(''type'', JStr ''error'')]\<rparr>
         else put_detail ''param'' (if field \<noteq> [] then JStr field else JNull) p1)"

definition mappedUpstreamErrorPayload :: "message_ops \<Rightarrow> call_error \<Rightarrow> string \<Rightarrow> error_payload" where
  "mappedUpstreamErrorPayload mo e protocol =
     (let (_, code, message, kind) = ClientError (ce_Category e) protocol;
          p0 = addFailureDetails mo (ce_Failure e) (start_payload kind message code);
          p1 = (if ce_ProviderCode e \<noteq> [] then put_detail ''provider_code'' (JStr (ce_ProviderCode e)) p0 else p0);
          p2 = (if ce_Param e \<noteq> [] then put_detail ''param'' (JStr (ce_Param e)) p1 else p1)
      in if protocol = ''anthropic'' then p2\<lparr>ep_top := [(''type'', JStr ''error'')]\<rparr> else p2)"

definition addProviderErrorSemantics :: "message_ops \<Rightarrow> call_error \<Rightarrow> string \<Rightarrow> error_payload \<Rightarrow> error_payload" where
  "addProviderErrorSemantics mo e protocol p =
     (case failure_normalize mo (ce_Failure e) of
        None \<Rightarrow> p
      | Some f \<Rightarrow>
          if fl_Source f \<noteq> ''http_error'' \<and> fl_Source f \<noteq> ''stream_error'' \<or> ce_Code e = ''audit_failed_do_not_retry_blindly'' then p
          else
            (let p1 = (if fl_ProviderMessage f \<noteq> [] then
                         put_detail ''message''
                           (JStr (if ce_Category e = ProviderErrorFairUseThrottled
                                  then fl_ProviderMessage f @ '' '' @ client_error_message (ce_Category e) else fl_ProviderMessage f)) p
                       else p);
                 p2 = (if fl_ProviderCode f \<noteq> [] then
                         (let q = put_detail ''provider_code'' (JStr (fl_ProviderCode f)) p1
                          in if \<not> fl_ConfiguredCode f \<and> ce_Param e = [] \<and> StandardErrorCode (fl_ProviderCode f)
                             then put_detail ''code'' (JStr (fl_ProviderCode f))
                                    (put_detail ''gateway_code'' (case detail_at ''code'' q of None \<Rightarrow> JNull | Some c \<Rightarrow> c) q)
                             else q)
                       else p1);
                 p3 = (if \<not> fl_ConfiguredCode f \<and> protocol = ''anthropic'' \<and>
                          (fl_ProviderType f = ''overloaded_error'' \<and> ce_Category e = ProviderErrorTemporarilyUnavailable \<or>
                           fl_ProviderType f = ''request_too_large'' \<and> ce_Category e = ProviderErrorInvalidRequest)
                       then put_detail ''type'' (JStr (fl_ProviderType f)) p2 else p2)
             in if 0 < fl_ActualTokens f
                then put_detail ''limit_tokens'' (jint (fl_LimitTokens f)) (put_detail ''actual_tokens'' (jint (fl_ActualTokens f)) p3)
                else p3))"

definition addRetryAdvice :: "(time \<Rightarrow> string) \<Rightarrow> retry_advice \<Rightarrow> error_payload \<Rightarrow> error_payload" where
  "addRetryAdvice tm a p =
     put_detail ''message'' (JStr (detail_message p @ ''. '' @ retryMessage a)) (put_detail ''retry'' (advice_json tm a) p)"

definition addRequestID :: "string \<Rightarrow> error_payload \<Rightarrow> error_payload" where
  "addRequestID nonce p =
     (if nonce = [] then p
      else
        (let p1 = put_detail ''request_id'' (JStr nonce) (p\<lparr>ep_top := map_put ''request_id'' (JStr nonce) (ep_top p)\<rparr>)
         in if detail_at ''retry'' p1 \<noteq> None
            then put_detail ''message'' (JStr (detail_message p1 @ '' [request_id: '' @ nonce @ '']'')) p1 else p1))"

text \<open>The advice and the error are what \<open>prepareRetryResponse\<close> returns.\<close>

definition upstreamErrorPayload ::
  "message_ops \<Rightarrow> (time \<Rightarrow> string) \<Rightarrow> call_limits \<Rightarrow> (string \<Rightarrow> int) \<Rightarrow> prepared_retry \<Rightarrow> string \<Rightarrow> error_payload"
where
  "upstreamErrorPayload mo tm limits sessionLimit prepared protocol =
     (let e = pp_callErr prepared;
          p = (if ce_Category e = []
               then errorPayload mo limits sessionLimit (if is_availability_error (ce_Code e) then 429 else ce_Status e) (ce_Code e) protocol
                      (ce_Failure e) (ce_Param e)
               else mappedUpstreamErrorPayload mo e protocol);
          p1 = addProviderErrorSemantics mo e protocol p
      in case pp_advice prepared of None \<Rightarrow> p1 | Some a \<Rightarrow> addRetryAdvice tm a p1)"

section \<open>The answer\<close>

record http_answer =
  ha_status :: int
  ha_headers :: "(string, string) gomap"
  ha_payload :: error_payload

definition header_at :: "string \<Rightarrow> (string, string) gomap \<Rightarrow> string" where
  "header_at name hdrs = (case map_of hdrs name of None \<Rightarrow> [] | Some v \<Rightarrow> v)"

definition setRequestIDHeaders :: "string \<Rightarrow> (string, string) gomap \<Rightarrow> (string, string) gomap" where
  "setRequestIDHeaders nonce hdrs =
     map_put ''x-request-id'' nonce (map_put ''request-id'' nonce (map_put ''X-TideMux-Request-ID'' nonce hdrs))"

definition json_answer :: "int \<Rightarrow> (string, string) gomap \<Rightarrow> error_payload \<Rightarrow> http_answer" where
  "json_answer status hdrs p =
     \<lparr>ha_status = status, ha_headers = map_put ''Content-Type'' ''application/json'' hdrs,
      ha_payload = p\<rparr>"

definition fail_with ::
  "message_ops \<Rightarrow> call_limits \<Rightarrow> (string \<Rightarrow> int) \<Rightarrow> (string, string) gomap \<Rightarrow> int \<Rightarrow> string \<Rightarrow> string \<Rightarrow> failure option \<Rightarrow> string \<Rightarrow> http_answer"
where
  "fail_with mo limits sessionLimit hdrs status code protocol f field =
     json_answer status hdrs (addRequestID (header_at ''X-TideMux-Request-ID'' hdrs) (errorPayload mo limits sessionLimit status code protocol f field))"

definition upstream_fail_status :: "call_error \<Rightarrow> string \<Rightarrow> int" where
  "upstream_fail_status e protocol =
     (if is_availability_error (ce_Code e) then 429
      else if ce_Status e < 400 \<or> 599 < ce_Status e then fst (ClientError (ce_Category e) protocol) else ce_Status e)"

definition failUpstream ::
  "message_ops \<Rightarrow> (time \<Rightarrow> string) \<Rightarrow> call_limits \<Rightarrow> (string \<Rightarrow> int) \<Rightarrow> bool \<Rightarrow> (string, string) gomap \<Rightarrow> call_error \<Rightarrow> prepared_retry \<Rightarrow> string \<Rightarrow> http_answer"
where
  "failUpstream mo tm limits sessionLimit wroteHeader hdrs e prepared protocol =
     (let hdrs1 = writeRetryHeaders wroteHeader (pp_headers prepared) hdrs
      in json_answer (upstream_fail_status e protocol) hdrs1
           (addRequestID (header_at ''X-TideMux-Request-ID'' hdrs1) (upstreamErrorPayload mo tm limits sessionLimit prepared protocol)))"

definition setRetryAfterHeader :: "bool \<Rightarrow> call_error \<Rightarrow> (string, string) gomap \<Rightarrow> (string, string) gomap" where
  "setRetryAfterHeader wroteHeader e hdrs =
     (if wroteHeader then hdrs
      else if ce_RetryProvided e then map_put ''Retry-After'' ''2'' hdrs
      else if ce_Category e = ProviderErrorRateLimited then hdrs
      else if 0 < ce_RetryAfterSecs e then map_put ''Retry-After'' (show_int (min (ce_RetryAfterSecs e) 30)) hdrs
      else if 0 < ce_Cooldown e then map_put ''Retry-After'' (show_int (min (retryDelaySeconds (ce_Cooldown e)) 30)) hdrs
      else hdrs)"

text \<open>The error event of a stream that has begun.\<close>

definition stream_failure_payload :: "string \<Rightarrow> string \<Rightarrow> string \<Rightarrow> error_payload" where
  "stream_failure_payload nonce protocol code =
     (let p = addRequestID nonce (start_payload ''api_error'' code code)
      in if protocol = ''anthropic'' then p\<lparr>ep_top := map_put ''type'' (JStr ''error'') (ep_top p)\<rparr> else p)"

definition error_event :: "json_codec \<Rightarrow> error_payload \<Rightarrow> string" where
  "error_event codec p =
     ''event: error'' @ [CHR 0x0A] @ ''data: '' @ jc_show codec (payload_json p) @ [CHR 0x0A, CHR 0x0A]"

section \<open>Local rejections\<close>

record diagnostic =
  dg_ID :: string
  dg_TimestampMS :: int
  dg_Protocol :: string
  dg_Method :: string
  dg_Endpoint :: string
  dg_Status :: int
  dg_ErrorCode :: string
  dg_RoutingDecision :: "routing_decision option"

datatype diagnostic_error = InvalidIdentity | InvalidMethod | InvalidEndpoint | InvalidStatus | InvalidErrorCode | DiagnosticStorage

text \<open>\<open>hex.DecodeString\<close> of 16 bytes.\<close>

definition hex_id :: "string \<Rightarrow> bool" where
  "hex_id s \<longleftrightarrow> length s = 32 \<and> list_all (\<lambda>c. c \<in> set ''0123456789abcdefABCDEF'') s"

definition diagnostic_check :: "diagnostic \<Rightarrow> diagnostic_error option" where
  "diagnostic_check d =
     (if \<not> hex_id (dg_ID d) \<or> dg_TimestampMS d \<le> 0 \<or> dg_Protocol d \<noteq> ''openai'' \<and> dg_Protocol d \<noteq> ''anthropic'' then Some InvalidIdentity
      else if dg_Method d \<notin> {''GET'', ''POST'', ''OTHER''} then Some InvalidMethod
      else if dg_Endpoint d \<notin> {''models'', ''messages'', ''chat_completions'', ''unsupported''} then Some InvalidEndpoint
      else if dg_Status d < 400 \<or> 599 < dg_Status d \<or> length (dg_ErrorCode d) = 0 \<or> 80 < length (dg_ErrorCode d) then Some InvalidStatus
      else if \<not> list_all (\<lambda>c. CHR ''a'' \<le> c \<and> c \<le> CHR ''z'' \<or> c = CHR ''_'') (dg_ErrorCode d) then Some InvalidErrorCode
      else None)"

text \<open>The rows by identifier, the primary key.\<close>

definition AppendDiagnostic ::
  "sql_env \<Rightarrow> diagnostic \<Rightarrow> (string, diagnostic) gomap \<Rightarrow> diagnostic_error option \<times> (string, diagnostic) gomap"
where
  "AppendDiagnostic env d rows =
     (case diagnostic_check d of
        Some x \<Rightarrow> (Some x, rows)
      | None \<Rightarrow>
          if se_fails env ''diagnostic'' \<or> map_of rows (dg_ID d) \<noteq> None then (Some DiagnosticStorage, rows)
          else (None, map_put (dg_ID d) (d\<lparr>dg_RoutingDecision := decision_normalize (dg_RoutingDecision d)\<rparr>) rows))"

section \<open>reject\<close>

record reject_world =
  rj_advised :: retry_advice
  rj_nonce :: "string option"
  rj_now :: time
  rj_method :: string
  rj_path :: string
  rj_decision :: "routing_decision option"

definition reject_method :: "string \<Rightarrow> string" where
  "reject_method m = (if m \<noteq> ''GET'' \<and> m \<noteq> ''POST'' then ''OTHER'' else m)"

definition reject_endpoint :: "string \<Rightarrow> string" where
  "reject_endpoint path =
     (if path = ''/v1/messages'' then ''messages'' else if path = ''/v1/chat/completions'' then ''chat_completions''
      else if path = ''/v1/models'' \<or> path = ''/models'' then ''models'' else ''unsupported'')"

definition no_retry :: retry_headers where
  "no_retry = \<lparr>rh_ShouldRetry = ''false'', rh_RetryAfterSeconds = None, rh_RetryAfterMS = None\<rparr>"

text \<open>The status, code and advice that are answered, and the headers written on the way.\<close>

definition reject_plan ::
  "bool \<Rightarrow> bool \<Rightarrow> retry_advice \<Rightarrow> int \<Rightarrow> string \<Rightarrow> (string, string) gomap \<Rightarrow> int \<times> string \<times> retry_advice option \<times> (string, string) gomap"
where
  "reject_plan auditUnavailable wroteHeader advised status0 code0 hdrs =
     (let deny = writeRetryHeaders wroteHeader (Some no_retry);
          (status, code) =
            (if auditUnavailable \<and> (is_availability_error code0 \<or> code0 = ''auto_chain_exhausted'' \<or> code0 = ''active_session_limit'')
             then (503, ''audit_unavailable'') else (status0, code0));
          (advice, h1) = (if code = ''audit_unavailable'' then (Some manualAuditAdvice, deny hdrs) else (None, hdrs))
      in if \<not> is_availability_error code \<and> code \<noteq> ''auto_chain_exhausted'' then (status, code, advice, h1)
         else if \<not> is_availability_error code \<and> \<not> ra_hasCooldown advised then (status, code, None, h1)
         else if ra_terminalProviderBlocked advised
         then (429, if ra_terminalCategory advised \<noteq> [] then client_error_code (ra_terminalCategory advised) @ ''_cooling_down''
                    else ''provider_restriction_cooling_down'', None, deny h1)
         else (429, code, Some advised, applyRetryHeader wroteHeader advised h1))"

definition reject_request ::
  "message_ops \<Rightarrow> (time \<Rightarrow> string) \<Rightarrow> sql_env \<Rightarrow> call_limits \<Rightarrow> (string \<Rightarrow> int) \<Rightarrow> bool \<Rightarrow> bool \<Rightarrow> reject_world \<Rightarrow> string \<Rightarrow> int \<Rightarrow> string \<Rightarrow> string
     \<Rightarrow> (string, string) gomap \<Rightarrow> (string, diagnostic) gomap \<Rightarrow> http_answer \<times> (string, diagnostic) gomap"
where
  "reject_request mo tm env limits sessionLimit auditUnavailable wroteHeader w protocol status0 code0 field hdrs rows =
     (let (status, code, advice, h1) = reject_plan auditUnavailable wroteHeader (rj_advised w) status0 code0 hdrs;
          deny = writeRetryHeaders wroteHeader (Some no_retry)
      in case rj_nonce w of
           None \<Rightarrow> (fail_with mo limits sessionLimit h1 500 ''request_id_failed'' protocol None [], rows)
         | Some bytes \<Rightarrow>
             (let nonce = hex_encode bytes; h2 = setRequestIDHeaders nonce h1;
                  d = \<lparr>dg_ID = nonce, dg_TimestampMS = unix_milli (rj_now w), dg_Protocol = protocol, dg_Method = reject_method (rj_method w),
                       dg_Endpoint = reject_endpoint (rj_path w), dg_Status = status, dg_ErrorCode = code,
                       dg_RoutingDecision = decision_normalize (rj_decision w)\<rparr>
              in case AppendDiagnostic env d rows of
                   (Some x, rows1) \<Rightarrow>
                     (fail_with mo limits sessionLimit (deny h2) 500 ''local_diagnostic_failed'' protocol None [], rows1)
                 | (None, rows1) \<Rightarrow>
                     (let h3 = (if advice \<noteq> None then h2
                                else if code = ''active_session_limit'' then applyRetryHeader wroteHeader (rj_advised w) h2 else deny h2);
                          p0 = errorPayload mo limits sessionLimit status code protocol None field;
                          p1 = (case decision_normalize (rj_decision w) of None \<Rightarrow> p0 | Some dec \<Rightarrow> put_detail ''routing_decision'' (decision_json dec) p0);
                          p2 = (case advice of None \<Rightarrow> p1 | Some a \<Rightarrow> addRetryAdvice tm a p1)
                      in (json_answer status h3 (addRequestID nonce p2), rows1))))"

definition protocolForRequest :: "string \<Rightarrow> string \<Rightarrow> bool \<Rightarrow> bool \<Rightarrow> string" where
  "protocolForRequest request_method path versionHeader keyHeader =
     (let modelRoute = (request_method = ''GET'' \<and> (path = ''/v1/models'' \<or> path = ''/models'' \<or> has_prefix path ''/v1/models/'' \<or> has_prefix path ''/models/''))
      in if path = ''/v1/messages'' \<or> modelRoute \<and> (versionHeader \<or> keyHeader) then ''anthropic'' else ''openai'')"

section \<open>Every rejection is on record\<close>

lemma detail_put [simp]: "detail_at k (put_detail k' v p) = (if k = k' then Some v else detail_at k p)"
  by (simp add: detail_at_def put_detail_def go_map)

lemma detail_top [simp]: "detail_at k (p\<lparr>ep_top := t\<rparr>) = detail_at k p"
  by (simp add: detail_at_def)

lemma code_details_code: "detail_at ''code'' (snd (code_details n sl code protocol field p)) = detail_at ''code'' p"
  by (simp add: code_details_def Let_def)

lemma start_code: "detail_at ''code'' (start_payload kind message code) = Some (JStr code)"
  by (simp add: start_payload_def detail_at_def)

lemma failure_details_code: "detail_at ''code'' (addFailureDetails mo f p) = detail_at ''code'' p"
  by (simp add: addFailureDetails_def split: option.split)

lemma payload_code: "detail_at ''code'' (errorPayload mo limits sl status code protocol f field) = Some (JStr code)"
  by (simp add: errorPayload_def case_prod_unfold code_details_code failure_details_code start_code Let_def)

lemma request_id_code: "detail_at ''code'' (addRequestID nonce p) = detail_at ''code'' p"
  by (simp add: addRequestID_def Let_def)

lemma retry_advice_code: "detail_at ''code'' (addRetryAdvice tm a p) = detail_at ''code'' p"
  by (simp add: addRetryAdvice_def)

lemma reject_plan_status:
  assumes "reject_plan auditUnavailable wrote advised status0 code0 hdrs = (status, code, advice, h)"
  shows "status \<in> {status0, 503, 429}"
    and "auditUnavailable \<Longrightarrow> is_availability_error code0 \<Longrightarrow> status = 503 \<and> code = ''audit_unavailable'' \<and> advice = Some manualAuditAdvice"
proof -
  have "\<not> is_availability_error ''audit_unavailable''" by code_simp
  then show "auditUnavailable \<Longrightarrow> is_availability_error code0 \<Longrightarrow> status = 503 \<and> code = ''audit_unavailable'' \<and> advice = Some manualAuditAdvice"
    using assms by (simp add: reject_plan_def Let_def)
qed (use assms in \<open>auto simp: reject_plan_def Let_def split: if_splits\<close>)

text \<open>C35. A request the gateway rejects itself is answered with an error status, and the answer is on record: either the ledger holds a
  diagnostic row under the identifier of the answer with its very status and code, or the answer is the internal error that says that
  the record or the identifier could not be made. While the ledger refuses calls, a rejection for lack of an available route becomes
  the error that asks for a manual check.\<close>

theorem rejection_recorded:
  assumes rejected: "reject_request mo tm env limits sl auditUnavailable wrote w protocol status code field hdrs rows = (ans, rows1)"
    and status: "400 \<le> status" "status \<le> 599"
  shows "400 \<le> ha_status ans \<and> ha_status ans \<le> 599 \<and>
    (ha_status ans = 500 \<and> detail_at ''code'' (ha_payload ans) \<in> {Some (JStr ''request_id_failed''), Some (JStr ''local_diagnostic_failed'')} \<or>
     (\<exists>bytes d. rj_nonce w = Some bytes \<and> map_of rows1 (hex_encode bytes) = Some d \<and> dg_Status d = ha_status ans \<and>
        detail_at ''code'' (ha_payload ans) = Some (JStr (dg_ErrorCode d)) \<and>
        (auditUnavailable \<and> is_availability_error code \<longrightarrow> ha_status ans = 503 \<and> dg_ErrorCode d = ''audit_unavailable'')))"
proof -
  obtain st c advice h where plan: "reject_plan auditUnavailable wrote (rj_advised w) status code hdrs = (st, c, advice, h)"
    by (cases rule: prod_cases4)
  note codes = payload_code request_id_code retry_advice_code
  note spec = reject_plan_status [OF plan]
  have st: "400 \<le> st" "st \<le> 599" using spec(1) status by auto
  show ?thesis
  proof (cases "rj_nonce w")
    case None
    with rejected plan have "ans = fail_with mo limits sl h 500 ''request_id_failed'' protocol None []"
      by (simp add: reject_request_def)
    then show ?thesis by (simp add: fail_with_def json_answer_def codes)
  next
    case (Some bytes)
    let ?d = "\<lparr>dg_ID = hex_encode bytes, dg_TimestampMS = unix_milli (rj_now w), dg_Protocol = protocol, dg_Method = reject_method (rj_method w),
      dg_Endpoint = reject_endpoint (rj_path w), dg_Status = st, dg_ErrorCode = c, dg_RoutingDecision = decision_normalize (rj_decision w)\<rparr>"
    obtain x rows2 where append: "AppendDiagnostic env ?d rows = (x, rows2)" by fastforce
    show ?thesis
    proof (cases x)
      case (Some y)
      with rejected plan \<open>rj_nonce w = Some bytes\<close> append have "ha_status ans = 500"
        "detail_at ''code'' (ha_payload ans) = Some (JStr ''local_diagnostic_failed'')"
        by (auto simp: reject_request_def fail_with_def json_answer_def codes Let_def)
      then show ?thesis by simp
    next
      case None
      with append have row: "map_of rows2 (hex_encode bytes) = Some (?d\<lparr>dg_RoutingDecision := decision_normalize (decision_normalize (rj_decision w))\<rparr>)"
        by (auto simp: AppendDiagnostic_def go_map split: option.splits if_splits)
      from None rejected plan \<open>rj_nonce w = Some bytes\<close> append have "rows1 = rows2" "ha_status ans = st"
        by (auto simp: reject_request_def json_answer_def Let_def)
      moreover from None rejected plan \<open>rj_nonce w = Some bytes\<close> append have "detail_at ''code'' (ha_payload ans) = Some (JStr c)"
        by (auto simp: reject_request_def json_answer_def codes Let_def split: option.splits)
      ultimately show ?thesis using row spec(2) st \<open>rj_nonce w = Some bytes\<close> by auto
    qed
  qed
qed

definition sample_bytes :: string where
  "sample_bytes = replicate 16 (CHR 0xAB)"

definition sample_reject_world :: reject_world where
  "sample_reject_world =
     \<lparr>rj_advised = default_advice, rj_nonce = Some sample_bytes, rj_now = sample_now, rj_method = ''POST'',
      rj_path = ''/v1/chat/completions'', rj_decision = None\<rparr>"

abbreviation sample_rejection :: "http_answer \<times> (string, diagnostic) gomap" where
  "sample_rejection \<equiv> reject_request plain_ops (\<lambda>t. []) Budget.sample_env
     \<lparr>lim_StreamBytes = 0, lim_EventBytes = 0, lim_UpstreamTimeoutSeconds = 0, lim_RequestBytes = 0, lim_ResponseBytes = 0\<rparr> (\<lambda>p. 0) True False
     sample_reject_world ''openai'' 429 ''provider_keys_cooling_down'' [] [] []"

theorem rejection_recorded_witness:
  "400 \<le> ha_status (fst sample_rejection) \<and> ha_status (fst sample_rejection) \<le> 599 \<and>
   (ha_status (fst sample_rejection) = 500 \<or>
    (\<exists>d. map_of (snd sample_rejection) (hex_encode sample_bytes) = Some d \<and> dg_ErrorCode d = ''audit_unavailable''))"
proof (cases "sample_rejection")
  case (Pair ans rows1)
  have "is_availability_error ''provider_keys_cooling_down''" by code_simp
  moreover have "rj_nonce sample_reject_world = Some sample_bytes" by (simp add: sample_reject_world_def)
  ultimately have "400 \<le> ha_status ans \<and> ha_status ans \<le> 599 \<and>
      (ha_status ans = 500 \<or> (\<exists>d. map_of rows1 (hex_encode sample_bytes) = Some d \<and> dg_ErrorCode d = ''audit_unavailable''))"
    using rejection_recorded [OF Pair] by auto
  then show ?thesis unfolding Pair by simp
qed

end
