(* ===== verification/Model_Catalog.thy ===== *)
theory Model_Catalog
  imports Routing Call_Options Adapter_Content
begin

text \<open>
  The model catalogs of the providers: \<^verbatim>\<open>internal/gateway/capabilities.go\<close> and the parsing half of \<^verbatim>\<open>provider.go\<close>. A catalog is parsed
  once from the answer of \<^verbatim>\<open>GET /models\<close>; the limits it gives for a model are merged with what the operator declared.

  A body is read by the codec \<open>jc_parse\<close>. A map from a decoded object keeps its last value for a key; a slice that may be nil is an option.
  The parsing of a media type is an argument.
\<close>

section \<open>Capabilities\<close>

record capabilities =
  mc_ContextTokens :: int
  mc_MaxOutputTokens :: int

definition unknown_capabilities :: capabilities where
  "unknown_capabilities = \<lparr>mc_ContextTokens = 0, mc_MaxOutputTokens = 0\<rparr>"

definition max_capability :: int where
  "max_capability = 1000000000"

definition capabilities_validate :: "capabilities \<Rightarrow> bool" where
  "capabilities_validate c \<longleftrightarrow>
     \<not> (mc_ContextTokens c < 0 \<or> max_capability < mc_ContextTokens c \<or> mc_MaxOutputTokens c < 0 \<or> max_capability < mc_MaxOutputTokens c) \<and>
     \<not> (0 < mc_ContextTokens c \<and> mc_ContextTokens c < mc_MaxOutputTokens c)"

definition addToModel :: "capabilities \<Rightarrow> (string, json) gomap \<Rightarrow> (string, json) gomap" where
  "addToModel c model =
     (let m1 = (if 0 < mc_ContextTokens c then map_put ''context_length'' (JNum (show_int (mc_ContextTokens c))) model else model)
      in if 0 < mc_MaxOutputTokens c then map_put ''max_output_tokens'' (JNum (show_int (mc_MaxOutputTokens c))) m1 else m1)"

section \<open>Reading a catalog\<close>

fun dec_map :: "(string, json) gomap decoder" where
  "dec_map cur (JObj kvs) = Some (foldl (\<lambda>m (k, v). map_put k v m) cur kvs)"
| "dec_map cur JNull = Some []"
| "dec_map cur _ = None"

definition dec_slice :: "'a \<Rightarrow> 'a decoder \<Rightarrow> 'a list option decoder" where
  "dec_slice zero d cur j =
     (if j = JNull then Some None else map_option Some (dec_list zero d (case cur of None \<Rightarrow> [] | Some vs \<Rightarrow> vs) j))"

record catalog_item =
  ci_ID :: string
  ci_Type :: string

record catalog_envelope =
  cv_Object :: string
  cv_HasMore :: "bool option"
  cv_Data :: "catalog_item list"

definition dec_catalog_item :: "catalog_item decoder" where
  "dec_catalog_item = dec_struct (dec_all
     [dec_into ''id'' dec_string ci_ID (\<lambda>v b. b\<lparr>ci_ID := v\<rparr>),
      dec_into ''type'' dec_string ci_Type (\<lambda>v b. b\<lparr>ci_Type := v\<rparr>)])"

definition dec_catalog :: "catalog_envelope decoder" where
  "dec_catalog = dec_struct (dec_all
     [dec_into ''object'' dec_string cv_Object (\<lambda>v b. b\<lparr>cv_Object := v\<rparr>),
      dec_into ''has_more'' (dec_ptr False dec_bool) cv_HasMore (\<lambda>v b. b\<lparr>cv_HasMore := v\<rparr>),
      dec_into ''data'' (dec_list \<lparr>ci_ID = [], ci_Type = []\<rparr> dec_catalog_item) cv_Data (\<lambda>v b. b\<lparr>cv_Data := v\<rparr>)])"

definition catalog_known :: "string \<Rightarrow> catalog_envelope \<Rightarrow> bool" where
  "catalog_known protocol e =
     (if protocol = ''openai'' then cv_Object e = ''list''
      else if protocol = ''anthropic'' then cv_HasMore e \<noteq> None \<or> list_ex (\<lambda>i. ci_Type i = ''model'') (cv_Data e)
      else False)"

definition catalog_id :: "string \<Rightarrow> bool" where
  "catalog_id s \<longleftrightarrow> \<not> (s = [] \<or> 256 < length s \<or> breaks_header s)"

text \<open>\<open>None\<close>: the list is not known.\<close>

definition parseProviderModels :: "json_codec \<Rightarrow> string \<Rightarrow> string \<Rightarrow> string list option" where
  "parseProviderModels codec body protocol =
     (case dec_opt dec_catalog \<lparr>cv_Object = [], cv_HasMore = None, cv_Data = []\<rparr> (jc_parse codec body) of
        None \<Rightarrow> None
      | Some e \<Rightarrow>
          if \<not> catalog_known protocol e then None
          else if cv_HasMore e = Some True then None
          else Some (sort (remdups (filter catalog_id (map (\<lambda>i. trim_space (ci_ID i)) (cv_Data e))))))"

text \<open>The limit that the members of the list agree on, and whether they are bad.\<close>

fun token_limit :: "(string, json) gomap \<Rightarrow> int \<Rightarrow> string list \<Rightarrow> int \<times> bool" where
  "token_limit item value [] = (value, False)"
| "token_limit item value (f # fs) =
     (case map_of item f of
        None \<Rightarrow> token_limit item value fs
      | Some raw \<Rightarrow>
          if raw = JNull then token_limit item value fs
          else
            (case dec_int 0 raw of
               None \<Rightarrow> (0, True)
             | Some n \<Rightarrow>
                 if n < 0 \<or> max_capability < n then (0, True)
                 else if n = 0 then token_limit item value fs
                 else if value \<noteq> 0 \<and> value \<noteq> n then (0, True)
                 else token_limit item n fs))"

definition catalogTokenLimit :: "(string, json) gomap \<Rightarrow> string list \<Rightarrow> int \<times> bool" where
  "catalogTokenLimit item = token_limit item 0"

record provider_catalog =
  ct_models :: "string list"
  ct_known :: bool
  ct_capabilities :: "(string, capabilities) gomap"
  ct_warnings :: "string list"

definition no_catalog :: provider_catalog where
  "no_catalog = \<lparr>ct_models = [], ct_known = False, ct_capabilities = [], ct_warnings = []\<rparr>"

definition context_members :: "string \<Rightarrow> string list" where
  "context_members protocol =
     [''context_length'', ''max_model_len''] @ (if protocol = ''anthropic'' then [''max_input_tokens''] else [])"

definition output_members :: "string \<Rightarrow> string list" where
  "output_members protocol = [''max_output_tokens''] @ (if protocol = ''anthropic'' then [''max_tokens''] else [])"

text \<open>The limits one record gives, unknown when they contradict each other.\<close>

definition record_capabilities :: "string \<Rightarrow> (string, json) gomap \<Rightarrow> capabilities \<times> bool" where
  "record_capabilities protocol item =
     (let (context_tokens, contextBad) = catalogTokenLimit item (context_members protocol);
          (output_tokens, outputBad) = catalogTokenLimit item (output_members protocol);
          caps = \<lparr>mc_ContextTokens = context_tokens, mc_MaxOutputTokens = output_tokens\<rparr>
      in if capabilities_validate caps then (caps, contextBad \<or> outputBad) else (unknown_capabilities, True))"

definition record_id :: "(string, json) gomap \<Rightarrow> string option" where
  "record_id item = map_option trim_space (dec_opt dec_string [] (map_of item ''id''))"

definition catalog_step :: "string \<Rightarrow> (string, json) gomap \<Rightarrow> provider_catalog \<Rightarrow> provider_catalog" where
  "catalog_step protocol item c =
     (case record_id item of
        None \<Rightarrow> c
      | Some name \<Rightarrow>
          if name \<notin> set (ct_models c) then c
          else
            (let (caps, bad) = record_capabilities protocol item;
                 contradicted = (case map_of (ct_capabilities c) name of None \<Rightarrow> False | Some before \<Rightarrow> before \<noteq> caps);
                 caps1 = (if contradicted then unknown_capabilities else caps)
             in c\<lparr>ct_capabilities := map_put name caps1 (ct_capabilities c),
                  ct_warnings := (if bad \<or> contradicted then List.insert name (ct_warnings c) else ct_warnings c)\<rparr>))"

definition dec_records :: "(string, json) gomap list decoder" where
  "dec_records = dec_struct (dec_into ''data'' (dec_list [] dec_map) (\<lambda>v. v) (\<lambda>v b. v))"

definition parseProviderCatalog :: "json_codec \<Rightarrow> string \<Rightarrow> string \<Rightarrow> provider_catalog" where
  "parseProviderCatalog codec body protocol =
     (case parseProviderModels codec body protocol of
        None \<Rightarrow> no_catalog
      | Some models \<Rightarrow>
          (let c = no_catalog\<lparr>ct_models := models, ct_known := True\<rparr> in
           case dec_opt dec_records [] (jc_parse codec body) of
             None \<Rightarrow> c
           | Some items \<Rightarrow> fold (catalog_step protocol) items c))"

section \<open>The limits in force\<close>

definition caps_at :: "provider_catalog \<Rightarrow> string \<Rightarrow> capabilities" where
  "caps_at c model = (case map_of (ct_capabilities c) model of None \<Rightarrow> unknown_capabilities | Some caps \<Rightarrow> caps)"

definition differs :: "int \<Rightarrow> int \<Rightarrow> bool" where
  "differs declared found \<longleftrightarrow> 0 < declared \<and> 0 < found \<and> declared \<noteq> found"

definition prefer_declared :: "int \<Rightarrow> int \<Rightarrow> int" where
  "prefer_declared declared found = (if 0 < declared then declared else found)"

definition effectiveModelCapabilities ::
  "provider_config \<Rightarrow> capabilities \<Rightarrow> provider_catalog \<Rightarrow> string \<Rightarrow> capabilities \<times> bool"
where
  "effectiveModelCapabilities p declared catalog model =
     (let found = caps_at catalog (UpstreamModel p model);
          conflict = (differs (mc_ContextTokens declared) (mc_ContextTokens found) \<or>
                      differs (mc_MaxOutputTokens declared) (mc_MaxOutputTokens found));
          merged = \<lparr>mc_ContextTokens = prefer_declared (mc_ContextTokens declared) (mc_ContextTokens found),
                    mc_MaxOutputTokens = prefer_declared (mc_MaxOutputTokens declared) (mc_MaxOutputTokens found)\<rparr>
      in if capabilities_validate merged then (merged, conflict)
         else if 0 < mc_ContextTokens declared then (merged\<lparr>mc_MaxOutputTokens := 0\<rparr>, True)
         else (merged\<lparr>mc_ContextTokens := 0\<rparr>, True))"

definition providerOutputLimits :: "provider_config \<Rightarrow> capabilities \<Rightarrow> provider_catalog \<Rightarrow> (string, int) gomap" where
  "providerOutputLimits p declared catalog =
     map (\<lambda>(model, _). (model, mc_MaxOutputTokens (fst (effectiveModelCapabilities p declared catalog model)))) (ct_capabilities catalog)"

text \<open>What \<open>warnModelCapabilities\<close> logs: the error codes, in order.\<close>

definition capability_warnings :: "gw_view \<Rightarrow> string \<Rightarrow> capabilities \<Rightarrow> provider_catalog \<Rightarrow> string list" where
  "capability_warnings v provider declared catalog =
     (let (models, known) = modelsForProvider v provider;
          effective = map (effectiveModelCapabilities (provider_at v provider) declared catalog) models;
          unknown = ((\<not> known \<or> models = []) \<and> mc_ContextTokens declared = 0 \<or> list_ex (\<lambda>(caps, _). mc_ContextTokens caps = 0) effective)
      in map snd (filter fst
           [(ct_warnings catalog \<noteq> [], ''model_capabilities_invalid''), (list_ex snd effective, ''model_capabilities_conflict''),
            (unknown, ''model_capabilities_unknown'')]))"

section \<open>The protocol of an endpoint\<close>

record semantic_item =
  sm_ID :: string
  sm_Object :: string
  sm_Type :: string

record semantic_envelope =
  se_Object :: string
  se_HasMore :: "bool option"
  se_Data :: "json option list option"

definition dec_semantic_item :: "semantic_item decoder" where
  "dec_semantic_item = dec_struct (dec_all
     [dec_into ''id'' dec_string sm_ID (\<lambda>v b. b\<lparr>sm_ID := v\<rparr>),
      dec_into ''object'' dec_string sm_Object (\<lambda>v b. b\<lparr>sm_Object := v\<rparr>),
      dec_into ''type'' dec_string sm_Type (\<lambda>v b. b\<lparr>sm_Type := v\<rparr>)])"

definition dec_semantic :: "semantic_envelope decoder" where
  "dec_semantic = dec_struct (dec_all
     [dec_into ''object'' dec_string se_Object (\<lambda>v b. b\<lparr>se_Object := v\<rparr>),
      dec_into ''has_more'' (dec_ptr False dec_bool) se_HasMore (\<lambda>v b. b\<lparr>se_HasMore := v\<rparr>),
      dec_into ''data'' (dec_slice None dec_raw) se_Data (\<lambda>v b. b\<lparr>se_Data := v\<rparr>)])"

text \<open>\<open>None\<close>: some record does not decode or has no identifier.\<close>

fun semantic_items :: "json option list \<Rightarrow> semantic_item list option" where
  "semantic_items [] = Some []"
| "semantic_items (raw # raws) =
     (case dec_opt dec_semantic_item \<lparr>sm_ID = [], sm_Object = [], sm_Type = []\<rparr> raw of
        None \<Rightarrow> None
      | Some i \<Rightarrow> if sm_ID i = [] then None else map_option (Cons i) (semantic_items raws))"

definition classifyProviderModelSemantics :: "json_codec \<Rightarrow> string \<Rightarrow> bool \<times> bool" where
  "classifyProviderModelSemantics codec body =
     (case dec_opt dec_semantic \<lparr>se_Object = [], se_HasMore = None, se_Data = None\<rparr> (jc_parse codec body) of
        None \<Rightarrow> (False, False)
      | Some e \<Rightarrow>
          (case Option.bind (se_Data e) semantic_items of
             None \<Rightarrow> (False, False)
           | Some items \<Rightarrow>
               (se_Object e = ''list'' \<and> se_HasMore e = None \<and> list_all (\<lambda>i. sm_Object i = ''model'') items,
                se_HasMore e \<noteq> None \<and> list_all (\<lambda>i. sm_Type i = ''model'') items)))"

definition isJSONMediaType :: "(string \<Rightarrow> string option) \<Rightarrow> string \<Rightarrow> bool" where
  "isJSONMediaType mediaType v =
     (if trim_space v = [] then True
      else (case mediaType v of None \<Rightarrow> False | Some m \<Rightarrow> m = ''application/json'' \<or> has_suffix m ''+json''))"

record models_response =
  mr_status :: int
  mr_contentType :: string
  mr_body :: string

definition probe_accepted :: "(string \<Rightarrow> string option) \<Rightarrow> models_response \<Rightarrow> bool" where
  "probe_accepted mediaType r \<longleftrightarrow>
     \<not> (mr_status r < 200 \<or> 300 \<le> mr_status r \<or> mr_body r = [] \<or> \<not> isJSONMediaType mediaType (mr_contentType r))"

text \<open>\<open>probe auth\<close> is what \<open>requestProviderModels\<close> returns with the credentials of that protocol, \<open>None\<close> for an error.\<close>

definition detect_step ::
  "json_codec \<Rightarrow> (string \<Rightarrow> string option) \<Rightarrow> (string \<Rightarrow> models_response option) \<Rightarrow> string \<Rightarrow> (string, provider_catalog) gomap
     \<Rightarrow> (string, provider_catalog) gomap"
where
  "detect_step codec mediaType probe auth confirmed =
     (case probe auth of
        None \<Rightarrow> confirmed
      | Some r \<Rightarrow>
          if \<not> probe_accepted mediaType r then confirmed
          else
            (let (openAI, anthropic) = classifyProviderModelSemantics codec (mr_body r) in
             if openAI = anthropic then confirmed
             else
               (let protocol = (if openAI then ''openai'' else ''anthropic'')
                in map_put protocol (parseProviderCatalog codec (mr_body r) protocol) confirmed)))"

definition detectProviderCatalog ::
  "json_codec \<Rightarrow> (string \<Rightarrow> string option) \<Rightarrow> (string \<Rightarrow> models_response option) \<Rightarrow> (string \<times> provider_catalog) option"
where
  "detectProviderCatalog codec mediaType probe =
     (case fold (detect_step codec mediaType probe) [''openai'', ''anthropic''] [] of
        [(protocol, catalog)] \<Rightarrow> Some (protocol, catalog)
      | _ \<Rightarrow> None)"

text \<open>The request of a probe: the address and the headers, \<open>None\<close> for an unknown protocol. \<open>mr_body\<close> of the answer is empty unless the
  status is a success; a body above one mebibyte is an error.\<close>

definition trim_slashes :: "string \<Rightarrow> string" where
  "trim_slashes s = rev (dropWhile (\<lambda>c. c = CHR ''/'') (rev s))"

definition models_request :: "string \<Rightarrow> string \<Rightarrow> string \<Rightarrow> string \<Rightarrow> (string \<times> (string, string) gomap) option" where
  "models_request baseURL apiKey apiVersion protocol =
     (let url = trim_slashes baseURL @ ''/models'' in
      if protocol = ''openai'' then Some (url, [(''Authorization'', ''Bearer '' @ apiKey)])
      else if protocol = ''anthropic''
      then Some (url, [(''x-api-key'', apiKey), (''anthropic-version'', if apiVersion = [] then ''2023-06-01'' else apiVersion)])
      else None)"

definition models_answer :: "int \<Rightarrow> string \<Rightarrow> string option \<Rightarrow> models_response option" where
  "models_answer status contentType body =
     (if status < 200 \<or> 300 \<le> status then Some \<lparr>mr_status = status, mr_contentType = contentType, mr_body = []\<rparr>
      else (case body of
              None \<Rightarrow> None
            | Some data \<Rightarrow> if 1048576 < length data then None else Some \<lparr>mr_status = status, mr_contentType = contentType, mr_body = data\<rparr>))"

text \<open>\<open>http\<close> is the client: the status, the content type and the body (\<open>None\<close>: unreadable), or no answer.\<close>

type_synonym http_get = "string \<Rightarrow> (string, string) gomap \<Rightarrow> (int \<times> string \<times> string option) option"

definition requestProviderModels :: "http_get \<Rightarrow> string \<Rightarrow> string \<Rightarrow> string \<Rightarrow> string \<Rightarrow> models_response option" where
  "requestProviderModels http baseURL apiKey apiVersion protocol =
     (case models_request baseURL apiKey apiVersion protocol of
        None \<Rightarrow> None
      | Some (url, headers) \<Rightarrow> (case http url headers of None \<Rightarrow> None | Some (status, contentType, body) \<Rightarrow> models_answer status contentType body))"

definition discoverProviderCatalog :: "json_codec \<Rightarrow> models_response option \<Rightarrow> string \<Rightarrow> provider_catalog" where
  "discoverProviderCatalog codec answer protocol =
     (case answer of
        None \<Rightarrow> no_catalog
      | Some r \<Rightarrow>
          if mr_status r < 200 \<or> 300 \<le> mr_status r \<or> mr_body r = [] then no_catalog
          else parseProviderCatalog codec (mr_body r) protocol)"

section \<open>What a catalog gives for a model\<close>

definition agree :: "capabilities \<Rightarrow> capabilities option \<Rightarrow> capabilities option" where
  "agree caps seen = Some (case seen of None \<Rightarrow> caps | Some before \<Rightarrow> if before \<noteq> caps then unknown_capabilities else caps)"

text \<open>The limits that the records of a model give, in the order of the catalog.\<close>

definition model_records :: "json_codec \<Rightarrow> string \<Rightarrow> string \<Rightarrow> string \<Rightarrow> capabilities list" where
  "model_records codec body protocol model =
     (case (parseProviderModels codec body protocol, dec_opt dec_records [] (jc_parse codec body)) of
        (Some models, Some items) \<Rightarrow>
          if model \<in> set models
          then map (\<lambda>item. fst (record_capabilities protocol item)) (filter (\<lambda>item. record_id item = Some model) items)
          else []
      | _ \<Rightarrow> [])"

lemma catalog_step_models [simp]: "ct_models (catalog_step protocol item c) = ct_models c"
  by (simp add: catalog_step_def Let_def split: option.split prod.split)

lemma catalog_step_lookup:
  "map_of (ct_capabilities (catalog_step protocol item c)) m =
     (if record_id item = Some m \<and> m \<in> set (ct_models c)
      then agree (fst (record_capabilities protocol item)) (map_of (ct_capabilities c) m) else map_of (ct_capabilities c) m)"
  by (auto simp: catalog_step_def agree_def lookup_put case_prod_unfold Let_def split: option.split)

lemma catalog_fold_lookup:
  "map_of (ct_capabilities (fold (catalog_step protocol) items c)) m =
     (if m \<in> set (ct_models c)
      then fold agree (map (\<lambda>item. fst (record_capabilities protocol item)) (filter (\<lambda>item. record_id item = Some m) items))
             (map_of (ct_capabilities c) m)
      else map_of (ct_capabilities c) m)"
  by (induction items arbitrary: c) (simp_all add: catalog_step_lookup)

lemma agree_unknown: "fold agree cs (Some unknown_capabilities) = Some unknown_capabilities"
  by (induction cs) (auto simp: agree_def)

lemma agree_all:
  assumes "fold agree cs (Some before) = Some caps" "caps \<noteq> unknown_capabilities"
  shows "before = caps \<and> (\<forall>c \<in> set cs. c = caps)"
  using assms
proof (induction cs arbitrary: before)
  case Nil
  then show ?case by simp
next
  case (Cons c cs)
  show ?case
  proof (cases "before = c")
    case True
    with Cons show ?thesis by (simp add: agree_def)
  next
    case False
    then have "agree c (Some before) = Some unknown_capabilities" by (simp add: agree_def)
    with Cons.prems show ?thesis by (simp add: agree_unknown)
  qed
qed

lemma parsed_caps:
  "caps_at (parseProviderCatalog codec body protocol) model =
     (case fold agree (model_records codec body protocol model) None of None \<Rightarrow> unknown_capabilities | Some caps \<Rightarrow> caps)"
  by (auto simp: parseProviderCatalog_def model_records_def caps_at_def catalog_fold_lookup no_catalog_def Let_def split: option.split)

lemma caps_unanimous:
  assumes "caps_at (parseProviderCatalog codec body protocol) model = caps" "caps \<noteq> unknown_capabilities"
  shows "model_records codec body protocol model \<noteq> [] \<and> (\<forall>c \<in> set (model_records codec body protocol model). c = caps)"
proof (cases "model_records codec body protocol model")
  case Nil
  with assms show ?thesis by (simp add: parsed_caps)
next
  case (Cons c cs)
  with assms have "fold agree cs (Some c) = Some caps"
    by (cases "fold agree cs (Some c)") (auto simp: parsed_caps agree_def)
  with agree_all [OF this assms(2)] Cons show ?thesis by auto
qed

lemma unknown_valid [simp]: "capabilities_validate unknown_capabilities"
  by (simp add: capabilities_validate_def unknown_capabilities_def max_capability_def)

lemma record_valid: "capabilities_validate (fst (record_capabilities protocol item))"
  by (auto simp: record_capabilities_def Let_def split: prod.split)

lemma model_records_valid: "c \<in> set (model_records codec body protocol model) \<Longrightarrow> capabilities_validate c"
  by (auto simp: model_records_def record_valid split: option.splits if_splits)

lemma caps_valid: "capabilities_validate (caps_at (parseProviderCatalog codec body protocol) model)"
proof (cases "caps_at (parseProviderCatalog codec body protocol) model = unknown_capabilities")
  case False
  from caps_unanimous [OF refl this] have "caps_at (parseProviderCatalog codec body protocol) model \<in> set (model_records codec body protocol model)"
    by (cases "model_records codec body protocol model") simp_all
  then show ?thesis by (rule model_records_valid)
qed simp

text \<open>C39. The limits in force for a model are sound. They are within the bounds and do not contradict each other; a limit that the
  operator declared stands as declared; and a limit that was not declared is one that every record of the model in the catalog gives.\<close>

theorem effective_limits_sound:
  assumes valid: "capabilities_validate declared"
    and run: "effectiveModelCapabilities p declared (parseProviderCatalog codec body protocol) model = (caps, conflict)"
  shows "capabilities_validate caps \<and>
    (0 < mc_ContextTokens declared \<longrightarrow> mc_ContextTokens caps = mc_ContextTokens declared) \<and>
    (0 < mc_MaxOutputTokens declared \<longrightarrow> mc_MaxOutputTokens caps = mc_MaxOutputTokens declared) \<and>
    (0 < mc_ContextTokens caps \<longrightarrow> 0 < mc_ContextTokens declared \<or>
      (let rs = model_records codec body protocol (UpstreamModel p model)
       in rs \<noteq> [] \<and> (\<forall>r \<in> set rs. mc_ContextTokens r = mc_ContextTokens caps))) \<and>
    (0 < mc_MaxOutputTokens caps \<longrightarrow> 0 < mc_MaxOutputTokens declared \<or>
      (let rs = model_records codec body protocol (UpstreamModel p model)
       in rs \<noteq> [] \<and> (\<forall>r \<in> set rs. mc_MaxOutputTokens r = mc_MaxOutputTokens caps)))"
proof -
  let ?found = "caps_at (parseProviderCatalog codec body protocol) (UpstreamModel p model)"
  have found: "capabilities_validate ?found" by (rule caps_valid)
  have given: "let rs = model_records codec body protocol (UpstreamModel p model)
      in rs \<noteq> [] \<and> (\<forall>r \<in> set rs. f r = f ?found)" if "0 < f ?found" "f unknown_capabilities = 0" for f :: "capabilities \<Rightarrow> int"
  proof -
    from that have "?found \<noteq> unknown_capabilities" by auto
    from caps_unanimous [OF refl this] show ?thesis by (simp add: Let_def)
  qed
  note context_given = given [of mc_ContextTokens, simplified unknown_capabilities_def, simplified]
    and output_given = given [of mc_MaxOutputTokens, simplified unknown_capabilities_def, simplified]
  have ok: "capabilities_validate caps"
    using valid found run
    by (auto simp: effectiveModelCapabilities_def capabilities_validate_def prefer_declared_def max_capability_def Let_def split: if_splits)
  moreover have kept: "0 < mc_ContextTokens declared \<Longrightarrow> mc_ContextTokens caps = mc_ContextTokens declared"
    "0 < mc_MaxOutputTokens declared \<Longrightarrow> mc_MaxOutputTokens caps = mc_MaxOutputTokens declared"
    using valid found run
    by (auto simp: effectiveModelCapabilities_def capabilities_validate_def prefer_declared_def max_capability_def Let_def split: if_splits)
  moreover have "mc_ContextTokens caps = mc_ContextTokens ?found" if "0 < mc_ContextTokens caps" "\<not> 0 < mc_ContextTokens declared"
    using that run by (auto simp: effectiveModelCapabilities_def prefer_declared_def Let_def split: if_splits)
  moreover have "mc_MaxOutputTokens caps = mc_MaxOutputTokens ?found" if "0 < mc_MaxOutputTokens caps" "\<not> 0 < mc_MaxOutputTokens declared"
    using that run by (auto simp: effectiveModelCapabilities_def prefer_declared_def Let_def split: if_splits)
  ultimately show ?thesis using context_given output_given by (intro conjI impI) (simp, simp, simp, force, force)
qed

section \<open>The detected protocol\<close>

lemma never_both: "classifyProviderModelSemantics codec body \<noteq> (True, True)"
  by (auto simp: classifyProviderModelSemantics_def split: option.split)

definition confirms ::
  "json_codec \<Rightarrow> (string \<Rightarrow> string option) \<Rightarrow> (string \<Rightarrow> models_response option) \<Rightarrow> string \<Rightarrow> string \<Rightarrow> models_response \<Rightarrow> bool"
where
  "confirms codec mediaType probe auth protocol r \<longleftrightarrow>
     probe auth = Some r \<and> probe_accepted mediaType r \<and>
     classifyProviderModelSemantics codec (mr_body r) = (protocol = ''openai'', protocol = ''anthropic'')"

lemma detect_step_spec:
  "detect_step codec mediaType probe auth confirmed = confirmed \<and>
     (\<forall>p r. p \<in> {''openai'', ''anthropic''} \<longrightarrow> \<not> confirms codec mediaType probe auth p r) \<or>
   (\<exists>p r. p \<in> {''openai'', ''anthropic''} \<and> confirms codec mediaType probe auth p r \<and>
     detect_step codec mediaType probe auth confirmed = map_put p (parseProviderCatalog codec (mr_body r) p) confirmed \<and>
     (\<forall>q r1. q \<in> {''openai'', ''anthropic''} \<longrightarrow> confirms codec mediaType probe auth q r1 \<longrightarrow> q = p))"
proof (cases "probe auth")
  case None
  then show ?thesis by (simp add: detect_step_def confirms_def)
next
  case (Some r)
  obtain oa an where cl: "classifyProviderModelSemantics codec (mr_body r) = (oa, an)" by fastforce
  show ?thesis
  proof (cases "probe_accepted mediaType r \<and> oa \<noteq> an")
    case False
    with Some cl have "detect_step codec mediaType probe auth confirmed = confirmed" by (auto simp: detect_step_def)
    moreover have "\<not> confirms codec mediaType probe auth p r1" if "p \<in> {''openai'', ''anthropic''}" for p r1
      using that False Some cl by (auto simp: confirms_def)
    ultimately show ?thesis by blast
  next
    case True
    let ?p = "if oa then ''openai'' else ''anthropic''"
    from True Some cl have "confirms codec mediaType probe auth ?p r"
      "detect_step codec mediaType probe auth confirmed = map_put ?p (parseProviderCatalog codec (mr_body r) ?p) confirmed"
      "\<forall>q r1. q \<in> {''openai'', ''anthropic''} \<longrightarrow> confirms codec mediaType probe auth q r1 \<longrightarrow> q = ?p"
      by (auto simp: detect_step_def confirms_def Let_def)
    then show ?thesis by (intro disjI2 exI [of _ ?p] exI [of _ r]) simp
  qed
qed

text \<open>C40. A protocol is detected only from one-sided evidence. The protocol is one of the two; some probe got a successful JSON answer
  that is a model list of this protocol and not of the other, and the catalog is the one of such an answer; and no accepted answer is a
  model list of the other protocol.\<close>

theorem detected_protocol_sound:
  assumes run: "detectProviderCatalog codec mediaType probe = Some (protocol, catalog)"
  shows "protocol \<in> {''openai'', ''anthropic''} \<and>
    (\<exists>auth r. auth \<in> {''openai'', ''anthropic''} \<and> confirms codec mediaType probe auth protocol r \<and>
      catalog = parseProviderCatalog codec (mr_body r) protocol) \<and>
    (\<forall>auth r other. auth \<in> {''openai'', ''anthropic''} \<longrightarrow> other \<in> {''openai'', ''anthropic''} \<longrightarrow>
      confirms codec mediaType probe auth other r \<longrightarrow> other = protocol)"
proof -
  let ?C = "confirms codec mediaType probe" and ?P = "{''openai'', ''anthropic''}" and ?cat = "\<lambda>r p. parseProviderCatalog codec (mr_body r) p"
  let ?m1 = "detect_step codec mediaType probe ''openai'' []"
  let ?m2 = "detect_step codec mediaType probe ''anthropic'' ?m1"
  from run have single: "?m2 = [(protocol, catalog)]"
    by (auto simp: detectProviderCatalog_def split: list.splits prod.splits)
  have goal: ?thesis if "a \<in> ?P" "?C a protocol r" "protocol \<in> ?P" "catalog = ?cat r protocol"
    "\<forall>q r1. q \<in> ?P \<longrightarrow> ?C ''openai'' q r1 \<longrightarrow> q = protocol" "\<forall>q r1. q \<in> ?P \<longrightarrow> ?C ''anthropic'' q r1 \<longrightarrow> q = protocol" for a r
    using that by blast
  from detect_step_spec [of codec mediaType probe "''openai''" "[]"] show ?thesis
  proof (elim disjE conjE exE)
    assume first: "?m1 = []" and none: "\<forall>p r. p \<in> ?P \<longrightarrow> \<not> ?C ''openai'' p r"
    from detect_step_spec [of codec mediaType probe "''anthropic''" ?m1] show ?thesis
    proof (elim disjE conjE exE)
      fix p r assume p: "p \<in> ?P" "?C ''anthropic'' p r" "?m2 = map_put p (?cat r p) ?m1"
        and only: "\<forall>q r1. q \<in> ?P \<longrightarrow> ?C ''anthropic'' q r1 \<longrightarrow> q = p"
      from p(3) first single have "p = protocol" "catalog = ?cat r p" by (auto simp: map_put_def)
      with p only none show ?thesis by (intro goal [of "''anthropic''" r]) simp_all
    qed (use first single in simp)
  next
    fix p r assume p: "p \<in> ?P" "?C ''openai'' p r" "?m1 = map_put p (?cat r p) []"
      and only: "\<forall>q r1. q \<in> ?P \<longrightarrow> ?C ''openai'' q r1 \<longrightarrow> q = p"
    from detect_step_spec [of codec mediaType probe "''anthropic''" ?m1] show ?thesis
    proof (elim disjE conjE exE)
      assume same: "?m2 = ?m1" and none: "\<forall>p r. p \<in> ?P \<longrightarrow> \<not> ?C ''anthropic'' p r"
      from p(3) same single have "p = protocol" "catalog = ?cat r p" by (auto simp: map_put_def)
      with p only none show ?thesis by (intro goal [of "''openai''" r]) simp_all
    next
      fix q r2 assume q: "q \<in> ?P" "?C ''anthropic'' q r2" "?m2 = map_put q (?cat r2 q) ?m1"
        and only2: "\<forall>q1 r1. q1 \<in> ?P \<longrightarrow> ?C ''anthropic'' q1 r1 \<longrightarrow> q1 = q"
      from q(3) p(3) single have "q = protocol" "p = protocol" "catalog = ?cat r2 q" by (auto simp: map_put_def split: if_splits)
      with q only only2 show ?thesis by (intro goal [of "''anthropic''" r2]) simp_all
    qed
  qed
qed

section \<open>Witnesses\<close>

text \<open>A codec that reads the text \<^verbatim>\<open>c\<close> as a catalog of one model, given twice, once without an output limit.\<close>

definition sample_catalog_json :: json where
  "sample_catalog_json =
     JObj [(''object'', JStr ''list''),
       (''data'', JArr [JObj [(''id'', JStr ''m''), (''object'', JStr ''model''), (''context_length'', JNum ''8192'')],
                        JObj [(''id'', JStr '' m ''), (''object'', JStr ''model''), (''max_model_len'', JNum ''8192'')]])]"

definition sample_catalog_codec :: json_codec where
  "sample_catalog_codec = \<lparr>jc_parse = (\<lambda>s. if s = ''c'' then Some sample_catalog_json else None), jc_show = (\<lambda>j. []), jc_any = (\<lambda>j. j), jc_raw = (\<lambda>j. [])\<rparr>"

definition sample_declared :: capabilities where
  "sample_declared = \<lparr>mc_ContextTokens = 0, mc_MaxOutputTokens = 9000\<rparr>"

text \<open>A declared output limit above the catalog's context: the context becomes unknown.\<close>

lemma sample_effective:
  "effectiveModelCapabilities zero_provider sample_declared (parseProviderCatalog sample_catalog_codec ''c'' ''openai'') ''m'' =
     (\<lparr>mc_ContextTokens = 0, mc_MaxOutputTokens = 9000\<rparr>, True)"
  by code_simp

theorem effective_limits_sound_witness:
  "let caps = fst (effectiveModelCapabilities zero_provider sample_declared (parseProviderCatalog sample_catalog_codec ''c'' ''openai'') ''m'')
   in capabilities_validate caps \<and> mc_MaxOutputTokens caps = mc_MaxOutputTokens sample_declared"
proof -
  have "capabilities_validate sample_declared" "0 < mc_MaxOutputTokens sample_declared" by code_simp+
  with effective_limits_sound [OF this(1) sample_effective] show ?thesis by (simp add: sample_effective Let_def)
qed

definition sample_probe :: "string \<Rightarrow> models_response option" where
  "sample_probe auth =
     (if auth = ''openai'' then Some \<lparr>mr_status = 200, mr_contentType = [], mr_body = ''c''\<rparr>
      else Some \<lparr>mr_status = 401, mr_contentType = [], mr_body = []\<rparr>)"

theorem detected_protocol_sound_witness:
  "\<exists>catalog. detectProviderCatalog sample_catalog_codec (\<lambda>s. None) sample_probe = Some (''openai'', catalog) \<and>
     ct_models catalog = [''m'']"
proof -
  let ?catalog = "parseProviderCatalog sample_catalog_codec ''c'' ''openai''"
  have found: "detectProviderCatalog sample_catalog_codec (\<lambda>s. None) sample_probe = Some (''openai'', ?catalog)"
    by code_simp
  from detected_protocol_sound [OF found] have "''openai'' \<in> {''openai'', ''anthropic''}" by blast
  moreover have "ct_models ?catalog = [''m'']" by code_simp
  ultimately show ?thesis using found by blast
qed

end
