(* ===== verification/Gateway_Config.thy ===== *)
theory Gateway_Config
  imports Model_Catalog Budget
begin

text \<open>
  The configuration of the gateway: \<^verbatim>\<open>internal/gateway/config.go\<close>, the validators of \<^verbatim>\<open>reconciliation.go\<close>, \<^verbatim>\<open>report_schedule.go\<close> and
  \<^verbatim>\<open>internal/contentlog/content.go\<close>, the resolution of the providers of \<^verbatim>\<open>provider.go\<close> and the checks with which \<open>NewHandler\<close> of
  \<^verbatim>\<open>gateway_server.go\<close> begins.

  A provider profile extends the part of it that routing reads (\<open>provider_config\<close>). Loops over the map of providers run in the order of the
  list: which of several errors is reported depends on it, as in the code. An error is the constructor of the check that failed, in the order
  of the checks; the wording is left out. URLs, IP addresses and host/port pairs are taken apart by \<open>config_ops\<close>.
\<close>

section \<open>Checks in order\<close>

fun first_error :: "(bool \<times> 'e) list \<Rightarrow> 'e option" where
  "first_error [] = None"
| "first_error ((failed, e) # checks) = (if failed then Some e else first_error checks)"

fun find_error :: "('a \<Rightarrow> 'e option) \<Rightarrow> 'a list \<Rightarrow> 'e option" where
  "find_error f [] = None"
| "find_error f (x # xs) = (case f x of None \<Rightarrow> find_error f xs | Some e \<Rightarrow> Some e)"

lemma first_error_None: "first_error checks = None \<longleftrightarrow> list_all (\<lambda>(failed, e). \<not> failed) checks"
  by (induction checks rule: first_error.induct) auto

declare first_error.simps [simp del]

lemma both_None: "(case x of None \<Rightarrow> y | Some e \<Rightarrow> Some e) = None \<longleftrightarrow> x = None \<and> y = None"
  by (cases x) simp_all

lemma find_error_None: "find_error f xs = None \<longleftrightarrow> (\<forall>x \<in> set xs. f x = None)"
  by (induction xs) (auto split: option.split)

section \<open>Dates and times of day\<close>

definition all_digits :: "string \<Rightarrow> bool" where
  "all_digits s \<longleftrightarrow> list_all is_digit s"

definition number_of :: "string \<Rightarrow> int" where
  "number_of s = foldl (\<lambda>n c. 10 * n + (of_char c - 48)) 0 s"

definition leap_year :: "int \<Rightarrow> bool" where
  "leap_year y \<longleftrightarrow> y mod 4 = 0 \<and> (y mod 100 \<noteq> 0 \<or> y mod 400 = 0)"

definition days_in :: "int \<Rightarrow> int \<Rightarrow> int" where
  "days_in month year = (if month = 2 then (if leap_year year then 29 else 28) else if month \<in> {4, 6, 9, 11} then 30 else 31)"

text \<open>\<open>time.Parse("2006-01-02", s)\<close> succeeds.\<close>

definition date_ok :: "string \<Rightarrow> bool" where
  "date_ok s \<longleftrightarrow>
     length s = 10 \<and> s ! 4 = CHR ''-'' \<and> s ! 7 = CHR ''-'' \<and>
     all_digits (take 4 s) \<and> all_digits (take 2 (drop 5 s)) \<and> all_digits (drop 8 s) \<and>
     (let year = number_of (take 4 s); month = number_of (take 2 (drop 5 s)); day = number_of (drop 8 s)
      in 1 \<le> month \<and> month \<le> 12 \<and> 1 \<le> day \<and> day \<le> days_in month year)"

text \<open>\<open>time.Parse("15:04", s)\<close> of five characters with digits around the colon; formatting gives them back.\<close>

definition NormalizeReportScheduleTime :: "string \<Rightarrow> string option" where
  "NormalizeReportScheduleTime v =
     (let s = trim_space v in
      if length s \<noteq> 5 \<or> s ! 2 \<noteq> CHR '':'' \<or> \<not> all_digits (take 2 s) \<or> \<not> all_digits (drop 3 s) then None
      else if number_of (take 2 s) < 24 \<and> number_of (drop 3 s) < 60 then Some s else None)"

section \<open>Data\<close>

record url_parts =
  up_Scheme :: string
  up_Host :: string
  up_Hostname :: string
  up_hasUser :: bool
  up_RawQuery :: string
  up_Fragment :: string
  up_Opaque :: string

text \<open>\<open>co_ip\<close>: whether the address is a loopback address, \<open>None\<close> when the text is no IP address.\<close>

record config_ops =
  co_text :: text_ops
  co_url :: "string \<Rightarrow> url_parts option"
  co_ip :: "string \<Rightarrow> bool option"
  co_hostport :: "string \<Rightarrow> (string \<times> string) option"

record keychain_reference =
  kr_Service :: string
  kr_Account :: string

definition no_reference :: keychain_reference where
  "no_reference = \<lparr>kr_Service = [], kr_Account = []\<rparr>"

record provider_profile = provider_config +
  pf_Protocol :: string
  pf_UpstreamKeychain :: keychain_reference
  pf_UpstreamKeychains :: "keychain_reference list"
  pf_APIVersion :: string
  pf_UpstreamID :: string
  pf_ModelCapabilities :: capabilities
  pf_ErrorCodeMappings :: "error_mapping list"
  pf_ForwardErrorMessages :: "bool option"
  pf_Budget :: "budget_policy option"
  pf_MaxActiveSessions :: int
  pf_APIKey :: string
  pf_APIKeys :: "string list"

record content_config =
  oc_Enabled :: bool
  oc_Directory :: string
  oc_FileBytes :: int
  oc_DirectoryBytes :: int
  oc_QueueEvents :: int

record report_webhook =
  wb_Provider :: string
  wb_Keychain :: keychain_reference

record routing_config =
  rc_SharedModelStrategy :: string
  rc_ProviderSwitchThreshold :: "int option"

record config =
  gc_ContentOutput :: content_config
  gc_HealthDiagnostics :: "bool option"
  gc_StatementDir :: string
  gc_PollIntervalSeconds :: int
  gc_ReportTime :: string
  gc_ReportChannel :: string
  gc_ReportWebhook :: report_webhook
  gc_ModelCapabilities :: capabilities
  gc_Limits :: call_limits
  gc_ListenAddr :: string
  gc_Protocol :: string
  gc_BaseURL :: string
  gc_ForwardErrorMessages :: "bool option"
  gc_Providers :: "(string, provider_profile) gomap"
  gc_Routing :: "routing_config option"
  gc_AutoChain :: "auto_chain_entry list"
  gc_Model :: string
  gc_UpstreamID :: string
  gc_APIVersion :: string
  gc_UpstreamKeychain :: keychain_reference
  gc_AccessTokenKeychain :: keychain_reference
  gc_MaxInFlight :: int
  gc_IdleTimeoutSeconds :: int
  gc_LedgerPath :: string
  gc_Prices :: "(string, price) gomap"
  gc_APIKey :: string
  gc_AccessToken :: string

definition EffectiveRouting :: "config \<Rightarrow> routing_config" where
  "EffectiveRouting c =
     (case gc_Routing c of None \<Rightarrow> \<lparr>rc_SharedModelStrategy = [], rc_ProviderSwitchThreshold = None\<rparr> | Some r \<Rightarrow> r)"

text \<open>The configuration as routing sees it, before any provider is connected.\<close>

definition config_view :: "config \<Rightarrow> gw_view" where
  "config_view c =
     \<lparr>gv_providers = map_vals (\<lambda>name. provider_config.truncate) (gc_Providers c), gv_unavailable = [], gv_clients = [], gv_pools = [],
      gv_models = [], gv_modelsKnown = [], gv_generations = [], gv_reused = [], gv_epoch = 0, gv_AutoChain = gc_AutoChain c,
      gv_strategy = rc_SharedModelStrategy (EffectiveRouting c), gv_switchThreshold = rc_ProviderSwitchThreshold (EffectiveRouting c)\<rparr>"

section \<open>Parts\<close>

text \<open>\<open>normalizeProviderProtocol\<close>\<close>

definition provider_protocol :: "config_ops \<Rightarrow> string \<Rightarrow> string" where
  "provider_protocol ops v = tx_lower (co_text ops) (trim_space v)"

definition reference_ok :: "keychain_reference \<Rightarrow> bool" where
  "reference_ok r \<longleftrightarrow> \<not> (trim_space (kr_Service r) = [] \<or> trim_space (kr_Account r) = [])"

definition credentialReferenceEmpty :: "keychain_reference \<Rightarrow> bool" where
  "credentialReferenceEmpty r \<longleftrightarrow> kr_Service r = [] \<and> kr_Account r = []"

fun distinct_references :: "keychain_reference list \<Rightarrow> keychain_reference list \<Rightarrow> bool" where
  "distinct_references seen [] = True"
| "distinct_references seen (r # rs) = (reference_ok r \<and> r \<notin> set seen \<and> distinct_references (r # seen) rs)"

definition KeychainReferences :: "provider_profile \<Rightarrow> keychain_reference list option" where
  "KeychainReferences p =
     (let legacy = \<not> credentialReferenceEmpty (pf_UpstreamKeychain p);
          refs = (if legacy then [pf_UpstreamKeychain p] else pf_UpstreamKeychains p)
      in if legacy \<and> pf_UpstreamKeychains p \<noteq> [] then None
         else if refs = [] \<or> 128 < length refs then None
         else if distinct_references [] refs then Some refs else None)"

definition ResolvedAPIKeys :: "provider_profile \<Rightarrow> string list" where
  "ResolvedAPIKeys p = (if pf_APIKeys p \<noteq> [] then pf_APIKeys p else if pf_APIKey p \<noteq> [] then [pf_APIKey p] else [])"

definition name_char :: "char \<Rightarrow> bool" where
  "name_char c \<longleftrightarrow> is_alnum c \<or> c \<in> {CHR ''.'', CHR ''_'', CHR ''-''}"

definition validProviderName :: "string \<Rightarrow> bool" where
  "validProviderName name \<longleftrightarrow> \<not> (name = [] \<or> name \<noteq> trim_space name \<or> 80 < length name) \<and> list_all name_char name"

definition base_url_ok :: "config_ops \<Rightarrow> string \<Rightarrow> bool" where
  "base_url_ok ops v \<longleftrightarrow>
     (case co_url ops v of
        None \<Rightarrow> False
      | Some u \<Rightarrow>
          \<not> (up_Host u = [] \<or> up_hasUser u \<or> up_RawQuery u \<noteq> [] \<or> up_Fragment u \<noteq> [] \<or> up_Opaque u \<noteq> []) \<and>
          (up_Scheme u \<noteq> ''https'' \<longrightarrow> up_Scheme u = ''http'' \<and> co_ip ops (up_Hostname u) = Some True))"

definition prices_ok :: "text_ops \<Rightarrow> (string, price) gomap \<Rightarrow> bool" where
  "prices_ok tx prices \<longleftrightarrow> list_all (\<lambda>(model, p). trim_space model \<noteq> [] \<and> price_validate tx p) prices"

definition label_ok :: "string \<Rightarrow> bool" where
  "label_ok v \<longleftrightarrow>
     \<not> (80 < length v \<or> list_ex (\<lambda>c. c \<in> {CHR '' '', CHR ''/'', CHR '':'', CHR ''@'', CHR ''?'', CHR 0x0D, CHR 0x0A}) v)"

definition content_effective :: "content_config \<Rightarrow> content_config" where
  "content_effective c =
     c\<lparr>oc_FileBytes := or_default (oc_FileBytes c) (8 * 1048576), oc_DirectoryBytes := or_default (oc_DirectoryBytes c) (256 * 1048576),
       oc_QueueEvents := or_default (oc_QueueEvents c) 256\<rparr>"

definition content_validate :: "content_config \<Rightarrow> bool" where
  "content_validate c \<longleftrightarrow>
     c = \<lparr>oc_Enabled = False, oc_Directory = [], oc_FileBytes = 0, oc_DirectoryBytes = 0, oc_QueueEvents = 0\<rparr> \<or>
     (let e = content_effective c
      in \<not> (\<not> has_prefix (oc_Directory e) ''/'' \<or> oc_FileBytes e < 65536 \<or> oc_DirectoryBytes e < oc_FileBytes e \<or>
            oc_QueueEvents e < 1 \<or> 4096 < oc_QueueEvents e))"

definition reconciliation_validate :: "config \<Rightarrow> bool" where
  "reconciliation_validate c \<longleftrightarrow>
     \<not> (gc_StatementDir c \<noteq> [] \<and> (\<not> has_prefix (gc_StatementDir c) ''/'' \<or> trim_space (gc_StatementDir c) = [])) \<and>
     \<not> (gc_PollIntervalSeconds c < 0 \<or> 86400 < gc_PollIntervalSeconds c)"

definition schedule_validate :: "config \<Rightarrow> bool" where
  "schedule_validate c \<longleftrightarrow>
     gc_ReportTime c = [] \<and> gc_ReportChannel c = [] \<or>
     trim_space (gc_ReportTime c) \<noteq> [] \<and> NormalizeReportScheduleTime (gc_ReportTime c) \<noteq> None \<and>
     gc_ReportChannel c \<in> {[], ''macos'', ''webhook''}"

definition no_webhook :: report_webhook where
  "no_webhook = \<lparr>wb_Provider = [], wb_Keychain = no_reference\<rparr>"

definition webhook_validate :: "report_webhook \<Rightarrow> bool" where
  "webhook_validate w \<longleftrightarrow>
     w = no_webhook \<or> wb_Provider w \<in> {''generic'', ''telegram'', ''discord'', ''lark''} \<and> reference_ok (wb_Keychain w)"

section \<open>Validation\<close>

datatype profile_error =
    ProviderName | ProviderSessions | ProviderProtocol | ProviderURL | ProviderKeychains | ModelEmpty | ModelDuplicate | ProviderAliases
  | VersionNotForOpenAI | VersionFormat | ProviderThresholds | ProviderCapabilities | ProviderMappings | ProviderPrices | ProviderBudget

datatype config_error =
    ContentOutputInvalid | ErrorMessagesMisplaced | ReconciliationInvalid | ScheduleInvalid | WebhookInvalid | RoutingInvalid | WebhookMissing
  | LimitsInvalid | ListenAddrFormat | ListenAddrNotLocal | CapabilitiesInvalid | LegacyIncomplete | BaseURLInvalid | ProtocolInvalid
  | UpstreamKeychainInvalid | VersionInvalid | UpstreamIDMissing | LegacyAndProviders | TooManyProviders | InProvider string profile_error
  | UpstreamIDInvalid | ProviderUpstreamID string | InFlightInvalid | IdleTimeoutInvalid | LedgerPathMissing | TokenKeychainInvalid
  | PricesInvalid | AutoChainInvalid

fun supported_models_error :: "string list \<Rightarrow> string list \<Rightarrow> profile_error option" where
  "supported_models_error seen [] = None"
| "supported_models_error seen (m # ms) =
     (if trim_space m = [] \<or> m \<noteq> trim_space m then Some ModelEmpty
      else if m \<in> set seen then Some ModelDuplicate
      else supported_models_error (m # seen) ms)"

definition known_protocol :: "string \<Rightarrow> bool" where
  "known_protocol p \<longleftrightarrow> p \<in> {[], ''auto'', ''openai'', ''anthropic''}"

text \<open>One round of the loop over the providers.\<close>

definition provider_error :: "config_ops \<Rightarrow> string \<Rightarrow> provider_profile \<Rightarrow> profile_error option" where
  "provider_error ops name p =
     (let protocol = provider_protocol ops (pf_Protocol p) in
      case first_error
        [(\<not> validProviderName name, ProviderName), (pf_MaxActiveSessions p < 0 \<or> 4096 < pf_MaxActiveSessions p, ProviderSessions),
         (\<not> known_protocol protocol, ProviderProtocol), (\<not> base_url_ok ops (pv_BaseURL p), ProviderURL),
         (KeychainReferences p = None, ProviderKeychains)] of
        Some e \<Rightarrow> Some e
      | None \<Rightarrow>
          (case supported_models_error [] (pv_SupportedModels p) of
             Some e \<Rightarrow> Some e
           | None \<Rightarrow> first_error
               [(\<not> validateModelAliases (provider_config.truncate p), ProviderAliases),
                (protocol = ''openai'' \<and> pf_APIVersion p \<noteq> [], VersionNotForOpenAI),
                ((protocol = ''anthropic'' \<or> protocol = ''auto'') \<and> pf_APIVersion p \<noteq> [] \<and> \<not> date_ok (pf_APIVersion p), VersionFormat),
                (\<not> validateSwitchThresholds (provider_config.truncate p), ProviderThresholds),
                (\<not> capabilities_validate (pf_ModelCapabilities p), ProviderCapabilities),
                (ValidateProviderErrorMappings (pf_ErrorCodeMappings p) \<noteq> None, ProviderMappings),
                (\<not> prices_ok (co_text ops) (pv_Prices p), ProviderPrices),
                (case pf_Budget p of None \<Rightarrow> False | Some b \<Rightarrow> \<not> policy_is_zero b \<and> \<not> policy_validate (co_text ops) b, ProviderBudget)]))"

lemma provider_error_None:
  "provider_error ops name p = None \<longleftrightarrow>
     validProviderName name \<and> \<not> (pf_MaxActiveSessions p < 0 \<or> 4096 < pf_MaxActiveSessions p) \<and>
     known_protocol (provider_protocol ops (pf_Protocol p)) \<and> base_url_ok ops (pv_BaseURL p) \<and> KeychainReferences p \<noteq> None \<and>
     supported_models_error [] (pv_SupportedModels p) = None \<and> validateModelAliases (provider_config.truncate p) \<and>
     \<not> (provider_protocol ops (pf_Protocol p) = ''openai'' \<and> pf_APIVersion p \<noteq> []) \<and>
     \<not> (provider_protocol ops (pf_Protocol p) \<in> {''anthropic'', ''auto''} \<and> pf_APIVersion p \<noteq> [] \<and> \<not> date_ok (pf_APIVersion p)) \<and>
     validateSwitchThresholds (provider_config.truncate p) \<and> capabilities_validate (pf_ModelCapabilities p) \<and>
     ValidateProviderErrorMappings (pf_ErrorCodeMappings p) = None \<and> prices_ok (co_text ops) (pv_Prices p) \<and>
     (case pf_Budget p of None \<Rightarrow> True | Some b \<Rightarrow> policy_is_zero b \<or> policy_validate (co_text ops) b)"
  by (simp add: provider_error_def both_None first_error_None Let_def) (auto split: option.split)

definition legacy_error :: "config_ops \<Rightarrow> config \<Rightarrow> config_error option" where
  "legacy_error ops c =
     (if gc_BaseURL c = []
      then (if gc_Protocol c \<noteq> [] \<or> gc_APIVersion c \<noteq> [] \<or> \<not> credentialReferenceEmpty (gc_UpstreamKeychain c) \<or> gc_Model c \<noteq> [] \<or>
               gc_UpstreamID c \<noteq> [] \<or> gc_ModelCapabilities c \<noteq> unknown_capabilities \<or> gc_Prices c \<noteq> [] \<or> gc_APIKey c \<noteq> []
            then Some LegacyIncomplete else None)
      else
        (let protocol = provider_protocol ops (gc_Protocol c)
         in first_error
              [(\<not> base_url_ok ops (gc_BaseURL c), BaseURLInvalid), (\<not> known_protocol protocol, ProtocolInvalid),
               (\<not> reference_ok (gc_UpstreamKeychain c), UpstreamKeychainInvalid),
               (protocol = ''anthropic'' \<and> \<not> date_ok (gc_APIVersion c), VersionInvalid), (trim_space (gc_UpstreamID c) = [], UpstreamIDMissing)]))"

definition named_error :: "config_ops \<Rightarrow> config \<Rightarrow> config_error option" where
  "named_error ops c =
     (case first_error
        [(gc_BaseURL c \<noteq> [] \<or> gc_Protocol c \<noteq> [] \<or> gc_APIVersion c \<noteq> [] \<or> gc_UpstreamKeychain c \<noteq> no_reference \<or> gc_Model c \<noteq> [] \<or>
          gc_UpstreamID c \<noteq> [] \<or> gc_ModelCapabilities c \<noteq> unknown_capabilities \<or> gc_Prices c \<noteq> [] \<or> gc_APIKey c \<noteq> [], LegacyAndProviders),
         (128 < length (gc_Providers c), TooManyProviders)] of
        Some e \<Rightarrow> Some e
      | None \<Rightarrow> find_error (\<lambda>(name, p). map_option (InProvider name) (provider_error ops name p)) (gc_Providers c))"

definition listen_error :: "config_ops \<Rightarrow> string \<Rightarrow> config_error option" where
  "listen_error ops addr =
     (case co_hostport ops addr of
        None \<Rightarrow> Some ListenAddrFormat
      | Some (host, port) \<Rightarrow>
          if port = [] then Some ListenAddrFormat
          else (case co_ip ops host of
                  None \<Rightarrow> Some ListenAddrFormat
                | Some loopback \<Rightarrow> if \<not> loopback \<and> host \<noteq> ''0.0.0.0'' then Some ListenAddrNotLocal else None))"

fun in_turn :: "'e option list \<Rightarrow> 'e option" where
  "in_turn [] = None"
| "in_turn (e # es) = (case e of None \<Rightarrow> in_turn es | Some x \<Rightarrow> Some x)"

lemma in_turn_None: "in_turn es = None \<longleftrightarrow> (\<forall>e \<in> set es. e = None)"
  by (induction es) (auto split: option.split)

declare in_turn.simps [simp del]

definition settings_error :: "config \<Rightarrow> config_error option" where
  "settings_error c =
     first_error
       [(\<not> content_validate (gc_ContentOutput c), ContentOutputInvalid),
        (gc_Providers c \<noteq> [] \<and> gc_ForwardErrorMessages c \<noteq> None, ErrorMessagesMisplaced),
        (\<not> reconciliation_validate c, ReconciliationInvalid), (\<not> schedule_validate c, ScheduleInvalid),
        (\<not> webhook_validate (gc_ReportWebhook c), WebhookInvalid),
        (gc_Routing c \<noteq> None \<and> \<not> routing_validate (config_view c), RoutingInvalid),
        (gc_ReportChannel c = ''webhook'' \<and> gc_ReportWebhook c = no_webhook, WebhookMissing),
        (\<not> limits_validate (gc_Limits c), LimitsInvalid)]"

definition label_error :: "config \<Rightarrow> config_error option" where
  "label_error c =
     (if gc_Providers c = [] \<and> \<not> label_ok (gc_UpstreamID c) then Some UpstreamIDInvalid
      else find_error (\<lambda>(name, p). if label_ok (pf_UpstreamID p) then None else Some (ProviderUpstreamID name)) (gc_Providers c))"

definition service_error :: "config_ops \<Rightarrow> config \<Rightarrow> config_error option" where
  "service_error ops c =
     first_error
       [(gc_MaxInFlight c < 0 \<or> 1024 < gc_MaxInFlight c, InFlightInvalid),
        (gc_IdleTimeoutSeconds c < 0 \<or> 86400 < gc_IdleTimeoutSeconds c, IdleTimeoutInvalid),
        (trim_space (gc_LedgerPath c) = [], LedgerPathMissing), (\<not> reference_ok (gc_AccessTokenKeychain c), TokenKeychainInvalid),
        (gc_Providers c = [] \<and> \<not> prices_ok (co_text ops) (gc_Prices c), PricesInvalid),
        (\<not> validateAutoChain (config_view c), AutoChainInvalid)]"

definition Validate :: "config_ops \<Rightarrow> config \<Rightarrow> config_error option" where
  "Validate ops c =
     in_turn
       [settings_error c, listen_error ops (gc_ListenAddr c),
        (if capabilities_validate (gc_ModelCapabilities c) then None else Some CapabilitiesInvalid),
        (if gc_Providers c = [] then legacy_error ops c else named_error ops c), label_error c, service_error ops c]"

lemma Validate_None:
  "Validate ops c = None \<longleftrightarrow>
     settings_error c = None \<and> listen_error ops (gc_ListenAddr c) = None \<and> capabilities_validate (gc_ModelCapabilities c) \<and>
     (if gc_Providers c = [] then legacy_error ops c else named_error ops c) = None \<and> label_error c = None \<and> service_error ops c = None"
  unfolding Validate_def in_turn_None by auto

text \<open>What \<open>decodeConfig\<close> does to the decoded value: a budget without any setting is none.\<close>

definition drop_zero_budgets :: "config \<Rightarrow> config" where
  "drop_zero_budgets c =
     c\<lparr>gc_Providers := map_vals (\<lambda>name p. case pf_Budget p of
         None \<Rightarrow> p | Some b \<Rightarrow> if policy_is_zero b then p\<lparr>pf_Budget := None\<rparr> else p) (gc_Providers c)\<rparr>"

section \<open>Credentials\<close>

datatype credential_error =
    ConfigInvalid config_error | TokenUnavailable | UpstreamUnavailable | ReferencesInvalid string | CredentialInvalid | CredentialShared
  | CredentialDuplicate

text \<open>\<open>lookup\<close> is the keychain.\<close>

fun lookup_all :: "(keychain_reference \<Rightarrow> string option) \<Rightarrow> keychain_reference list \<Rightarrow> string list option" where
  "lookup_all lookup [] = Some []"
| "lookup_all lookup (r # rs) = (case lookup r of None \<Rightarrow> None | Some key \<Rightarrow> map_option (Cons key) (lookup_all lookup rs))"

fun resolve_keys ::
  "(keychain_reference \<Rightarrow> string option) \<Rightarrow> (string \<times> provider_profile) list \<Rightarrow> credential_error + (string \<times> provider_profile) list"
where
  "resolve_keys lookup [] = Inr []"
| "resolve_keys lookup ((name, p) # ps) =
     (case KeychainReferences p of
        None \<Rightarrow> Inl (ReferencesInvalid name)
      | Some refs \<Rightarrow>
          (case lookup_all lookup refs of
             None \<Rightarrow> Inl UpstreamUnavailable
           | Some keys \<Rightarrow>
               (case resolve_keys lookup ps of
                  Inl e \<Rightarrow> Inl e
                | Inr rest \<Rightarrow> Inr ((name, p\<lparr>pf_APIKeys := keys, pf_APIKey := List.hd keys\<rparr>) # rest))))"

definition credential_text_ok :: "string \<Rightarrow> bool" where
  "credential_text_ok s \<longleftrightarrow> \<not> (trim_space s = [] \<or> list_ex (\<lambda>c. c \<in> {CHR 0x0D, CHR 0x0A}) s)"

definition key_error :: "string \<Rightarrow> string \<Rightarrow> credential_error option" where
  "key_error token key =
     (if \<not> credential_text_ok key then Some CredentialInvalid else if key = token then Some CredentialShared else None)"

definition check_credentials :: "config \<Rightarrow> string list \<Rightarrow> credential_error option" where
  "check_credentials c keys =
     in_turn
       [first_error [(\<not> credential_text_ok (gc_AccessToken c), CredentialInvalid)],
        find_error (key_error (gc_AccessToken c)) keys,
        find_error (\<lambda>(name, p). if distinct (pf_APIKeys p) then None else Some CredentialDuplicate) (gc_Providers c)]"

definition ResolveCredentials :: "config_ops \<Rightarrow> (keychain_reference \<Rightarrow> string option) \<Rightarrow> config \<Rightarrow> credential_error + config" where
  "ResolveCredentials ops lookup c =
     (case Validate ops c of
        Some e \<Rightarrow> Inl (ConfigInvalid e)
      | None \<Rightarrow>
          (case lookup (gc_AccessTokenKeychain c) of
             None \<Rightarrow> Inl TokenUnavailable
           | Some token \<Rightarrow>
               (let c1 = c\<lparr>gc_AccessToken := token\<rparr>;
                    resolved =
                      (if gc_Providers c = [] \<and> gc_BaseURL c \<noteq> []
                       then (case lookup (gc_UpstreamKeychain c) of
                               None \<Rightarrow> Inl UpstreamUnavailable
                             | Some key \<Rightarrow> Inr (c1\<lparr>gc_APIKey := key\<rparr>, [key]))
                       else (case resolve_keys lookup (gc_Providers c) of
                               Inl e \<Rightarrow> Inl e
                             | Inr ps \<Rightarrow> Inr (c1\<lparr>gc_Providers := ps\<rparr>, concat (map (\<lambda>(name, p). pf_APIKeys p) ps))))
                in case resolved of
                     Inl e \<Rightarrow> Inl e
                   | Inr (c2, keys) \<Rightarrow> (case check_credentials c2 keys of Some e \<Rightarrow> Inl e | None \<Rightarrow> Inr c2))))"

section \<open>Providers\<close>

datatype resolve_error = VersionOf string | VersionMisplaced string | NoProvider | ProtocolUnknown | LegacyProtocol | LegacyVersion

definition detected_protocol ::
  "json_codec \<Rightarrow> (string \<Rightarrow> string option) \<Rightarrow> http_get \<Rightarrow> string \<Rightarrow> string \<Rightarrow> string \<Rightarrow> string option"
where
  "detected_protocol codec mediaType http baseURL apiKey apiVersion =
     map_option fst (detectProviderCatalog codec mediaType (requestProviderModels http baseURL apiKey apiVersion))"

text \<open>One provider: the profile, and whether it is unavailable.\<close>

definition resolve_profile ::
  "config_ops \<Rightarrow> (string \<Rightarrow> string \<Rightarrow> string \<Rightarrow> string option) \<Rightarrow> string \<Rightarrow> provider_profile \<Rightarrow> resolve_error + provider_profile \<times> bool"
where
  "resolve_profile ops detect name p0 =
     (let keys = ResolvedAPIKeys p0;
          p = (if keys = [] then p0 else p0\<lparr>pf_APIKey := List.hd keys\<rparr>);
          named = (\<lambda>q. if pf_UpstreamID q = [] then q\<lparr>pf_UpstreamID := name\<rparr> else q);
          configured = provider_protocol ops (pf_Protocol p);
          found = (if configured = [] \<or> configured = ''auto'' then detect (pv_BaseURL p) (pf_APIKey p) (pf_APIVersion p) else Some configured)
      in case found of
           None \<Rightarrow> Inr ((named p)\<lparr>pf_Protocol := ''auto''\<rparr>, True)
         | Some protocol \<Rightarrow>
             (let q = p\<lparr>pf_Protocol := protocol\<rparr> in
              if protocol = ''anthropic'' then
                (let q1 = (if pf_APIVersion q = [] then q\<lparr>pf_APIVersion := ''2023-06-01''\<rparr> else q)
                 in if date_ok (pf_APIVersion q1) then Inr (named q1, False) else Inl (VersionOf name))
              else if pf_APIVersion q \<noteq> [] then Inl (VersionMisplaced name)
              else Inr (named q, False)))"

fun resolve_named ::
  "config_ops \<Rightarrow> (string \<Rightarrow> string \<Rightarrow> string \<Rightarrow> string option) \<Rightarrow> (string \<times> provider_profile) list
     \<Rightarrow> resolve_error + (string \<times> provider_profile) list \<times> string list"
where
  "resolve_named ops detect [] = Inr ([], [])"
| "resolve_named ops detect ((name, p) # ps) =
     (case resolve_profile ops detect name p of
        Inl e \<Rightarrow> Inl e
      | Inr (q, unavailable) \<Rightarrow>
          (case resolve_named ops detect ps of
             Inl e \<Rightarrow> Inl e
           | Inr (qs, names) \<Rightarrow> Inr ((name, q) # qs, if unavailable then name # names else names)))"

definition resolveProviderProtocol ::
  "config_ops \<Rightarrow> (string \<Rightarrow> string \<Rightarrow> string \<Rightarrow> string option) \<Rightarrow> config \<Rightarrow> resolve_error + string \<times> string"
where
  "resolveProviderProtocol ops detect c =
     (let protocol = provider_protocol ops (gc_Protocol c) in
      if protocol = ''openai'' \<or> protocol = ''anthropic'' then Inr (protocol, gc_APIVersion c)
      else if protocol \<noteq> [] \<and> protocol \<noteq> ''auto'' then Inl LegacyProtocol
      else
        (case detect (gc_BaseURL c) (gc_APIKey c) (gc_APIVersion c) of
           None \<Rightarrow> Inl ProtocolUnknown
         | Some detected \<Rightarrow>
             (let v = (if detected = ''anthropic'' \<and> gc_APIVersion c = [] then ''2023-06-01'' else gc_APIVersion c)
              in if detected = ''anthropic'' \<and> \<not> date_ok v then Inl LegacyVersion else Inr (detected, v))))"

definition legacy_profile :: "config \<Rightarrow> string \<Rightarrow> string \<Rightarrow> provider_profile" where
  "legacy_profile c protocol version =
     \<lparr>pv_ModelAliases = [], pv_SupportedModels = [], pv_Prices = gc_Prices c, pv_BaseURL = gc_BaseURL c, pv_ProviderSwitchThreshold = None,
      pv_ModelSwitchThresholds = [], pf_Protocol = protocol, pf_UpstreamKeychain = no_reference, pf_UpstreamKeychains = [],
      pf_APIVersion = version, pf_UpstreamID = gc_UpstreamID c, pf_ModelCapabilities = gc_ModelCapabilities c, pf_ErrorCodeMappings = [],
      pf_ForwardErrorMessages = gc_ForwardErrorMessages c, pf_Budget = None, pf_MaxActiveSessions = 0, pf_APIKey = gc_APIKey c,
      pf_APIKeys = []\<rparr>"

definition resolveProvidersPartial ::
  "config_ops \<Rightarrow> (string \<Rightarrow> string \<Rightarrow> string \<Rightarrow> string option) \<Rightarrow> config \<Rightarrow> resolve_error + (string \<times> provider_profile) list \<times> string list"
where
  "resolveProvidersPartial ops detect c =
     (if gc_Providers c \<noteq> [] then resolve_named ops detect (gc_Providers c)
      else if gc_BaseURL c = [] then Inl NoProvider
      else (case resolveProviderProtocol ops detect c of
              Inl e \<Rightarrow> Inl e
            | Inr (protocol, version) \<Rightarrow> Inr ([(''legacy'', legacy_profile c protocol version)], [])))"

section \<open>The checks of a starting gateway\<close>

datatype startup_error = StartupConfig config_error | StartupCredentials | StartupProviders

text \<open>\<open>NewHandler\<close> up to the opening of the ledger.\<close>

definition startup_keys_ok :: "config \<Rightarrow> bool" where
  "startup_keys_ok c \<longleftrightarrow>
     gc_AccessToken c \<noteq> [] \<and>
     (if gc_Providers c = [] then \<not> (gc_APIKey c = [] \<or> gc_APIKey c = gc_AccessToken c)
      else list_all (\<lambda>(name, p). let keys = ResolvedAPIKeys p
             in keys \<noteq> [] \<and> distinct keys \<and> list_all (\<lambda>k. \<not> (k = [] \<or> k = gc_AccessToken c)) keys) (gc_Providers c))"

definition with_resolved :: "(string \<times> provider_profile) list \<Rightarrow> config \<Rightarrow> config" where
  "with_resolved providers c =
     (if gc_Providers c = []
      then fold (\<lambda>(name, p) c. c\<lparr>gc_Protocol := pf_Protocol p, gc_APIVersion := pf_APIVersion p\<rparr>) providers c
      else c\<lparr>gc_Providers := providers\<rparr>)"

definition startup ::
  "config_ops \<Rightarrow> (string \<Rightarrow> string \<Rightarrow> string \<Rightarrow> string option) \<Rightarrow> config
     \<Rightarrow> startup_error + config \<times> (string \<times> provider_profile) list \<times> string list"
where
  "startup ops detect c =
     (case Validate ops c of
        Some e \<Rightarrow> Inl (StartupConfig e)
      | None \<Rightarrow>
          if gc_Providers c = [] \<and> gc_BaseURL c = [] then Inl StartupProviders
          else if \<not> startup_keys_ok c then Inl StartupCredentials
          else
            (case resolveProvidersPartial ops detect c of
               Inl e \<Rightarrow> Inl StartupProviders
             | Inr (providers, unavailable) \<Rightarrow>
                 if length unavailable = length providers then Inl StartupProviders
                 else (let c1 = with_resolved providers c in
                       case Validate ops c1 of
                         Some e \<Rightarrow> Inl (StartupConfig e)
                       | None \<Rightarrow> Inr (c1, providers, unavailable))))"

section \<open>Validation after a change of the providers\<close>

text \<open>What validation sees of a provider beside its own error: its name and what routing reads.\<close>

definition same_route :: "config_ops \<Rightarrow> string \<times> provider_profile \<Rightarrow> string \<times> provider_profile \<Rightarrow> bool" where
  "same_route ops a b \<longleftrightarrow>
     fst b = fst a \<and> provider_config.truncate (snd b) = provider_config.truncate (snd a) \<and>
     provider_error ops (fst b) (snd b) = None \<and> label_ok (pf_UpstreamID (snd b))"

lemma view_updates [simp]:
  "config_view (c\<lparr>gc_AccessToken := t\<rparr>) = config_view c" "config_view (c\<lparr>gc_APIKey := k\<rparr>) = config_view c"
  "config_view (c\<lparr>gc_Protocol := s, gc_APIVersion := v\<rparr>) = config_view c"
  by (simp_all add: config_view_def EffectiveRouting_def)

lemma token_errors [simp]:
  "settings_error (c\<lparr>gc_AccessToken := t\<rparr>) = settings_error c" "legacy_error ops (c\<lparr>gc_AccessToken := t\<rparr>) = legacy_error ops c"
  "named_error ops (c\<lparr>gc_AccessToken := t\<rparr>) = named_error ops c" "label_error (c\<lparr>gc_AccessToken := t\<rparr>) = label_error c"
  "service_error ops (c\<lparr>gc_AccessToken := t\<rparr>) = service_error ops c"
  by (simp_all add: settings_error_def legacy_error_def named_error_def label_error_def service_error_def reconciliation_validate_def
      schedule_validate_def cong: option.case_cong)

lemma key_errors [simp]:
  "settings_error (c\<lparr>gc_APIKey := k\<rparr>) = settings_error c" "label_error (c\<lparr>gc_APIKey := k\<rparr>) = label_error c"
  "service_error ops (c\<lparr>gc_APIKey := k\<rparr>) = service_error ops c"
  by (simp_all add: settings_error_def label_error_def service_error_def reconciliation_validate_def schedule_validate_def)

lemma validate_token [simp]: "Validate ops (c\<lparr>gc_AccessToken := t\<rparr>) = Validate ops c"
  unfolding Validate_def token_errors by simp

lemma truncated_providers:
  assumes "list_all2 (same_route ops) ps qs"
  shows "map_vals (\<lambda>name. provider_config.truncate) qs = map_vals (\<lambda>name. provider_config.truncate) ps"
  using assms by induction (auto simp: map_vals_def same_route_def)

lemma list_all2_right: "list_all2 R xs ys \<Longrightarrow> y \<in> set ys \<Longrightarrow> \<exists>x \<in> set xs. R x y"
  by (induction rule: list_all2_induct) auto

lemma revalidated:
  assumes valid: "Validate ops c = None" and named: "gc_Providers c \<noteq> []" and same: "list_all2 (same_route ops) (gc_Providers c) qs"
  shows "Validate ops (c\<lparr>gc_Providers := qs\<rparr>) = None"
proof -
  from same named have qs: "qs \<noteq> []" "length qs = length (gc_Providers c)" by (auto dest: list_all2_lengthD)
  have view: "config_view (c\<lparr>gc_Providers := qs\<rparr>) = config_view c"
    by (simp add: config_view_def EffectiveRouting_def truncated_providers [OF same])
  have each: "provider_error ops name q = None" "label_ok (pf_UpstreamID q)" if "(name, q) \<in> set qs" for name q
    using list_all2_right [OF same that] by (auto simp: same_route_def)
  from valid named have old: "named_error ops c = None" by (simp add: Validate_None)
  have "named_error ops (c\<lparr>gc_Providers := qs\<rparr>) = None"
    using old each(1) qs(2) by (auto simp: named_error_def find_error_None split: option.splits if_splits)
  moreover have "label_error (c\<lparr>gc_Providers := qs\<rparr>) = None"
    using each(2) qs(1) by (auto simp: label_error_def find_error_None)
  moreover have "settings_error (c\<lparr>gc_Providers := qs\<rparr>) = settings_error c" "service_error ops (c\<lparr>gc_Providers := qs\<rparr>) = service_error ops c"
    using named qs(1) by (simp_all add: settings_error_def service_error_def view reconciliation_validate_def schedule_validate_def)
  ultimately show ?thesis using valid named qs(1) by (simp add: Validate_None)
qed

section \<open>Resolved credentials\<close>

lemma lookup_all_length: "lookup_all lookup refs = Some keys \<Longrightarrow> length keys = length refs"
  by (induction refs arbitrary: keys) (auto split: option.splits)

lemma references_nonempty: "KeychainReferences p = Some refs \<Longrightarrow> refs \<noteq> []"
  by (auto simp: KeychainReferences_def Let_def split: if_splits)

definition keyed :: "string \<times> provider_profile \<Rightarrow> string \<times> provider_profile \<Rightarrow> bool" where
  "keyed a b \<longleftrightarrow> (\<exists>keys. keys \<noteq> [] \<and> b = (fst a, (snd a)\<lparr>pf_APIKeys := keys, pf_APIKey := List.hd keys\<rparr>))"

lemma resolve_keys_spec: "resolve_keys lookup ps = Inr qs \<Longrightarrow> list_all2 keyed ps qs"
proof (induction ps arbitrary: qs)
  case (Cons np ps)
  obtain name p where np: "np = (name, p)" by fastforce
  with Cons.prems obtain refs keys rest where "KeychainReferences p = Some refs" "lookup_all lookup refs = Some keys"
    "resolve_keys lookup ps = Inr rest" "qs = (name, p\<lparr>pf_APIKeys := keys, pf_APIKey := List.hd keys\<rparr>) # rest"
    by (auto split: option.splits sum.splits)
  moreover from this have "keys \<noteq> []" using lookup_all_length references_nonempty by fastforce
  ultimately show ?case using Cons.IH np by (auto simp: keyed_def)
qed simp

lemma keyed_parts [simp]:
  "provider_config.truncate (p\<lparr>pf_APIKeys := keys, pf_APIKey := key\<rparr>) = provider_config.truncate p"
  "KeychainReferences (p\<lparr>pf_APIKeys := keys, pf_APIKey := key\<rparr>) = KeychainReferences p"
  by (simp_all add: KeychainReferences_def provider_config.truncate_def Let_def)

lemma keyed_error [simp]:
  "provider_error ops name (p\<lparr>pf_APIKeys := keys, pf_APIKey := key\<rparr>) = provider_error ops name p"
  unfolding provider_error_def keyed_parts by (simp cong: option.case_cong)

lemma valid_provider:
  assumes "Validate ops c = None" "(name, p) \<in> set (gc_Providers c)"
  shows "provider_error ops name p = None" "label_ok (pf_UpstreamID p)"
proof -
  from assms have named: "named_error ops c = None" and labels: "label_error c = None"
    by (cases "gc_Providers c"; simp add: Validate_None)+
  from named assms(2) show "provider_error ops name p = None"
    by (auto simp: named_error_def find_error_None split: option.splits)
  from labels assms(2) show "label_ok (pf_UpstreamID p)"
    by (auto simp: label_error_def find_error_None split: if_splits)
qed

lemma keyed_same_route:
  assumes "Validate ops c = None" "list_all2 keyed (gc_Providers c) qs"
  shows "list_all2 (same_route ops) (gc_Providers c) qs"
  using assms(2)
proof (rule list.rel_mono_strong)
  fix a b assume "a \<in> set (gc_Providers c)" "keyed a b"
  then show "same_route ops a b"
    using valid_provider [OF assms(1), of "fst a" "snd a"] by (auto simp: keyed_def same_route_def)
qed

lemma check_credentials_None:
  "check_credentials c keys = None \<longleftrightarrow>
     credential_text_ok (gc_AccessToken c) \<and> (\<forall>k \<in> set keys. credential_text_ok k \<and> k \<noteq> gc_AccessToken c) \<and>
     (\<forall>(name, p) \<in> set (gc_Providers c). distinct (pf_APIKeys p))"
  unfolding check_credentials_def in_turn_None by (auto simp: first_error_None find_error_None key_error_def split: if_splits)

lemma trim_empty [simp]: "trim_space [] = []"
  by code_simp

lemma blank_credential [simp]: "\<not> credential_text_ok []"
  by (simp add: credential_text_ok_def)

definition without_secrets :: "config \<Rightarrow> config" where
  "without_secrets c =
     c\<lparr>gc_AccessToken := [], gc_APIKey := [],
       gc_Providers := map_vals (\<lambda>name p. p\<lparr>pf_APIKeys := [], pf_APIKey := []\<rparr>) (gc_Providers c)\<rparr>"

lemma keyed_secrets:
  "list_all2 keyed ps qs \<Longrightarrow>
     map_vals (\<lambda>name p. p\<lparr>pf_APIKeys := [], pf_APIKey := []\<rparr>) qs = map_vals (\<lambda>name p. p\<lparr>pf_APIKeys := [], pf_APIKey := []\<rparr>) ps"
  by (induction rule: list_all2_induct) (auto simp: map_vals_def keyed_def)

text \<open>C37. Resolved credentials are fit to be used. A configuration whose credentials were resolved is still valid and passes the checks of
  a starting gateway: every provider has keys of its own, pairwise different and none of them the access token of the gateway; no
  credential is blank or holds a line break; and nothing but credentials has changed.\<close>

theorem resolved_credentials_sound:
  assumes run: "ResolveCredentials ops lookup c = Inr c1" and some: "gc_Providers c \<noteq> [] \<or> gc_BaseURL c \<noteq> []"
  shows "Validate ops c1 = None \<and> startup_keys_ok c1 \<and> credential_text_ok (gc_AccessToken c1) \<and>
    (\<forall>(name, p) \<in> set (gc_Providers c1). list_all credential_text_ok (ResolvedAPIKeys p)) \<and>
    (gc_Providers c1 = [] \<longrightarrow> credential_text_ok (gc_APIKey c1)) \<and>
    without_secrets c1 = without_secrets c"
proof -
  from run obtain token where valid: "Validate ops c = None" and token: "lookup (gc_AccessTokenKeychain c) = Some token"
    by (auto simp: ResolveCredentials_def split: option.splits)
  let ?c = "c\<lparr>gc_AccessToken := token\<rparr>"
  show ?thesis
  proof (cases "gc_Providers c = []")
    case True
    with some run valid token obtain key where key: "c1 = ?c\<lparr>gc_APIKey := key\<rparr>" "check_credentials c1 [key] = None"
      by (auto simp: ResolveCredentials_def Let_def split: option.splits)
    from True some valid key(1) have "Validate ops c1 = None"
      by (auto simp: Validate_None legacy_error_def)
    moreover from key have fit: "credential_text_ok token" "credential_text_ok key" "key \<noteq> token"
      by (auto simp: check_credentials_None)
    moreover from fit have "token \<noteq> []" "key \<noteq> []" by (auto simp: credential_text_ok_def)
    ultimately show ?thesis using key(1) True by (simp add: startup_keys_ok_def without_secrets_def)
  next
    case False
    with run valid token obtain qs where qs: "resolve_keys lookup (gc_Providers c) = Inr qs" "c1 = ?c\<lparr>gc_Providers := qs\<rparr>"
      "check_credentials c1 (concat (map (\<lambda>(name, p). pf_APIKeys p) qs)) = None"
      by (auto simp: ResolveCredentials_def Let_def split: option.splits sum.splits)
    have keyed: "list_all2 keyed (gc_Providers c) qs" by (rule resolve_keys_spec [OF qs(1)])
    have named: "qs \<noteq> []" using keyed False by auto
    have "Validate ops (?c\<lparr>gc_Providers := qs\<rparr>) = None"
      using revalidated [of ops ?c qs] keyed_same_route [OF valid keyed] valid False by simp
    moreover have each: "pf_APIKeys q \<noteq> []" if "(name, q) \<in> set qs" for name q
      using list_all2_right [OF keyed that] by (auto simp: keyed_def)
    moreover from qs(3) have fit: "credential_text_ok token" "\<forall>(name, q) \<in> set qs. distinct (pf_APIKeys q)"
      "\<forall>(name, q) \<in> set qs. \<forall>k \<in> set (pf_APIKeys q). credential_text_ok k \<and> k \<noteq> token"
      by (auto simp: qs(2) check_credentials_None)
    moreover have "startup_keys_ok c1"
    proof -
      have "token \<noteq> []" "\<And>name q. (name, q) \<in> set qs \<Longrightarrow> [] \<notin> set (pf_APIKeys q)"
        using fit(1,3) by fastforce+
      with each fit(2,3) named show ?thesis
        by (auto simp: startup_keys_ok_def qs(2) ResolvedAPIKeys_def list_all_iff Let_def)
    qed
    ultimately show ?thesis
      using False named keyed_secrets [OF keyed] each
      by (auto simp: qs(2) without_secrets_def ResolvedAPIKeys_def list_all_iff)
  qed
qed

section \<open>Resolved providers\<close>

text \<open>Lower case leaves the names of the protocols alone.\<close>

definition lower_law :: "config_ops \<Rightarrow> bool" where
  "lower_law ops \<longleftrightarrow> (\<forall>p \<in> {''auto'', ''openai'', ''anthropic''}. tx_lower (co_text ops) p = p)"

lemma protocol_of_name:
  assumes "lower_law ops" "p \<in> {''auto'', ''openai'', ''anthropic''}"
  shows "provider_protocol ops p = p"
proof -
  have "trim_space ''auto'' = ''auto''" "trim_space ''openai'' = ''openai''" "trim_space ''anthropic'' = ''anthropic''" by code_simp+
  with assms show ?thesis by (auto simp: provider_protocol_def lower_law_def)
qed

lemma detected_known: "detected_protocol codec mediaType http u k v = Some p \<Longrightarrow> p \<in> {''openai'', ''anthropic''}"
  by (auto simp: detected_protocol_def detectProviderCatalog_def detect_step_def map_put_def Let_def split: list.splits option.splits if_splits prod.splits)

lemma name_label:
  assumes "validProviderName name"
  shows "label_ok name"
proof -
  have "\<not> name_char c" if "c \<in> {CHR '' '', CHR ''/'', CHR '':'', CHR ''@'', CHR ''?'', CHR 0x0D, CHR 0x0A}" for c
    using that by (auto simp: name_char_def is_alnum_def is_lower_def is_upper_def is_digit_def)
  with assms show ?thesis by (auto simp: validProviderName_def label_ok_def list_all_iff list_ex_iff)
qed

text \<open>A provider that passed, with the protocol and version of a resolution and perhaps its name as its label, still passes.\<close>

lemma resolved_provider_error:
  assumes "provider_error ops name p = None"
    and "pf_UpstreamKeychain q = pf_UpstreamKeychain p" "pf_UpstreamKeychains q = pf_UpstreamKeychains p"
    and "provider_config.truncate q = provider_config.truncate p"
    and "pf_ModelCapabilities q = pf_ModelCapabilities p" "pf_ErrorCodeMappings q = pf_ErrorCodeMappings p" "pf_Budget q = pf_Budget p"
      "pf_MaxActiveSessions q = pf_MaxActiveSessions p"
    and protocol: "known_protocol (provider_protocol ops (pf_Protocol q))"
    and version: "provider_protocol ops (pf_Protocol q) = ''openai'' \<Longrightarrow> pf_APIVersion q = []"
      "provider_protocol ops (pf_Protocol q) \<in> {''anthropic'', ''auto''} \<Longrightarrow> pf_APIVersion q = [] \<or> date_ok (pf_APIVersion q)"
  shows "provider_error ops name q = None"
proof -
  have "pv_BaseURL q = pv_BaseURL p" "pv_SupportedModels q = pv_SupportedModels p" "pv_Prices q = pv_Prices p"
    using assms(4) by (simp_all add: provider_config.truncate_def)
  moreover have "KeychainReferences q = KeychainReferences p" using assms(2,3) by (simp add: KeychainReferences_def Let_def)
  ultimately show ?thesis using assms by (simp add: provider_error_None) blast
qed

lemma resolved_profile:
  assumes law: "lower_law ops" and ok: "provider_error ops name p = None" "label_ok (pf_UpstreamID p)" "validProviderName name"
    and version: "pf_APIVersion p = [] \<or> date_ok (pf_APIVersion p)"
    and run: "resolve_profile ops (detected_protocol codec mediaType http) name p = Inr (q, unavailable)"
  shows "same_route ops (name, p) (name, q)" "unavailable \<longleftrightarrow> pf_Protocol q = ''auto''"
    "pf_Protocol q \<in> {''auto'', ''openai'', ''anthropic''}"
proof -
  let ?p = "if ResolvedAPIKeys p = [] then p else p\<lparr>pf_APIKey := List.hd (ResolvedAPIKeys p)\<rparr>"
  let ?configured = "provider_protocol ops (pf_Protocol p)"
  let ?found = "if ?configured = [] \<or> ?configured = ''auto'' then detected_protocol codec mediaType http (pv_BaseURL ?p) (pf_APIKey ?p) (pf_APIVersion ?p)
    else Some ?configured"
  have known: "?configured \<in> {[], ''auto'', ''openai'', ''anthropic''}"
    using ok(1) by (auto simp: provider_error_None known_protocol_def)
  have found: "r \<in> {''openai'', ''anthropic''}" if "?found = Some r" for r
    using that known detected_known [of codec mediaType http _ _ _ r] by (auto split: if_splits)
  have fields: "pf_UpstreamKeychain q = pf_UpstreamKeychain p" "pf_UpstreamKeychains q = pf_UpstreamKeychains p"
    "provider_config.truncate q = provider_config.truncate p" "pf_ModelCapabilities q = pf_ModelCapabilities p"
    "pf_ErrorCodeMappings q = pf_ErrorCodeMappings p" "pf_Budget q = pf_Budget p" "pf_MaxActiveSessions q = pf_MaxActiveSessions p"
    "pf_UpstreamID q \<in> {name, pf_UpstreamID p}"
    using run by (auto simp: resolve_profile_def provider_config.truncate_def Let_def split: option.splits if_splits)
  have result: "pf_Protocol q = ''auto'' \<and> unavailable \<and> pf_APIVersion q = pf_APIVersion p \<or>
      pf_Protocol q = ''openai'' \<and> \<not> unavailable \<and> pf_APIVersion q = [] \<or>
      pf_Protocol q = ''anthropic'' \<and> \<not> unavailable \<and> date_ok (pf_APIVersion q)"
  proof (cases ?found)
    case None
    with run show ?thesis by (auto simp: resolve_profile_def Let_def split: if_splits)
  next
    case (Some r)
    with found [OF Some] run show ?thesis by (auto simp: resolve_profile_def Let_def split: if_splits)
  qed
  then show protocols: "unavailable \<longleftrightarrow> pf_Protocol q = ''auto''" "pf_Protocol q \<in> {''auto'', ''openai'', ''anthropic''}" by auto
  have same: "provider_protocol ops (pf_Protocol q) = pf_Protocol q" by (rule protocol_of_name [OF law protocols(2)])
  have "provider_error ops name q = None"
    using fields result version protocols(2)
    by (intro resolved_provider_error [OF ok(1)]) (auto simp: same known_protocol_def)
  moreover have "label_ok (pf_UpstreamID q)" using fields(8) ok(2) name_label [OF ok(3)] by auto
  ultimately show "same_route ops (name, p) (name, q)" using fields(3) by (simp add: same_route_def)
qed

lemma resolved_named:
  assumes law: "lower_law ops"
    and ok: "\<And>name p. (name, p) \<in> set ps \<Longrightarrow> provider_error ops name p = None \<and> label_ok (pf_UpstreamID p) \<and> validProviderName name \<and>
      (pf_APIVersion p = [] \<or> date_ok (pf_APIVersion p))"
    and run: "resolve_named ops (detected_protocol codec mediaType http) ps = Inr (qs, names)"
  shows "list_all2 (same_route ops) ps qs \<and> names = map fst (filter (\<lambda>(name, q). pf_Protocol q = ''auto'') qs) \<and>
    (\<forall>(name, q) \<in> set qs. pf_Protocol q \<in> {''auto'', ''openai'', ''anthropic''})"
  using ok run
proof (induction ps arbitrary: qs names)
  case (Cons a ps)
  obtain name p where a: "a = (name, p)" by fastforce
  with Cons.prems(2) obtain q unavailable rest names1 where
    head: "resolve_profile ops (detected_protocol codec mediaType http) name p = Inr (q, unavailable)"
    and rest: "resolve_named ops (detected_protocol codec mediaType http) ps = Inr (rest, names1)"
    and out: "qs = (name, q) # rest" "names = (if unavailable then name # names1 else names1)"
    by (auto split: sum.splits)
  from Cons.prems(1) [of name p] a have this_ok: "provider_error ops name p = None" "label_ok (pf_UpstreamID p)" "validProviderName name"
    "pf_APIVersion p = [] \<or> date_ok (pf_APIVersion p)" by auto
  note h = resolved_profile [OF law this_ok head]
  from Cons.IH [OF Cons.prems(1) rest] have tl: "list_all2 (same_route ops) ps rest \<and>
      names1 = map fst (filter (\<lambda>(name, q). pf_Protocol q = ''auto'') rest) \<and>
      (\<forall>(name, q) \<in> set rest. pf_Protocol q \<in> {''auto'', ''openai'', ''anthropic''})" by simp
  with h show ?case by (auto simp: a out)
qed simp

lemma valid_name: "provider_error ops name p = None \<Longrightarrow> validProviderName name"
  by (simp add: provider_error_None)


section \<open>Witnesses\<close>

definition sample_ops :: config_ops where
  "sample_ops =
     \<lparr>co_text = \<lparr>tx_upper = (\<lambda>s. s), tx_lower = (\<lambda>s. s), tx_hostname = (\<lambda>s. None)\<rparr>,
      co_url = (\<lambda>s. Some \<lparr>up_Scheme = ''https'', up_Host = s, up_Hostname = s, up_hasUser = False, up_RawQuery = [], up_Fragment = [],
        up_Opaque = []\<rparr>),
      co_ip = (\<lambda>s. Some True), co_hostport = (\<lambda>s. Some (s, ''1''))\<rparr>"

definition sample_profile :: "string \<Rightarrow> string \<Rightarrow> provider_profile" where
  "sample_profile protocol version =
     \<lparr>pv_ModelAliases = [], pv_SupportedModels = [], pv_Prices = [], pv_BaseURL = ''u'', pv_ProviderSwitchThreshold = None,
      pv_ModelSwitchThresholds = [], pf_Protocol = protocol, pf_UpstreamKeychain = \<lparr>kr_Service = ''s'', kr_Account = ''p''\<rparr>,
      pf_UpstreamKeychains = [], pf_APIVersion = version, pf_UpstreamID = [], pf_ModelCapabilities = unknown_capabilities,
      pf_ErrorCodeMappings = [], pf_ForwardErrorMessages = None, pf_Budget = None, pf_MaxActiveSessions = 0, pf_APIKey = [], pf_APIKeys = []\<rparr>"

definition sample_limits :: call_limits where
  "sample_limits = \<lparr>lim_StreamBytes = 0, lim_EventBytes = 0, lim_UpstreamTimeoutSeconds = 0, lim_RequestBytes = 0, lim_ResponseBytes = 0\<rparr>"

definition sample_config_of :: "(string \<times> provider_profile) list \<Rightarrow> config" where
  "sample_config_of providers =
     \<lparr>gc_ContentOutput = \<lparr>oc_Enabled = False, oc_Directory = [], oc_FileBytes = 0, oc_DirectoryBytes = 0, oc_QueueEvents = 0\<rparr>,
      gc_HealthDiagnostics = None, gc_StatementDir = [], gc_PollIntervalSeconds = 0, gc_ReportTime = [], gc_ReportChannel = [],
      gc_ReportWebhook = no_webhook, gc_ModelCapabilities = unknown_capabilities, gc_Limits = sample_limits, gc_ListenAddr = ''127.0.0.1'',
      gc_Protocol = [], gc_BaseURL = [], gc_ForwardErrorMessages = None, gc_Providers = providers, gc_Routing = None, gc_AutoChain = [],
      gc_Model = [], gc_UpstreamID = [], gc_APIVersion = [], gc_UpstreamKeychain = no_reference,
      gc_AccessTokenKeychain = \<lparr>kr_Service = ''s'', kr_Account = ''t''\<rparr>, gc_MaxInFlight = 0, gc_IdleTimeoutSeconds = 0,
      gc_LedgerPath = ''l'', gc_Prices = [], gc_APIKey = [], gc_AccessToken = []\<rparr>"

definition sample_named :: config where
  "sample_named = sample_config_of [(''p'', sample_profile ''auto'' ''2023-06-01'')]"

theorem resolved_credentials_sound_witness:
  "\<exists>c1. ResolveCredentials sample_ops (\<lambda>r. Some (kr_Account r)) sample_named = Inr c1 \<and> startup_keys_ok c1"
proof -
  have "ResolveCredentials sample_ops (\<lambda>r. Some (kr_Account r)) sample_named =
      Inr (sample_named\<lparr>gc_AccessToken := ''t'',
        gc_Providers := [(''p'', (sample_profile ''auto'' ''2023-06-01'')\<lparr>pf_APIKeys := [''p''], pf_APIKey := ''p''\<rparr>)]\<rparr>)"
    by code_simp
  moreover have "gc_Providers sample_named \<noteq> []" by (simp add: sample_named_def sample_config_of_def)
  ultimately show ?thesis using resolved_credentials_sound by blast
qed


text \<open>Without the hypothesis on the versions it fails: with the protocol left empty the version is not looked at, and when the
  provider cannot be probed the configuration of the whole gateway is refused.\<close>

lemma unprobed_version_refused:
  "Validate sample_ops (sample_config_of [(''p'', sample_profile [] ''x'')]) = None \<and>
   (\<exists>providers. resolveProvidersPartial sample_ops (\<lambda>u k v. None) (sample_config_of [(''p'', sample_profile [] ''x'')]) = Inr (providers, [''p'']) \<and>
     Validate sample_ops (with_resolved providers (sample_config_of [(''p'', sample_profile [] ''x'')])) = Some (InProvider ''p'' VersionFormat))"
proof -
  let ?c = "sample_config_of [(''p'', sample_profile [] ''x'')]" and ?q = "(sample_profile ''auto'' ''x'')\<lparr>pf_UpstreamID := ''p''\<rparr>"
  have "Validate sample_ops ?c = None" by code_simp
  moreover have "resolveProvidersPartial sample_ops (\<lambda>u k v. None) ?c = Inr ([(''p'', ?q)], [''p''])" by code_simp
  moreover have "Validate sample_ops (with_resolved [(''p'', ?q)] ?c) = Some (InProvider ''p'' VersionFormat)" by code_simp
  ultimately show ?thesis by blast
qed

end
